(* ===== verification/Prelude.thy ===== *)
theory Prelude
  imports
    Main
    "HOL-Library.Multiset"
    "HOL-Library.AList"
    "HOL-Library.Char_ord"
    "HOL-Library.List_Lexorder"
    "HOL-Library.Product_Lexorder"
    "HOL-Library.Sublist"
begin

text \<open>
  Shared vocabulary of the development: Go values as HOL values, the loops that every
  package of the program repeats, and the lemmas about them.

  A Go \<open>string\<close> is a list of bytes, compared lexicographically byte by byte, which is the
  order of \<open>HOL-Library.List_Lexorder\<close> over \<open>HOL-Library.Char_ord\<close>.
  A Go map that the code iterates over is an association list without duplicate keys,
  updated by \<open>AList.update\<close> and read by \<open>map_of\<close>; Go's unspecified iteration order is the
  order of that list, and the lemmas state which results do not depend on it.
  A Go map that is only looked up is a HOL map. A function with an \<open>error\<close> result returns a
  sum, \<open>Inl\<close> of the error or \<open>Inr\<close> of the value.
\<close>

named_theorems loop_simps \<open>equations of the loop combinators\<close>
named_theorems res_elims \<open>inversion rules for sequential computations that may fail\<close>

subsection \<open>Fallible computations\<close>

type_synonym ('e, 'a) result = "'e + 'a"

fun bind_result :: "('e, 'a) result \<Rightarrow> ('a \<Rightarrow> ('e, 'b) result) \<Rightarrow> ('e, 'b) result" where
  "bind_result (Inl e) f = Inl e"
| "bind_result (Inr a) f = f a"

lemma bind_result_Inr_iff [loop_simps]:
  "bind_result r f = Inr b \<longleftrightarrow> (\<exists>a. r = Inr a \<and> f a = Inr b)"
  by (cases r) auto

lemma bind_result_Inl_iff [loop_simps]:
  "bind_result r f = Inl e \<longleftrightarrow> r = Inl e \<or> (\<exists>a. r = Inr a \<and> f a = Inl e)"
  by (cases r) auto

lemma bind_result_InrE [res_elims, elim]:
  assumes "bind_result r f = Inr b"
  obtains a where "r = Inr a" and "f a = Inr b"
  using assms by (cases r) auto

lemma bind_result_assoc: "bind_result (bind_result r f) g = bind_result r (\<lambda>a. bind_result (f a) g)"
  by (cases r) auto

lemma bind_result_cong [fundef_cong]:
  "r = r' \<Longrightarrow> (\<And>a. r' = Inr a \<Longrightarrow> f a = f' a) \<Longrightarrow> bind_result r f = bind_result r' f'"
  by (cases r') auto

text \<open>The loop \<open>for _, x := range xs { y, err := f(x); if err != nil { return err }; out = append(out, y) }\<close>.\<close>

fun collect :: "('a \<Rightarrow> ('e, 'b) result) \<Rightarrow> 'a list \<Rightarrow> ('e, 'b list) result" where
  "collect f [] = Inr []"
| "collect f (x # xs) =
     bind_result (f x) (\<lambda>y. bind_result (collect f xs) (\<lambda>ys. Inr (y # ys)))"

lemma collect_Inr_iff: "collect f xs = Inr ys \<longleftrightarrow> list_all2 (\<lambda>x y. f x = Inr y) xs ys"
  by (induction xs arbitrary: ys) (auto simp: loop_simps list_all2_Cons1)

lemma collect_length: "collect f xs = Inr ys \<Longrightarrow> length ys = length xs"
  by (auto simp: collect_Inr_iff dest: list_all2_lengthD)

lemma collect_nth: "collect f xs = Inr ys \<Longrightarrow> i < length xs \<Longrightarrow> f (xs ! i) = Inr (ys ! i)"
  by (auto simp: collect_Inr_iff dest: list_all2_nthD)

lemma collect_in_set: "collect f xs = Inr ys \<Longrightarrow> y \<in> set ys \<Longrightarrow> \<exists>x \<in> set xs. f x = Inr y"
  by (metis collect_length collect_nth in_set_conv_nth)

lemma collect_all_Inr: "(\<And>x. x \<in> set xs \<Longrightarrow> f x = Inr (g x)) \<Longrightarrow> collect f xs = Inr (map g xs)"
  by (induction xs) auto

lemma collect_Inl_D: "collect f xs = Inl e \<Longrightarrow> \<exists>x \<in> set xs. f x = Inl e"
  by (induction xs) (auto simp: loop_simps)

lemma collect_error: "x \<in> set xs \<Longrightarrow> f x = Inl e \<Longrightarrow> \<exists>e'. collect f xs = Inl e'"
proof (induction xs)
  case (Cons y ys)
  then show ?case by (cases "f y") (auto simp: loop_simps)
qed simp

lemma collect_cong [fundef_cong]:
  "xs = ys \<Longrightarrow> (\<And>x. x \<in> set ys \<Longrightarrow> f x = g x) \<Longrightarrow> collect f xs = collect g ys"
  by (induction xs arbitrary: ys) auto

lemma collect_append:
  "collect f (xs @ ys) =
     bind_result (collect f xs) (\<lambda>as. bind_result (collect f ys) (\<lambda>bs. Inr (as @ bs)))"
proof (induction xs)
  case Nil
  then show ?case by (cases "collect f ys") auto
next
  case (Cons x xs)
  then show ?case by (cases "f x"; cases "collect f xs"; cases "collect f ys") auto
qed

text \<open>The loop that stops at the first failing element and yields nothing: a check.\<close>

fun check_all :: "('a \<Rightarrow> 'e option) \<Rightarrow> 'a list \<Rightarrow> 'e option" where
  "check_all f [] = None"
| "check_all f (x # xs) = (case f x of Some e \<Rightarrow> Some e | None \<Rightarrow> check_all f xs)"

lemma check_all_None_iff: "check_all f xs = None \<longleftrightarrow> (\<forall>x \<in> set xs. f x = None)"
  by (induction xs) (auto split: option.splits)

lemma check_all_Some_D: "check_all f xs = Some e \<Longrightarrow> \<exists>x \<in> set xs. f x = Some e"
  by (induction xs) (auto split: option.splits)

subsection \<open>First match\<close>

lemma find_Some_D: "find P xs = Some x \<Longrightarrow> x \<in> set xs \<and> P x"
  by (induction xs) (auto split: if_splits)

lemma find_None_D: "find P xs = None \<Longrightarrow> x \<in> set xs \<Longrightarrow> \<not> P x"
  by (simp add: find_None_iff)

lemma fold_map_upd:
  "fold (\<lambda>x m. m(f x \<mapsto> g x)) xs m = m ++ map_of (rev (map (\<lambda>x. (f x, g x)) xs))"
  by (induction xs arbitrary: m) (simp_all add: map_add_upd_left[symmetric] map_add_upd_left map_add_def fun_eq_iff split: option.splits)

lemma fold_map_upd_distinct:
  assumes "distinct (map f xs)" and "x \<in> set xs"
  shows "fold (\<lambda>x m. m(f x \<mapsto> g x)) xs m (f x) = Some (g x)"
proof -
  have "map_of (rev (map (\<lambda>x. (f x, g x)) xs)) (f x) = Some (g x)"
    using assms by (intro map_of_is_SomeI) (auto simp: comp_def rev_map[symmetric])
  then show ?thesis by (simp add: fold_map_upd map_add_def)
qed

lemma find_unique_key:
  assumes "distinct (map key xs)" and "x \<in> set xs"
  shows "find (\<lambda>y. key y = key x) xs = Some x"
  using assms by (induction xs) (auto simp: image_iff)

subsection \<open>Loops that append at most one element\<close>

lemma map_filter_Nil [simp]: "List.map_filter f [] = []"
  by (simp add: List.map_filter_def)

lemma map_filter_Cons [simp]:
  "List.map_filter f (x # xs) =
     (case f x of None \<Rightarrow> List.map_filter f xs | Some y \<Rightarrow> y # List.map_filter f xs)"
  by (simp add: List.map_filter_def split: option.split)

lemma map_filter_append [simp]:
  "List.map_filter f (xs @ ys) = List.map_filter f xs @ List.map_filter f ys"
  by (simp add: List.map_filter_def)

lemma set_map_filter_iff: "y \<in> set (List.map_filter f xs) \<longleftrightarrow> (\<exists>x \<in> set xs. f x = Some y)"
  by (induction xs) (auto split: option.splits)

lemma map_filter_keys:
  assumes "\<And>k v c. f k v = Some c \<Longrightarrow> key c = k"
  shows "map key (List.map_filter (\<lambda>(k, v). f k v) xs) =
         map fst (filter (\<lambda>(k, v). f k v \<noteq> None) xs)"
  by (induction xs) (auto split: option.splits dest: assms)

lemma distinct_map_filter_keys:
  assumes "\<And>k v c. f k v = Some c \<Longrightarrow> key c = k" and "distinct (map fst xs)"
  shows "distinct (map key (List.map_filter (\<lambda>(k, v). f k v) xs))"
proof -
  have "map key (List.map_filter (\<lambda>(k, v). f k v) xs) =
        map fst (filter (\<lambda>(k, v). f k v \<noteq> None) xs)"
    using assms(1) by (rule map_filter_keys)
  then show ?thesis using assms(2) by (simp add: distinct_map_filter)
qed

lemma set_map_filter_alist:
  assumes key: "\<And>k v c. f k v = Some c \<Longrightarrow> key c = k" and dist: "distinct (map fst xs)"
  shows "c \<in> set (List.map_filter (\<lambda>(k, v). f k v) xs) \<longleftrightarrow>
         (\<exists>v. map_of xs (key c) = Some v \<and> f (key c) v = Some c)"
proof
  assume "c \<in> set (List.map_filter (\<lambda>(k, v). f k v) xs)"
  then obtain k v where "(k, v) \<in> set xs" "f k v = Some c"
    by (auto simp: set_map_filter_iff)
  with key[of k v c] dist show "\<exists>v. map_of xs (key c) = Some v \<and> f (key c) v = Some c" by auto
next
  assume "\<exists>v. map_of xs (key c) = Some v \<and> f (key c) v = Some c"
  then show "c \<in> set (List.map_filter (\<lambda>(k, v). f k v) xs)"
    by (force simp: set_map_filter_iff dest!: map_of_SomeD)
qed

subsection \<open>Keeping the first of equal elements\<close>

text \<open>
  The loop \<open>if !seen[x] { seen[x] = true; out = append(out, x) }\<close>.
\<close>

fun dedup_from :: "'a list \<Rightarrow> 'a list \<Rightarrow> 'a list" where
  "dedup_from seen [] = []"
| "dedup_from seen (x # xs) =
     (if x \<in> set seen then dedup_from seen xs else x # dedup_from (x # seen) xs)"

abbreviation dedup :: "'a list \<Rightarrow> 'a list" where
  "dedup xs \<equiv> dedup_from [] xs"

lemma set_dedup_from: "set (dedup_from seen xs) = set xs - set seen"
  by (induction xs arbitrary: seen) auto

lemma set_dedup [simp]: "set (dedup xs) = set xs"
  by (simp add: set_dedup_from)

lemma distinct_dedup_from: "distinct (dedup_from seen xs)"
  by (induction xs arbitrary: seen) (auto simp: set_dedup_from)

lemma distinct_dedup [simp]: "distinct (dedup xs)"
  by (rule distinct_dedup_from)

lemma dedup_from_distinct: "distinct xs \<Longrightarrow> set xs \<inter> set seen = {} \<Longrightarrow> dedup_from seen xs = xs"
  by (induction xs arbitrary: seen) auto

lemma dedup_from_eq_Nil: "dedup_from seen xs = [] \<longleftrightarrow> set xs \<subseteq> set seen"
  using set_dedup_from[of seen xs] by (auto simp flip: set_empty)

subsection \<open>Sorting\<close>

text \<open>
  The interface of Go's \<open>sort.Slice\<close> with the comparison \<open>key x < key y\<close>: some permutation
  of the input, in key order. The standard library promises no more, in particular nothing
  about equal keys, so a client's result is determined only where keys are distinct.
\<close>

locale slice_sort =
  fixes srt :: "'a list \<Rightarrow> 'a list"
    and key :: "'a \<Rightarrow> 'k::linorder"
  assumes srt_mset: "mset (srt xs) = mset xs"
    and srt_sorted: "sorted (map key (srt xs))"
begin

lemma srt_set: "set (srt xs) = set xs"
  using srt_mset[of xs] by (rule mset_eq_setD)

lemma srt_length: "length (srt xs) = length xs"
  using srt_mset[of xs] by (rule mset_eq_length)

lemma srt_distinct_keys: "distinct (map key xs) \<Longrightarrow> distinct (map key (srt xs))"
  by (metis mset_eq_imp_distinct_iff mset_map srt_mset)

lemma srt_strict: "distinct (map key xs) \<Longrightarrow> sorted_wrt (<) (map key (srt xs))"
  by (simp add: strict_sorted_iff srt_sorted srt_distinct_keys)

lemma srt_unique:
  assumes "distinct (map key xs)" and "mset ys = mset xs" and "sorted (map key ys)"
  shows "srt xs = ys"
proof (rule map_sorted_distinct_set_unique)
  have "set ys = set xs" using assms(2) by (rule mset_eq_setD)
  then show "inj_on key (set (srt xs) \<union> set ys)"
    using assms(1) by (simp add: srt_set distinct_map)
  show "sorted (map key (srt xs))" by (rule srt_sorted)
  show "distinct (map key (srt xs))" using assms(1) by (rule srt_distinct_keys)
  show "sorted (map key ys)" by (rule assms(3))
  show "distinct (map key ys)"
    using assms(1,2) by (metis mset_eq_imp_distinct_iff mset_map)
  show "set (srt xs) = set ys"
    using mset_eq_setD[OF assms(2)] by (simp add: srt_set)
qed

lemma srt_perm_invariant:
  "distinct (map key xs) \<Longrightarrow> mset xs = mset ys \<Longrightarrow> srt xs = srt ys"
  by (rule srt_unique) (simp_all add: srt_mset srt_sorted)

end

lemma sort_key_slice_sort: "slice_sort (sort_key f) f"
  by unfold_locales simp_all

interpretation strings: slice_sort "sort :: string list \<Rightarrow> string list" "\<lambda>s. s"
  by unfold_locales simp_all

text \<open>
  The keys of a Go set, collected and sorted: \<open>for k := range m { out = append(out, k) }\<close>
  followed by \<open>sort.Strings(out)\<close>.
\<close>

definition sorted_set :: "'a::linorder list \<Rightarrow> 'a list" where
  "sorted_set xs = sort (remdups xs)"

lemma set_sorted_set [simp]: "set (sorted_set xs) = set xs"
  by (simp add: sorted_set_def)

lemma distinct_sorted_set [simp]: "distinct (sorted_set xs)"
  by (simp add: sorted_set_def)

lemma sorted_sorted_set [simp]: "sorted (sorted_set xs)"
  by (simp add: sorted_set_def)

lemma sorted_set_cong: "set xs = set ys \<Longrightarrow> sorted_set xs = sorted_set ys"
  unfolding sorted_set_def
  by (metis sorted_list_of_set_sort_remdups)

lemma sorted_set_Nil [simp]: "sorted_set [] = []"
  by (simp add: sorted_set_def)

subsection \<open>Association lists as Go maps\<close>

lemma map_of_update [simp]: "map_of (AList.update k v m) = (map_of m)(k \<mapsto> v)"
  by (simp add: update_conv')

lemma distinct_keys_update [intro]:
  "distinct (map fst m) \<Longrightarrow> distinct (map fst (AList.update k v m))"
  by (rule distinct_update)

lemma mem_iff_map_of:
  "distinct (map fst m) \<Longrightarrow> (k, v) \<in> set m \<longleftrightarrow> map_of m k = Some v"
  by simp

lemma mset_eq_map_of:
  assumes "distinct (map fst m)" and "distinct (map fst m')" and "map_of m = map_of m'"
  shows "mset m = mset m'"
proof -
  have "distinct m" "distinct m'" using assms(1,2) by (simp_all add: distinct_map)
  moreover have "set m = set m'"
    using map_of_inject_set[OF assms(1,2)] assms(3) by simp
  ultimately show ?thesis by (simp add: set_eq_iff_mset_eq_distinct)
qed

subsection \<open>String prefixes\<close>

text \<open>\<open>strings.HasPrefix(s, p)\<close> is \<open>prefix p s\<close>.\<close>

lemma prefix_append_same [simp]: "prefix (p @ q) (p @ s) = prefix q s"
  by (simp add: prefix_def)

end
