(* ===== verification/Sha256.thy ===== *)
theory Sha256
  imports Prelude "HOL-Library.Word"
begin

text \<open>
  The two functions of Go's standard library that every identity and content hash of the
  program goes through: \<open>crypto/sha256.Sum256\<close> (FIPS 180-4, on 32-bit words) and
  \<open>encoding/hex.EncodeToString\<close>. They are defined in full, so that \<open>IdentityHash\<close> and
  \<open>HashChildren\<close> are closed functions of the model and no hash is a parameter. The lemmas
  at the end give what the clients use: the digest is 64 lower-case hexadecimal characters.
\<close>

unbundle bit_operations_syntax

type_synonym u32 = "32 word"

subsection \<open>Padding and message schedule\<close>

definition sha_bytes :: "string \<Rightarrow> u32 list" where
  "sha_bytes s = map of_char s"

definition length_bytes :: "nat \<Rightarrow> u32 list" where
  "length_bytes n = map (\<lambda>i. of_nat ((8 * n) div 256 ^ i mod 256)) (rev [0..<8])"

definition sha_pad :: "u32 list \<Rightarrow> u32 list" where
  "sha_pad bs =
     bs @ [0x80] @ replicate ((119 - length bs mod 64) mod 64) 0 @ length_bytes (length bs)"

fun be_words :: "u32 list \<Rightarrow> u32 list" where
  "be_words (a # b # c # d # r) =
     (push_bit 24 a OR push_bit 16 b OR push_bit 8 c OR d) # be_words r"
| "be_words _ = []"

definition small_sigma0 :: "u32 \<Rightarrow> u32" where
  "small_sigma0 x = word_rotr 7 x XOR word_rotr 18 x XOR drop_bit 3 x"

definition small_sigma1 :: "u32 \<Rightarrow> u32" where
  "small_sigma1 x = word_rotr 17 x XOR word_rotr 19 x XOR drop_bit 10 x"

fun sha_extend :: "nat \<Rightarrow> u32 list \<Rightarrow> u32 list" where
  "sha_extend 0 ws = ws"
| "sha_extend (Suc k) ws =
     (let n = length ws
      in sha_extend k
           (ws @ [small_sigma1 (ws ! (n - 2)) + ws ! (n - 7) + small_sigma0 (ws ! (n - 15))
                  + ws ! (n - 16)]))"

subsection \<open>Compression\<close>

definition round_constants :: "u32 list" where
  "round_constants =
    [1116352408, 1899447441, 3049323471, 3921009573, 961987163, 1508970993, 2453635748, 2870763221,
     3624381080, 310598401, 607225278, 1426881987, 1925078388, 2162078206, 2614888103, 3248222580,
     3835390401, 4022224774, 264347078, 604807628, 770255983, 1249150122, 1555081692, 1996064986,
     2554220882, 2821834349, 2952996808, 3210313671, 3336571891, 3584528711, 113926993, 338241895,
     666307205, 773529912, 1294757372, 1396182291, 1695183700, 1986661051, 2177026350, 2456956037,
     2730485921, 2820302411, 3259730800, 3345764771, 3516065817, 3600352804, 4094571909, 275423344,
     430227734, 506948616, 659060556, 883997877, 958139571, 1322822218, 1537002063, 1747873779,
     1955562222, 2024104815, 2227730452, 2361852424, 2428436474, 2756734187, 3204031479, 3329325298]"

type_synonym sha_state = "u32 \<times> u32 \<times> u32 \<times> u32 \<times> u32 \<times> u32 \<times> u32 \<times> u32"

definition initial_state :: sha_state where
  "initial_state = (1779033703, 3144134277, 1013904242, 2773480762,
                    1359893119, 2600822924, 528734635, 1541459225)"

fun sha_round :: "sha_state \<Rightarrow> u32 \<times> u32 \<Rightarrow> sha_state" where
  "sha_round (a, b, c, d, e, f, g, h) (k, w) =
     (let s1 = word_rotr 6 e XOR word_rotr 11 e XOR word_rotr 25 e;
          ch = (e AND f) XOR (NOT e AND g);
          t1 = h + s1 + ch + k + w;
          s0 = word_rotr 2 a XOR word_rotr 13 a XOR word_rotr 22 a;
          maj = (a AND b) XOR (a AND c) XOR (b AND c);
          t2 = s0 + maj
      in (t1 + t2, a, b, c, d + t1, e, f, g))"

fun add_state :: "sha_state \<Rightarrow> sha_state \<Rightarrow> sha_state" where
  "add_state (a, b, c, d, e, f, g, h) (a', b', c', d', e', f', g', h') =
     (a + a', b + b', c + c', d + d', e + e', f + f', g + g', h + h')"

definition sha_block :: "sha_state \<Rightarrow> u32 list \<Rightarrow> sha_state" where
  "sha_block st ws = add_state st (foldl sha_round st (zip round_constants (sha_extend 48 ws)))"

function sha_blocks :: "sha_state \<Rightarrow> u32 list \<Rightarrow> sha_state" where
  "sha_blocks st ws =
     (if length ws < 16 then st else sha_blocks (sha_block st (take 16 ws)) (drop 16 ws))"
  by pat_completeness auto
termination
  by (relation "measure (\<lambda>(st, ws). length ws)") auto

declare sha_blocks.simps [simp del]

subsection \<open>Hexadecimal digest\<close>

definition hex_alphabet :: string where
  "hex_alphabet = ''0123456789abcdef''"

definition hex_digit :: "u32 \<Rightarrow> char" where
  "hex_digit x = hex_alphabet ! (unat x mod 16)"

definition hex_word :: "u32 \<Rightarrow> string" where
  "hex_word w = map (\<lambda>i. hex_digit (drop_bit (4 * i) w)) (rev [0..<8])"

fun hex_state :: "sha_state \<Rightarrow> string" where
  "hex_state (a, b, c, d, e, f, g, h) = concat (map hex_word [a, b, c, d, e, f, g, h])"

definition sha256_hex :: "string \<Rightarrow> string" where
  "sha256_hex s = hex_state (sha_blocks initial_state (be_words (sha_pad (sha_bytes s))))"

subsection \<open>What the clients rely on\<close>

lemma hex_digit_in [simp]: "hex_digit x \<in> set hex_alphabet"
  unfolding hex_digit_def by (rule nth_mem) (simp add: hex_alphabet_def)

lemma length_hex_word [simp]: "length (hex_word w) = 8"
  by (simp add: hex_word_def)

lemma set_hex_word: "set (hex_word w) \<subseteq> set hex_alphabet"
  by (auto simp: hex_word_def)

lemma hex_state_props: "length (hex_state st) = 64 \<and> set (hex_state st) \<subseteq> set hex_alphabet"
proof -
  obtain a b c d e f g h where st: "st = (a, b, c, d, e, f, g, h)" by (cases st) auto
  show ?thesis unfolding st hex_state.simps
    using set_hex_word by (simp add: Un_least)
qed

lemma length_sha256_hex [simp]: "length (sha256_hex s) = 64"
  by (simp add: sha256_hex_def hex_state_props)

lemma set_sha256_hex: "set (sha256_hex s) \<subseteq> set hex_alphabet"
  by (simp add: sha256_hex_def hex_state_props)

end
