(* ===== verification/Schema.thy ===== *)
theory Schema
  imports Sha256
begin

text \<open>
  Package \<open>schema\<close>: the decoded shape of \<open>project.json\<close> and \<open>module.json\<close>
  (\<open>schema/schema.go\<close>), the identity hash, and the profile that declares node types,
  fields, edges, coverage chains, plan-relevant types, impact levels and absorbable
  directions (\<open>schema/profile.go\<close>, \<open>schema/module_compose.go\<close>). The JSON decoding itself is
  not modelled: a record here is the value \<open>json.Unmarshal\<close> produced.
\<close>

subsection \<open>Identity\<close>

fun join_strings :: "string \<Rightarrow> string list \<Rightarrow> string" where
  "join_strings sep [] = []"
| "join_strings sep [s] = s"
| "join_strings sep (s # t # ts) = s @ sep @ join_strings sep (t # ts)"

definition IdentityHash :: "string list \<Rightarrow> string" where
  "IdentityHash parts = take 12 (sha256_hex (join_strings ''/'' parts))"

text \<open>The pattern \<open>^[a-f0-9]{12}$\<close>.\<close>

definition identity_hash_pattern :: "string \<Rightarrow> bool" where
  "identity_hash_pattern s \<longleftrightarrow> length s = 12 \<and> list_all (\<lambda>c. c \<in> set hex_alphabet) s"

lemma IdentityHash_pattern: "identity_hash_pattern (IdentityHash parts)"
  using set_sha256_hex
  by (auto simp: identity_hash_pattern_def IdentityHash_def list_all_iff dest: in_set_takeD)

subsection \<open>JSON values\<close>

text \<open>A parsed document: the members of an object in the order of the text, a number by its literal.\<close>

datatype json =
    JNull
  | JBool bool
  | JNumber string
  | JString string
  | JArray "json list"
  | JObject "(string \<times> json) list"

type_synonym raw_entry = "(string \<times> json) list"

subsection \<open>Specification documents\<close>

record module_decl =
  mod_id :: string
  mod_name :: string
  mod_path :: string
  mod_description :: string
  mod_requires_module :: "string list"

record requirement =
  req_id :: string
  req_preq_id :: string
  req_type :: string
  req_title :: string
  req_description :: string
  req_priority :: "int option"
  req_depends_on :: "string list"
  req_derivation :: string

record section_decl =
  sec_id :: string
  sec_name :: string
  sec_type :: string
  sec_raw :: json

record project =
  prj_name :: string
  prj_description :: string
  prj_version :: string
  prj_requirements :: "requirement list"
  prj_modules :: "module_decl list"
  prj_sections :: "section_decl list"
  prj_spec_version :: "int option"

record module_requirement =
  mrq_id :: string
  mrq_preq_id :: string
  mrq_type :: string
  mrq_title :: string
  mrq_description :: string
  mrq_depends_on :: "string list"

record test_section =
  tst_id :: string
  tst_name :: string
  tst_content :: string
  tst_describes :: "string list"

record component =
  cmp_id :: string
  cmp_name :: string
  cmp_description :: string
  cmp_content :: string
  cmp_implements :: "string list"
  cmp_uses :: "string list"

record api =
  api_id :: string
  api_name :: string
  api_description :: string
  api_provided_by :: "string list"
  api_group :: string

record data_flow =
  dfl_id :: string
  dfl_name :: string
  dfl_description :: string
  dfl_content :: string
  dfl_uses :: "string list"

record module_spec =
  ms_name :: string
  ms_description :: string
  ms_requirements :: "module_requirement list"
  ms_components :: "component list"
  ms_data_flows :: "data_flow list"
  ms_test_sections :: "test_section list"
  ms_apis :: "api list"

subsection \<open>Profiles\<close>

text \<open>\<open>FieldKind\<close> is an open string type: a decoded field may carry any other string.\<close>

datatype field_kind = FieldKindText | FieldKindInteger | FieldKindReference | FieldKindOther string

record field =
  fld_name :: string
  fld_kind :: field_kind
  fld_required :: bool
  fld_hashed :: "bool option"
  fld_enum :: "string list"
  fld_minimum :: "int option"
  fld_maximum :: "int option"
  fld_targets :: "string list"
  fld_cardinality :: string
  fld_cyclic :: bool
  fld_description :: string

definition HashParticipates :: "field \<Rightarrow> bool" where
  "HashParticipates f \<longleftrightarrow> fld_hashed f = None \<or> fld_hashed f = Some True"

text \<open>\<open>LeafSections\<close> distinguishes nil from the empty list, hence the option.\<close>

record node_type =
  nt_name :: string
  nt_plural_key :: string
  nt_scope :: string
  nt_requires_content :: bool
  nt_completeness_trigger :: bool
  nt_name_declarable :: bool
  nt_fields :: "field list"
  nt_comment :: string
  nt_content_prefix :: "string option"
  nt_leaf_sections :: "string list option"

record edge =
  edg_kind :: string
  edg_from :: "string list"
  edg_to :: "string list"
  edg_cyclic_from :: "(string \<times> bool) list"

definition CyclicForType :: "edge \<Rightarrow> string \<Rightarrow> bool" where
  "CyclicForType e from_type = (map_of (edg_cyclic_from e) from_type = Some True)"

record coverage_chain =
  cch_covered_type :: string
  cch_covered_scope :: string
  cch_edge :: string
  cch_covering_type :: string
  cch_covering_scope :: string

record absorb_directions =
  abs_added :: bool
  abs_removed :: bool

record profile =
  prf_version :: "int option"
  prf_node_types :: "node_type list"
  prf_coverage_chains :: "coverage_chain list"
  prf_plan_relevant :: "string list"
  prf_impact_levels :: "(string \<times> string) list"
  prf_absorbable :: "(string \<times> absorb_directions) list"
  prf_edges :: "edge list"
  prf_hashed_fields :: "(string \<times> string list) list"

subsection \<open>Derived edges and hashed fields\<close>

text \<open>
  \<open>deriveEdges\<close> keeps \<open>order\<close>, the edge kinds in the order they are first met, and
  \<open>byKind\<close>, the edge under construction of each. An association list holds both.
\<close>

definition append_new :: "'a \<Rightarrow> 'a list \<Rightarrow> 'a list" where
  "append_new x xs = (if x \<in> set xs then xs else xs @ [x])"

definition add_edge_field :: "string \<Rightarrow> field \<Rightarrow> (string \<times> edge) list \<Rightarrow> (string \<times> edge) list" where
  "add_edge_field tname f byKind =
     (if fld_kind f \<noteq> FieldKindReference then byKind
      else
        let e = (case map_of byKind (fld_name f) of
                   Some e \<Rightarrow> e
                 | None \<Rightarrow> \<lparr>edg_kind = fld_name f, edg_from = [], edg_to = [], edg_cyclic_from = []\<rparr>);
            e' = e\<lparr>edg_from := append_new tname (edg_from e),
                   edg_cyclic_from := AList.update tname (fld_cyclic f) (edg_cyclic_from e),
                   edg_to := fold append_new (fld_targets f) (edg_to e)\<rparr>
        in AList.update (fld_name f) e' byKind)"

definition add_type_edges :: "node_type \<Rightarrow> (string \<times> edge) list \<Rightarrow> (string \<times> edge) list" where
  "add_type_edges t byKind = fold (add_edge_field (nt_name t)) (nt_fields t) byKind"

definition requires_module_edge :: edge where
  "requires_module_edge =
     \<lparr>edg_kind = ''requires_module'', edg_from = [''module''], edg_to = [''module''],
      edg_cyclic_from = []\<rparr>"

definition deriveEdges :: "node_type list \<Rightarrow> edge list" where
  "deriveEdges nts = map snd (fold add_type_edges nts []) @ [requires_module_edge]"

definition scope_key :: "string \<Rightarrow> string \<Rightarrow> string" where
  "scope_key scope name = scope @ '':'' @ name"

definition deriveHashedFields :: "node_type list \<Rightarrow> (string \<times> string list) list" where
  "deriveHashedFields nts =
     fold (\<lambda>t out.
        if nt_requires_content t then out
        else AList.update (scope_key (nt_scope t) (nt_name t))
               (sort ([''id'', ''name'', ''description'']
                      @ map fld_name (filter HashParticipates (nt_fields t)))) out)
       nts []"

definition findField :: "profile \<Rightarrow> string \<Rightarrow> string \<Rightarrow> string \<Rightarrow> field option" where
  "findField p type_name scope field_name =
     find (\<lambda>f. fld_name f = field_name)
       (concat (map nt_fields
          (filter (\<lambda>t. nt_name t = type_name \<and> (scope = [] \<or> nt_scope t = scope))
                  (prf_node_types p))))"

end
