(* ===== verification/Profile.thy ===== *)
theory Profile
  imports Schema
begin

text \<open>
  Profile resolution (\<open>schema/profile.go\<close>): the consistency check \<open>Validate\<close>, the defaults
  \<open>finalize\<close> fills in, and the embedded default profile (\<open>schema/defaultProfile.json\<close>,
  transcribed as the decoded record). Reading \<open>profile.json\<close> from disk is left out:
  \<open>resolveProfile\<close> takes the decoded document, or none when the file is absent. Error
  messages are values that carry what the message names.
\<close>

subsection \<open>Validate\<close>

datatype profile_path =
  PNodeType nat | PField nat nat | PChain nat | PPlanRelevant nat | PImpactLevels | PAbsorbable

datatype profile_problem =
    NameRequired
  | NameIsModule
  | PluralKeyRequired
  | BadScope
  | DuplicateNodeType string string
  | ConventionsNeedVersion2
  | ConventionsWithoutContent string
  | EmptyContentPrefix
  | FieldCollidesWithEnvelope string
  | DuplicateField string string
  | UnknownKind string
  | EnumOnNonText string
  | BoundsOnNonInteger string
  | TargetsRequired string
  | UndeclaredTarget string string
  | TargetsOnNonReference string
  | UndeclaredCovered string
  | UndeclaredCovering string
  | EdgeFieldMissing string string
  | EdgeNotReference string string
  | EdgeNotTargeting string string string
  | UndeclaredType string
  | AlreadyListed string

type_synonym problems = "(profile_path \<times> profile_problem) list"

datatype profile_error = UnsupportedVersion int | Problems problems

definition minProfileVersion :: int where "minProfileVersion = 1"
definition maxProfileVersion :: int where "maxProfileVersion = 2"

definition check :: "bool \<Rightarrow> profile_path \<Rightarrow> profile_problem \<Rightarrow> problems" where
  "check cond path msg = (if cond then [] else [(path, msg)])"

definition legal_scope :: "string \<Rightarrow> bool" where
  "legal_scope s \<longleftrightarrow> s = ''project'' \<or> s = ''module''"

text \<open>\<open>declared\<close> after the first loop: every non-empty type name.\<close>

definition declared_types :: "profile \<Rightarrow> string list" where
  "declared_types p = filter (\<lambda>n. n \<noteq> []) (map nt_name (prf_node_types p))"

fun check_node_types :: "nat \<Rightarrow> string list \<Rightarrow> node_type list \<Rightarrow> problems" where
  "check_node_types i seen [] = []"
| "check_node_types i seen (t # ts) =
     (let path = PNodeType i;
          scoped = (nt_name t \<noteq> [] \<and> legal_scope (nt_scope t));
          key = scope_key (nt_scope t) (nt_name t)
      in check (nt_name t \<noteq> []) path NameRequired
       @ check (nt_name t \<noteq> ''module'') path NameIsModule
       @ check (nt_plural_key t \<noteq> []) path PluralKeyRequired
       @ check (legal_scope (nt_scope t)) path BadScope
       @ (if scoped then check (key \<notin> set seen) path (DuplicateNodeType (nt_name t) (nt_scope t))
          else [])
       @ check_node_types (Suc i) (if scoped then key # seen else seen) ts)"

definition effective_version :: "profile \<Rightarrow> int" where
  "effective_version p = (case prf_version p of None \<Rightarrow> 1 | Some v \<Rightarrow> v)"

definition check_conventions :: "profile \<Rightarrow> nat \<times> node_type \<Rightarrow> problems" where
  "check_conventions p it =
     (case it of (i, t) \<Rightarrow>
       if nt_content_prefix t = None \<and> nt_leaf_sections t = None then []
       else check (effective_version p \<ge> 2) (PNodeType i) ConventionsNeedVersion2
          @ check (nt_requires_content t) (PNodeType i) (ConventionsWithoutContent (nt_name t))
          @ (case nt_content_prefix t of
               None \<Rightarrow> []
             | Some c \<Rightarrow> check (c \<noteq> []) (PNodeType i) EmptyContentPrefix))"

definition envelopeFieldNames :: "string list" where
  "envelopeFieldNames = [''id'', ''name'', ''description'']"

definition check_field_kind :: "string list \<Rightarrow> profile_path \<Rightarrow> field \<Rightarrow> problems" where
  "check_field_kind declared path f =
     (case fld_kind f of
        FieldKindOther k \<Rightarrow> [(path, UnknownKind (fld_name f))]
      | _ \<Rightarrow>
          check (fld_enum f = [] \<or> fld_kind f = FieldKindText) path (EnumOnNonText (fld_name f))
        @ check ((fld_minimum f = None \<and> fld_maximum f = None) \<or> fld_kind f = FieldKindInteger)
            path (BoundsOnNonInteger (fld_name f))
        @ (if fld_kind f = FieldKindReference then
             check (fld_targets f \<noteq> []) path (TargetsRequired (fld_name f))
             @ concat (map (\<lambda>t. check (t \<in> set declared) path (UndeclaredTarget (fld_name f) t))
                         (fld_targets f))
           else check (fld_targets f = []) path (TargetsOnNonReference (fld_name f))))"

fun check_fields :: "string list \<Rightarrow> node_type \<Rightarrow> nat \<Rightarrow> nat \<Rightarrow> string list \<Rightarrow> field list \<Rightarrow> problems" where
  "check_fields declared t i j seen [] = []"
| "check_fields declared t i j seen (f # fs) =
     check (\<not> (fld_name f \<in> set envelopeFieldNames \<or>
               (fld_name f = ''content'' \<and> nt_requires_content t)))
       (PField i j) (FieldCollidesWithEnvelope (fld_name f))
   @ check (fld_name f \<notin> set seen) (PField i j) (DuplicateField (fld_name f) (nt_name t))
   @ check_field_kind declared (PField i j) f
   @ check_fields declared t i (Suc j) (fld_name f # seen) fs"

definition check_chain :: "profile \<Rightarrow> nat \<times> coverage_chain \<Rightarrow> problems" where
  "check_chain p ic =
     (case ic of (i, c) \<Rightarrow>
       check (cch_covered_type c \<in> set (declared_types p)) (PChain i)
         (UndeclaredCovered (cch_covered_type c))
     @ check (cch_covering_type c \<in> set (declared_types p)) (PChain i)
         (UndeclaredCovering (cch_covering_type c))
     @ (if cch_covering_type c \<in> set (declared_types p) then
          (case findField p (cch_covering_type c) (cch_covering_scope c) (cch_edge c) of
             None \<Rightarrow> [(PChain i, EdgeFieldMissing (cch_covering_type c) (cch_edge c))]
           | Some f \<Rightarrow>
               check (fld_kind f = FieldKindReference) (PChain i)
                 (EdgeNotReference (cch_edge c) (cch_covering_type c))
             @ check (cch_covered_type c \<in> set (fld_targets f)) (PChain i)
                 (EdgeNotTargeting (cch_edge c) (cch_covering_type c) (cch_covered_type c)))
        else []))"

fun check_plan_relevant :: "string list \<Rightarrow> nat \<Rightarrow> string list \<Rightarrow> string list \<Rightarrow> problems" where
  "check_plan_relevant declared i seen [] = []"
| "check_plan_relevant declared i seen (n # ns) =
     check (n \<in> set declared) (PPlanRelevant i) (UndeclaredType n)
   @ check (n \<notin> set seen) (PPlanRelevant i) (AlreadyListed n)
   @ check_plan_relevant declared (Suc i) (n # seen) ns"

definition unsupported_version :: "profile \<Rightarrow> int option" where
  "unsupported_version p =
     (case prf_version p of
        None \<Rightarrow> None
      | Some v \<Rightarrow> if v < minProfileVersion \<or> v > maxProfileVersion then Some v else None)"

definition Validate :: "profile \<Rightarrow> profile_error option" where
  "Validate p =
     (case unsupported_version p of Some v \<Rightarrow> Some (UnsupportedVersion v) | None \<Rightarrow>
       (let d = declared_types p;
            errs = check_node_types 0 [] (prf_node_types p)
                 @ concat (map (check_conventions p) (enumerate 0 (prf_node_types p)))
                 @ concat (map (\<lambda>(i, t). check_fields d t i 0 [] (nt_fields t))
                             (enumerate 0 (prf_node_types p)))
                 @ concat (map (check_chain p) (enumerate 0 (prf_coverage_chains p)))
                 @ check_plan_relevant d 0 [] (prf_plan_relevant p)
                 @ concat (map (\<lambda>(n, l). check (n \<in> set d) PImpactLevels (UndeclaredType n))
                             (prf_impact_levels p))
                 @ concat (map (\<lambda>(n, a). check (n \<in> set d) PAbsorbable (UndeclaredType n))
                             (prf_absorbable p))
        in if errs = [] then None else Some (Problems errs)))"

subsection \<open>The embedded default profile\<close>

definition default_project_requirement :: node_type where
  "default_project_requirement =
    \<lparr>nt_name = ''requirement'', nt_plural_key = ''requirements'', nt_scope = ''project'',
     nt_requires_content = False, nt_completeness_trigger = True, nt_name_declarable = False,
     nt_fields =
     [\<lparr>fld_name = ''type'', fld_kind = FieldKindText, fld_required = True, fld_hashed = None, fld_enum = [''functional'', ''non_functional''],
       fld_minimum = None, fld_maximum = None, fld_targets = [], fld_cardinality = [],
       fld_cyclic = False,
       fld_description = ''Requirement type.''\<rparr>,
      \<lparr>fld_name = ''priority'', fld_kind = FieldKindInteger, fld_required = False, fld_hashed = None, fld_enum = [],
       fld_minimum = Some 0, fld_maximum = Some 4, fld_targets = [], fld_cardinality = [],
       fld_cyclic = False,
       fld_description = ''Requirement priority (0-4). Optional; enforced by validator when present.''\<rparr>,
      \<lparr>fld_name = ''derivation'', fld_kind = FieldKindText, fld_required = False, fld_hashed = Some False, fld_enum = [''pending''],
       fld_minimum = None, fld_maximum = None, fld_targets = [], fld_cardinality = [],
       fld_cyclic = False,
       fld_description = ''Declares a requirement not yet derived into any module. Project-scoped only: a module requirement derives by construction through its required preq_id.''\<rparr>,
      \<lparr>fld_name = ''depends_on'', fld_kind = FieldKindReference, fld_required = False, fld_hashed = None, fld_enum = [],
       fld_minimum = None, fld_maximum = None, fld_targets = [''requirement''], fld_cardinality = ''many'',
       fld_cyclic = False,
       fld_description = ''Identity hashes of other requirements this one depends on (depends_on edge).''\<rparr>],
     nt_comment = (''Project-level requirement. module.schema.json'' @ [CHR 0x27] @ ''s copy carries preq_id in place of priority and derivation, since a module requirement derives by construction through its required preq_id. IDs are 12-char hex identity hashes computed by schema.IdentityHash.''),
     nt_content_prefix = None, nt_leaf_sections = None\<rparr>"

definition default_module_requirement :: node_type where
  "default_module_requirement =
    \<lparr>nt_name = ''requirement'', nt_plural_key = ''requirements'', nt_scope = ''module'',
     nt_requires_content = False, nt_completeness_trigger = True, nt_name_declarable = False,
     nt_fields =
     [\<lparr>fld_name = ''type'', fld_kind = FieldKindText, fld_required = True, fld_hashed = None, fld_enum = [''functional'', ''non_functional''],
       fld_minimum = None, fld_maximum = None, fld_targets = [], fld_cardinality = [],
       fld_cyclic = False,
       fld_description = ''Requirement type.''\<rparr>,
      \<lparr>fld_name = ''preq_id'', fld_kind = FieldKindReference, fld_required = True, fld_hashed = None, fld_enum = [],
       fld_minimum = None, fld_maximum = None, fld_targets = [''requirement''], fld_cardinality = ''one'',
       fld_cyclic = False,
       fld_description = ''Identity hash of the project requirement this module requirement derives from.''\<rparr>,
      \<lparr>fld_name = ''depends_on'', fld_kind = FieldKindReference, fld_required = False, fld_hashed = None, fld_enum = [],
       fld_minimum = None, fld_maximum = None, fld_targets = [''requirement''], fld_cardinality = ''many'',
       fld_cyclic = False,
       fld_description = ''Identity hashes of other requirements this one depends on (depends_on edge).''\<rparr>],
     nt_comment = ''Module-level requirement. Extends the project-level requirement with preq_id to trace derivation from project requirements. IDs are 12-char hex identity hashes computed by schema.IdentityHash. name (renamed from title in spec format version 1) makes the envelope universal across every node type.'',
     nt_content_prefix = None, nt_leaf_sections = None\<rparr>"

definition default_module_component :: node_type where
  "default_module_component =
    \<lparr>nt_name = ''component'', nt_plural_key = ''components'', nt_scope = ''module'',
     nt_requires_content = True, nt_completeness_trigger = False, nt_name_declarable = True,
     nt_fields =
     [\<lparr>fld_name = ''implements'', fld_kind = FieldKindReference, fld_required = False, fld_hashed = None, fld_enum = [],
       fld_minimum = None, fld_maximum = None, fld_targets = [''requirement''], fld_cardinality = ''many'',
       fld_cyclic = False,
       fld_description = ''Requirement identity hashes this component implements (implements edge).''\<rparr>,
      \<lparr>fld_name = ''uses'', fld_kind = FieldKindReference, fld_required = False, fld_hashed = None, fld_enum = [],
       fld_minimum = None, fld_maximum = None, fld_targets = [''component''], fld_cardinality = ''many'',
       fld_cyclic = False,
       fld_description = ''Identity hashes of other components this one depends on (uses edge).''\<rparr>],
     nt_comment = [],
     nt_content_prefix = Some ''arch_'', nt_leaf_sections = Some [''Responsibilities'', ''Interface'']\<rparr>"

definition default_module_data_flow :: node_type where
  "default_module_data_flow =
    \<lparr>nt_name = ''data_flow'', nt_plural_key = ''data_flows'', nt_scope = ''module'',
     nt_requires_content = True, nt_completeness_trigger = False, nt_name_declarable = False,
     nt_fields =
     [\<lparr>fld_name = ''uses'', fld_kind = FieldKindReference, fld_required = False, fld_hashed = None, fld_enum = [],
       fld_minimum = None, fld_maximum = None, fld_targets = [''component''], fld_cardinality = ''many'',
       fld_cyclic = False,
       fld_description = ''Component identity hashes involved in this data flow (uses edge).''\<rparr>],
     nt_comment = [],
     nt_content_prefix = Some ''flow_'', nt_leaf_sections = Some [''Data Shapes'']\<rparr>"

definition default_module_test_section :: node_type where
  "default_module_test_section =
    \<lparr>nt_name = ''test_section'', nt_plural_key = ''test_sections'', nt_scope = ''module'',
     nt_requires_content = True, nt_completeness_trigger = False, nt_name_declarable = False,
     nt_fields =
     [\<lparr>fld_name = ''describes'', fld_kind = FieldKindReference, fld_required = False, fld_hashed = None, fld_enum = [],
       fld_minimum = None, fld_maximum = None, fld_targets = [''component''], fld_cardinality = ''many'',
       fld_cyclic = False,
       fld_description = ''Component identity hashes described by this test section (describes edge).''\<rparr>],
     nt_comment = [],
     nt_content_prefix = Some ''test_'', nt_leaf_sections = Some [''Setup'', ''Scenarios'', ''Edge Cases'']\<rparr>"

definition default_module_api :: node_type where
  "default_module_api =
    \<lparr>nt_name = ''api'', nt_plural_key = ''apis'', nt_scope = ''module'',
     nt_requires_content = False, nt_completeness_trigger = False, nt_name_declarable = True,
     nt_fields =
     [\<lparr>fld_name = ''provided_by'', fld_kind = FieldKindReference, fld_required = False, fld_hashed = None, fld_enum = [],
       fld_minimum = None, fld_maximum = None, fld_targets = [''component''], fld_cardinality = ''many'',
       fld_cyclic = False,
       fld_description = ''Identity hashes of components in this module that provide this entry point (module-local).''\<rparr>,
      \<lparr>fld_name = ''group'', fld_kind = FieldKindText, fld_required = False, fld_hashed = None, fld_enum = [],
       fld_minimum = None, fld_maximum = None, fld_targets = [], fld_cardinality = [],
       fld_cyclic = False,
       fld_description = ''Freeform grouping label for renderers (e.g. \"cli\", \"http\"). Spex never branches on it.''\<rparr>],
     nt_comment = (''An external surface entry point. No content file '' @ [CHR 0xE2, CHR 0x80, CHR 0x94] @ '' an api hashes from these fields alone. Identity is <module>/api/<name>, computed by schema.IdentityHash.''),
     nt_content_prefix = None, nt_leaf_sections = None\<rparr>"

text \<open>The document as decoded, before \<open>finalize\<close> derives edges and hashed fields.\<close>

definition embedded_profile :: profile where
  "embedded_profile =
    \<lparr>prf_version = Some 2,
     prf_node_types =
      [default_project_requirement,
       default_module_requirement,
       default_module_component,
       default_module_data_flow,
       default_module_test_section,
       default_module_api],
     prf_coverage_chains =
      [\<lparr>cch_covered_type = ''requirement'', cch_covered_scope = ''project'', cch_edge = ''preq_id'',
        cch_covering_type = ''requirement'', cch_covering_scope = ''module''\<rparr>,
       \<lparr>cch_covered_type = ''requirement'', cch_covered_scope = ''module'', cch_edge = ''implements'',
        cch_covering_type = ''component'', cch_covering_scope = []\<rparr>,
       \<lparr>cch_covered_type = ''component'', cch_covered_scope = [], cch_edge = ''describes'',
        cch_covering_type = ''test_section'', cch_covering_scope = []\<rparr>],
     prf_plan_relevant = [''data_flow'', ''component'', ''test_section''],
     prf_impact_levels =
      [(''test_section'', ''impl_only''),
       (''data_flow'', ''contract''),
       (''api'', ''contract''),
       (''component'', ''arch_impl''),
       (''requirement'', ''structural'')],
     prf_absorbable =
      [(''requirement'', \<lparr>abs_added = True, abs_removed = True\<rparr>),
       (''api'', \<lparr>abs_added = True, abs_removed = True\<rparr>),
       (''component'', \<lparr>abs_added = True, abs_removed = True\<rparr>),
       (''data_flow'', \<lparr>abs_added = True, abs_removed = True\<rparr>),
       (''test_section'', \<lparr>abs_added = True, abs_removed = True\<rparr>)],
     prf_edges = [], prf_hashed_fields = []\<rparr>"

subsection \<open>Resolution\<close>

definition defaultContentConventions :: "(string \<times> node_type) list" where
  "defaultContentConventions =
     fold (\<lambda>t out. if nt_requires_content t
                    then AList.update (scope_key (nt_scope t) (nt_name t)) t out else out)
       (prf_node_types embedded_profile) []"

text \<open>One iteration of \<open>fillContentConventions\<close>: the type, and whether anything was filled in.\<close>

definition fill_type :: "node_type \<Rightarrow> node_type \<times> bool" where
  "fill_type t =
     (if \<not> nt_requires_content t then (t, False)
      else
        (case map_of defaultContentConventions (scope_key (nt_scope t) (nt_name t)) of
           None \<Rightarrow> (t, False)
         | Some def \<Rightarrow>
             let fill_prefix = (nt_content_prefix t = None \<and> nt_content_prefix def \<noteq> None);
                 t1 = (if fill_prefix then t\<lparr>nt_content_prefix := nt_content_prefix def\<rparr> else t)
             in if nt_leaf_sections t = None
                then (t1\<lparr>nt_leaf_sections := nt_leaf_sections def\<rparr>,
                      fill_prefix \<or> nt_leaf_sections def \<noteq> None)
                else (t1, fill_prefix)))"

definition fillContentConventions :: "profile \<Rightarrow> profile \<times> bool" where
  "fillContentConventions p =
     (p\<lparr>prf_node_types := map (fst \<circ> fill_type) (prf_node_types p)\<rparr>,
      list_ex (snd \<circ> fill_type) (prf_node_types p))"

definition stampResolvedVersion :: "profile \<Rightarrow> profile" where
  "stampResolvedVersion p = p\<lparr>prf_version := Some maxProfileVersion\<rparr>"

definition finalize :: "profile \<Rightarrow> profile" where
  "finalize p =
     (let (p1, filled) = fillContentConventions p;
          p2 = (if filled then stampResolvedVersion p1 else p1)
      in p2\<lparr>prf_edges := deriveEdges (prf_node_types p2),
            prf_hashed_fields := deriveHashedFields (prf_node_types p2)\<rparr>)"

definition DefaultProfile :: profile where
  "DefaultProfile = finalize embedded_profile"

definition resolveProfile :: "profile option \<Rightarrow> (profile_error, profile) result" where
  "resolveProfile doc =
     (case doc of
        None \<Rightarrow> Inr DefaultProfile
      | Some p \<Rightarrow> (case Validate p of Some e \<Rightarrow> Inl e | None \<Rightarrow> Inr (finalize p)))"

subsection \<open>What a valid profile is\<close>

named_theorems check_simps \<open>when a group of checks reports nothing\<close>

lemma check_Nil [check_simps]: "check c path msg = [] \<longleftrightarrow> c"
  by (simp add: check_def)

definition type_ok :: "node_type \<Rightarrow> bool" where
  "type_ok t \<longleftrightarrow> nt_name t \<noteq> [] \<and> nt_name t \<noteq> ''module'' \<and> nt_plural_key t \<noteq> [] \<and>
                legal_scope (nt_scope t)"

definition type_key :: "node_type \<Rightarrow> string" where
  "type_key t = scope_key (nt_scope t) (nt_name t)"

lemma check_node_types_Nil [check_simps]:
  "check_node_types i seen ts = [] \<longleftrightarrow>
     (\<forall>t \<in> set ts. type_ok t) \<and> distinct (map type_key ts) \<and> type_key ` set ts \<inter> set seen = {}"
proof (induction ts arbitrary: i seen)
  case (Cons t ts)
  show ?case
  proof (cases "type_ok t")
    case True
    then show ?thesis by (auto simp: Let_def check_simps type_ok_def type_key_def Cons.IH)
  next
    case False
    then show ?thesis by (auto simp: Let_def check_simps type_ok_def)
  qed
qed simp

definition conventions_ok :: "profile \<Rightarrow> node_type \<Rightarrow> bool" where
  "conventions_ok p t \<longleftrightarrow>
     (nt_content_prefix t \<noteq> None \<or> nt_leaf_sections t \<noteq> None \<longrightarrow>
        effective_version p \<ge> 2 \<and> nt_requires_content t \<and> nt_content_prefix t \<noteq> Some [])"

lemma check_conventions_Nil [check_simps]:
  "check_conventions p (i, t) = [] \<longleftrightarrow> conventions_ok p t"
  by (auto simp: check_conventions_def conventions_ok_def check_simps split: option.split)

definition field_ok :: "string list \<Rightarrow> node_type \<Rightarrow> field \<Rightarrow> bool" where
  "field_ok declared t f \<longleftrightarrow>
     fld_name f \<notin> set envelopeFieldNames \<and> \<not> (fld_name f = ''content'' \<and> nt_requires_content t) \<and>
     fld_kind f \<in> {FieldKindText, FieldKindInteger, FieldKindReference} \<and>
     (fld_enum f \<noteq> [] \<longrightarrow> fld_kind f = FieldKindText) \<and>
     (fld_minimum f \<noteq> None \<or> fld_maximum f \<noteq> None \<longrightarrow> fld_kind f = FieldKindInteger) \<and>
     (fld_kind f = FieldKindReference \<longleftrightarrow> fld_targets f \<noteq> []) \<and>
     set (fld_targets f) \<subseteq> set declared"

lemma check_fields_Nil [check_simps]:
  "check_fields declared t i j seen fs = [] \<longleftrightarrow>
     (\<forall>f \<in> set fs. field_ok declared t f) \<and> distinct (map fld_name fs) \<and>
     fld_name ` set fs \<inter> set seen = {}"
proof (induction fs arbitrary: j seen)
  case (Cons f fs)
  have "check_field_kind declared (PField i j) f = [] \<longleftrightarrow>
        fld_kind f \<in> {FieldKindText, FieldKindInteger, FieldKindReference} \<and>
        (fld_enum f \<noteq> [] \<longrightarrow> fld_kind f = FieldKindText) \<and>
        (fld_minimum f \<noteq> None \<or> fld_maximum f \<noteq> None \<longrightarrow> fld_kind f = FieldKindInteger) \<and>
        (fld_kind f = FieldKindReference \<longleftrightarrow> fld_targets f \<noteq> []) \<and>
        set (fld_targets f) \<subseteq> set declared"
    by (cases "fld_kind f") (auto simp: check_field_kind_def check_simps)
  then have "field_ok declared t f \<longleftrightarrow>
      fld_name f \<notin> set envelopeFieldNames \<and> \<not> (fld_name f = ''content'' \<and> nt_requires_content t) \<and>
      check_field_kind declared (PField i j) f = []"
    unfolding field_ok_def by blast
  then show ?case by (auto simp: check_simps Cons.IH)
qed simp

definition chain_ok :: "profile \<Rightarrow> coverage_chain \<Rightarrow> bool" where
  "chain_ok p c \<longleftrightarrow>
     cch_covered_type c \<in> set (declared_types p) \<and> cch_covering_type c \<in> set (declared_types p) \<and>
     (\<exists>f. findField p (cch_covering_type c) (cch_covering_scope c) (cch_edge c) = Some f \<and>
          fld_kind f = FieldKindReference \<and> cch_covered_type c \<in> set (fld_targets f))"

lemma check_chain_Nil [check_simps]: "check_chain p (i, c) = [] \<longleftrightarrow> chain_ok p c"
  by (auto simp: check_chain_def chain_ok_def check_simps split: option.split)

lemma check_plan_relevant_Nil [check_simps]:
  "check_plan_relevant declared i seen ns = [] \<longleftrightarrow>
     set ns \<subseteq> set declared \<and> distinct ns \<and> set ns \<inter> set seen = {}"
  by (induction ns arbitrary: i seen) (auto simp: check_simps)

definition profile_ok :: "profile \<Rightarrow> bool" where
  "profile_ok p \<longleftrightarrow>
     (\<forall>v. prf_version p = Some v \<longrightarrow> 1 \<le> v \<and> v \<le> 2) \<and>
     (\<forall>t \<in> set (prf_node_types p).
        type_ok t \<and> conventions_ok p t \<and> distinct (map fld_name (nt_fields t)) \<and>
        (\<forall>f \<in> set (nt_fields t). field_ok (declared_types p) t f)) \<and>
     distinct (map (\<lambda>t. (nt_scope t, nt_name t)) (prf_node_types p)) \<and>
     (\<forall>c \<in> set (prf_coverage_chains p). chain_ok p c) \<and>
     distinct (prf_plan_relevant p) \<and> set (prf_plan_relevant p) \<subseteq> set (declared_types p) \<and>
     fst ` set (prf_impact_levels p) \<subseteq> set (declared_types p) \<and>
     fst ` set (prf_absorbable p) \<subseteq> set (declared_types p)"

lemma scope_key_inject:
  assumes "legal_scope s" and "legal_scope s'"
  shows "scope_key s n = scope_key s' n' \<longleftrightarrow> s = s' \<and> n = n'"
  using assms by (auto simp: legal_scope_def scope_key_def)

lemma distinct_type_keys:
  assumes "\<forall>t \<in> set ts. type_ok t"
  shows "distinct (map type_key ts) \<longleftrightarrow> distinct (map (\<lambda>t. (nt_scope t, nt_name t)) ts)"
  using assms
  by (induction ts) (auto simp: type_key_def type_ok_def scope_key_inject)

lemma concat_enumerate_Nil:
  "concat (map g (enumerate n xs)) = [] \<longleftrightarrow> (\<forall>(i, x) \<in> set (enumerate n xs). g (i, x) = [])"
  by auto

lemma enumerate_all: "(\<forall>(i, x) \<in> set (enumerate n xs). P x) \<longleftrightarrow> (\<forall>x \<in> set xs. P x)"
  by (induction xs arbitrary: n) auto

lemma unsupported_version_None:
  "unsupported_version p = None \<longleftrightarrow> (\<forall>v. prf_version p = Some v \<longrightarrow> 1 \<le> v \<and> v \<le> 2)"
  by (auto simp: unsupported_version_def minProfileVersion_def maxProfileVersion_def
      split: option.splits)

lemma Validate_ok: "Validate p = None \<longleftrightarrow> profile_ok p"
proof -
  have conv: "concat (map (check_conventions p) (enumerate 0 ts)) = [] \<longleftrightarrow>
        (\<forall>t \<in> set ts. conventions_ok p t)" for ts
    using enumerate_all[of 0 ts "conventions_ok p"]
    by (auto simp: concat_enumerate_Nil check_simps simp del: enumerate_simps)
  have flds: "concat (map (\<lambda>(i, t). check_fields d t i 0 [] (nt_fields t)) (enumerate 0 ts)) = [] \<longleftrightarrow>
        (\<forall>t \<in> set ts. (\<forall>f \<in> set (nt_fields t). field_ok d t f) \<and> distinct (map fld_name (nt_fields t)))"
    for d ts
    using enumerate_all[of 0 ts "\<lambda>t. (\<forall>f \<in> set (nt_fields t). field_ok d t f) \<and>
                                       distinct (map fld_name (nt_fields t))"]
    by (auto simp: concat_enumerate_Nil check_simps simp del: enumerate_simps)
  have chains: "concat (map (check_chain p) (enumerate 0 cs)) = [] \<longleftrightarrow> (\<forall>c \<in> set cs. chain_ok p c)" for cs
    using enumerate_all[of 0 cs "chain_ok p"]
    by (auto simp: concat_enumerate_Nil check_simps simp del: enumerate_simps)
  have names: "concat (map (\<lambda>(n, l). check (n \<in> set d) path (UndeclaredType n)) m) = [] \<longleftrightarrow>
        fst ` set m \<subseteq> set d" for d path and m :: "(string \<times> 'z) list"
    by (auto simp: check_simps)
  have "Validate p = None \<longleftrightarrow> unsupported_version p = None \<and>
     check_node_types 0 [] (prf_node_types p) = [] \<and>
     concat (map (check_conventions p) (enumerate 0 (prf_node_types p))) = [] \<and>
     concat (map (\<lambda>(i, t). check_fields (declared_types p) t i 0 [] (nt_fields t))
                 (enumerate 0 (prf_node_types p))) = [] \<and>
     concat (map (check_chain p) (enumerate 0 (prf_coverage_chains p))) = [] \<and>
     check_plan_relevant (declared_types p) 0 [] (prf_plan_relevant p) = [] \<and>
     concat (map (\<lambda>(n, l). check (n \<in> set (declared_types p)) PImpactLevels (UndeclaredType n))
                 (prf_impact_levels p)) = [] \<and>
     concat (map (\<lambda>(n, a). check (n \<in> set (declared_types p)) PAbsorbable (UndeclaredType n))
                 (prf_absorbable p)) = []"
    unfolding Validate_def Let_def by (simp split: option.split)
  then show ?thesis
    unfolding conv flds chains names unsupported_version_None check_simps profile_ok_def
    using distinct_type_keys[of "prf_node_types p"] by auto
qed

text \<open>
  C23: \<open>Validate\<close> accepts a profile exactly when it is well formed: supported version, legal
  and unique node types, well-kinded fields, coverage chains over declared reference fields,
  and plan-relevant, impact and absorbable entries that name declared types, the plan-relevant
  ones without repetition.
\<close>

theorem Validate_exact: "Validate p = None \<longleftrightarrow> profile_ok p"
  by (rule Validate_ok)

subsection \<open>Resolution keeps a profile valid and is idempotent\<close>

lemma fill_type_frame:
  "nt_name (fst (fill_type t)) = nt_name t" "nt_scope (fst (fill_type t)) = nt_scope t"
  "nt_plural_key (fst (fill_type t)) = nt_plural_key t"
  "nt_requires_content (fst (fill_type t)) = nt_requires_content t"
  "nt_fields (fst (fill_type t)) = nt_fields t"
  by (auto simp: fill_type_def Let_def split: option.split)

lemma fill_type_idem: "fill_type (fst (fill_type t)) = (fst (fill_type t), False)"
proof (cases "map_of defaultContentConventions (scope_key (nt_scope t) (nt_name t))")
  case None
  then show ?thesis by (simp add: fill_type_def)
next
  case (Some d)
  then show ?thesis
    by (cases "nt_requires_content t"; cases "nt_content_prefix t"; cases "nt_leaf_sections t";
        cases "nt_content_prefix d"; cases "nt_leaf_sections d")
       (simp_all add: fill_type_def)
qed

lemma default_conventions_prefix:
  "\<forall>(k, t) \<in> set defaultContentConventions. nt_content_prefix t \<noteq> Some []"
  by code_simp

lemma fill_type_prefix:
  assumes "nt_content_prefix t \<noteq> Some []"
  shows "nt_content_prefix (fst (fill_type t)) \<noteq> Some []"
proof -
  have "nt_content_prefix d \<noteq> Some []" if "map_of defaultContentConventions k = Some d" for k d
    using default_conventions_prefix[THEN bspec, OF map_of_SomeD[OF that]] by simp
  then show ?thesis using assms by (auto simp: fill_type_def Let_def split: option.split)
qed

lemma fill_type_unfilled: "\<not> snd (fill_type t) \<Longrightarrow> fst (fill_type t) = t"
  by (cases t rule: node_type.cases;
      cases "map_of defaultContentConventions (scope_key (nt_scope t) (nt_name t))";
      cases "nt_content_prefix t"; cases "nt_leaf_sections t")
     (simp_all add: fill_type_def Let_def split: if_splits)

lemma fill_type_filled: "snd (fill_type t) \<Longrightarrow> nt_requires_content t"
  by (auto simp: fill_type_def split: if_splits)

lemma finalize_fields:
  "prf_node_types (finalize p) = map (fst \<circ> fill_type) (prf_node_types p)"
  "prf_version (finalize p) =
     (if list_ex (snd \<circ> fill_type) (prf_node_types p) then Some 2 else prf_version p)"
  "prf_coverage_chains (finalize p) = prf_coverage_chains p"
  "prf_plan_relevant (finalize p) = prf_plan_relevant p"
  "prf_impact_levels (finalize p) = prf_impact_levels p"
  "prf_absorbable (finalize p) = prf_absorbable p"
  "prf_edges (finalize p) = deriveEdges (map (fst \<circ> fill_type) (prf_node_types p))"
  "prf_hashed_fields (finalize p) = deriveHashedFields (map (fst \<circ> fill_type) (prf_node_types p))"
  by (simp_all add: finalize_def fillContentConventions_def stampResolvedVersion_def
      maxProfileVersion_def)

lemma declared_types_finalize [simp]: "declared_types (finalize p) = declared_types p"
  by (simp add: declared_types_def finalize_fields comp_def fill_type_frame)

lemma findField_finalize [simp]: "findField (finalize p) = findField p"
  by (intro ext) (simp add: findField_def finalize_fields filter_map comp_def fill_type_frame)

lemma finalize_conventions:
  assumes "profile_ok p" and "t \<in> set (prf_node_types p)"
  shows "conventions_ok (finalize p) (fst (fill_type t))"
proof -
  have ok: "conventions_ok p t" using assms by (simp add: profile_ok_def)
  have prefix: "nt_content_prefix t \<noteq> Some []" using ok by (auto simp: conventions_ok_def)
  show ?thesis
  proof (cases "snd (fill_type t)")
    case True
    then have "effective_version (finalize p) = 2"
      using assms(2) by (auto simp: effective_version_def finalize_fields list_ex_iff)
    then show ?thesis
      using fill_type_filled[OF True] fill_type_prefix[OF prefix]
      by (simp add: conventions_ok_def fill_type_frame)
  next
    case False
    have "effective_version (finalize p) \<ge> 2" if "effective_version p \<ge> 2"
      using that by (simp add: effective_version_def finalize_fields)
    then show ?thesis
      using ok fill_type_unfilled[OF False] by (auto simp: conventions_ok_def)
  qed
qed

text \<open>
  C24: a resolved profile is itself valid, and resolving it again changes nothing: the printed
  document round-trips through resolution, a version 1 input with filled-in conventions included.
\<close>

theorem finalize_roundtrip:
  assumes "Validate p = None"
  shows "Validate (finalize p) = None \<and> finalize (finalize p) = finalize p"
proof
  have ok: "profile_ok p" using assms by (simp add: Validate_ok)
  have types: "type_ok (fst (fill_type t)) = type_ok t" for t
    by (simp add: type_ok_def fill_type_frame)
  have flds: "field_ok d (fst (fill_type t)) f = field_ok d t f" for d t f
    by (simp add: field_ok_def fill_type_frame)
  have chains: "chain_ok (finalize p) c = chain_ok p c" for c
    by (simp add: chain_ok_def)
  have keys: "map (\<lambda>t. (nt_scope t, nt_name t)) (prf_node_types (finalize p)) =
              map (\<lambda>t. (nt_scope t, nt_name t)) (prf_node_types p)"
    by (simp add: finalize_fields fill_type_frame)
  have "profile_ok (finalize p)"
    using ok finalize_conventions[OF ok]
    unfolding profile_ok_def keys chains
    by (auto simp: finalize_fields types flds fill_type_frame)
  then show "Validate (finalize p) = None" by (simp add: Validate_ok)
  have "fst \<circ> fill_type \<circ> (fst \<circ> fill_type) = fst \<circ> fill_type"
    by (rule ext) (simp add: fill_type_idem)
  moreover have "\<not> list_ex (snd \<circ> fill_type) (map (fst \<circ> fill_type) ts)" for ts
    by (simp add: list_ex_iff fill_type_idem)
  ultimately show "finalize (finalize p) = finalize p"
    by (intro profile.equality) (simp_all add: finalize_fields)
qed

lemma embedded_profile_valid: "Validate embedded_profile = None"
  by code_simp

theorem finalize_roundtrip_witness:
  "Validate DefaultProfile = None \<and> finalize DefaultProfile = DefaultProfile"
  using finalize_roundtrip[OF embedded_profile_valid] by (simp add: DefaultProfile_def)

end
