(* ===== verification/Merkle_Tree.thy ===== *)
theory Merkle_Tree
  imports Schema
begin

text \<open>
  Package \<open>merkle\<close>, the tree itself: \<open>HashBytes\<close> and \<open>HashChildren\<close>
  (\<open>merkle/hasher.go\<close>), \<open>Node\<close> (\<open>merkle/tree_builder.go\<close>), the empty tree
  (\<open>merkle/empty_tree.go\<close>) and the snapshot encoding of a tree as a flat node table and
  back (\<open>merkle/snapshot_store.go\<close>). File input and output and JSON text are left out;
  a \<open>snapshot\<close> record is the decoded snapshot document.
\<close>

subsection \<open>Hashes\<close>

definition HashBytes :: "string \<Rightarrow> string" where
  "HashBytes data = sha256_hex data"

text \<open>The child hashes are sorted, then written one after the other into one digest.\<close>

definition HashChildren :: "string list \<Rightarrow> string" where
  "HashChildren childHashes = sha256_hex (concat (sort childHashes))"

lemma HashChildren_perm: "mset hs = mset hs' \<Longrightarrow> HashChildren hs = HashChildren hs'"
  unfolding HashChildren_def by (metis properties_for_sort mset_sort sorted_sort)

subsection \<open>Nodes\<close>

datatype node =
  Node (nd_key: string) (nd_hash: string) (nd_type: string) (nd_node_type: string)
       (nd_module: string) (nd_children: "node list") (nd_module_name: string)

definition EmptyTree :: node where
  "EmptyTree = Node ''project'' (HashChildren []) ''project'' [] [] [] []"

definition collectHashes :: "node list \<Rightarrow> string list" where
  "collectHashes nodes = map nd_hash nodes"

definition ModuleNames :: "node option \<Rightarrow> (string \<rightharpoonup> string)" where
  "ModuleNames tree =
     (case tree of
        None \<Rightarrow> Map.empty
      | Some t \<Rightarrow>
          fold (\<lambda>child names.
                  if nd_type child = ''module''
                  then names(nd_module child \<mapsto> nd_module_name child) else names)
               (nd_children t) Map.empty)"

text \<open>All nodes of a tree, parents before children, in document order.\<close>

fun subtrees :: "node \<Rightarrow> node list" where
  "subtrees (Node k h t nt m cs mn) = Node k h t nt m cs mn # concat (map subtrees cs)"

definition tree_keys :: "node \<Rightarrow> string list" where
  "tree_keys t = map nd_key (subtrees t)"

fun node_depth :: "node \<Rightarrow> nat" where
  "node_depth (Node k h t nt m cs mn) = Suc (fold max (map node_depth cs) 0)"

lemma subtrees_self [simp]: "t \<in> set (subtrees t)"
  by (cases t) simp

lemma subtrees_child: "c \<in> set (nd_children t) \<Longrightarrow> set (subtrees c) \<subseteq> set (subtrees t)"
  by (cases t) auto

lemma fold_max_ge: "(a::nat) \<le> fold max xs a"
  by (induction xs arbitrary: a) (auto intro: order_trans[OF max.cobounded2])

lemma fold_max_mem: "x \<in> set xs \<Longrightarrow> (x::nat) \<le> fold max xs a"
proof (induction xs arbitrary: a)
  case (Cons y ys)
  show ?case
  proof (cases "x \<in> set ys")
    case False
    then have "x \<le> max y a" using Cons.prems by simp
    also have "\<dots> \<le> fold max ys (max y a)" by (rule fold_max_ge)
    finally show ?thesis by simp
  qed (simp add: Cons.IH)
qed simp

lemma node_depth_child: "c \<in> set cs \<Longrightarrow> node_depth c < node_depth (Node k h t nt m cs mn)"
  using fold_max_mem[of "node_depth c" "map node_depth cs" 0] by auto

subsection \<open>Snapshots\<close>

record snapshot_node =
  sn_hash :: string
  sn_type :: string
  sn_node_type :: string
  sn_module :: string
  sn_children :: "string list"

text \<open>The node table holds pointers: \<open>None\<close> is an entry that the file gives as \<open>null\<close>.\<close>

record snapshot =
  snap_root_hash :: string
  snap_root_key :: string
  snap_created_at :: string
  snap_nodes :: "string \<rightharpoonup> snapshot_node option"

fun flattenTreeToSnapshot :: "node \<Rightarrow> (string \<rightharpoonup> snapshot_node option) \<Rightarrow> (string \<rightharpoonup> snapshot_node option)" where
  "flattenTreeToSnapshot (Node k h t nt m cs mn) nodes =
     fold flattenTreeToSnapshot cs
       (nodes(k \<mapsto> Some \<lparr>sn_hash = h, sn_type = t, sn_node_type = nt, sn_module = m,
                   sn_children = map nd_key cs\<rparr>))"

definition EncodeSnapshot :: "node \<Rightarrow> string \<Rightarrow> snapshot" where
  "EncodeSnapshot tree createdAt =
     \<lparr>snap_root_hash = nd_hash tree, snap_root_key = nd_key tree, snap_created_at = createdAt,
      snap_nodes = flattenTreeToSnapshot tree Map.empty\<rparr>"

text \<open>\<open>NilNode\<close> is not an error the code returns: it is the panic on a \<open>null\<close> entry.\<close>

datatype snapshot_error = MissingRootKey | RootKeyNotFound string | MissingNode string | NilNode string

text \<open>
  \<open>rebuildNode\<close> recurses over the keys a decoded document names, so nothing bounds its
  depth: a node table whose children refer back to an ancestor makes the call run for
  ever. One unit of fuel pays for one level; \<open>None\<close> is a call that has not returned
  within the fuel.
\<close>

fun rebuildNode :: "nat \<Rightarrow> (string \<rightharpoonup> snapshot_node option) \<Rightarrow> string
                    \<Rightarrow> (snapshot_error, node) result option"
  and rebuildChildren :: "nat \<Rightarrow> (string \<rightharpoonup> snapshot_node option) \<Rightarrow> string list
                    \<Rightarrow> (snapshot_error, node list) result option" where
  "rebuildNode 0 nodes key = None"
| "rebuildNode (Suc n) nodes key =
     (case nodes key of
        None \<Rightarrow> Some (Inl (MissingNode key))
      | Some None \<Rightarrow> Some (Inl (NilNode key))
      | Some (Some sn) \<Rightarrow>
          (case rebuildChildren n nodes (sn_children sn) of
             None \<Rightarrow> None
           | Some (Inl e) \<Rightarrow> Some (Inl e)
           | Some (Inr cs) \<Rightarrow>
               Some (Inr (Node key (sn_hash sn) (sn_type sn) (sn_node_type sn) (sn_module sn) cs []))))"
| "rebuildChildren n nodes [] = Some (Inr [])"
| "rebuildChildren n nodes (k # ks) =
     (case rebuildNode n nodes k of
        None \<Rightarrow> None
      | Some (Inl e) \<Rightarrow> Some (Inl e)
      | Some (Inr c) \<Rightarrow>
          (case rebuildChildren n nodes ks of
             None \<Rightarrow> None
           | Some (Inl e) \<Rightarrow> Some (Inl e)
           | Some (Inr cs) \<Rightarrow> Some (Inr (c # cs))))"

definition rebuildTree :: "nat \<Rightarrow> snapshot \<Rightarrow> (snapshot_error, node) result option" where
  "rebuildTree fuel snap =
     (if snap_root_key snap = [] then Some (Inl MissingRootKey)
      else if snap_nodes snap (snap_root_key snap) = None
        then Some (Inl (RootKeyNotFound (snap_root_key snap)))
      else rebuildNode fuel (snap_nodes snap) (snap_root_key snap))"

text \<open>What survives a save and a load: everything but the unexported module name.\<close>

fun persisted :: "node \<Rightarrow> node" where
  "persisted (Node k h t nt m cs mn) = Node k h t nt m (map persisted cs) []"

definition snapshot_entry :: "node \<Rightarrow> snapshot_node" where
  "snapshot_entry n =
     \<lparr>sn_hash = nd_hash n, sn_type = nd_type n, sn_node_type = nd_node_type n,
      sn_module = nd_module n, sn_children = map nd_key (nd_children n)\<rparr>"

lemma flatten_eq_subtrees:
  "flattenTreeToSnapshot t nodes = fold (\<lambda>n m. m(nd_key n \<mapsto> Some (snapshot_entry n))) (subtrees t) nodes"
proof (induction t arbitrary: nodes rule: subtrees.induct)
  case (1 k h t nt m cs mn)
  have "fold flattenTreeToSnapshot cs nodes' =
        fold (\<lambda>n m. m(nd_key n \<mapsto> Some (snapshot_entry n))) (concat (map subtrees cs)) nodes'" for nodes'
    using 1 by (induction cs arbitrary: nodes') auto
  moreover have "\<lparr>sn_hash = h, sn_type = t, sn_node_type = nt, sn_module = m,
      sn_children = map nd_key cs\<rparr> = snapshot_entry (Node k h t nt m cs mn)"
    by (simp add: snapshot_entry_def)
  ultimately show ?case
    by (simp only: flattenTreeToSnapshot.simps subtrees.simps fold_simps node.sel)
qed

lemma fold_upd_lookup:
  assumes "distinct (map key xs)" and "x \<in> set xs"
  shows "fold (\<lambda>x m. m(key x \<mapsto> f x)) xs m0 (key x) = Some (f x)"
  using assms
proof (induction xs arbitrary: m0)
  case (Cons y ys)
  have other: "fold (\<lambda>x m. m(key x \<mapsto> f x)) ys m k = m k" if "k \<notin> key ` set ys" for m k
    using that by (induction ys arbitrary: m) auto
  show ?case
  proof (cases "x = y")
    case True
    have "key y \<notin> key ` set ys" using Cons.prems(1) by simp
    then have "fold (\<lambda>x m. m(key x \<mapsto> f x)) ys (m0(key y \<mapsto> f y)) (key y) = Some (f y)"
      using other[of "key y" "m0(key y \<mapsto> f y)"] by (simp only: fun_upd_same simp_thms)
    then show ?thesis by (simp only: True fold_simps)
  next
    case False
    then show ?thesis using Cons by (simp del: fun_upd_apply)
  qed
qed simp

lemma flatten_lookup:
  "distinct (tree_keys t) \<Longrightarrow> n \<in> set (subtrees t) \<Longrightarrow>
   flattenTreeToSnapshot t nodes (nd_key n) = Some (Some (snapshot_entry n))"
  unfolding flatten_eq_subtrees tree_keys_def by (rule fold_upd_lookup)

lemma rebuild_flattened:
  assumes "\<And>n. n \<in> set (subtrees t) \<Longrightarrow> nodes (nd_key n) = Some (Some (snapshot_entry n))"
    and "node_depth t \<le> fuel"
  shows "rebuildNode fuel nodes (nd_key t) = Some (Inr (persisted t))"
  using assms
proof (induction t arbitrary: fuel rule: subtrees.induct)
  case (1 k h t nt m cs mn)
  let ?n = "Node k h t nt m cs mn"
  obtain f where fuel: "fuel = Suc f" using "1.prems"(2) by (cases fuel) auto
  have "node_depth c \<le> f" if "c \<in> set cs" for c
    using node_depth_child[OF that, of k h t nt m mn] "1.prems"(2) fuel by simp
  then have child: "rebuildNode f nodes (nd_key c) = Some (Inr (persisted c))" if "c \<in> set cs" for c
    using that "1.IH"[OF that] "1.prems"(1) by auto
  have "rebuildChildren f nodes (map nd_key cs) = Some (Inr (map persisted cs))"
    using child by (induction cs) auto
  moreover have "nodes k = Some (Some (snapshot_entry ?n))" using "1.prems"(1)[of ?n] by simp
  ultimately show ?case by (simp add: fuel snapshot_entry_def)
qed

end
