(* ===== verification/Merkle_Diff.thy ===== *)
theory Merkle_Diff
  imports Merkle_Tree
begin

text \<open>
  Package \<open>merkle\<close>, the comparison of two trees: \<open>Diff\<close> (\<open>merkle/diff_engine.go\<close>) and the
  grading of its changes, \<open>Classify\<close> (\<open>merkle/impact_classifier.go\<close>). The properties
  say that the diff is exactly the set of leaf-level differences, in key order, and that it
  does not depend on the order in which Go iterates over its two maps.
\<close>

subsection \<open>The diff engine\<close>

datatype change_type = Added | Removed | Modified

definition change_type_string :: "change_type \<Rightarrow> string" where
  "change_type_string ct =
     (case ct of Added \<Rightarrow> ''added'' | Removed \<Rightarrow> ''removed'' | Modified \<Rightarrow> ''modified'')"

record change =
  chg_key :: string
  chg_type :: change_type
  chg_node_type :: string
  chg_module :: string
  chg_old_hash :: string
  chg_new_hash :: string

record leaf_info =
  lf_hash :: string
  lf_node_type :: string
  lf_module :: string

fun flattenLeaves :: "node \<Rightarrow> (string \<times> leaf_info) list \<Rightarrow> (string \<times> leaf_info) list" where
  "flattenLeaves (Node k h t nt m cs mn) leaves =
     (if t = ''leaf''
      then AList.update k \<lparr>lf_hash = h, lf_node_type = nt, lf_module = m\<rparr> leaves
      else fold flattenLeaves cs leaves)"

text \<open>The two loops over the maps, for the iteration orders \<open>cur\<close> and \<open>old\<close>.\<close>

definition current_changes ::
    "(string \<times> leaf_info) list \<Rightarrow> (string \<times> leaf_info) list \<Rightarrow> change list" where
  "current_changes cur old =
     concat (map (\<lambda>(k, c).
       case map_of old k of
         None \<Rightarrow>
           [\<lparr>chg_key = k, chg_type = Added, chg_node_type = lf_node_type c,
             chg_module = lf_module c, chg_old_hash = [], chg_new_hash = lf_hash c\<rparr>]
       | Some o' \<Rightarrow>
           if lf_hash c \<noteq> lf_hash o'
           then [\<lparr>chg_key = k, chg_type = Modified, chg_node_type = lf_node_type c,
                  chg_module = lf_module c, chg_old_hash = lf_hash o', chg_new_hash = lf_hash c\<rparr>]
           else []) cur)"

definition removed_changes ::
    "(string \<times> leaf_info) list \<Rightarrow> (string \<times> leaf_info) list \<Rightarrow> change list" where
  "removed_changes cur old =
     concat (map (\<lambda>(k, o').
       if map_of cur k = None
       then [\<lparr>chg_key = k, chg_type = Removed, chg_node_type = lf_node_type o',
              chg_module = lf_module o', chg_old_hash = lf_hash o', chg_new_hash = []\<rparr>]
       else []) old)"

definition diff_leaves ::
    "(string \<times> leaf_info) list \<Rightarrow> (string \<times> leaf_info) list \<Rightarrow> change list" where
  "diff_leaves cur old =
     sort_key chg_key (current_changes cur old @ removed_changes cur old)"

definition Diff :: "node \<Rightarrow> node option \<Rightarrow> change list" where
  "Diff current snapshot =
     diff_leaves (flattenLeaves current [])
       (case snapshot of None \<Rightarrow> [] | Some s \<Rightarrow> flattenLeaves s [])"

subsection \<open>What the diff reports\<close>

interpretation change_order: slice_sort "sort_key chg_key" chg_key
  by (rule sort_key_slice_sort)

text \<open>The abstract specification: one change per key on which the two leaf maps differ.\<close>

definition leaf_change ::
    "string \<Rightarrow> leaf_info option \<Rightarrow> leaf_info option \<Rightarrow> change option" where
  "leaf_change k cur old =
     (case (cur, old) of
        (None, None) \<Rightarrow> None
      | (Some c, None) \<Rightarrow>
          Some \<lparr>chg_key = k, chg_type = Added, chg_node_type = lf_node_type c,
                chg_module = lf_module c, chg_old_hash = [], chg_new_hash = lf_hash c\<rparr>
      | (None, Some o') \<Rightarrow>
          Some \<lparr>chg_key = k, chg_type = Removed, chg_node_type = lf_node_type o',
                chg_module = lf_module o', chg_old_hash = lf_hash o', chg_new_hash = []\<rparr>
      | (Some c, Some o') \<Rightarrow>
          (if lf_hash c = lf_hash o' then None
           else Some \<lparr>chg_key = k, chg_type = Modified, chg_node_type = lf_node_type c,
                      chg_module = lf_module c, chg_old_hash = lf_hash o',
                      chg_new_hash = lf_hash c\<rparr>))"

lemma flattenLeaves_distinct:
  "distinct (map fst leaves) \<Longrightarrow> distinct (map fst (flattenLeaves t leaves))"
proof (induction t leaves rule: flattenLeaves.induct)
  case (1 k h t nt m cs mn leaves)
  have "distinct (map fst (fold flattenLeaves cs ls))" if "distinct (map fst ls)" "t \<noteq> ''leaf''" for ls
    using that "1.IH" by (induction cs arbitrary: ls) auto
  then show ?case using "1.prems" by (auto simp: distinct_update)
qed

lemma leaf_change_key: "leaf_change k cur old = Some c \<Longrightarrow> chg_key c = k"
  by (auto simp: leaf_change_def split: option.splits if_splits)

lemma current_changes_eq:
  "current_changes cur old =
     List.map_filter (\<lambda>(k, c). leaf_change k (Some c) (map_of old k)) cur"
  unfolding current_changes_def
proof (induction cur)
  case (Cons p cur)
  then show ?case
    by (cases p; cases "map_of old (fst p)") (simp_all add: leaf_change_def)
qed simp

lemma removed_changes_eq:
  "removed_changes cur old =
     List.map_filter (\<lambda>(k, o'). if map_of cur k = None then leaf_change k None (Some o') else None) old"
  unfolding removed_changes_def
  by (induction old) (auto simp: leaf_change_def)

lemma set_current_changes:
  assumes "distinct (map fst cur)"
  shows "c \<in> set (current_changes cur old) \<longleftrightarrow>
         (\<exists>v. map_of cur (chg_key c) = Some v \<and>
              leaf_change (chg_key c) (Some v) (map_of old (chg_key c)) = Some c)"
  unfolding current_changes_eq
  by (rule set_map_filter_alist[OF leaf_change_key assms])

lemma set_removed_changes:
  assumes "distinct (map fst old)"
  shows "c \<in> set (removed_changes cur old) \<longleftrightarrow>
         (\<exists>v. map_of old (chg_key c) = Some v \<and> map_of cur (chg_key c) = None \<and>
              leaf_change (chg_key c) None (Some v) = Some c)"
  unfolding removed_changes_eq
  by (subst set_map_filter_alist[OF _ assms, where key = chg_key])
     (auto split: if_splits dest: leaf_change_key)

lemma set_diff_leaves:
  assumes "distinct (map fst cur)" and "distinct (map fst old)"
  shows "c \<in> set (diff_leaves cur old) \<longleftrightarrow>
         leaf_change (chg_key c) (map_of cur (chg_key c)) (map_of old (chg_key c)) = Some c"
  using set_current_changes[OF assms(1), of c old] set_removed_changes[OF assms(2), of c cur]
  by (cases "map_of cur (chg_key c)"; cases "map_of old (chg_key c)")
     (auto simp: diff_leaves_def leaf_change_def)

lemma diff_keys_distinct:
  assumes "distinct (map fst cur)" and "distinct (map fst old)"
  shows "distinct (map chg_key (current_changes cur old @ removed_changes cur old))"
proof -
  have "distinct (map chg_key (current_changes cur old))"
    unfolding current_changes_eq by (rule distinct_map_filter_keys[OF leaf_change_key assms(1)])
  moreover have "distinct (map chg_key (removed_changes cur old))"
    unfolding removed_changes_eq
    by (rule distinct_map_filter_keys[OF _ assms(2)]) (auto split: if_splits dest: leaf_change_key)
  moreover have "chg_key x \<noteq> chg_key y"
    if "x \<in> set (current_changes cur old)" "y \<in> set (removed_changes cur old)" for x y
    using that set_current_changes[OF assms(1), of x old] set_removed_changes[OF assms(2), of y cur]
    by auto
  ultimately show ?thesis by auto
qed

lemma diff_leaves_sorted:
  assumes "distinct (map fst cur)" and "distinct (map fst old)"
  shows "sorted_wrt (<) (map chg_key (diff_leaves cur old))"
  unfolding diff_leaves_def
  by (rule change_order.srt_strict[OF diff_keys_distinct[OF assms]])

lemma diff_leaves_determined:
  assumes "distinct (map fst cur)" "distinct (map fst old)"
    and "distinct (map fst cur')" "distinct (map fst old')"
    and "map_of cur = map_of cur'" and "map_of old = map_of old'"
  shows "diff_leaves cur old = diff_leaves cur' old'"
proof (rule map_sorted_distinct_set_unique[where f = chg_key])
  have same: "set (diff_leaves cur old) = set (diff_leaves cur' old')"
    using assms by (auto simp: set_diff_leaves)
  have strict: "sorted_wrt (<) (map chg_key (diff_leaves cur old))"
       "sorted_wrt (<) (map chg_key (diff_leaves cur' old'))"
    using assms by (simp_all add: diff_leaves_sorted)
  then show "sorted (map chg_key (diff_leaves cur old))"
       "sorted (map chg_key (diff_leaves cur' old'))"
       "distinct (map chg_key (diff_leaves cur old))"
       "distinct (map chg_key (diff_leaves cur' old'))"
    by (simp_all add: strict_sorted_iff)
  then show "inj_on chg_key (set (diff_leaves cur old) \<union> set (diff_leaves cur' old'))"
    unfolding same by (simp add: distinct_map)
  show "set (diff_leaves cur old) = set (diff_leaves cur' old')" by (rule same)
qed

lemma Diff_changes:
  "set (Diff cur snap) =
     {c. \<exists>k. leaf_change k (map_of (flattenLeaves cur []) k)
               (case snap of None \<Rightarrow> None | Some s \<Rightarrow> map_of (flattenLeaves s []) k) = Some c} \<and>
   sorted_wrt (<) (map chg_key (Diff cur snap))"
proof -
  have cur: "distinct (map fst (flattenLeaves cur []))" by (rule flattenLeaves_distinct) simp
  have old: "distinct (map fst (case snap of None \<Rightarrow> [] | Some s \<Rightarrow> flattenLeaves s []))"
    by (auto intro: flattenLeaves_distinct split: option.split)
  have lookup: "map_of (case snap of None \<Rightarrow> [] | Some s \<Rightarrow> flattenLeaves s []) k =
        (case snap of None \<Rightarrow> None | Some s \<Rightarrow> map_of (flattenLeaves s []) k)" for k
    by (simp split: option.split)
  show ?thesis
    unfolding Diff_def
    using set_diff_leaves[OF cur old] diff_leaves_sorted[OF cur old] leaf_change_key
    by (fastforce simp: lookup)
qed

text \<open>
  C20: the diff of two trees is exactly the set of keys on which the leaf maps differ, each with
  its kind, hashes and metadata, listed once and in key order.
\<close>

theorem Diff_exact:
  "set (Diff cur snap) =
     {c. \<exists>k. leaf_change k (map_of (flattenLeaves cur []) k)
               (case snap of None \<Rightarrow> None | Some s \<Rightarrow> map_of (flattenLeaves s []) k) = Some c} \<and>
   sorted_wrt (<) (map chg_key (Diff cur snap))"
  by (rule Diff_changes)

text \<open>
  The order in which Go iterates over the two leaf maps does not show in the result: any
  two enumerations of the same maps give the same list of changes.
\<close>

theorem Diff_iteration_order:
  assumes "distinct (map fst cur)" and "distinct (map fst old)"
    and "mset cur' = mset cur" and "mset old' = mset old"
  shows "diff_leaves cur' old' = diff_leaves cur old"
proof -
  have d: "distinct (map fst cur')" "distinct (map fst old')"
    using assms by (metis mset_eq_imp_distinct_iff mset_map)+
  have "set cur' = set cur" "set old' = set old"
    using assms(3,4) by (auto dest: mset_eq_setD)
  then have "map_of cur' = map_of cur" "map_of old' = map_of old"
    using map_of_inject_set d assms(1,2) by blast+
  then show ?thesis using d assms by (intro diff_leaves_determined)
qed

theorem Diff_iteration_order_witness:
  "diff_leaves [(''b'', \<lparr>lf_hash = ''2'', lf_node_type = [], lf_module = []\<rparr>),
                (''a'', \<lparr>lf_hash = ''1'', lf_node_type = [], lf_module = []\<rparr>)] []
   = diff_leaves [(''a'', \<lparr>lf_hash = ''1'', lf_node_type = [], lf_module = []\<rparr>),
                (''b'', \<lparr>lf_hash = ''2'', lf_node_type = [], lf_module = []\<rparr>)] []"
  by (rule Diff_iteration_order) simp_all

subsection \<open>Diffing against a saved snapshot\<close>

lemma flattenLeaves_persisted: "flattenLeaves (persisted t) leaves = flattenLeaves t leaves"
proof (induction t leaves rule: flattenLeaves.induct)
  case (1 k h t nt m cs mn leaves)
  have "fold flattenLeaves (map persisted cs) ls = fold flattenLeaves cs ls" if "t \<noteq> ''leaf''" for ls
    using "1.IH"[OF that] by (induction cs arbitrary: ls) auto
  then show ?case by simp
qed

lemma Diff_same_leaves:
  assumes "flattenLeaves s [] = flattenLeaves t []"
  shows "Diff t (Some s) = []"
proof -
  have "set (Diff t (Some s)) = {}"
    using Diff_changes[of t "Some s"] assms by (auto simp: leaf_change_def split: option.splits)
  then show ?thesis by simp
qed

lemma snapshot_reload:
  assumes "distinct (tree_keys t)" and "nd_key t \<noteq> []" and "node_depth t \<le> fuel"
  shows "rebuildTree fuel (EncodeSnapshot t ts) = Some (Inr (persisted t)) \<and>
         Diff t (Some (persisted t)) = []"
proof
  have lookup: "flattenTreeToSnapshot t Map.empty (nd_key n) = Some (Some (snapshot_entry n))"
    if "n \<in> set (subtrees t)" for n
    using assms(1) that by (rule flatten_lookup)
  show "rebuildTree fuel (EncodeSnapshot t ts) = Some (Inr (persisted t))"
    using rebuild_flattened[OF lookup assms(3)] assms(2) lookup[OF subtrees_self]
    by (simp add: rebuildTree_def EncodeSnapshot_def)
  show "Diff t (Some (persisted t)) = []"
    by (rule Diff_same_leaves) (rule flattenLeaves_persisted)
qed

text \<open>
  C21: saving a tree and loading it back returns the tree (without its unexported module
  names), given one unit of fuel per level, and the tree then has no change against it: a
  diff taken right after the snapshot was written is empty.
\<close>

theorem snapshot_roundtrip:
  assumes "distinct (tree_keys t)" and "nd_key t \<noteq> []" and "node_depth t \<le> fuel"
  shows "rebuildTree fuel (EncodeSnapshot t ts) = Some (Inr (persisted t)) \<and>
         Diff t (Some (persisted t)) = []"
  by (rule snapshot_reload[OF assms])

theorem snapshot_roundtrip_witness:
  "rebuildTree 2 (EncodeSnapshot
      (Node ''project'' ''r'' ''project'' [] []
         [Node ''a'' ''h'' ''leaf'' ''component'' ''m'' [] []] []) ''t'') =
   Some (Inr (Node ''project'' ''r'' ''project'' [] []
         [Node ''a'' ''h'' ''leaf'' ''component'' ''m'' [] []] []))"
  using snapshot_roundtrip[of "Node ''project'' ''r'' ''project'' [] []
         [Node ''a'' ''h'' ''leaf'' ''component'' ''m'' [] []] []" 2 "''t''"]
  by (simp add: tree_keys_def)

subsection \<open>Which snapshots load\<close>

text \<open>The child links of a node table, and the keys the loader comes to.\<close>

definition snapshot_links :: "(string \<rightharpoonup> snapshot_node option) \<Rightarrow> (string \<times> string) set" where
  "snapshot_links nodes = {(k, c). \<exists>sn. nodes k = Some (Some sn) \<and> c \<in> set (sn_children sn)}"

definition links_to_entries :: "snapshot \<Rightarrow> bool" where
  "links_to_entries snap \<longleftrightarrow>
     (\<forall>k. (snap_root_key snap, k) \<in> (snapshot_links (snap_nodes snap))\<^sup>* \<longrightarrow> (\<exists>sn. snap_nodes snap k = Some (Some sn)))"

definition reaches_cycle :: "snapshot \<Rightarrow> bool" where
  "reaches_cycle snap \<longleftrightarrow>
     (\<exists>k. (snap_root_key snap, k) \<in> (snapshot_links (snap_nodes snap))\<^sup>* \<and>
          (k, k) \<in> (snapshot_links (snap_nodes snap))\<^sup>+)"

lemma rebuild_more_fuel:
  "rebuildNode n nodes k = Some r \<Longrightarrow> n \<le> n' \<Longrightarrow> rebuildNode n' nodes k = Some r"
  "rebuildChildren n nodes ks = Some rs \<Longrightarrow> n \<le> n' \<Longrightarrow> rebuildChildren n' nodes ks = Some rs"
proof (induction n nodes k and n nodes ks arbitrary: r n' and rs n' rule: rebuildNode_rebuildChildren.induct)
  case (2 n nodes key)
  obtain m where m: "n' = Suc m" "n \<le> m" using "2.prems"(2) by (cases n') auto
  show ?case
  proof (cases "\<exists>sn. nodes key = Some (Some sn)")
    case True
    then obtain sn where sn: "nodes key = Some (Some sn)" by blast
    then obtain rs where "rebuildChildren n nodes (sn_children sn) = Some rs"
      using "2.prems"(1) by (auto split: option.splits)
    then show ?thesis using "2.IH"[OF sn refl _ m(2)] "2.prems"(1) sn m(1) by simp
  qed (use "2.prems"(1) m(1) in \<open>auto split: option.splits\<close>)
next
  case (4 n nodes k ks)
  show ?case
  proof (cases "rebuildNode n nodes k")
    case (Some r)
    note k = "4.IH"(1)[OF Some "4.prems"(2)]
    show ?thesis
    proof (cases r)
      case (Inr c)
      then obtain rs' where "rebuildChildren n nodes ks = Some rs'"
        using "4.prems"(1) Some by (auto split: option.splits)
      then show ?thesis using "4.IH"(2)[OF Some Inr _ "4.prems"(2)] "4.prems"(1) Some Inr k by simp
    qed (use "4.prems"(1) Some k in simp)
  qed (use "4.prems"(1) in simp)
qed simp_all

lemma rebuildChildren_tree:
  assumes "\<forall>k \<in> set ks. \<exists>n t. rebuildNode n nodes k = Some (Inr t)"
  shows "\<exists>n ts. rebuildChildren n nodes ks = Some (Inr ts)"
  using assms
proof (induction ks)
  case (Cons k ks)
  obtain n t where n: "rebuildNode n nodes k = Some (Inr t)" using Cons.prems by auto
  obtain m ts where m: "rebuildChildren m nodes ks = Some (Inr ts)" using Cons by auto
  show ?case
    using rebuild_more_fuel(1)[OF n, of "max n m"] rebuild_more_fuel(2)[OF m, of "max n m"]
    by (intro exI[of _ "max n m"] exI[of _ "t # ts"]) simp
qed simp

lemma rebuildChildren_each:
  assumes "rebuildChildren n nodes ks = Some (Inr ts)" and "k \<in> set ks"
  shows "\<exists>t. rebuildNode n nodes k = Some (Inr t)"
  using assms
proof (induction ks arbitrary: ts)
  case (Cons k' ks)
  then show ?case by (auto split: option.splits sum.splits)
qed simp

text \<open>Where every link has an entry, a load that returns at all returns a tree.\<close>

lemma rebuild_no_error:
  "\<forall>k'. (k, k') \<in> (snapshot_links nodes)\<^sup>* \<longrightarrow> (\<exists>sn. nodes k' = Some (Some sn)) \<Longrightarrow>
     rebuildNode n nodes k \<noteq> Some (Inl e)"
  "\<forall>k \<in> set ks. \<forall>k'. (k, k') \<in> (snapshot_links nodes)\<^sup>* \<longrightarrow> (\<exists>sn. nodes k' = Some (Some sn)) \<Longrightarrow>
     rebuildChildren n nodes ks \<noteq> Some (Inl e)"
proof (induction n nodes k and n nodes ks rule: rebuildNode_rebuildChildren.induct)
  case (2 n nodes key)
  obtain sn where sn: "nodes key = Some (Some sn)" using "2.prems" by blast
  have "(key, c) \<in> snapshot_links nodes" if "c \<in> set (sn_children sn)" for c
    using that sn by (simp add: snapshot_links_def)
  then have "rebuildChildren n nodes (sn_children sn) \<noteq> Some (Inl e)"
    using "2.IH"[OF sn refl] "2.prems" by (meson converse_rtrancl_into_rtrancl)
  then show ?case using sn by (auto split: option.split sum.split)
next
  case (4 n nodes k ks)
  then show ?case by (auto split: option.split sum.split)
qed simp_all

text \<open>A load that returns a tree spends fuel on every link, so it has been around no cycle.\<close>

lemma rebuild_link:
  assumes "rebuildNode n nodes k = Some (Inr t)" and "(k, c) \<in> snapshot_links nodes"
  shows "\<exists>m < n. \<exists>t'. rebuildNode m nodes c = Some (Inr t')"
proof -
  obtain sn where sn: "nodes k = Some (Some sn)" "c \<in> set (sn_children sn)" using assms(2) by (auto simp: snapshot_links_def)
  obtain m where m: "n = Suc m" using assms(1) by (cases n) auto
  obtain ts where "rebuildChildren m nodes (sn_children sn) = Some (Inr ts)"
    using assms(1) sn(1) by (auto simp: m split: option.splits sum.splits)
  from rebuildChildren_each[OF this sn(2)] show ?thesis using m by blast
qed

lemma rebuild_path:
  assumes "(k, c) \<in> (snapshot_links nodes)\<^sup>+" and "rebuildNode n nodes k = Some (Inr t)"
  shows "\<exists>m < n. \<exists>t'. rebuildNode m nodes c = Some (Inr t')"
  using assms
proof (induction rule: trancl_induct)
  case (step b c)
  then obtain m t' where "m < n" "rebuildNode m nodes b = Some (Inr t')" by blast
  then show ?case using rebuild_link[OF _ step.hyps(2)] by (meson order.strict_trans)
qed (rule rebuild_link)

lemma rebuild_no_cycle: "rebuildNode n nodes k = Some (Inr t) \<Longrightarrow> (k, k) \<notin> (snapshot_links nodes)\<^sup>+"
proof (induction n arbitrary: t rule: less_induct)
  case (less n)
  then show ?case using rebuild_path by metis
qed

lemma rebuild_reached:
  "(k, c) \<in> (snapshot_links nodes)\<^sup>* \<Longrightarrow> rebuildNode n nodes k = Some (Inr t) \<Longrightarrow> \<exists>m t'. rebuildNode m nodes c = Some (Inr t')"
  unfolding rtrancl_eq_or_trancl using rebuild_path by metis

lemma rebuild_entry: "rebuildNode n nodes k = Some (Inr t) \<Longrightarrow> \<exists>sn. nodes k = Some (Some sn)"
  by (cases n) (auto split: option.splits)

text \<open>Without a cycle the links that are reached are well-founded, and induction along them gives the tree.\<close>

lemma rebuild_acyclic:
  assumes fin: "finite (dom nodes)" and acyc: "\<nexists>k. (r, k) \<in> (snapshot_links nodes)\<^sup>* \<and> (k, k) \<in> (snapshot_links nodes)\<^sup>+"
    and ents: "\<forall>k. (r, k) \<in> (snapshot_links nodes)\<^sup>* \<longrightarrow> (\<exists>sn. nodes k = Some (Some sn))"
  shows "\<exists>n t. rebuildNode n nodes r = Some (Inr t)"
proof -
  let ?L = "snapshot_links nodes"
  let ?R = "{(k, c) \<in> ?L. (r, k) \<in> ?L\<^sup>*}"
  have "?L \<subseteq> (\<Union>k \<in> dom nodes. \<Union>sn \<in> {sn. nodes k = Some (Some sn)}. {k} \<times> set (sn_children sn))"
    by (auto simp: snapshot_links_def)
  moreover have "finite {sn. nodes k = Some (Some sn)}" for k
    by (rule finite_subset[of _ "{the (the (nodes k))}"]) auto
  ultimately have "finite ?L" using fin by (auto intro: finite_subset)
  then have "finite ?R" by (rule rev_finite_subset) blast
  moreover have sub: "(k, c) \<in> ?R\<^sup>+ \<Longrightarrow> (r, k) \<in> ?L\<^sup>* \<and> (k, c) \<in> ?L\<^sup>+" for k c
    by (induction rule: trancl_induct) (auto intro: trancl_into_trancl)
  then have "acyclic ?R" using acyc unfolding acyclic_def by blast
  ultimately have "wf (?R\<inverse>)" by (rule finite_acyclic_wf_converse)
  then have "(r, k) \<in> ?L\<^sup>* \<longrightarrow> (\<exists>n t. rebuildNode n nodes k = Some (Inr t))" for k
  proof (induction k rule: wf_induct_rule)
    case (less k)
    show ?case
    proof
      assume k: "(r, k) \<in> ?L\<^sup>*"
      then obtain sn where sn: "nodes k = Some (Some sn)" using ents by blast
      have "\<exists>n t. rebuildNode n nodes c = Some (Inr t)" if "c \<in> set (sn_children sn)" for c
      proof -
        have l: "(k, c) \<in> ?L" using that sn by (auto simp: snapshot_links_def)
        then have "(c, k) \<in> ?R\<inverse>" "(r, c) \<in> ?L\<^sup>*" using k by (auto intro: rtrancl_into_rtrancl)
        then show ?thesis using less.IH by blast
      qed
      then obtain n ts where "rebuildChildren n nodes (sn_children sn) = Some (Inr ts)"
        using rebuildChildren_tree by blast
      then have "rebuildNode (Suc n) nodes k =
          Some (Inr (Node k (sn_hash sn) (sn_type sn) (sn_node_type sn) (sn_module sn) ts []))"
        using sn by simp
      then show "\<exists>n t. rebuildNode n nodes k = Some (Inr t)" by blast
    qed
  qed
  then show ?thesis by blast
qed

text \<open>
  C22: a snapshot loads, given enough steps, exactly when every key the child links lead to from the root has
  an entry and the links run into no cycle. When every such key has an entry and the links do run into a cycle,
  of whatever length and however far from the root, no number of steps lets \<open>rebuildNode\<close> return: it gives
  neither a tree nor an error. The node table of a decoded file is finite, and its root key is not empty.
\<close>

theorem snapshot_cycle_diverges:
  assumes "finite (dom (snap_nodes snap))" and "snap_root_key snap \<noteq> []"
  shows "((\<exists>fuel t. rebuildTree fuel snap = Some (Inr t)) \<longleftrightarrow> links_to_entries snap \<and> \<not> reaches_cycle snap) \<and>
    (links_to_entries snap \<and> reaches_cycle snap \<longrightarrow> (\<forall>fuel. rebuildTree fuel snap = None))"
proof -
  let ?N = "snap_nodes snap" and ?r = "snap_root_key snap"
  have tree: "(\<exists>t. rebuildTree n snap = Some (Inr t)) \<longleftrightarrow> (\<exists>t. rebuildNode n ?N ?r = Some (Inr t))" for n
    using assms(2) by (cases n) (auto simp: rebuildTree_def)
  have loads: "(\<exists>n t. rebuildNode n ?N ?r = Some (Inr t)) \<longleftrightarrow> links_to_entries snap \<and> \<not> reaches_cycle snap"
  proof
    assume "\<exists>n t. rebuildNode n ?N ?r = Some (Inr t)"
    then have "\<exists>n t. rebuildNode n ?N k = Some (Inr t)" if "(?r, k) \<in> (snapshot_links ?N)\<^sup>*" for k
      using rebuild_reached[OF that] by blast
    then show "links_to_entries snap \<and> \<not> reaches_cycle snap"
      unfolding links_to_entries_def reaches_cycle_def using rebuild_entry rebuild_no_cycle by metis
  next
    assume "links_to_entries snap \<and> \<not> reaches_cycle snap"
    then show "\<exists>n t. rebuildNode n ?N ?r = Some (Inr t)"
      unfolding links_to_entries_def reaches_cycle_def by (intro rebuild_acyclic[OF assms(1)]) blast+
  qed
  have "rebuildTree n snap = None" if l: "links_to_entries snap" "reaches_cycle snap" for n
  proof -
    have "rebuildNode n ?N ?r \<noteq> Some (Inl e)" for e
      by (rule rebuild_no_error(1)) (use l(1) in \<open>simp add: links_to_entries_def\<close>)
    moreover have "rebuildNode n ?N ?r \<noteq> Some (Inr t)" for t using loads l by blast
    moreover have "?N ?r \<noteq> None" using l(1) by (auto simp: links_to_entries_def)
    ultimately have "rebuildNode n ?N ?r = None" by (metis option.exhaust sum.exhaust)
    then show ?thesis using assms(2) \<open>?N ?r \<noteq> None\<close> by (simp add: rebuildTree_def)
  qed
  then show ?thesis using loads tree by blast
qed

text \<open>A cycle of two nodes below the root.\<close>

definition table_entry :: "string list \<Rightarrow> snapshot_node" where
  "table_entry cs = \<lparr>sn_hash = [], sn_type = ''module'', sn_node_type = [], sn_module = [], sn_children = cs\<rparr>"

definition cyclic_snapshot :: snapshot where
  "cyclic_snapshot =
     \<lparr>snap_root_hash = [], snap_root_key = ''r'', snap_created_at = [],
      snap_nodes = [''r'' \<mapsto> Some (table_entry [''a'']), ''a'' \<mapsto> Some (table_entry [''b'']), ''b'' \<mapsto> Some (table_entry [''a''])]\<rparr>"

theorem snapshot_cycle_diverges_witness: "rebuildTree 100 cyclic_snapshot = None"
proof -
  let ?L = "snapshot_links (snap_nodes cyclic_snapshot)"
  have L: "?L = {(''r'', ''a''), (''a'', ''b''), (''b'', ''a'')}"
    by (auto simp: snapshot_links_def cyclic_snapshot_def table_entry_def split: if_splits)
  have r: "snap_root_key cyclic_snapshot = ''r''" by (simp add: cyclic_snapshot_def)
  have "(''r'', ''a'') \<in> ?L\<^sup>*" "(''a'', ''a'') \<in> ?L\<^sup>+"
    unfolding L by (auto intro: trancl_into_trancl)
  then have "reaches_cycle cyclic_snapshot" unfolding reaches_cycle_def r by blast
  moreover have "k \<in> {''r'', ''a'', ''b''}" if "(''r'', k) \<in> ?L\<^sup>*" for k
    using that by (induction rule: rtrancl_induct) (auto simp: L)
  then have "links_to_entries cyclic_snapshot"
    unfolding links_to_entries_def r by (force simp: cyclic_snapshot_def)
  moreover have "finite (dom (snap_nodes cyclic_snapshot))" "snap_root_key cyclic_snapshot \<noteq> []"
    by (simp_all add: cyclic_snapshot_def)
  ultimately show ?thesis using snapshot_cycle_diverges by blast
qed

subsection \<open>Impact classification\<close>

datatype impact_level = Unknown | ImplOnly | Contract | ArchImpl | Structural

definition impact_string :: "impact_level \<Rightarrow> string" where
  "impact_string il =
     (case il of
        ImplOnly \<Rightarrow> ''impl_only'' | Contract \<Rightarrow> ''contract'' | ArchImpl \<Rightarrow> ''arch_impl''
      | Structural \<Rightarrow> ''structural'' | Unknown \<Rightarrow> ''unknown'')"

text \<open>The embedded \<open>Change\<close> keeps the module's identity hash, the outer field its name.\<close>

record classified_change =
  cc_change :: change
  cc_impact :: impact_level
  cc_module :: string

definition parseImpactLevel :: "string \<Rightarrow> impact_level" where
  "parseImpactLevel name =
     (if name = ''impl_only'' then ImplOnly
      else if name = ''contract'' then Contract
      else if name = ''arch_impl'' then ArchImpl
      else if name = ''structural'' then Structural
      else Unknown)"

definition classifyNodeType :: "string \<Rightarrow> profile \<Rightarrow> impact_level" where
  "classifyNodeType nodeType prof =
     (if nodeType = ''meta'' then Structural
      else case map_of (prf_impact_levels prof) nodeType of
             None \<Rightarrow> Unknown
           | Some levelName \<Rightarrow> parseImpactLevel levelName)"

text \<open>A nil name table behaves as the empty one: neither has an entry.\<close>

definition resolveModule :: "string \<Rightarrow> (string \<rightharpoonup> string) \<Rightarrow> string" where
  "resolveModule moduleHash moduleNames =
     (if moduleHash = [] then []
      else case moduleNames moduleHash of Some name \<Rightarrow> name | None \<Rightarrow> moduleHash)"

definition Classify :: "change list \<Rightarrow> (string \<rightharpoonup> string) \<Rightarrow> profile \<Rightarrow> classified_change list" where
  "Classify changes moduleNames prof =
     map (\<lambda>c. \<lparr>cc_change = c, cc_impact = classifyNodeType (chg_node_type c) prof,
                cc_module = resolveModule (chg_module c) moduleNames\<rparr>) changes"

abbreviation cc_key :: "classified_change \<Rightarrow> string" where
  "cc_key c \<equiv> chg_key (cc_change c)"

abbreviation cc_type :: "classified_change \<Rightarrow> change_type" where
  "cc_type c \<equiv> chg_type (cc_change c)"

abbreviation cc_node_type :: "classified_change \<Rightarrow> string" where
  "cc_node_type c \<equiv> chg_node_type (cc_change c)"

abbreviation cc_old_hash :: "classified_change \<Rightarrow> string" where
  "cc_old_hash c \<equiv> chg_old_hash (cc_change c)"

abbreviation cc_new_hash :: "classified_change \<Rightarrow> string" where
  "cc_new_hash c \<equiv> chg_new_hash (cc_change c)"

lemma parse_impact_string: "parseImpactLevel (impact_string il) = il"
  by (cases il) (simp_all add: parseImpactLevel_def impact_string_def)

lemma Classify_changes [simp]: "map cc_change (Classify changes names prof) = changes"
  by (simp add: Classify_def comp_def)

end
