(* ===== verification/Journal.thy ===== *)
theory Journal
  imports Schema
begin

text \<open>
  Package \<open>mapping\<close>: the task journal (\<open>mapping/mapping_store.go\<close>). A journal is the list of
  its decoded lines in file order, each carrying its line number; \<open>fold\<close> computes the current
  pairing of every node, \<open>Get\<close> and \<open>History\<close> query it. Reading and writing the file, the
  JSON text of a line and its schema validation are left out.
\<close>

subsection \<open>Journal lines\<close>

record event =
  ev_event :: string
  ev_eid :: string
  ev_node :: string
  ev_name :: string
  ev_node_type :: string
  ev_module :: string
  ev_before :: "string option"
  ev_after :: "string option"
  ev_git_head :: string
  ev_path :: string
  ev_proposal :: string
  ev_for :: string
  ev_task_id :: string
  ev_absorbed :: "string list"
  ev_line :: nat

definition blank_event :: event where
  "blank_event = \<lparr>ev_event = [], ev_eid = [], ev_node = [], ev_name = [], ev_node_type = [],
     ev_module = [], ev_before = None, ev_after = None, ev_git_head = [], ev_path = [],
     ev_proposal = [], ev_for = [], ev_task_id = [], ev_absorbed = [], ev_line = 0\<rparr>"

definition is_change_event :: "event \<Rightarrow> bool" where
  "is_change_event ev \<longleftrightarrow>
     ev_event ev = ''added'' \<or> ev_event ev = ''modified'' \<or> ev_event ev = ''removed''"

definition is_receipt_event :: "event \<Rightarrow> bool" where
  "is_receipt_event ev \<longleftrightarrow>
     ev_event ev = ''task_created'' \<or> ev_event ev = ''task_closed'' \<or>
     ev_event ev = ''task_retargeted''"

subsection \<open>The fold\<close>

record fold_entry =
  fe_key :: string
  fe_task_id :: string
  fe_removed :: bool
  fe_source :: event

record journal_fold =
  jf_entries :: "fold_entry list"
  jf_dangling :: "event list"

text \<open>The index of referents, built in full before the walk; a later line wins.\<close>

definition is_referent :: "event \<Rightarrow> bool" where
  "is_referent ev \<longleftrightarrow> is_change_event ev \<or> ev_event ev = ''registered''"

definition index_event :: "event \<Rightarrow> (string \<rightharpoonup> event) \<Rightarrow> (string \<rightharpoonup> event)" where
  "index_event ev m = (if is_referent ev then m(ev_eid ev \<mapsto> ev) else m)"

definition byEID :: "event list \<Rightarrow> (string \<rightharpoonup> event)" where
  "byEID events = fold index_event events Map.empty"

type_synonym fold_state = "(string \<times> fold_entry) list \<times> event list"

text \<open>One iteration of the walk: the two \<open>case\<close> arms of the switch, every other kind skipped.\<close>

definition fold_step :: "(string \<rightharpoonup> event) \<Rightarrow> event \<Rightarrow> fold_state \<Rightarrow> fold_state" where
  "fold_step index ev st =
     (case st of (entries, dangling) \<Rightarrow>
       if ev_event ev = ''removed'' then
         (case map_of entries (ev_node ev) of
            Some prior \<Rightarrow>
              if ev_eid (fe_source prior) = ev_eid ev then (entries, dangling)
              else (AList.update (ev_node ev)
                      \<lparr>fe_key = ev_node ev, fe_task_id = [], fe_removed = True, fe_source = ev\<rparr>
                      entries, dangling)
          | None \<Rightarrow>
              (AList.update (ev_node ev)
                 \<lparr>fe_key = ev_node ev, fe_task_id = [], fe_removed = True, fe_source = ev\<rparr>
                 entries, dangling))
       else if ev_event ev = ''task_created'' \<or> ev_event ev = ''task_retargeted'' then
         (if ev_proposal ev \<noteq> [] then
            (AList.update (ev_proposal ev)
               \<lparr>fe_key = ev_proposal ev, fe_task_id = ev_task_id ev, fe_removed = False,
                fe_source = ev\<rparr> entries, dangling)
          else
            (case index (ev_for ev) of
               None \<Rightarrow> (entries, dangling @ [ev])
             | Some referent \<Rightarrow>
                 if ev_event referent = ''registered'' then
                   (AList.update (ev_proposal referent)
                      \<lparr>fe_key = ev_proposal referent, fe_task_id = ev_task_id ev,
                       fe_removed = False, fe_source = referent\<rparr> entries, dangling)
                 else
                   (AList.update (ev_node referent)
                      \<lparr>fe_key = ev_node referent, fe_task_id = ev_task_id ev,
                       fe_removed = (ev_event referent = ''removed''), fe_source = referent\<rparr>
                      entries, dangling)))
       else (entries, dangling))"

definition fold_walk :: "event list \<Rightarrow> fold_state" where
  "fold_walk events = fold (fold_step (byEID events)) events ([], [])"

definition source_line :: "fold_entry \<Rightarrow> nat" where
  "source_line e = ev_line (fe_source e)"

definition journal_fold :: "event list \<Rightarrow> journal_fold" where
  "journal_fold events =
     (case fold_walk events of (entries, dangling) \<Rightarrow>
        \<lparr>jf_entries = sort_key source_line (map snd entries), jf_dangling = dangling\<rparr>)"

subsection \<open>Queries\<close>

datatype map_error = NodeNotFound string | TaskNotFound string

definition Get :: "event list \<Rightarrow> string \<Rightarrow> (map_error, fold_entry) result" where
  "Get events key =
     (let f = journal_fold events
      in if identity_hash_pattern key then
           (case find (\<lambda>e. fe_key e = key) (jf_entries f) of
              Some e \<Rightarrow> Inr e | None \<Rightarrow> Inl (NodeNotFound key))
         else
           (case find (\<lambda>e. fe_task_id e = key) (jf_entries f) of
              Some e \<Rightarrow> Inr e | None \<Rightarrow> Inl (TaskNotFound key)))"

definition node_eids :: "event list \<Rightarrow> string \<Rightarrow> string set" where
  "node_eids events node =
     set (map ev_eid (filter (\<lambda>ev. is_change_event ev \<and> ev_node ev = node) events))"

definition History :: "event list \<Rightarrow> string \<Rightarrow> event list" where
  "History events node =
     filter (\<lambda>ev. (is_change_event ev \<and> ev_node ev = node) \<or>
                  (is_receipt_event ev \<and> ev_for ev \<noteq> [] \<and> ev_for ev \<in> node_eids events node))
       events"

subsection \<open>Line numbers\<close>

text \<open>
  \<open>Parse\<close> numbers the lines from 1 in file order, so line numbers strictly increase
  (blank lines leave gaps). The journals below are of that form.
\<close>

definition line_ordered :: "event list \<Rightarrow> bool" where
  "line_ordered events \<longleftrightarrow> sorted_wrt (<) (map ev_line events)"

lemma line_ordered_unique:
  "line_ordered events \<Longrightarrow> a \<in> set events \<Longrightarrow> b \<in> set events \<Longrightarrow> ev_line a = ev_line b \<Longrightarrow> a = b"
  unfolding line_ordered_def strict_sorted_iff distinct_map inj_on_def by simp

subsection \<open>The referent index\<close>

lemma byEID_Nil [simp]: "byEID [] = Map.empty"
  by (simp add: byEID_def)

lemma byEID_snoc: "byEID (events @ [ev]) = index_event ev (byEID events)"
  by (simp add: byEID_def)

lemma byEID_Some:
  "byEID events e = Some ev \<Longrightarrow> ev \<in> set events \<and> ev_eid ev = e \<and> is_referent ev"
  by (induction events rule: rev_induct) (auto simp: byEID_snoc index_event_def split: if_splits)

lemma byEID_defined:
  "ev \<in> set events \<Longrightarrow> is_referent ev \<Longrightarrow> byEID events (ev_eid ev) \<noteq> None"
  by (induction events rule: rev_induct) (auto simp: byEID_snoc index_event_def)

lemma byEID_None_iff:
  "byEID events e = None \<longleftrightarrow> (\<forall>ev \<in> set events. is_referent ev \<longrightarrow> ev_eid ev \<noteq> e)"
  by (metis byEID_Some byEID_defined not_Some_eq)

lemma byEID_append:
  "byEID (xs @ ys) e = (case byEID ys e of Some ev \<Rightarrow> Some ev | None \<Rightarrow> byEID xs e)"
  by (induction ys rule: rev_induct)
     (auto simp: byEID_snoc index_event_def simp flip: append_assoc)

subsection \<open>The invariant of the walk\<close>

text \<open>
  The entry a line installs, if it bears on any: a removal, a legacy epic receipt, or a
  receipt with a known referent. Every entry is keyed by what its sourcing event says.
\<close>

definition is_task_bearing :: "event \<Rightarrow> bool" where
  "is_task_bearing ev \<longleftrightarrow> ev_event ev = ''task_created'' \<or> ev_event ev = ''task_retargeted''"

definition removal_entry :: "event \<Rightarrow> fold_entry" where
  "removal_entry ev =
     \<lparr>fe_key = ev_node ev, fe_task_id = [], fe_removed = True, fe_source = ev\<rparr>"

definition receipt_entry :: "(string \<rightharpoonup> event) \<Rightarrow> event \<Rightarrow> fold_entry option" where
  "receipt_entry index ev =
     (if ev_proposal ev \<noteq> [] then
        Some \<lparr>fe_key = ev_proposal ev, fe_task_id = ev_task_id ev, fe_removed = False,
              fe_source = ev\<rparr>
      else map_option (\<lambda>r.
             \<lparr>fe_key = (if ev_event r = ''registered'' then ev_proposal r else ev_node r),
              fe_task_id = ev_task_id ev, fe_removed = (ev_event r = ''removed''),
              fe_source = r\<rparr>) (index (ev_for ev)))"

definition bears :: "(string \<rightharpoonup> event) \<Rightarrow> event \<Rightarrow> fold_entry option" where
  "bears index ev =
     (if ev_event ev = ''removed'' then Some (removal_entry ev)
      else if is_task_bearing ev then receipt_entry index ev
      else None)"

definition source_key :: "event \<Rightarrow> string" where
  "source_key ev = (if is_change_event ev then ev_node ev else ev_proposal ev)"

definition stale_removal :: "event \<Rightarrow> (string \<times> fold_entry) list \<Rightarrow> bool" where
  "stale_removal ev entries \<longleftrightarrow>
     ev_event ev = ''removed'' \<and>
     (\<exists>prior. map_of entries (ev_node ev) = Some prior \<and> ev_eid (fe_source prior) = ev_eid ev)"

lemma fold_step_bears:
  "fold_step index ev (entries, dangling) =
     (case bears index ev of
        None \<Rightarrow> (entries, if is_task_bearing ev then dangling @ [ev] else dangling)
      | Some e \<Rightarrow> (if stale_removal ev entries then entries
                   else AList.update (fe_key e) e entries, dangling))"
  by (auto simp: fold_step_def bears_def receipt_entry_def removal_entry_def is_task_bearing_def
      stale_removal_def split: option.splits)

lemma bears_source:
  assumes "bears (byEID events) ev = Some e" and "ev \<in> set events"
  shows "fe_source e \<in> set events \<and> source_key (fe_source e) = fe_key e"
  using assms
  by (auto simp: bears_def removal_entry_def receipt_entry_def source_key_def is_change_event_def
      is_task_bearing_def is_referent_def split: if_splits dest!: byEID_Some)

definition walk_inv :: "event list \<Rightarrow> (string \<times> fold_entry) list \<Rightarrow> bool" where
  "walk_inv events entries \<longleftrightarrow>
     distinct (map fst entries) \<and>
     (\<forall>(k, e) \<in> set entries. fe_key e = k \<and> fe_source e \<in> set events \<and>
                             source_key (fe_source e) = k)"

lemma walk_inv_mem:
  assumes "walk_inv events entries" and "x \<in> set entries"
  shows "fe_key (snd x) = fst x" and "fe_source (snd x) \<in> set events"
    and "source_key (fe_source (snd x)) = fst x"
  using assms by (auto simp: walk_inv_def)

lemma walk_inv_distinct: "walk_inv events entries \<Longrightarrow> distinct (map fst entries)"
  by (simp add: walk_inv_def)

lemma walk_inv_update:
  assumes "walk_inv events entries" and "fe_source e \<in> set events"
    and "source_key (fe_source e) = fe_key e"
  shows "walk_inv events (AList.update (fe_key e) e entries)"
proof -
  have "(k, v) \<in> set (AList.update k' v' m) \<Longrightarrow> (k, v) = (k', v') \<or> (k, v) \<in> set m"
    for k v k' v' and m :: "(string \<times> fold_entry) list"
    by (induction m) (auto split: if_splits)
  then show ?thesis using assms unfolding walk_inv_def by (fastforce simp: distinct_update)
qed

lemma walk_inv_fold:
  assumes "set evs \<subseteq> set events" and "walk_inv events (fst st)"
  shows "walk_inv events (fst (fold (fold_step (byEID events)) evs st))"
  using assms
proof (induction evs arbitrary: st)
  case (Cons ev evs)
  obtain entries dangling where st: "st = (entries, dangling)" by (cases st)
  have "walk_inv events (fst (fold_step (byEID events) ev st))"
    using Cons.prems bears_source[of events ev]
    by (auto simp: st fold_step_bears walk_inv_update split: option.split)
  then show ?case using Cons by simp
qed simp

lemma walk_inv_walk: "walk_inv events (fst (fold_walk events))"
  unfolding fold_walk_def by (rule walk_inv_fold) (simp_all add: walk_inv_def)

lemma entries_lines_distinct:
  assumes "line_ordered events" and "walk_inv events entries"
  shows "distinct (map source_line (map snd entries))"
proof -
  have "distinct entries" using assms(2) by (auto simp: walk_inv_def distinct_map)
  moreover have "inj_on (source_line \<circ> snd) (set entries)"
  proof (rule inj_onI)
    fix x y assume x: "x \<in> set entries" and y: "y \<in> set entries"
      and eq: "(source_line \<circ> snd) x = (source_line \<circ> snd) y"
    have "fe_source (snd x) = fe_source (snd y)"
      using line_ordered_unique[OF assms(1) walk_inv_mem(2)[OF assms(2) x] walk_inv_mem(2)[OF assms(2) y]] eq
      by (simp add: source_line_def)
    then have "fst x = fst y"
      using walk_inv_mem(3)[OF assms(2) x] walk_inv_mem(3)[OF assms(2) y] by simp
    then show "x = y"
      using x y walk_inv_distinct[OF assms(2)] by (simp add: distinct_map inj_on_def)
  qed
  ultimately show ?thesis by (simp add: distinct_map)
qed

subsection \<open>Reading the fold\<close>

interpretation fold_order: slice_sort "sort_key source_line" source_line
  by (rule sort_key_slice_sort)

abbreviation walk_entry :: "event list \<Rightarrow> string \<Rightarrow> fold_entry option" where
  "walk_entry events k \<equiv> map_of (fst (fold_walk events)) k"

lemma set_jf_entries: "set (jf_entries (journal_fold events)) = snd ` set (fst (fold_walk events))"
  by (simp add: journal_fold_def split: prod.split)

lemma jf_entries_iff:
  "e \<in> set (jf_entries (journal_fold events)) \<longleftrightarrow> walk_entry events (fe_key e) = Some e"
proof -
  have inv: "walk_inv events (fst (fold_walk events))" by (rule walk_inv_walk)
  then have "(fe_key e, e) \<in> set (fst (fold_walk events)) \<longleftrightarrow> walk_entry events (fe_key e) = Some e"
    by (simp add: walk_inv_def)
  moreover have "e \<in> snd ` set (fst (fold_walk events)) \<longleftrightarrow>
                 (fe_key e, e) \<in> set (fst (fold_walk events))"
    using inv by (force simp: walk_inv_def)
  ultimately show ?thesis by (simp add: set_jf_entries)
qed

lemma walk_entry_key: "walk_entry events k = Some e \<Longrightarrow> fe_key e = k"
  using walk_inv_walk[of events] by (auto simp: walk_inv_def dest!: map_of_SomeD)

lemma jf_entries_keys_distinct: "distinct (map fe_key (jf_entries (journal_fold events)))"
proof -
  have inv: "walk_inv events (fst (fold_walk events))" by (rule walk_inv_walk)
  have "map fe_key (map snd (fst (fold_walk events))) = map fst (fst (fold_walk events))"
    using walk_inv_mem(1)[OF inv] by simp
  then have "distinct (map fe_key (map snd (fst (fold_walk events))))"
    using walk_inv_distinct[OF inv] by (simp only:)
  moreover have "mset (jf_entries (journal_fold events)) = mset (map snd (fst (fold_walk events)))"
    by (simp add: journal_fold_def split: prod.split)
  ultimately show ?thesis by (metis mset_eq_imp_distinct_iff mset_map)
qed

lemma find_entry_by_key: "find (\<lambda>e. fe_key e = k) (jf_entries (journal_fold events)) = walk_entry events k"
proof (cases "walk_entry events k")
  case None
  have "find (\<lambda>e. fe_key e = k) (jf_entries (journal_fold events)) = None"
    unfolding find_None_iff using None by (metis jf_entries_iff option.distinct(1))
  then show ?thesis using None by simp
next
  case (Some e)
  then have "e \<in> set (jf_entries (journal_fold events))" and "fe_key e = k"
    using walk_entry_key by (auto simp: jf_entries_iff)
  then show ?thesis
    using find_unique_key[OF jf_entries_keys_distinct, of e events] Some by simp
qed

lemma walk_snoc_entries:
  "fold (fold_step index) (evs @ [ev]) st = fold_step index ev (fold (fold_step index) evs st)"
  by simp

lemma fold_keeps_entry:
  assumes "\<And>ev e. ev \<in> set evs \<Longrightarrow> bears index ev = Some e \<Longrightarrow> fe_key e \<noteq> k"
  shows "map_of (fst (fold (fold_step index) evs st)) k = map_of (fst st) k"
  using assms
proof (induction evs arbitrary: st)
  case (Cons ev evs)
  obtain entries dangling where st: "st = (entries, dangling)" by (cases st)
  have "map_of (fst (fold_step index ev st)) k = map_of entries k"
    using Cons.prems[of ev] by (auto simp: st fold_step_bears split: option.split)
  moreover have "map_of (fst (fold (fold_step index) evs (fold_step index ev st))) k =
        map_of (fst (fold_step index ev st)) k"
    using Cons.prems by (intro Cons.IH) auto
  ultimately show ?case by (simp add: st)
qed simp

lemma fold_dangling:
  "snd (fold (fold_step index) evs st) =
     snd st @ filter (\<lambda>ev. is_task_bearing ev \<and> bears index ev = None) evs"
proof (induction evs arbitrary: st)
  case (Cons ev evs)
  obtain entries dangling where st: "st = (entries, dangling)" by (cases st)
  have "snd (fold_step index ev st) =
        dangling @ (if is_task_bearing ev \<and> bears index ev = None then [ev] else [])"
    by (auto simp: st fold_step_bears split: option.split)
  then show ?case using Cons by (simp add: st)
qed simp

lemma task_bearing_not_removed: "is_task_bearing ev \<Longrightarrow> ev_event ev \<noteq> ''removed''"
  by (auto simp: is_task_bearing_def)

lemma receipt_entry_None:
  "receipt_entry index ev = None \<longleftrightarrow> ev_proposal ev = [] \<and> index (ev_for ev) = None"
  by (simp add: receipt_entry_def)

lemma bears_receipt: "is_task_bearing ev \<Longrightarrow> bears index ev = receipt_entry index ev"
  by (simp add: bears_def task_bearing_not_removed)

text \<open>
  A receipt is reported dangling exactly when it names no event of the journal at all,
  wherever in the journal that event stands; dangling receipts are listed in file order.
\<close>

theorem fold_dangling_exact:
  "jf_dangling (journal_fold events) =
     filter (\<lambda>ev. is_task_bearing ev \<and> ev_proposal ev = [] \<and>
                  (\<forall>r \<in> set events. is_referent r \<longrightarrow> ev_eid r \<noteq> ev_for ev)) events"
proof -
  have "jf_dangling (journal_fold events) =
        filter (\<lambda>ev. is_task_bearing ev \<and> bears (byEID events) ev = None) events"
    using fold_dangling[of "byEID events" events "([], [])"]
    by (cases "fold (fold_step (byEID events)) events ([], [])")
       (simp add: journal_fold_def fold_walk_def)
  also have "\<dots> = filter (\<lambda>ev. is_task_bearing ev \<and> ev_proposal ev = [] \<and>
                  (\<forall>r \<in> set events. is_referent r \<longrightarrow> ev_eid r \<noteq> ev_for ev)) events"
    by (rule filter_cong) (auto simp: bears_receipt receipt_entry_None byEID_None_iff)
  finally show ?thesis .
qed

text \<open>
  The entries of the fold are keyed by distinct nodes and listed in strictly increasing
  source lines, so neither the iteration order of the entry map nor the instability of the
  final sort shows in the result: any enumeration sorted by source line is the fold.
\<close>

theorem fold_entries_deterministic:
  assumes "line_ordered events"
  shows "distinct (map fe_key (jf_entries (journal_fold events))) \<and>
         sorted_wrt (<) (map source_line (jf_entries (journal_fold events))) \<and>
         (\<forall>es. mset es = mset (map snd (fst (fold_walk events))) \<and> sorted (map source_line es)
               \<longrightarrow> es = jf_entries (journal_fold events))"
proof -
  have d: "distinct (map source_line (map snd (fst (fold_walk events))))"
    using assms walk_inv_walk by (rule entries_lines_distinct)
  have eq: "jf_entries (journal_fold events) = sort_key source_line (map snd (fst (fold_walk events)))"
    by (simp add: journal_fold_def split: prod.split)
  have "es = jf_entries (journal_fold events)"
    if "mset es = mset (map snd (fst (fold_walk events)))" "sorted (map source_line es)" for es
    unfolding eq by (rule sym) (rule fold_order.srt_unique[OF d that])
  moreover have "sorted_wrt (<) (map source_line (jf_entries (journal_fold events)))"
    unfolding eq by (rule fold_order.srt_strict[OF d])
  ultimately show ?thesis using jf_entries_keys_distinct by blast
qed

definition sample_journal :: "event list" where
  "sample_journal =
     [blank_event\<lparr>ev_event := ''added'', ev_eid := ''h:1'', ev_node := ''n'', ev_line := 1\<rparr>,
      blank_event\<lparr>ev_event := ''task_created'', ev_for := ''h:1'', ev_task_id := ''t1'', ev_line := 2\<rparr>,
      blank_event\<lparr>ev_event := ''modified'', ev_eid := ''h:2'', ev_node := ''n'', ev_line := 3\<rparr>,
      blank_event\<lparr>ev_event := ''task_retargeted'', ev_for := ''h:2'', ev_task_id := ''t1'', ev_line := 4\<rparr>]"

theorem fold_entries_deterministic_witness:
  "distinct (map fe_key (jf_entries (journal_fold sample_journal)))"
proof -
  have "line_ordered sample_journal" by (simp add: line_ordered_def sample_journal_def)
  from fold_entries_deterministic[OF this] show ?thesis by (rule conjunct1)
qed

text \<open>
  Latest wins. The entry of a node is what the last receipt bearing on it installs: the
  receipt's task, sourced from the event the receipt names, and marked removed exactly when
  that event is a removal.
\<close>

theorem fold_latest_receipt_wins:
  assumes "events = pre @ ev # post" and "is_task_bearing ev"
    and "receipt_entry (byEID events) ev = Some e"
    and "\<forall>ev' \<in> set post. \<forall>e'. bears (byEID events) ev' = Some e' \<longrightarrow> fe_key e' \<noteq> fe_key e"
  shows "find (\<lambda>x. fe_key x = fe_key e) (jf_entries (journal_fold events)) = Some e"
proof -
  let ?ix = "byEID events"
  let ?st = "fold (fold_step ?ix) pre ([], [])"
  have "map_of (fst (fold_step ?ix ev ?st)) (fe_key e) = Some e"
    using assms(2,3)
    by (cases ?st) (simp add: fold_step_bears bears_receipt stale_removal_def task_bearing_not_removed)
  moreover have "fst (fold_walk events) = fst (fold (fold_step ?ix) post (fold_step ?ix ev ?st))"
    unfolding fold_walk_def by (simp add: assms(1))
  ultimately have "walk_entry events (fe_key e) = Some e"
    using fold_keeps_entry[of post ?ix "fe_key e"] assms(4) by metis
  then show ?thesis by (simp add: find_entry_by_key)
qed

definition sample_entry :: fold_entry where
  "sample_entry =
     \<lparr>fe_key = ''n'', fe_task_id = ''t1'', fe_removed = False, fe_source = sample_journal ! 2\<rparr>"

theorem fold_latest_receipt_wins_witness:
  "find (\<lambda>x. fe_key x = ''n'') (jf_entries (journal_fold sample_journal)) = Some sample_entry"
proof -
  have "find (\<lambda>x. fe_key x = fe_key sample_entry) (jf_entries (journal_fold sample_journal)) =
        Some sample_entry"
  proof (rule fold_latest_receipt_wins)
    show "sample_journal = take 3 sample_journal @ sample_journal ! 3 # []"
      by (simp add: sample_journal_def numeral_3_eq_3)
    show "is_task_bearing (sample_journal ! 3)"
      by (simp add: sample_journal_def is_task_bearing_def)
    show "receipt_entry (byEID sample_journal) (sample_journal ! 3) = Some sample_entry"
      by code_simp
  qed simp
  then show ?thesis by (simp add: sample_entry_def)
qed

definition dangling_journal :: "event list" where
  "dangling_journal =
     sample_journal @ [blank_event\<lparr>ev_event := ''task_created'', ev_for := ''h:9'', ev_task_id := ''t9'', ev_line := 5\<rparr>]"

theorem fold_dangling_exact_witness: "map ev_task_id (jf_dangling (journal_fold dangling_journal)) = [''t9'']"
  unfolding fold_dangling_exact by code_simp

end
