(* ===== verification/Plan_Types.thy ===== *)
theory Plan_Types
  imports Merkle_Diff Profile
begin

text \<open>
  Package \<open>plan\<close>: the wire types and vocabularies (\<open>plan/types.go\<close>), the spec graph the
  components consult (\<open>plan/spec_graph.go\<close>), and the journal-facing types of the matcher,
  resolver and labeler. Op kinds, node kinds and ref kinds are strings, as on the wire.
\<close>

subsection \<open>Vocabularies\<close>

definition ChangesetVersion :: int where "ChangesetVersion = 4"

definition OpCreate :: string where "OpCreate = ''create''"
definition OpClose :: string where "OpClose = ''close''"
definition OpRetarget :: string where "OpRetarget = ''retarget''"

definition KindProposalEpic :: string where "KindProposalEpic = ''proposal_epic''"
definition KindComponent :: string where "KindComponent = ''component''"
definition KindDataFlow :: string where "KindDataFlow = ''data_flow''"
definition KindTestSection :: string where "KindTestSection = ''test_section''"
definition KindCleanup :: string where "KindCleanup = ''cleanup''"

definition RefTask :: string where "RefTask = ''task''"
definition RefOp :: string where "RefOp = ''op''"

definition ActionCreate :: string where "ActionCreate = ''create''"
definition ActionObsolete :: string where "ActionObsolete = ''obsolete''"
definition ActionRetarget :: string where "ActionRetarget = ''retarget''"

definition FallbackPriority :: int where "FallbackPriority = 3"

definition IdempotencyLabelPrefix :: string where "IdempotencyLabelPrefix = ''spex:''"

lemmas vocabulary_defs =
  OpCreate_def OpClose_def OpRetarget_def KindProposalEpic_def KindComponent_def KindDataFlow_def
  KindTestSection_def KindCleanup_def RefTask_def RefOp_def ActionCreate_def ActionObsolete_def
  ActionRetarget_def FallbackPriority_def IdempotencyLabelPrefix_def

definition DeriveEID :: "string \<Rightarrow> string \<Rightarrow> string" where
  "DeriveEID gitHead opID = gitHead @ '':'' @ opID"

subsection \<open>Changesets\<close>

record ref =
  rf_kind :: string
  rf_task_id :: string
  rf_op_id :: string

definition task_ref :: "string \<Rightarrow> ref" where
  "task_ref t = \<lparr>rf_kind = RefTask, rf_task_id = t, rf_op_id = []\<rparr>"

definition op_ref :: "string \<Rightarrow> ref" where
  "op_ref i = \<lparr>rf_kind = RefOp, rf_task_id = [], rf_op_id = i\<rparr>"

record idem =
  idm_label :: string

record op =
  op_id :: string
  op_type :: string
  op_spec_node_kind :: string
  op_spec_node_id :: string
  op_spec_hash :: string
  op_idempotency :: "idem option"
  op_parent :: "ref option"
  op_deps :: "ref list"
  op_priority :: int
  op_title :: string
  op_body :: string
  op_target :: "ref option"
  op_labels :: "string list"
  op_reason :: string

definition blank_op :: op where
  "blank_op =
     \<lparr>op_id = [], op_type = [], op_spec_node_kind = [], op_spec_node_id = [], op_spec_hash = [],
      op_idempotency = None, op_parent = None, op_deps = [], op_priority = 0, op_title = [],
      op_body = [], op_target = None, op_labels = [], op_reason = []\<rparr>"

record absorbed_entry =
  abe_node :: string
  abe_before :: string
  abe_after :: string
  abe_reason :: string

record changeset =
  cs_version :: int
  cs_git_head :: string
  cs_proposal :: string
  cs_ops :: "op list"
  cs_absorbed :: "absorbed_entry list"

record action =
  act_type :: string
  act_task_id :: string
  act_module :: string
  act_node :: string
  act_node_type :: string
  act_spec_node_id :: string
  act_spec_hash :: string
  act_deps :: "string list"
  act_change_type :: string
  act_reason :: string

definition blank_action :: action where
  "blank_action =
     \<lparr>act_type = [], act_task_id = [], act_module = [], act_node = [], act_node_type = [],
      act_spec_node_id = [], act_spec_hash = [], act_deps = [], act_change_type = [],
      act_reason = []\<rparr>"

subsection \<open>The spec graph\<close>

record module_entry =
  me_module :: module_decl
  me_spec :: module_spec

record spec_graph =
  sg_by_name :: "string \<rightharpoonup> module_entry"
  sg_by_id :: "(string \<times> module_entry) list"
  sg_project_reqs :: "string \<rightharpoonup> requirement"
  sg_profile :: "profile option"

definition blank_module_spec :: module_spec where
  "blank_module_spec =
     \<lparr>ms_name = [], ms_description = [], ms_requirements = [], ms_components = [],
      ms_data_flows = [], ms_test_sections = [], ms_apis = []\<rparr>"

definition NewSpecGraph :: "project \<Rightarrow> (string \<rightharpoonup> module_spec) \<Rightarrow> spec_graph" where
  "NewSpecGraph proj specs =
     (let entry = (\<lambda>m. \<lparr>me_module = m,
                        me_spec = (case specs (mod_id m) of
                                     Some s \<Rightarrow> s | None \<Rightarrow> blank_module_spec)\<rparr>)
      in \<lparr>sg_by_name = fold (\<lambda>m g. g(mod_name m \<mapsto> entry m)) (prj_modules proj) Map.empty,
          sg_by_id = fold (\<lambda>m. AList.update (mod_id m) (entry m)) (prj_modules proj) [],
          sg_project_reqs = fold (\<lambda>r g. g(req_id r \<mapsto> r)) (prj_requirements proj) Map.empty,
          sg_profile = None\<rparr>)"

definition WithProfile :: "spec_graph \<Rightarrow> profile \<Rightarrow> spec_graph" where
  "WithProfile g p = g\<lparr>sg_profile := Some p\<rparr>"

definition profileOrDefault :: "spec_graph \<Rightarrow> profile" where
  "profileOrDefault g = (case sg_profile g of Some p \<Rightarrow> p | None \<Rightarrow> DefaultProfile)"

definition PlanRelevant :: "spec_graph \<Rightarrow> string list" where
  "PlanRelevant g = prf_plan_relevant (profileOrDefault g)"

definition moduleByName :: "spec_graph \<Rightarrow> string \<Rightarrow> module_entry option" where
  "moduleByName g name = sg_by_name g name"

definition moduleByID :: "spec_graph \<Rightarrow> string \<Rightarrow> module_entry option" where
  "moduleByID g i = map_of (sg_by_id g) i"

definition projectRequirement :: "spec_graph \<Rightarrow> string \<Rightarrow> requirement option" where
  "projectRequirement g i = sg_project_reqs g i"

definition findComponent :: "module_spec \<Rightarrow> string \<Rightarrow> component option" where
  "findComponent spec i = find (\<lambda>c. cmp_id c = i) (ms_components spec)"

definition findDataFlow :: "module_spec \<Rightarrow> string \<Rightarrow> data_flow option" where
  "findDataFlow spec i = find (\<lambda>f. dfl_id f = i) (ms_data_flows spec)"

definition findTestSection :: "module_spec \<Rightarrow> string \<Rightarrow> test_section option" where
  "findTestSection spec i = find (\<lambda>t. tst_id t = i) (ms_test_sections spec)"

definition findModuleRequirement :: "module_spec \<Rightarrow> string \<Rightarrow> module_requirement option" where
  "findModuleRequirement spec i = find (\<lambda>r. mrq_id r = i) (ms_requirements spec)"

subsection \<open>Pairings\<close>

record pairing =
  pr_spec_node_id :: string
  pr_task_id :: string
  pr_node_type :: string
  pr_module :: string
  pr_name :: string
  pr_bead_status :: string
  pr_after :: string

record registration =
  rg_eid :: string

record removal_record =
  rm_removed :: bool
  rm_eid :: string

end
