(* ===== verification/Plan_Matcher.thy ===== *)
theory Plan_Matcher
  imports Plan_Types
begin

text \<open>
  The node matcher (\<open>plan/node_matcher.go\<close>): the changes of a diff, matched against the
  journal's pairings into matched, unmatched and orphaned lists.
\<close>

record matched =
  mt_change :: classified_change
  mt_records :: "pairing list"

record unmatched =
  um_change :: classified_change

record orphaned =
  or_record :: pairing
  or_node_type :: string

record match_state =
  mst_matched_tasks :: "string list"
  mst_orphan_candidates :: "(string \<times> orphaned) list"
  mst_matches :: "matched list"
  mst_unmatched :: "unmatched list"

definition pairings_of :: "pairing list \<Rightarrow> string \<Rightarrow> pairing list" where
  "pairings_of pairings key = filter (\<lambda>p. pr_spec_node_id p = key) pairings"

definition orphan_pairing :: "string list \<Rightarrow> string \<Rightarrow> pairing
    \<Rightarrow> (string \<times> orphaned) list \<Rightarrow> (string \<times> orphaned) list" where
  "orphan_pairing matchedTasks nodeType p cands =
     (if pr_task_id p \<in> set matchedTasks then cands
      else AList.update (pr_task_id p) \<lparr>or_record = p, or_node_type = nodeType\<rparr> cands)"

definition match_step :: "pairing list \<Rightarrow> classified_change \<Rightarrow> match_state \<Rightarrow> match_state" where
  "match_step pairings c st =
     (if cc_impact c = Structural then st
      else
        let found = pairings_of pairings (cc_key c)
        in if found \<noteq> [] then
             (if cc_type c = Removed then
                st\<lparr>mst_orphan_candidates :=
                     fold (orphan_pairing (mst_matched_tasks st) (cc_node_type c)) found
                       (mst_orphan_candidates st)\<rparr>
              else
                st\<lparr>mst_matches := mst_matches st @
                     [\<lparr>mt_change = c, mt_records = sort_key pr_task_id found\<rparr>],
                   mst_matched_tasks := map pr_task_id found @ mst_matched_tasks st,
                   mst_orphan_candidates :=
                     fold (\<lambda>p. AList.delete (pr_task_id p)) found (mst_orphan_candidates st)\<rparr>)
           else if cc_type c \<noteq> Removed then
             st\<lparr>mst_unmatched := mst_unmatched st @ [\<lparr>um_change = c\<rparr>]\<rparr>
           else st)"

abbreviation orphan_task :: "orphaned \<Rightarrow> string" where
  "orphan_task o' \<equiv> pr_task_id (or_record o')"

definition match_run :: "classified_change list \<Rightarrow> pairing list \<Rightarrow> match_state" where
  "match_run changes pairings =
     fold (match_step pairings) changes
       \<lparr>mst_matched_tasks = [], mst_orphan_candidates = [], mst_matches = [], mst_unmatched = []\<rparr>"

definition MatchNodes :: "classified_change list \<Rightarrow> pairing list
    \<Rightarrow> matched list \<times> unmatched list \<times> orphaned list" where
  "MatchNodes changes pairings =
     (let st = match_run changes pairings
      in (mst_matches st, mst_unmatched st,
          sort_key orphan_task (map snd (mst_orphan_candidates st))))"

subsection \<open>Where a pairing can end up\<close>

interpretation orphan_order: slice_sort "sort_key orphan_task" orphan_task
  by (rule sort_key_slice_sort)

text \<open>The changes that keep a node, those that remove it, and the tasks paired with each.\<close>

definition kept_change :: "classified_change \<Rightarrow> bool" where
  "kept_change c \<longleftrightarrow> cc_impact c \<noteq> Structural \<and> cc_type c \<noteq> Removed"

definition removing_change :: "classified_change \<Rightarrow> bool" where
  "removing_change c \<longleftrightarrow> cc_impact c \<noteq> Structural \<and> cc_type c = Removed"

definition tasks_of :: "pairing list \<Rightarrow> classified_change list \<Rightarrow> string set" where
  "tasks_of pairings cs = pr_task_id ` (\<Union>c \<in> set cs. set (pairings_of pairings (cc_key c)))"

lemma match_run_snoc: "match_run (cs @ [c]) ps = match_step ps c (match_run cs ps)"
  by (simp add: match_run_def)

lemma match_run_lists:
  "mst_matches (match_run cs ps) =
     map (\<lambda>c. \<lparr>mt_change = c, mt_records = sort_key pr_task_id (pairings_of ps (cc_key c))\<rparr>)
       (filter (\<lambda>c. kept_change c \<and> pairings_of ps (cc_key c) \<noteq> []) cs) \<and>
   mst_unmatched (match_run cs ps) =
     map (\<lambda>c. \<lparr>um_change = c\<rparr>) (filter (\<lambda>c. kept_change c \<and> pairings_of ps (cc_key c) = []) cs)"
proof (induction cs rule: rev_induct)
  case Nil
  show ?case by (simp add: match_run_def)
next
  case (snoc c cs)
  then show ?case by (auto simp: match_run_snoc match_step_def Let_def kept_change_def)
qed

lemma tasks_of_snoc:
  "tasks_of ps (cs @ [c]) = tasks_of ps cs \<union> pr_task_id ` set (pairings_of ps (cc_key c))"
  by (auto simp: tasks_of_def)

lemma match_run_tasks:
  "set (mst_matched_tasks (match_run cs ps)) = tasks_of ps (filter kept_change cs)"
proof (induction cs rule: rev_induct)
  case Nil
  show ?case by (simp add: match_run_def tasks_of_def)
next
  case (snoc c cs)
  then show ?case
    by (auto simp: match_run_snoc match_step_def Let_def kept_change_def tasks_of_snoc)
qed

lemma orphan_pairing_keys:
  "fst ` set (fold (orphan_pairing ts nt) ps cands) =
     fst ` set cands \<union> (pr_task_id ` set ps - set ts)"
  by (induction ps arbitrary: cands) (auto simp: orphan_pairing_def dom_update)

lemma fold_delete_keys:
  "fst ` set (fold (\<lambda>p. AList.delete (f p)) ps cands) = fst ` set cands - f ` set ps"
  by (induction ps arbitrary: cands) (auto simp: AList.delete_eq)

lemma match_run_orphan_keys:
  "fst ` set (mst_orphan_candidates (match_run cs ps)) =
     tasks_of ps (filter removing_change cs) - tasks_of ps (filter kept_change cs)"
proof (induction cs rule: rev_induct)
  case Nil
  show ?case by (simp add: match_run_def tasks_of_def)
next
  case (snoc c cs)
  note tasks = match_run_tasks[of cs ps]
  consider "removing_change c" | "kept_change c" | "cc_impact c = Structural"
    by (auto simp: removing_change_def kept_change_def)
  then show ?case
  proof cases
    case 1
    then have "\<not> kept_change c" by (simp add: kept_change_def removing_change_def)
    with 1 show ?thesis
      using snoc by (cases "pairings_of ps (cc_key c) = []")
        (auto simp: match_run_snoc match_step_def Let_def removing_change_def tasks_of_snoc
            orphan_pairing_keys tasks)
  next
    case 2
    then have "\<not> removing_change c" by (simp add: kept_change_def removing_change_def)
    with 2 show ?thesis
      using snoc by (cases "pairings_of ps (cc_key c) = []")
        (auto simp: match_run_snoc match_step_def Let_def kept_change_def tasks_of_snoc fold_delete_keys)
  next
    case 3
    then show ?thesis
      using snoc by (simp add: match_run_snoc match_step_def kept_change_def removing_change_def)
  qed
qed

definition orphan_wf :: "pairing list \<Rightarrow> (string \<times> orphaned) list \<Rightarrow> bool" where
  "orphan_wf ps cands \<longleftrightarrow>
     distinct (map fst cands) \<and> (\<forall>x \<in> set cands. orphan_task (snd x) = fst x \<and> or_record (snd x) \<in> set ps)"

lemma set_update_subset: "x \<in> set (AList.update k v m) \<Longrightarrow> x = (k, v) \<or> x \<in> set m"
  by (induction m) (auto split: if_splits)

lemma orphan_wf_add:
  "set found \<subseteq> set ps \<Longrightarrow> orphan_wf ps cands \<Longrightarrow> orphan_wf ps (fold (orphan_pairing ts nt) found cands)"
proof (induction found arbitrary: cands)
  case (Cons p found)
  have "orphan_wf ps (orphan_pairing ts nt p cands)"
    using Cons.prems
    by (auto simp: orphan_wf_def orphan_pairing_def distinct_update dest!: set_update_subset)
  then show ?case using Cons by simp
qed simp

lemma orphan_wf_delete: "orphan_wf ps cands \<Longrightarrow> orphan_wf ps (fold (\<lambda>p. AList.delete (f p)) found cands)"
proof (induction found arbitrary: cands)
  case (Cons p found)
  have "orphan_wf ps (AList.delete (f p) cands)"
    using Cons.prems by (auto simp: orphan_wf_def distinct_delete AList.delete_eq distinct_map_filter)
  then show ?case using Cons by simp
qed simp

lemma match_run_orphan_wf: "orphan_wf ps (mst_orphan_candidates (match_run cs ps))"
proof (induction cs rule: rev_induct)
  case Nil
  show ?case by (simp add: match_run_def orphan_wf_def)
next
  case (snoc c cs)
  have "set (pairings_of ps (cc_key c)) \<subseteq> set ps" by (auto simp: pairings_of_def)
  then show ?case
    using snoc by (simp add: match_run_snoc match_step_def Let_def orphan_wf_add orphan_wf_delete)
qed

text \<open>An orphan carries a pairing of the very node that some removal of the diff names.\<close>

lemma orphan_pairing_source:
  "x \<in> set (fold (orphan_pairing ts nt) found cands) \<Longrightarrow>
     x \<in> set cands \<or> (or_record (snd x) \<in> set found \<and> or_node_type (snd x) = nt)"
  by (induction found arbitrary: cands)
     (fastforce simp: orphan_pairing_def split: if_splits dest!: set_update_subset)+

lemma fold_delete_subset: "set (fold (\<lambda>p. AList.delete (f p)) ps cands) \<subseteq> set cands"
proof (induction ps arbitrary: cands)
  case (Cons p ps)
  then show ?case using Cons.IH[of "AList.delete (f p) cands"] by (auto simp: AList.delete_eq)
qed simp

lemma match_run_orphan_source:
  "x \<in> set (mst_orphan_candidates (match_run cs ps)) \<Longrightarrow>
     \<exists>c \<in> set cs. removing_change c \<and> or_record (snd x) \<in> set (pairings_of ps (cc_key c)) \<and>
        or_node_type (snd x) = cc_node_type c"
proof (induction cs rule: rev_induct)
  case Nil
  then show ?case by (simp add: match_run_def)
next
  case (snoc c cs)
  then have "x \<in> set (mst_orphan_candidates (match_run cs ps)) \<or>
      (removing_change c \<and> or_record (snd x) \<in> set (pairings_of ps (cc_key c)) \<and>
        or_node_type (snd x) = cc_node_type c)"
    by (auto simp: match_run_snoc match_step_def Let_def removing_change_def split: if_splits
        dest!: orphan_pairing_source dest: subsetD[OF fold_delete_subset])
  then show ?case using snoc.IH by auto
qed

lemma MatchNodes_lists:
  "MatchNodes changes pairings = (ms, us, os) \<Longrightarrow>
     map mt_change ms = filter (\<lambda>c. kept_change c \<and> pairings_of pairings (cc_key c) \<noteq> []) changes \<and>
     (\<forall>m \<in> set ms. mset (mt_records m) = mset (pairings_of pairings (cc_key (mt_change m))) \<and>
                   sorted (map pr_task_id (mt_records m))) \<and>
     map um_change us = filter (\<lambda>c. kept_change c \<and> pairings_of pairings (cc_key c) = []) changes \<and>
     sorted_wrt (<) (map orphan_task os) \<and> or_record ` set os \<subseteq> set pairings \<and>
     orphan_task ` set os =
       tasks_of pairings (filter removing_change changes) -
       tasks_of pairings (filter kept_change changes) \<and>
     (\<forall>o' \<in> set os. \<exists>c \<in> set changes. removing_change c \<and> or_record o' \<in> set (pairings_of pairings (cc_key c)) \<and>
        or_node_type o' = cc_node_type c)"
proof -
  assume run: "MatchNodes changes pairings = (ms, us, os)"
  let ?cands = "mst_orphan_candidates (match_run changes pairings)"
  have ms: "ms = mst_matches (match_run changes pairings)"
    and us: "us = mst_unmatched (match_run changes pairings)"
    and os: "os = sort_key orphan_task (map snd ?cands)"
    using run by (auto simp: MatchNodes_def Let_def)
  have wf: "orphan_wf pairings ?cands" by (rule match_run_orphan_wf)
  have keys: "map orphan_task (map snd ?cands) = map fst ?cands"
    using wf by (auto simp: orphan_wf_def)
  then have "distinct (map orphan_task (map snd ?cands))"
    using wf by (simp only: orphan_wf_def)
  then have "sorted_wrt (<) (map orphan_task os)"
    unfolding os by (rule orphan_order.srt_strict)
  moreover have "orphan_task ` set os = fst ` set ?cands"
    using arg_cong[OF keys, of set] by (simp add: os image_comp)
  moreover have "or_record ` set os \<subseteq> set pairings"
    using wf by (auto simp: os orphan_wf_def)
  moreover have "\<forall>o' \<in> set os. \<exists>c \<in> set changes. removing_change c \<and> or_record o' \<in> set (pairings_of pairings (cc_key c)) \<and>
        or_node_type o' = cc_node_type c"
    by (auto simp: os dest: match_run_orphan_source)
  ultimately show ?thesis
    using match_run_lists[of changes pairings]
    by (auto simp: ms us comp_def match_run_orphan_keys)
qed

text \<open>
  C19: the matcher's three lists partition the work. Every kept, non-structural change is
  matched or unmatched according to whether the journal pairs its node; a task is orphaned
  exactly when a removal names it and no kept change does, whatever the order of the diff;
  orphans come once per task, in task order, each carrying a pairing of the journal.
\<close>

theorem MatchNodes_partition:
  "MatchNodes changes pairings = (ms, us, os) \<Longrightarrow>
     map mt_change ms = filter (\<lambda>c. kept_change c \<and> pairings_of pairings (cc_key c) \<noteq> []) changes \<and>
     (\<forall>m \<in> set ms. mset (mt_records m) = mset (pairings_of pairings (cc_key (mt_change m))) \<and>
                   sorted (map pr_task_id (mt_records m))) \<and>
     map um_change us = filter (\<lambda>c. kept_change c \<and> pairings_of pairings (cc_key c) = []) changes \<and>
     sorted_wrt (<) (map orphan_task os) \<and> or_record ` set os \<subseteq> set pairings \<and>
     orphan_task ` set os =
       tasks_of pairings (filter removing_change changes) -
       tasks_of pairings (filter kept_change changes)"
  using MatchNodes_lists by blast

definition sample_change :: "string \<Rightarrow> change_type \<Rightarrow> classified_change" where
  "sample_change key ty =
     \<lparr>cc_change = \<lparr>chg_key = key, chg_type = ty, chg_node_type = ''component'', chg_module = ''m'',
        chg_old_hash = ''h0'', chg_new_hash = ''h1''\<rparr>,
      cc_impact = ArchImpl, cc_module = ''core''\<rparr>"

definition sample_pairing :: "string \<Rightarrow> string \<Rightarrow> string \<Rightarrow> pairing" where
  "sample_pairing key task status =
     \<lparr>pr_spec_node_id = key, pr_task_id = task, pr_node_type = ''component'', pr_module = ''core'',
      pr_name = key, pr_bead_status = status, pr_after = ''h0''\<rparr>"

theorem MatchNodes_partition_witness:
  "orphan_task ` set (snd (snd (MatchNodes
      [sample_change ''a'' Modified, sample_change ''b'' Removed]
      [sample_pairing ''a'' ''t1'' ''open'', sample_pairing ''b'' ''t2'' ''open'']))) = {''t2''}"
proof -
  let ?cs = "[sample_change ''a'' Modified, sample_change ''b'' Removed]"
  let ?ps = "[sample_pairing ''a'' ''t1'' ''open'', sample_pairing ''b'' ''t2'' ''open'']"
  obtain ms us os where run: "MatchNodes ?cs ?ps = (ms, us, os)" by (cases "MatchNodes ?cs ?ps")
  have "orphan_task ` set os =
          tasks_of ?ps (filter removing_change ?cs) - tasks_of ?ps (filter kept_change ?cs)"
    using MatchNodes_partition[OF run] by blast
  also have "\<dots> = {''t2''}"
    by (simp add: tasks_of_def pairings_of_def kept_change_def removing_change_def
        sample_change_def sample_pairing_def)
  finally show ?thesis by (simp add: run)
qed

end
