(* ===== verification/Kahn.thy ===== *)
theory Kahn
  imports Prelude
begin

text \<open>
  The emission loop of Kahn's algorithm as \<open>plan/sorter.go\<close> runs it, over an arbitrary
  adjacency \<open>ch\<close> (the children of a node, one entry per edge) and in-degree table, and
  its correctness: what is emitted is in topological order, what is stuck is exactly what a
  cycle reaches, and the result depends on the graph alone.
\<close>

subsection \<open>The loop\<close>

text \<open>
  Decrementing the children of the emitted node: one that drops to zero is inserted into the
  sorted ready list at the position \<open>sort.SearchStrings\<close> finds, before the first element that
  is not smaller, which is \<open>insort\<close>.
\<close>

fun relax :: "string list \<Rightarrow> (string \<Rightarrow> int) \<Rightarrow> string list \<Rightarrow> (string \<Rightarrow> int) \<times> string list" where
  "relax [] deg ready = (deg, ready)"
| "relax (c # cs) deg ready =
     (let deg' = deg(c := deg c - 1)
      in relax cs deg' (if deg' c = 0 then insort c ready else ready))"

text \<open>
  The emission loop. Every iteration emits one id, and an id is emitted at most as often as
  it occurs in the layer, so the length of the layer bounds the iterations: \<open>kahn_loop_done\<close>
  below shows that the loop ends with an empty ready list before the fuel does.
\<close>

fun kahn_loop :: "nat \<Rightarrow> (string \<Rightarrow> string list) \<Rightarrow> (string \<Rightarrow> int) \<Rightarrow> string list
                  \<Rightarrow> string list \<Rightarrow> string list \<times> (string \<Rightarrow> int) \<times> string list" where
  "kahn_loop 0 ch deg ready order = (order, deg, ready)"
| "kahn_loop (Suc k) ch deg ready order =
     (case ready of
        [] \<Rightarrow> (order, deg, [])
      | next # rest \<Rightarrow>
          (case relax (ch next) deg rest of
             (deg', ready') \<Rightarrow> kahn_loop k ch deg' ready' (order @ [next])))"

subsection \<open>Termination within the fuel\<close>

definition positive :: "string set \<Rightarrow> (string \<Rightarrow> int) \<Rightarrow> string set" where
  "positive N deg = {i \<in> N. 0 < deg i}"

lemma relax_Cons:
  "relax (c # cs) deg ready =
     relax cs (deg(c := deg c - 1)) (if deg c = 1 then insort c ready else ready)"
  by (simp add: Let_def)

declare relax.simps(2) [simp del]

lemma relax_budget:
  assumes "finite N" and "set cs \<subseteq> N"
  shows "length (snd (relax cs deg ready)) + card (positive N (fst (relax cs deg ready)))
         \<le> length ready + card (positive N deg)"
  using assms(2)
proof (induction cs arbitrary: deg ready)
  case (Cons c cs)
  let ?deg = "deg(c := deg c - 1)"
  let ?ready = "if deg c = 1 then insort c ready else ready"
  have fin: "finite (positive N deg)" using assms(1) by (simp add: positive_def)
  have sub: "positive N ?deg \<subseteq> positive N deg" by (auto simp: positive_def)
  have "length ?ready + card (positive N ?deg) \<le> length ready + card (positive N deg)"
  proof (cases "deg c = 1")
    case True
    then have "positive N ?deg \<subseteq> positive N deg - {c}" "c \<in> positive N deg"
      using Cons.prems by (auto simp: positive_def)
    then have "card (positive N ?deg) < card (positive N deg)"
      by (intro psubset_card_mono fin) auto
    then show ?thesis using True by simp
  next
    case False
    then show ?thesis using card_mono[OF fin sub] by simp
  qed
  moreover have "length (snd (relax cs ?deg ?ready)) + card (positive N (fst (relax cs ?deg ?ready)))
         \<le> length ?ready + card (positive N ?deg)"
    using Cons.prems by (intro Cons.IH) simp
  ultimately show ?case unfolding relax_Cons by (rule order_trans[rotated])
qed simp

text \<open>The fuel never runs out before the ready list does.\<close>

lemma kahn_loop_done:
  assumes "finite N" and "\<And>i. set (ch i) \<subseteq> N"
    and "length ready + card (positive N deg) \<le> k"
  shows "snd (snd (kahn_loop k ch deg ready order)) = []"
  using assms(3)
proof (induction k arbitrary: deg ready order)
  case (Suc k)
  show ?case
  proof (cases ready)
    case (Cons nxt rest)
    obtain deg' ready' where r: "relax (ch nxt) deg rest = (deg', ready')"
      by (cases "relax (ch nxt) deg rest")
    have "length ready' + card (positive N deg') \<le> k"
      using relax_budget[OF assms(1,2), of nxt deg rest] Suc.prems by (simp add: Cons r)
    then show ?thesis using Suc.IH Cons r by simp
  qed simp
qed simp

subsection \<open>What one emission does\<close>

lemma relax_deg: "fst (relax cs deg ready) = (\<lambda>i. deg i - int (count_list cs i))"
  by (induction cs arbitrary: deg ready) (auto simp: relax_Cons)

lemma relax_ready:
  assumes "\<And>c. c \<in> set cs \<Longrightarrow> int (count_list cs c) \<le> deg c \<and> c \<notin> set ready"
    and "sorted ready" and "distinct ready"
  shows "sorted (snd (relax cs deg ready)) \<and> distinct (snd (relax cs deg ready)) \<and>
         set (snd (relax cs deg ready)) =
           set ready \<union> {c \<in> set cs. deg c = int (count_list cs c)}"
  using assms
proof (induction cs arbitrary: deg ready)
  case (Cons c cs)
  let ?deg = "deg(c := deg c - 1)"
  let ?ready = "if deg c = 1 then insort c ready else ready"
  have one: "c \<notin> set cs" if "deg c = 1"
    using Cons.prems(1)[of c] that by (auto simp: count_list_0_iff[symmetric])
  have "int (count_list cs x) \<le> ?deg x \<and> x \<notin> set ?ready" if "x \<in> set cs" for x
    using Cons.prems(1)[of x] that one by (auto split: if_splits simp: set_insort_key)
  moreover have "sorted ?ready" using Cons.prems(2) by (simp add: sorted_insort)
  moreover have "distinct ?ready" using Cons.prems(1)[of c] Cons.prems(3) by (simp add: distinct_insort)
  ultimately have IH: "sorted (snd (relax cs ?deg ?ready)) \<and> distinct (snd (relax cs ?deg ?ready)) \<and>
      set (snd (relax cs ?deg ?ready)) = set ?ready \<union> {x \<in> set cs. ?deg x = int (count_list cs x)}"
    by (rule Cons.IH)
  have "set ?ready \<union> {x \<in> set cs. ?deg x = int (count_list cs x)} =
        set ready \<union> {x \<in> set (c # cs). deg x = int (count_list (c # cs) x)}"
    (is "?L = ?R")
  proof (rule set_eqI)
    fix x show "x \<in> ?L \<longleftrightarrow> x \<in> ?R"
      using one by (cases "x = c"; cases "c \<in> set cs"; cases "deg c = 1") (auto simp: set_insort_key)
  qed
  then show ?case using IH unfolding relax_Cons by simp
qed simp


subsection \<open>The invariant of the loop\<close>

text \<open>
  \<open>N\<close> is the set of nodes. The edge relation has an edge from \<open>d\<close> to each of its children.
\<close>

definition graph_edges :: "string set \<Rightarrow> (string \<Rightarrow> string list) \<Rightarrow> (string \<times> string) set" where
  "graph_edges N ch = {(d, i). d \<in> N \<and> i \<in> set (ch d)}"

definition remaining :: "string set \<Rightarrow> (string \<Rightarrow> string list) \<Rightarrow> string list \<Rightarrow> string \<Rightarrow> int" where
  "remaining N ch order i = (\<Sum>d \<in> N - set order. int (count_list (ch d) i))"

definition topological :: "(string \<times> string) set \<Rightarrow> string list \<Rightarrow> bool" where
  "topological E order \<longleftrightarrow>
     (\<forall>pre i post. order = pre @ i # post \<longrightarrow> (\<forall>d. (d, i) \<in> E \<longrightarrow> d \<in> set pre))"

definition kahn_inv :: "string set \<Rightarrow> (string \<Rightarrow> string list) \<Rightarrow> (string \<Rightarrow> int)
    \<Rightarrow> string list \<Rightarrow> string list \<Rightarrow> bool" where
  "kahn_inv N ch deg ready order \<longleftrightarrow>
     distinct (order @ ready) \<and> sorted ready \<and> set (order @ ready) \<subseteq> N \<and>
     (\<forall>i \<in> N. deg i = remaining N ch order i \<and> (deg i = 0 \<longleftrightarrow> i \<in> set (order @ ready))) \<and>
     topological (graph_edges N ch) order"

lemma remaining_emit:
  assumes "finite N" and "n \<in> N" and "n \<notin> set order"
  shows "remaining N ch (order @ [n]) i = remaining N ch order i - int (count_list (ch n) i)"
proof -
  have "N - set order = insert n (N - set (order @ [n]))" using assms by auto
  then have "remaining N ch order i =
      (\<Sum>d \<in> insert n (N - set (order @ [n])). int (count_list (ch d) i))"
    unfolding remaining_def by (rule arg_cong)
  also have "\<dots> = int (count_list (ch n) i) + remaining N ch (order @ [n]) i"
    unfolding remaining_def using assms(1) by (subst sum.insert) auto
  finally show ?thesis by simp
qed

lemma remaining_nonneg: "0 \<le> remaining N ch order i"
  by (simp add: remaining_def sum_nonneg)

lemma remaining_0_iff:
  assumes "finite N"
  shows "remaining N ch order i = 0 \<longleftrightarrow> (\<forall>d. (d, i) \<in> graph_edges N ch \<longrightarrow> d \<in> set order)"
  using assms by (auto simp: remaining_def sum_nonneg_eq_0_iff graph_edges_def count_list_0_iff)

lemma topological_snoc:
  assumes "topological E order" and "\<And>d. (d, i) \<in> E \<Longrightarrow> d \<in> set order"
  shows "topological E (order @ [i])"
  unfolding topological_def
proof (intro allI impI)
  fix pre j post d
  assume split: "order @ [i] = pre @ j # post" and edge: "(d, j) \<in> E"
  show "d \<in> set pre"
  proof (cases post rule: rev_cases)
    case Nil
    then show ?thesis using split edge assms(2) by simp
  next
    case (snoc post' x)
    then have "order = pre @ j # post'" using split by simp
    then show ?thesis using edge assms(1) by (auto simp: topological_def)
  qed
qed

lemma topological_cong:
  assumes "\<And>d i. i \<in> set order \<Longrightarrow> (d, i) \<in> E \<Longrightarrow> (d, i) \<in> F" and "topological F order"
  shows "topological E order"
  using assms by (fastforce simp: topological_def)

lemma topological_append:
  assumes "topological E ys" and "topological {(d, i) \<in> E. d \<notin> set ys} zs"
  shows "topological E (ys @ zs)"
  unfolding topological_def
proof (intro allI impI)
  fix pre i post d assume split: "ys @ zs = pre @ i # post" and edge: "(d, i) \<in> E"
  from split obtain us where "(ys = pre @ us \<and> us @ zs = i # post) \<or> (ys @ us = pre \<and> zs = us @ i # post)"
    unfolding append_eq_append_conv2 by blast
  then have "(\<exists>us. ys = pre @ i # us) \<or> (\<exists>us. pre = ys @ us \<and> zs = us @ i # post)"
    by (cases us) auto
  then show "d \<in> set pre"
  proof (elim disjE exE conjE)
    fix us assume "ys = pre @ i # us"
    then show ?thesis using assms(1) edge unfolding topological_def by blast
  next
    fix us assume us: "pre = ys @ us" "zs = us @ i # post"
    then have "(d, i) \<in> {(d, i) \<in> E. d \<notin> set ys} \<Longrightarrow> d \<in> set us"
      using assms(2) unfolding topological_def by blast
    then show ?thesis using us(1) edge by auto
  qed
qed

lemma kahn_inv_remaining:
  assumes "finite N" and "kahn_inv N ch deg (n # rest) order" and "i \<in> N"
  shows "remaining N ch (order @ [n]) i = deg i - int (count_list (ch n) i)"
  using assms remaining_emit[OF assms(1), of n order ch i] by (auto simp: kahn_inv_def)

lemma kahn_inv_bound:
  assumes "finite N" and "kahn_inv N ch deg (n # rest) order" and "i \<in> N"
  shows "int (count_list (ch n) i) \<le> deg i"
  using kahn_inv_remaining[OF assms] remaining_nonneg[of N ch "order @ [n]" i] by simp

text \<open>No child of the node about to be emitted has been emitted or is ready.\<close>

lemma kahn_inv_fresh:
  assumes fin: "finite N" and ch: "set (ch n) \<subseteq> N"
    and inv: "kahn_inv N ch deg (n # rest) order" and c: "c \<in> set (ch n)"
  shows "c \<notin> set (order @ n # rest)"
proof -
  have "c \<in> N" using ch c by blast
  have "0 < count_list (ch n) c" using c by (simp add: count_list_0_iff neq0_conv[symmetric])
  then have "deg c \<noteq> 0" using kahn_inv_bound[OF fin inv \<open>c \<in> N\<close>] by linarith
  moreover have "deg c = 0 \<longleftrightarrow> c \<in> set (order @ n # rest)"
    using inv \<open>c \<in> N\<close> unfolding kahn_inv_def by blast
  ultimately show ?thesis by simp
qed

lemma kahn_inv_relax:
  assumes fin: "finite N" and ch: "set (ch n) \<subseteq> N"
    and inv: "kahn_inv N ch deg (n # rest) order"
  shows "sorted (snd (relax (ch n) deg rest)) \<and> distinct (snd (relax (ch n) deg rest)) \<and>
      set (snd (relax (ch n) deg rest)) =
        set rest \<union> {c \<in> set (ch n). deg c = int (count_list (ch n) c)}"
proof (rule relax_ready)
  show "int (count_list (ch n) c) \<le> deg c \<and> c \<notin> set rest" if "c \<in> set (ch n)" for c
    using kahn_inv_bound[OF fin inv, of c] kahn_inv_fresh[OF fin ch inv that] ch that by auto
qed (use inv in \<open>auto simp: kahn_inv_def\<close>)

lemma kahn_step_inv:
  assumes fin: "finite N" and ch: "\<And>i. set (ch i) \<subseteq> N"
    and inv: "kahn_inv N ch deg (n # rest) order"
  shows "kahn_inv N ch (fst (relax (ch n) deg rest)) (snd (relax (ch n) deg rest)) (order @ [n])"
proof -
  note ready = kahn_inv_relax[OF fin ch inv]
  note emit = kahn_inv_remaining[OF fin inv]
  note fresh = kahn_inv_fresh[OF fin ch inv]
  have n: "n \<in> N" "n \<notin> set order" "deg n = 0" using inv by (auto simp: kahn_inv_def)
  have deg: "deg i = remaining N ch order i" if "i \<in> N" for i
    using inv that by (simp add: kahn_inv_def)
  have zero: "deg i = 0 \<longleftrightarrow> i \<in> set order \<or> i = n \<or> i \<in> set rest" if "i \<in> N" for i
    using inv that by (auto simp: kahn_inv_def)
  have zero': "deg i - int (count_list (ch n) i) = 0 \<longleftrightarrow>
      i \<in> set (order @ [n]) \<or> i \<in> set (snd (relax (ch n) deg rest))" if "i \<in> N" for i
  proof (cases "i \<in> set (ch n)")
    case True
    then show ?thesis using fresh[OF True] ready by auto
  next
    case False
    then show ?thesis using zero[OF that] ready by auto
  qed
  have "topological (graph_edges N ch) (order @ [n])"
    using inv n deg[OF n(1)] remaining_0_iff[OF fin, of ch order n]
    by (intro topological_snoc) (auto simp: kahn_inv_def)
  moreover have "distinct ((order @ [n]) @ snd (relax (ch n) deg rest))"
    using ready fresh inv by (auto simp: kahn_inv_def)
  moreover have "set ((order @ [n]) @ snd (relax (ch n) deg rest)) \<subseteq> N"
    using ready ch inv by (auto simp: kahn_inv_def)
  ultimately show ?thesis
    using ready emit zero' by (simp add: kahn_inv_def relax_deg)
qed

lemma kahn_loop_inv:
  assumes "finite N" and "\<And>i. set (ch i) \<subseteq> N" and "kahn_inv N ch deg ready order"
  shows "case kahn_loop k ch deg ready order of (order', deg', ready') \<Rightarrow>
           kahn_inv N ch deg' ready' order'"
  using assms(3)
proof (induction k arbitrary: deg ready order)
  case (Suc k)
  show ?case
  proof (cases ready)
    case (Cons nxt rest)
    have "kahn_inv N ch (fst (relax (ch nxt) deg rest)) (snd (relax (ch nxt) deg rest)) (order @ [nxt])"
      using kahn_step_inv[OF assms(1,2)] Suc.prems Cons by simp
    then show ?thesis
      using Suc.IH by (cases "relax (ch nxt) deg rest") (auto simp: Cons)
  qed (use Suc.prems in simp)
qed simp


subsection \<open>Order and cycles\<close>

lemma topological_position:
  assumes "topological E order" and "distinct order" and "(d, i) \<in> E" and "i \<in> set order"
  shows "d \<in> set order" and
    "length (takeWhile (\<lambda>x. x \<noteq> d) order) < length (takeWhile (\<lambda>x. x \<noteq> i) order)"
proof -
  obtain pre post where o: "order = pre @ i # post" and i: "i \<notin> set pre"
    using split_list_first[OF assms(4)] by blast
  have d: "d \<in> set pre" using assms(1,3) o by (auto simp: topological_def)
  then show "d \<in> set order" using o by simp
  have "length (takeWhile (\<lambda>x. x \<noteq> d) pre) < length pre"
    using d by (induction pre) auto
  moreover have "takeWhile (\<lambda>x. x \<noteq> d) order = takeWhile (\<lambda>x. x \<noteq> d) pre"
    unfolding o using d by (intro takeWhile_append1) auto
  moreover have "takeWhile (\<lambda>x. x \<noteq> i) order = pre"
    unfolding o using i by (subst takeWhile_append2) auto
  ultimately show "length (takeWhile (\<lambda>x. x \<noteq> d) order) < length (takeWhile (\<lambda>x. x \<noteq> i) order)"
    by simp
qed

lemma topological_trancl:
  assumes "topological E order" and "distinct order" and "(d, i) \<in> E\<^sup>+" and "i \<in> set order"
  shows "d \<in> set order \<and>
    length (takeWhile (\<lambda>x. x \<noteq> d) order) < length (takeWhile (\<lambda>x. x \<noteq> i) order)"
  using assms(3,4)
proof (induction rule: trancl_induct)
  case (base y)
  then show ?case using topological_position[OF assms(1,2)] by blast
next
  case (step y z)
  then show ?case using topological_position[OF assms(1,2), of y z] by auto
qed

text \<open>A finite set in which every element has a predecessor in the set is fed by a cycle.\<close>

lemma predecessors_cycle:
  assumes "finite S" and "\<And>s. s \<in> S \<Longrightarrow> \<exists>d \<in> S. (d, s) \<in> E" and "i \<in> S"
  shows "\<exists>c. (c, c) \<in> E\<^sup>+ \<and> (c, i) \<in> E\<^sup>*"
proof (rule ccontr)
  assume no: "\<not> ?thesis"
  define T where "T = {s \<in> S. (s, i) \<in> E\<^sup>*}"
  have "acyclic (E \<inter> T \<times> T)"
  proof (rule acyclicI, intro allI notI)
    fix x assume x: "(x, x) \<in> (E \<inter> T \<times> T)\<^sup>+"
    then have "x \<in> T" by (induction rule: trancl_induct) auto
    moreover have "(x, x) \<in> E\<^sup>+" using x by (rule trancl_mono) blast
    ultimately show False using no by (auto simp: T_def)
  qed
  moreover have "finite (E \<inter> T \<times> T)"
    using assms(1) by (intro finite_Int disjI2 finite_cartesian_product) (auto simp: T_def)
  ultimately have "wf (E \<inter> T \<times> T)" by (simp add: finite_acyclic_wf)
  moreover have "i \<in> T" using assms(3) by (simp add: T_def)
  ultimately obtain m where m: "m \<in> T" and min: "\<And>y. (y, m) \<in> E \<inter> T \<times> T \<Longrightarrow> y \<notin> T"
    by (rule wfE_min) blast
  obtain d where d: "d \<in> S" "(d, m) \<in> E" using assms(2) m by (auto simp: T_def)
  then have "d \<in> T" using m by (auto simp: T_def intro: converse_rtrancl_into_rtrancl)
  then show False using min d m by blast
qed

subsection \<open>The whole run\<close>

text \<open>
  A run from the start: in-degrees counted over all of \<open>N\<close>, the ready list the sorted nodes of
  in-degree zero.
\<close>

definition kahn_start :: "string set \<Rightarrow> (string \<Rightarrow> string list) \<Rightarrow> (string \<Rightarrow> int) \<Rightarrow> string list \<Rightarrow> bool" where
  "kahn_start N ch deg ready \<longleftrightarrow>
     finite N \<and> (\<forall>i. set (ch i) \<subseteq> N) \<and> sorted ready \<and> distinct ready \<and>
     set ready = {i \<in> N. deg i = 0} \<and> (\<forall>i \<in> N. deg i = remaining N ch [] i)"

lemma kahn_start_inv: "kahn_start N ch deg ready \<Longrightarrow> kahn_inv N ch deg ready []"
  by (auto simp: kahn_start_def kahn_inv_def topological_def)

lemma kahn_start_budget:
  assumes "kahn_start N ch deg ready"
  shows "length ready + card (positive N deg) \<le> card N"
proof -
  have "length ready = card {i \<in> N. deg i = 0}"
    using assms distinct_card by (metis kahn_start_def)
  moreover have "card {i \<in> N. deg i = 0} + card (positive N deg) =
      card ({i \<in> N. deg i = 0} \<union> positive N deg)"
    using assms by (subst card_Un_disjoint) (auto simp: positive_def kahn_start_def)
  moreover have "card ({i \<in> N. deg i = 0} \<union> positive N deg) \<le> card N"
    using assms by (intro card_mono) (auto simp: positive_def kahn_start_def)
  ultimately show ?thesis by simp
qed

lemma kahn_final:
  assumes start: "kahn_start N ch deg ready" and fuel: "card N \<le> k"
    and run: "kahn_loop k ch deg ready [] = (order, deg', ready')"
  shows "ready' = []" and "kahn_inv N ch deg' [] order"
proof -
  have fin: "finite N" and ch: "\<And>i. set (ch i) \<subseteq> N" using start by (auto simp: kahn_start_def)
  show "ready' = []"
    using kahn_loop_done[where N = N and ch = ch and ready = ready and deg = deg and k = k and order = "[]"] fin ch kahn_start_budget[OF start] fuel run by simp
  then show "kahn_inv N ch deg' [] order"
    using kahn_loop_inv[OF fin ch kahn_start_inv[OF start], of k] run by simp
qed

text \<open>What is left with a positive in-degree is exactly what a cycle reaches.\<close>

lemma kahn_stuck:
  assumes fin: "finite N" and ch: "\<And>i. set (ch i) \<subseteq> N" and inv: "kahn_inv N ch deg [] order"
    and i: "i \<in> N"
  shows "0 < deg i \<longleftrightarrow> (\<exists>c. (c, c) \<in> (graph_edges N ch)\<^sup>+ \<and> (c, i) \<in> (graph_edges N ch)\<^sup>*)"
    and "0 < deg i \<longleftrightarrow> i \<notin> set order"
proof -
  let ?E = "graph_edges N ch"
  have deg: "deg j = remaining N ch order j" "deg j = 0 \<longleftrightarrow> j \<in> set order" if "j \<in> N" for j
    using inv that by (auto simp: kahn_inv_def)
  have topo: "topological ?E order" "distinct order" using inv by (auto simp: kahn_inv_def)
  show stuck: "0 < deg i \<longleftrightarrow> i \<notin> set order"
    using deg[OF i] remaining_nonneg[of N ch order i] by linarith
  have "\<exists>d \<in> N - set order. (d, s) \<in> ?E" if "s \<in> N - set order" for s
  proof -
    have "remaining N ch order s \<noteq> 0" using deg[of s] that by auto
    then show ?thesis using remaining_0_iff[OF fin, of ch order s] by (auto simp: graph_edges_def)
  qed
  then have "\<exists>c. (c, c) \<in> ?E\<^sup>+ \<and> (c, i) \<in> ?E\<^sup>*" if "i \<notin> set order"
    using fin i that by (intro predecessors_cycle[where S = "N - set order"]) auto
  moreover have "i \<notin> set order" if c: "(c, c) \<in> ?E\<^sup>+" "(c, i) \<in> ?E\<^sup>*" for c
  proof
    assume "i \<in> set order"
    have "(c, i) \<in> ?E\<^sup>+ \<or> c = i" using c(2) by (auto simp: rtrancl_eq_or_trancl)
    then have "c \<in> set order" using topological_trancl[OF topo] \<open>i \<in> set order\<close> by blast
    then show False using topological_trancl[OF topo c(1)] by simp
  qed
  ultimately show "0 < deg i \<longleftrightarrow> (\<exists>c. (c, c) \<in> ?E\<^sup>+ \<and> (c, i) \<in> ?E\<^sup>*)"
    using stuck by blast
qed

subsection \<open>Independence of the order of the edges\<close>

lemma count_list_mset: "mset xs = mset ys \<Longrightarrow> count_list xs x = count_list ys x"
  by (metis count_mset)

lemma kahn_loop_cong:
  assumes fin: "finite N" and ch: "\<And>i. set (ch i) \<subseteq> N"
    and eq: "\<And>i. mset (ch' i) = mset (ch i)" and inv: "kahn_inv N ch deg ready order"
  shows "kahn_loop k ch' deg ready order = kahn_loop k ch deg ready order"
  using inv
proof (induction k arbitrary: deg ready order)
  case (Suc k)
  show ?case
  proof (cases ready)
    case (Cons n rest)
    have sets: "set (ch' i) = set (ch i)" for i using eq by (metis set_mset_mset)
    note cnt = count_list_mset[OF eq]
    have inv: "kahn_inv N ch deg (n # rest) order" using Suc.prems Cons by simp
    note R = kahn_inv_relax[OF fin ch inv]
    have "sorted (snd (relax (ch' n) deg rest)) \<and> distinct (snd (relax (ch' n) deg rest)) \<and>
        set (snd (relax (ch' n) deg rest)) =
          set rest \<union> {c \<in> set (ch' n). deg c = int (count_list (ch' n) c)}"
    proof (rule relax_ready)
      show "int (count_list (ch' n) c) \<le> deg c \<and> c \<notin> set rest" if "c \<in> set (ch' n)" for c
        using kahn_inv_bound[OF fin inv, of c] kahn_inv_fresh[OF fin ch inv, of c] ch[of n] that
        by (auto simp: sets cnt)
    qed (use inv in \<open>auto simp: kahn_inv_def\<close>)
    then have "snd (relax (ch' n) deg rest) = snd (relax (ch n) deg rest)"
      using R by (intro sorted_distinct_set_unique) (auto simp: sets cnt)
    moreover have "fst (relax (ch' n) deg rest) = fst (relax (ch n) deg rest)"
      by (simp add: relax_deg cnt)
    ultimately have "relax (ch' n) deg rest = relax (ch n) deg rest" by (rule prod_eqI[rotated])
    then show ?thesis
      using Suc.IH kahn_step_inv[OF fin ch inv]
      by (cases "relax (ch n) deg rest") (auto simp: Cons)
  qed simp
qed simp

end
