(* ===== verification/Plan_Sorter.thy ===== *)
theory Plan_Sorter
  imports Plan_Types Kahn
begin

text \<open>
  The topological sorter (\<open>plan/sorter.go\<close>): layering of the create actions by kind, the
  refusal of a dependency on a later layer, and Kahn's algorithm inside each layer.
\<close>

subsection \<open>Layers\<close>

text \<open>\<open>isCleanup\<close> (\<open>plan/labeler.go\<close>) recognises a cleanup by the prefix of its reason.\<close>

definition cleanup_prefix :: string where
  "cleanup_prefix = ''Code cleanup:''"

definition isCleanup :: "action \<Rightarrow> bool" where
  "isCleanup a \<longleftrightarrow>
     length cleanup_prefix \<le> length (act_reason a) \<and>
     take (length cleanup_prefix) (act_reason a) = cleanup_prefix"

datatype plan_error =
    NoLayer string string
  | ForwardLayerDeps "string list"
  | DependencyCycle "string list"
  | UnresolvedDep string
  | NotRegistered string
  | EpicOpMissing string
  | LabelNotRegistered string
  | LabelNoNode
  | ClaimedTasks "string list"

definition layerPlan :: "string list \<Rightarrow> (string \<rightharpoonup> nat) \<times> nat" where
  "layerPlan planRelevant =
     (fold (\<lambda>(i, t) m. m(t \<mapsto> i + 1)) (enumerate 0 planRelevant) Map.empty,
      length planRelevant + 1)"

definition layerFor :: "action \<Rightarrow> (string \<rightharpoonup> nat) \<Rightarrow> nat \<Rightarrow> (plan_error, nat) result" where
  "layerFor a layerIndex cleanupLayer =
     (if act_node_type a = KindProposalEpic then Inr 0
      else if isCleanup a then Inr cleanupLayer
      else case layerIndex (act_node_type a) of
             Some l \<Rightarrow> Inr l
           | None \<Rightarrow> Inl (NoLayer (act_spec_node_id a) (act_node_type a)))"

text \<open>The first loop of \<open>Sort\<close>: the layer of each spec node id, or the first kind without one.\<close>

fun layer_table :: "(string \<rightharpoonup> nat) \<Rightarrow> nat \<Rightarrow> action list \<Rightarrow> (string \<rightharpoonup> nat)
                    \<Rightarrow> (plan_error, string \<rightharpoonup> nat) result" where
  "layer_table ix cl [] m = Inr m"
| "layer_table ix cl (a # as) m =
     (case layerFor a ix cl of
        Inl e \<Rightarrow> Inl e
      | Inr l \<Rightarrow> layer_table ix cl as (m(act_spec_node_id a \<mapsto> l)))"

text \<open>A lookup of a missing key in a \<open>map[string]int\<close> reads 0.\<close>

definition layer_of :: "(string \<rightharpoonup> nat) \<Rightarrow> string \<Rightarrow> nat" where
  "layer_of m k = (case m k of Some l \<Rightarrow> l | None \<Rightarrow> 0)"

definition forward_dep_message :: "string \<Rightarrow> string \<Rightarrow> string" where
  "forward_dep_message i dep = i @ '' depends on later-layer '' @ dep"

definition forward_deps :: "action list \<Rightarrow> (string \<rightharpoonup> nat) \<Rightarrow> string list" where
  "forward_deps actions layerOf =
     concat (map (\<lambda>b.
       map (forward_dep_message (act_spec_node_id b))
         (filter (\<lambda>dep. case layerOf dep of
                          None \<Rightarrow> False
                        | Some l \<Rightarrow> layer_of layerOf (act_spec_node_id b) < l) (act_deps b))) actions)"

definition checkNoForwardLayerDeps ::
    "action list \<Rightarrow> (string \<rightharpoonup> nat) \<Rightarrow> plan_error option" where
  "checkNoForwardLayerDeps actions layerOf =
     (let bad = forward_deps actions layerOf
      in if bad = [] then None else Some (ForwardLayerDeps (sort bad)))"

subsection \<open>Kahn's algorithm\<close>

text \<open>
  The in-layer edges, one per occurrence of a dependency, and the initial in-degrees.
  \<open>children d\<close> lists the dependents of \<open>d\<close> in the order the loop appends them.
\<close>

definition in_layer :: "action list \<Rightarrow> string list" where
  "in_layer nodes = map act_spec_node_id nodes"

definition children :: "action list \<Rightarrow> string \<Rightarrow> string list" where
  "children nodes d =
     concat (map (\<lambda>n.
       map (\<lambda>_. act_spec_node_id n)
         (filter (\<lambda>dep. dep = d \<and> dep \<in> set (in_layer nodes)) (act_deps n))) nodes)"

definition initial_indegree :: "action list \<Rightarrow> string \<Rightarrow> int" where
  "initial_indegree nodes i =
     int (length (concat (map (\<lambda>n.
        if act_spec_node_id n = i
        then filter (\<lambda>dep. dep \<in> set (in_layer nodes)) (act_deps n) else []) nodes)))"

definition bySpecID :: "action list \<Rightarrow> (string \<rightharpoonup> action)" where
  "bySpecID nodes = fold (\<lambda>n m. m(act_spec_node_id n \<mapsto> n)) nodes Map.empty"

definition kahn_run :: "action list \<Rightarrow> string list \<times> (string \<Rightarrow> int) \<times> string list" where
  "kahn_run nodes =
     (let deg = initial_indegree nodes
      in kahn_loop (length nodes) (children nodes) deg
           (sort (filter (\<lambda>i. deg i = 0) (in_layer nodes))) [])"

definition kahnSort :: "action list \<Rightarrow> (plan_error, action list) result" where
  "kahnSort nodes =
     (case kahn_run nodes of
        (order, deg, ready) \<Rightarrow>
          if length order \<noteq> length nodes
          then Inl (DependencyCycle (sorted_set (filter (\<lambda>i. deg i > 0) (in_layer nodes))))
          else Inr (List.map_filter (bySpecID nodes) order))"

subsection \<open>Sort\<close>

fun sort_layers :: "action list \<Rightarrow> (string \<rightharpoonup> nat) \<Rightarrow> nat list \<Rightarrow> (plan_error, action list) result" where
  "sort_layers actions layerOf [] = Inr []"
| "sort_layers actions layerOf (l # ls) =
     bind_result (kahnSort (filter (\<lambda>a. layer_of layerOf (act_spec_node_id a) = l) actions)) (\<lambda>xs.
       bind_result (sort_layers actions layerOf ls) (\<lambda>ys. Inr (xs @ ys)))"

definition Sort :: "action list \<Rightarrow> string list \<Rightarrow> (plan_error, action list) result" where
  "Sort actions planRelevant =
     (case layerPlan planRelevant of (layerIndex, cleanupLayer) \<Rightarrow>
        bind_result (layer_table layerIndex cleanupLayer actions Map.empty) (\<lambda>layerOf.
          case checkNoForwardLayerDeps actions layerOf of
            Some e \<Rightarrow> Inl e
          | None \<Rightarrow> sort_layers actions layerOf [0..<cleanupLayer + 1]))"


subsection \<open>The layer graph\<close>

text \<open>The dependency edges inside a batch: from a dependency to the action that names it.\<close>

definition dep_edges :: "action list \<Rightarrow> (string \<times> string) set" where
  "dep_edges nodes =
     {(d, act_spec_node_id n) |d n. n \<in> set nodes \<and> d \<in> set (act_deps n) \<and> d \<in> set (in_layer nodes)}"

lemma set_children:
  "set (children nodes d) =
     {act_spec_node_id n |n. n \<in> set nodes \<and> d \<in> set (act_deps n) \<and> d \<in> set (in_layer nodes)}"
  by (auto simp: children_def)

lemma graph_edges_children: "graph_edges (set (in_layer nodes)) (children nodes) = dep_edges nodes"
  by (auto simp: graph_edges_def dep_edges_def set_children)

lemma children_in_layer: "set (children nodes d) \<subseteq> set (in_layer nodes)"
  by (auto simp: set_children in_layer_def)

lemma count_list_const: "count_list (map (\<lambda>_. a) xs) i = (if a = i then length xs else 0)"
  by (induction xs) auto

lemma sum_occurrences:
  "finite N \<Longrightarrow> (\<Sum>d \<in> N. length (filter (\<lambda>x. x = d \<and> x \<in> N) xs)) = length (filter (\<lambda>x. x \<in> N) xs)"
proof (induction xs)
  case (Cons x xs)
  have "(\<Sum>d \<in> N. length (filter (\<lambda>y. y = d \<and> y \<in> N) (x # xs))) =
        (\<Sum>d \<in> N. (if x = d then if x \<in> N then 1 else 0 else 0) +
                  length (filter (\<lambda>y. y = d \<and> y \<in> N) xs))"
    by (intro sum.cong) auto
  then show ?case using Cons by (simp add: sum.distrib)
qed simp

lemma sum_children:
  assumes "finite N"
  shows "(\<Sum>d \<in> N. count_list (concat (map (\<lambda>n. map (\<lambda>_. f n)
            (filter (\<lambda>dep. dep = d \<and> dep \<in> N) (g n))) ns)) i) =
         length (concat (map (\<lambda>n. if f n = i then filter (\<lambda>dep. dep \<in> N) (g n) else []) ns))"
  by (induction ns) (simp_all add: sum.distrib count_list_const sum_occurrences[OF assms])

lemma initial_indegree_remaining:
  "initial_indegree nodes i = remaining (set (in_layer nodes)) (children nodes) [] i"
  unfolding initial_indegree_def remaining_def children_def
  using sum_children[of "set (in_layer nodes)" act_spec_node_id act_deps nodes i]
  by (simp flip: of_nat_sum)

lemma kahn_start_nodes:
  assumes "distinct (in_layer nodes)"
  shows "kahn_start (set (in_layer nodes)) (children nodes) (initial_indegree nodes)
           (sort (filter (\<lambda>i. initial_indegree nodes i = 0) (in_layer nodes)))"
  using assms children_in_layer initial_indegree_remaining
  by (auto simp: kahn_start_def sorted_sort)

lemma bySpecID_Some:
  assumes "distinct (in_layer nodes)" and "n \<in> set nodes"
  shows "bySpecID nodes (act_spec_node_id n) = Some n"
  using assms fold_map_upd_distinct[where f = act_spec_node_id and g = "\<lambda>n. n"]
  by (simp add: bySpecID_def in_layer_def)


subsection \<open>Kahn's algorithm is right\<close>

lemma map_filter_ids:
  assumes "distinct (in_layer nodes)" and "set ids \<subseteq> set (in_layer nodes)"
  shows "map act_spec_node_id (List.map_filter (bySpecID nodes) ids) = ids"
    and "set (List.map_filter (bySpecID nodes) ids) \<subseteq> set nodes"
  using assms(2)
  by (induction ids)
     (auto simp: map_filter_simps in_layer_def bySpecID_Some[OF assms(1), unfolded in_layer_def])

lemma mset_eq_ids:
  assumes "distinct (map f xs)" and "set (map f ys) = set (map f xs)" and "distinct (map f ys)"
    and "set ys \<subseteq> set xs"
  shows "mset ys = mset xs"
proof -
  have "set xs \<subseteq> set ys"
  proof
    fix x assume x: "x \<in> set xs"
    then obtain y where "y \<in> set ys" "f y = f x" using assms(2) by (metis image_iff image_eqI set_map)
    then have "y = x" using assms(1,4) x by (auto simp: distinct_map inj_on_def)
    then show "x \<in> set ys" using \<open>y \<in> set ys\<close> by simp
  qed
  then show ?thesis using assms by (auto simp: set_eq_iff_mset_eq_distinct[symmetric] distinct_map)
qed

lemma kahn_run_final:
  assumes "distinct (in_layer nodes)" and "kahn_run nodes = (order, deg, ready)"
  shows "kahn_inv (set (in_layer nodes)) (children nodes) deg [] order"
proof -
  have "card (set (in_layer nodes)) \<le> length nodes"
    using card_length[of "in_layer nodes"] by (simp add: in_layer_def)
  then show ?thesis
    using kahn_final(2)[OF kahn_start_nodes[OF assms(1)]] assms(2) by (simp add: kahn_run_def Let_def)
qed

text \<open>Everything that a cycle among the batch's edges reaches.\<close>

definition fed_by_cycle :: "action list \<Rightarrow> string \<Rightarrow> bool" where
  "fed_by_cycle nodes i \<longleftrightarrow>
     (\<exists>c. (c, c) \<in> (dep_edges nodes)\<^sup>+ \<and> (c, i) \<in> (dep_edges nodes)\<^sup>*)"

lemma fed_by_cycle_acyclic:
  "(\<exists>i \<in> set (in_layer nodes). fed_by_cycle nodes i) \<longleftrightarrow> \<not> acyclic (dep_edges nodes)"
proof -
  have "c \<in> set (in_layer nodes)" if "(c, c) \<in> (dep_edges nodes)\<^sup>+" for c
    using that by (cases rule: tranclE) (auto simp: dep_edges_def in_layer_def)
  then show ?thesis by (auto simp: fed_by_cycle_def acyclic_def)
qed

lemma kahnSort_cases:
  assumes ids: "distinct (in_layer nodes)"
  shows "(acyclic (dep_edges nodes) \<and>
          (\<exists>xs. kahnSort nodes = Inr xs \<and> mset xs = mset nodes \<and>
                topological (dep_edges nodes) (in_layer xs))) \<or>
         (\<not> acyclic (dep_edges nodes) \<and>
          kahnSort nodes = Inl (DependencyCycle (sorted_set (filter (fed_by_cycle nodes) (in_layer nodes)))))"
proof -
  obtain order deg ready where run: "kahn_run nodes = (order, deg, ready)" by (cases "kahn_run nodes")
  let ?N = "set (in_layer nodes)"
  note inv = kahn_run_final[OF ids run]
  have order: "distinct order" "set order \<subseteq> ?N" "topological (dep_edges nodes) order"
    using inv by (auto simp: kahn_inv_def graph_edges_children)
  note stuck = kahn_stuck[OF finite_set children_in_layer inv, unfolded graph_edges_children, folded fed_by_cycle_def]
  have len: "length order = length nodes \<longleftrightarrow> set order = ?N"
  proof
    assume "length order = length nodes"
    then have "card (set order) = card ?N"
      using order ids by (simp add: distinct_card) (simp add: in_layer_def)
    then show "set order = ?N" using order by (simp add: card_subset_eq)
  next
    assume "set order = ?N"
    then show "length order = length nodes"
      using order(1) ids by (metis distinct_card in_layer_def length_map)
  qed
  show ?thesis
  proof (cases "set order = ?N")
    case True
    let ?xs = "List.map_filter (bySpecID nodes) order"
    have xs: "map act_spec_node_id ?xs = order" "set ?xs \<subseteq> set nodes"
      using map_filter_ids[OF ids order(2)] by auto
    have "mset ?xs = mset nodes"
      using mset_eq_ids[where f = act_spec_node_id and xs = nodes and ys = ?xs] ids xs order(1) True
      by (simp add: in_layer_def)
    moreover have "kahnSort nodes = Inr ?xs" using run len True by (simp add: kahnSort_def)
    moreover have "acyclic (dep_edges nodes)"
      using fed_by_cycle_acyclic stuck True by blast
    ultimately show ?thesis using order(3) xs(1) by (simp add: in_layer_def)
  next
    case False
    then have "\<not> acyclic (dep_edges nodes)" using fed_by_cycle_acyclic stuck order(2) by blast
    moreover have "filter (\<lambda>i. 0 < deg i) (in_layer nodes) = filter (fed_by_cycle nodes) (in_layer nodes)"
      using stuck(1) by (intro filter_cong) auto
    ultimately show ?thesis using run len False by (simp add: kahnSort_def)
  qed
qed


subsection \<open>The layers\<close>

lemma layerPlan_bound:
  "fst (layerPlan rel) t = Some l \<Longrightarrow> 1 \<le> l \<and> l \<le> length rel"
proof -
  have "(\<forall>x. m t = Some x \<longrightarrow> 1 \<le> x \<and> x \<le> n + length ts) \<Longrightarrow>
        fold (\<lambda>(i, t) m. m(t \<mapsto> i + 1)) (enumerate n ts) m t = Some l \<Longrightarrow> 1 \<le> l \<and> l \<le> n + length ts"
    for n ts and m :: "string \<rightharpoonup> nat"
  proof (induction ts arbitrary: n m)
    case (Cons a ts)
    have "\<forall>x. (m(a \<mapsto> n + 1)) t = Some x \<longrightarrow> 1 \<le> x \<and> x \<le> Suc n + length ts"
      using Cons.prems(1) by auto
    then show ?case using Cons.IH[where m = "m(a \<mapsto> n + 1)" and n = "Suc n"] Cons.prems(2) by simp
  qed simp
  from this[of Map.empty 0 rel] show "fst (layerPlan rel) t = Some l \<Longrightarrow> 1 \<le> l \<and> l \<le> length rel"
    by (simp add: layerPlan_def)
qed

definition action_layer :: "string list \<Rightarrow> action \<Rightarrow> (plan_error, nat) result" where
  "action_layer rel a = layerFor a (fst (layerPlan rel)) (snd (layerPlan rel))"

lemma action_layer_bound: "action_layer rel a = Inr l \<Longrightarrow> l \<le> length rel + 1"
  using layerPlan_bound[of rel "act_node_type a"]
  by (auto simp: action_layer_def layerFor_def layerPlan_def split: if_splits option.splits)

lemma layer_table_Inr:
  assumes "layer_table ix cl as m = Inr lo" and "distinct (in_layer as)"
  shows "\<forall>a \<in> set as. \<exists>l. layerFor a ix cl = Inr l \<and> lo (act_spec_node_id a) = Some l"
    and "\<forall>k. k \<notin> set (in_layer as) \<longrightarrow> lo k = m k"
proof -
  have "(\<forall>a \<in> set as. \<exists>l. layerFor a ix cl = Inr l \<and> lo (act_spec_node_id a) = Some l) \<and>
        (\<forall>k. k \<notin> set (in_layer as) \<longrightarrow> lo k = m k)"
    using assms
  proof (induction as arbitrary: m)
    case (Cons a as)
    then obtain l where l: "layerFor a ix cl = Inr l" by (auto split: sum.splits)
    then have "layer_table ix cl as (m(act_spec_node_id a \<mapsto> l)) = Inr lo" "distinct (in_layer as)"
      "act_spec_node_id a \<notin> set (in_layer as)"
      using Cons.prems by (auto simp: in_layer_def)
    then show ?case using Cons.IH l by (auto simp: in_layer_def)
  qed (simp add: in_layer_def)
  then show "\<forall>a \<in> set as. \<exists>l. layerFor a ix cl = Inr l \<and> lo (act_spec_node_id a) = Some l"
    and "\<forall>k. k \<notin> set (in_layer as) \<longrightarrow> lo k = m k" by auto
qed

lemma layer_table_total:
  "(\<exists>lo. layer_table ix cl as m = Inr lo) \<longleftrightarrow> (\<forall>a \<in> set as. \<exists>l. layerFor a ix cl = Inr l)"
  by (induction as arbitrary: m) (auto split: sum.splits)

text \<open>The batch's layers as the loop reads them, for a batch whose every kind has a layer.\<close>

lemma layer_table_layer_of:
  assumes "layer_table (fst (layerPlan rel)) (snd (layerPlan rel)) as Map.empty = Inr lo"
    and "distinct (in_layer as)" and "a \<in> set as"
  shows "action_layer rel a = Inr (layer_of lo (act_spec_node_id a))"
    and "lo (act_spec_node_id a) = Some (layer_of lo (act_spec_node_id a))"
  using layer_table_Inr(1)[OF assms(1,2)] assms(3) by (force simp: action_layer_def layer_of_def)+

lemma layer_table_dom:
  assumes "layer_table (fst (layerPlan rel)) (snd (layerPlan rel)) as Map.empty = Inr lo"
    and "distinct (in_layer as)"
  shows "lo k = None \<longleftrightarrow> k \<notin> set (in_layer as)"
  using layer_table_Inr[OF assms] by (auto simp: in_layer_def)

text \<open>A forward dependency, on the batch itself.\<close>

definition forward_dep :: "string list \<Rightarrow> action list \<Rightarrow> action \<Rightarrow> action \<Rightarrow> bool" where
  "forward_dep rel as b a \<longleftrightarrow>
     b \<in> set as \<and> a \<in> set as \<and> act_spec_node_id a \<in> set (act_deps b) \<and>
     (case (action_layer rel b, action_layer rel a) of
        (Inr lb, Inr la) \<Rightarrow> lb < la
      | _ \<Rightarrow> False)"

lemma forward_deps_Nil:
  assumes "layer_table (fst (layerPlan rel)) (snd (layerPlan rel)) as Map.empty = Inr lo"
    and "distinct (in_layer as)"
  shows "forward_deps as lo = [] \<longleftrightarrow> (\<forall>b a. \<not> forward_dep rel as b a)"
proof -
  note lay = layer_table_layer_of[OF assms]
  have fd: "forward_deps as lo = [] \<longleftrightarrow> (\<forall>b \<in> set as. \<forall>dep \<in> set (act_deps b). \<forall>l. lo dep = Some l \<longrightarrow>
      \<not> layer_of lo (act_spec_node_id b) < l)"
    by (auto simp: forward_deps_def filter_empty_conv split: option.splits)
  show ?thesis unfolding fd
  proof (intro iffI allI ballI impI notI)
    fix b a
    assume all: "\<forall>b \<in> set as. \<forall>dep \<in> set (act_deps b). \<forall>l. lo dep = Some l \<longrightarrow>
      \<not> layer_of lo (act_spec_node_id b) < l" and f: "forward_dep rel as b a"
    then have "b \<in> set as" "a \<in> set as" by (auto simp: forward_dep_def)
    then show False using all f lay by (fastforce simp: forward_dep_def)
  next
    fix b dep l
    assume no: "\<forall>b a. \<not> forward_dep rel as b a" and b: "b \<in> set as" and dep: "dep \<in> set (act_deps b)"
      and l: "lo dep = Some l" and less: "layer_of lo (act_spec_node_id b) < l"
    then obtain a where a: "a \<in> set as" "act_spec_node_id a = dep"
      using layer_table_dom[OF assms, of dep] by (auto simp: in_layer_def)
    then have "layer_of lo dep = l" using l by (simp add: layer_of_def)
    then have "forward_dep rel as b a" using a b dep less lay by (simp add: forward_dep_def)
    then show False using no by blast
  qed
qed


subsection \<open>The emission over all layers\<close>

lemma in_layer_filter_distinct: "distinct (in_layer as) \<Longrightarrow> distinct (in_layer (filter P as))"
  by (simp add: in_layer_def distinct_map_filter)

lemma dep_edges_filter_layer:
  "dep_edges (filter (\<lambda>a. P (act_spec_node_id a)) as) = {(d, i) \<in> dep_edges as. P d \<and> P i}"
  by (auto simp: dep_edges_def in_layer_def)

text \<open>A result of \<open>sort_layers\<close> on an ascending run of layers.\<close>

lemma sort_layers_Inr:
  fixes lo :: "string \<rightharpoonup> nat" and lay :: "string \<Rightarrow> nat"
  defines "lay \<equiv> layer_of lo"
  assumes ids: "distinct (in_layer as)" and low: "\<And>d i. (d, i) \<in> dep_edges as \<Longrightarrow> lay d \<le> lay i"
    and ls: "sorted_wrt (<) ls" and run: "sort_layers as lo ls = Inr xs"
  shows "mset xs = mset (filter (\<lambda>a. lay (act_spec_node_id a) \<in> set ls) as)"
    and "sorted (map (\<lambda>a. lay (act_spec_node_id a)) xs)"
    and "topological {(d, i) \<in> dep_edges as. lay d \<in> set ls} (in_layer xs)"
    and "\<forall>l \<in> set ls. acyclic {(d, i) \<in> dep_edges as. lay d = l \<and> lay i = l}"
proof -
  have "mset xs = mset (filter (\<lambda>a. lay (act_spec_node_id a) \<in> set ls) as) \<and>
      sorted (map (\<lambda>a. lay (act_spec_node_id a)) xs) \<and>
      topological {(d, i) \<in> dep_edges as. lay d \<in> set ls} (in_layer xs) \<and>
      (\<forall>l \<in> set ls. acyclic {(d, i) \<in> dep_edges as. lay d = l \<and> lay i = l})"
    using ls run
  proof (induction ls arbitrary: xs)
    case Nil
    then show ?case by (simp add: topological_def in_layer_def)
  next
    case (Cons l ls)
    let ?here = "filter (\<lambda>a. lay (act_spec_node_id a) = l) as"
    obtain ys zs where ys: "kahnSort ?here = Inr ys" and zs: "sort_layers as lo ls = Inr zs"
      and xs: "xs = ys @ zs"
      using Cons.prems(2) by (auto simp: lay_def bind_result_Inr_iff)
    have IH: "mset zs = mset (filter (\<lambda>a. lay (act_spec_node_id a) \<in> set ls) as)"
      "sorted (map (\<lambda>a. lay (act_spec_node_id a)) zs)"
      "topological {(d, i) \<in> dep_edges as. lay d \<in> set ls} (in_layer zs)"
      "\<forall>l \<in> set ls. acyclic {(d, i) \<in> dep_edges as. lay d = l \<and> lay i = l}"
      using Cons.IH[OF _ zs] Cons.prems(1) by auto
    have edges: "dep_edges ?here = {(d, i) \<in> dep_edges as. lay d = l \<and> lay i = l}"
      by (rule dep_edges_filter_layer)
    have k: "mset ys = mset ?here" "topological (dep_edges ?here) (in_layer ys)" "acyclic (dep_edges ?here)"
      using kahnSort_cases[OF in_layer_filter_distinct[OF ids], of "\<lambda>a. lay (act_spec_node_id a) = l"] ys by auto
    have set_ys: "set ys = {a \<in> set as. lay (act_spec_node_id a) = l}" using mset_eq_setD[OF k(1)] by simp
    have set_zs: "set zs = {a \<in> set as. lay (act_spec_node_id a) \<in> set ls}" using mset_eq_setD[OF IH(1)] by simp
    have gt: "l < l'" if "l' \<in> set ls" for l' using Cons.prems(1) that by simp
    have 1: "mset xs = mset (filter (\<lambda>a. lay (act_spec_node_id a) \<in> set (l # ls)) as)"
    proof -
      have "mset xs = filter_mset (\<lambda>a. lay (act_spec_node_id a) = l) (mset as) +
          filter_mset (\<lambda>a. lay (act_spec_node_id a) \<in> set ls) (mset as)"
        using k(1) IH(1) xs by simp
      also have "\<dots> = filter_mset (\<lambda>a. lay (act_spec_node_id a) = l \<or> lay (act_spec_node_id a) \<in> set ls) (mset as)"
        using gt by (intro multiset_eqI) auto
      finally show ?thesis by simp
    qed
    have 2: "sorted (map (\<lambda>a. lay (act_spec_node_id a)) xs)"
      unfolding xs map_append sorted_append
    proof (intro conjI ballI)
      have "map (\<lambda>a. lay (act_spec_node_id a)) ys = replicate (length ys) l"
        using set_ys by (intro map_replicate_const[THEN trans[rotated]] map_cong) auto
      then show "sorted (map (\<lambda>a. lay (act_spec_node_id a)) ys)" by simp
    qed (use set_ys set_zs IH(2) gt in \<open>auto simp: less_imp_le\<close>)
    have "topological {(d, i) \<in> dep_edges as. lay d \<in> set (l # ls)} (in_layer ys)"
      using k(2)
    proof (rule topological_cong[rotated])
      fix d i assume i: "i \<in> set (in_layer ys)" and e: "(d, i) \<in> {(d, i) \<in> dep_edges as. lay d \<in> set (l # ls)}"
      have "lay i = l" using i set_ys by (auto simp: in_layer_def)
      moreover have "lay d \<le> lay i" using e low by simp
      moreover have "lay d = l \<or> l < lay d" using e gt by auto
      ultimately show "(d, i) \<in> dep_edges ?here" using e by (auto simp: edges)
    qed
    moreover have "topological {(d, i) \<in> {(d, i) \<in> dep_edges as. lay d \<in> set (l # ls)}. d \<notin> set (in_layer ys)} (in_layer zs)"
      using IH(3)
    proof (rule topological_cong[rotated])
      fix d i assume e: "(d, i) \<in> {(d, i) \<in> {(d, i) \<in> dep_edges as. lay d \<in> set (l # ls)}. d \<notin> set (in_layer ys)}"
      then have "d \<in> set (in_layer as)" by (auto simp: dep_edges_def)
      then have "lay d \<noteq> l" using e set_ys by (auto simp: in_layer_def)
      then show "(d, i) \<in> {(d, i) \<in> dep_edges as. lay d \<in> set ls}" using e by auto
    qed
    ultimately have 3: "topological {(d, i) \<in> dep_edges as. lay d \<in> set (l # ls)} (in_layer xs)"
      unfolding xs by (simp add: in_layer_def topological_append)
    show ?case using 1 2 3 IH(4) k(3) edges by simp
  qed
  then show "mset xs = mset (filter (\<lambda>a. lay (act_spec_node_id a) \<in> set ls) as)"
    and "sorted (map (\<lambda>a. lay (act_spec_node_id a)) xs)"
    and "topological {(d, i) \<in> dep_edges as. lay d \<in> set ls} (in_layer xs)"
    and "\<forall>l \<in> set ls. acyclic {(d, i) \<in> dep_edges as. lay d = l \<and> lay i = l}"
    by blast+
qed

lemma sort_layers_total:
  assumes ids: "distinct (in_layer as)"
    and "\<forall>l \<in> set ls. acyclic {(d, i) \<in> dep_edges as. layer_of lo d = l \<and> layer_of lo i = l}"
  shows "\<exists>xs. sort_layers as lo ls = Inr xs"
  using assms(2)
proof (induction ls)
  case (Cons l ls)
  let ?here = "filter (\<lambda>a. layer_of lo (act_spec_node_id a) = l) as"
  have "acyclic (dep_edges ?here)"
    using Cons.prems by (simp add: dep_edges_filter_layer[where P = "\<lambda>i. layer_of lo i = l"])
  then obtain ys where "kahnSort ?here = Inr ys"
    using kahnSort_cases[OF in_layer_filter_distinct[OF ids], of "\<lambda>a. layer_of lo (act_spec_node_id a) = l"]
    by auto
  then show ?case using Cons by (auto simp: bind_result_Inr_iff)
qed simp


lemma layered_trancl:
  fixes lay :: "string \<Rightarrow> nat"
  assumes "(x, y) \<in> E\<^sup>+" and low: "\<And>d i. (d, i) \<in> E \<Longrightarrow> lay d \<le> lay i"
  shows "lay x \<le> lay y \<and>
    (lay x = lay y \<longrightarrow> (x, y) \<in> {(d, i) \<in> E. lay d = lay x \<and> lay i = lay x}\<^sup>+)"
  using assms(1)
proof (induction rule: trancl_induct)
  case (base y)
  then show ?case using low by auto
next
  case (step y z)
  have yz: "lay y \<le> lay z" using low step.hyps(2) by blast
  show ?case
  proof (intro conjI impI)
    show "lay x \<le> lay z" using step.IH yz by simp
    assume "lay x = lay z"
    then have "lay x = lay y" using step.IH yz by simp
    then have "(x, y) \<in> {(d, i) \<in> E. lay d = lay x \<and> lay i = lay x}\<^sup>+" using step.IH by blast
    moreover have "(y, z) \<in> {(d, i) \<in> E. lay d = lay x \<and> lay i = lay x}"
      using step.hyps(2) \<open>lay x = lay y\<close> \<open>lay x = lay z\<close> by simp
    ultimately show "(x, z) \<in> {(d, i) \<in> E. lay d = lay x \<and> lay i = lay x}\<^sup>+"
      by (rule trancl_into_trancl)
  qed
qed

lemma acyclic_layers:
  fixes lay :: "string \<Rightarrow> nat"
  assumes low: "\<And>d i. (d, i) \<in> E \<Longrightarrow> lay d \<le> lay i" and "\<And>d i. (d, i) \<in> E \<Longrightarrow> lay i \<in> L"
  shows "acyclic E \<longleftrightarrow> (\<forall>l \<in> L. acyclic {(d, i) \<in> E. lay d = l \<and> lay i = l})"
proof
  assume "acyclic E"
  then show "\<forall>l \<in> L. acyclic {(d, i) \<in> E. lay d = l \<and> lay i = l}"
    by (auto intro: acyclic_subset)
next
  assume all: "\<forall>l \<in> L. acyclic {(d, i) \<in> E. lay d = l \<and> lay i = l}"
  show "acyclic E"
  proof (rule acyclicI, intro allI notI)
    fix x assume x: "(x, x) \<in> E\<^sup>+"
    then have "lay x \<in> L" using assms(2) by (auto elim: tranclE)
    then show False using layered_trancl[OF x, of lay] low all by (auto simp: acyclic_def)
  qed
qed

lemma Sort_Inr:
  "Sort as rel = Inr xs \<longleftrightarrow>
     (\<exists>lo. layer_table (fst (layerPlan rel)) (snd (layerPlan rel)) as Map.empty = Inr lo \<and>
           forward_deps as lo = [] \<and> sort_layers as lo [0..<length rel + 2] = Inr xs)"
  by (auto simp: Sort_def layerPlan_def bind_result_Inr_iff checkNoForwardLayerDeps_def Let_def
      split: option.splits if_splits)

text \<open>The facts about an accepted layer table that every property of \<open>Sort\<close> uses.\<close>

lemma accepted_layers:
  assumes "layer_table (fst (layerPlan rel)) (snd (layerPlan rel)) as Map.empty = Inr lo"
    and "forward_deps as lo = []" and "distinct (in_layer as)" and "(d, i) \<in> dep_edges as"
  shows "layer_of lo d \<le> layer_of lo i" and "layer_of lo d < length rel + 2" and "layer_of lo i < length rel + 2"
proof -
  obtain b a where ba: "b \<in> set as" "act_spec_node_id b = i" "d \<in> set (act_deps b)"
    "a \<in> set as" "act_spec_node_id a = d"
    using assms(4) by (auto simp: dep_edges_def in_layer_def)
  note lay = layer_table_layer_of[OF assms(1,3)]
  have "\<not> forward_dep rel as b a" using assms(1-3) forward_deps_Nil by blast
  then show "layer_of lo d \<le> layer_of lo i" using ba lay(1) by (simp add: forward_dep_def)
  show "layer_of lo d < length rel + 2" "layer_of lo i < length rel + 2"
    using ba lay(1) action_layer_bound[of rel a] action_layer_bound[of rel b] by force+
qed

definition layer_number :: "string list \<Rightarrow> action \<Rightarrow> nat" where
  "layer_number rel a = (case action_layer rel a of Inr l \<Rightarrow> l | Inl _ \<Rightarrow> 0)"

lemma Sort_order:
  assumes "distinct (map act_spec_node_id as)" and "Sort as rel = Inr xs"
  shows "mset xs = mset as \<and> sorted (map (layer_number rel) xs) \<and>
    (\<forall>pre b post. xs = pre @ b # post \<longrightarrow>
       (\<forall>a \<in> set as. act_spec_node_id a \<in> set (act_deps b) \<longrightarrow> a \<in> set pre))"
proof -
  have ids: "distinct (in_layer as)" using assms(1) by (simp add: in_layer_def)
  obtain lo where lo: "layer_table (fst (layerPlan rel)) (snd (layerPlan rel)) as Map.empty = Inr lo"
    and fd: "forward_deps as lo = []" and run: "sort_layers as lo [0..<length rel + 2] = Inr xs"
    using assms(2) by (auto simp: Sort_Inr)
  note acc = accepted_layers[OF lo fd ids]
  note S = sort_layers_Inr[OF ids acc(1) sorted_wrt_upt run]
  note lay = layer_table_layer_of[OF lo ids]
  have bound: "layer_of lo (act_spec_node_id a) < length rel + 2" if "a \<in> set as" for a
    using lay(1)[OF that] action_layer_bound by fastforce
  then have m: "mset xs = mset as" using S(1) by (simp del: upt_Suc mset_filter cong: filter_cong)
  have num: "layer_number rel a = layer_of lo (act_spec_node_id a)" if "a \<in> set as" for a
    using lay(1)[OF that] by (simp add: layer_number_def)
  then have "map (layer_number rel) xs = map (\<lambda>a. layer_of lo (act_spec_node_id a)) xs"
    using mset_eq_setD[OF m] by simp
  then have "sorted (map (layer_number rel) xs)" using S(2) by (simp only:)
  moreover have "a \<in> set pre" if xs: "xs = pre @ b # post" and a: "a \<in> set as"
    and dep: "act_spec_node_id a \<in> set (act_deps b)" for pre b post a
  proof -
    have "b \<in> set as" using mset_eq_setD[OF m] xs by auto
    then have e: "(act_spec_node_id a, act_spec_node_id b) \<in> dep_edges as"
      using a dep by (auto simp: dep_edges_def in_layer_def)
    then have "(act_spec_node_id a, act_spec_node_id b) \<in>
        {(d, i) \<in> dep_edges as. layer_of lo d \<in> set [0..<length rel + 2]}"
      using acc(2)[OF e] e by (simp del: upt_Suc)
    moreover have "in_layer xs = in_layer pre @ act_spec_node_id b # in_layer post"
      using xs by (simp add: in_layer_def)
    ultimately have "act_spec_node_id a \<in> set (in_layer pre)" using S(3) unfolding topological_def by blast
    then obtain a' where "a' \<in> set pre" "act_spec_node_id a' = act_spec_node_id a"
      by (auto simp: in_layer_def)
    moreover have "a' \<in> set as" using \<open>a' \<in> set pre\<close> mset_eq_setD[OF m] xs by auto
    ultimately show ?thesis using assms(1) a by (auto simp: distinct_map inj_on_def)
  qed
  ultimately show ?thesis using m by blast
qed

text \<open>
  C7: whatever order the sorter emits is a permutation of the batch, its layers ascend (the
  proposal epic first, then the plan-relevant types in the profile's order, cleanups last), and
  every action comes after every action of the batch it depends on.
\<close>

theorem Sort_sound:
  assumes "distinct (map act_spec_node_id as)" and "Sort as rel = Inr xs"
  shows "mset xs = mset as \<and> sorted (map (layer_number rel) xs) \<and>
    (\<forall>pre b post. xs = pre @ b # post \<longrightarrow>
       (\<forall>a \<in> set as. act_spec_node_id a \<in> set (act_deps b) \<longrightarrow> a \<in> set pre))"
  using assms by (rule Sort_order)

text \<open>A batch that sorts has a layer for every action.\<close>

lemma Sort_layers_known:
  assumes "Sort as rel = Inr xs" and "a \<in> set as"
  shows "action_layer rel a = Inr (layer_number rel a)"
proof -
  have "\<exists>lo. layer_table (fst (layerPlan rel)) (snd (layerPlan rel)) as Map.empty = Inr lo"
    using assms(1) by (auto simp: Sort_Inr)
  then obtain l where "layerFor a (fst (layerPlan rel)) (snd (layerPlan rel)) = Inr l"
    unfolding layer_table_total using assms(2) by blast
  then show ?thesis by (simp add: layer_number_def action_layer_def)
qed

text \<open>
  C8: the sorter succeeds exactly when every action's kind has a layer, no action depends on an
  action of a later layer, and the dependencies of the batch have no cycle.
\<close>

theorem Sort_succeeds_iff:
  assumes "distinct (map act_spec_node_id as)"
  shows "(\<exists>xs. Sort as rel = Inr xs) \<longleftrightarrow>
    (\<forall>a \<in> set as. \<exists>l. action_layer rel a = Inr l) \<and>
    (\<forall>b a. \<not> forward_dep rel as b a) \<and> acyclic (dep_edges as)"
proof -
  have ids: "distinct (in_layer as)" using assms by (simp add: in_layer_def)
  let ?T = "layer_table (fst (layerPlan rel)) (snd (layerPlan rel)) as Map.empty"
  have tot: "(\<exists>lo. ?T = Inr lo) \<longleftrightarrow> (\<forall>a \<in> set as. \<exists>l. action_layer rel a = Inr l)"
    by (simp add: layer_table_total action_layer_def)
  have "(\<exists>xs. sort_layers as lo [0..<length rel + 2] = Inr xs) \<longleftrightarrow> acyclic (dep_edges as)"
    if lo: "?T = Inr lo" and fd: "forward_deps as lo = []" for lo
  proof -
    note acc = accepted_layers[OF lo fd ids]
    have "acyclic (dep_edges as) \<longleftrightarrow> (\<forall>l \<in> set [0..<length rel + 2].
        acyclic {(d, i) \<in> dep_edges as. layer_of lo d = l \<and> layer_of lo i = l})"
      using acc by (intro acyclic_layers) (auto simp del: upt_Suc)
    then show ?thesis
      using sort_layers_Inr(4)[OF ids acc(1) sorted_wrt_upt] sort_layers_total[OF ids] by blast
  qed
  then show ?thesis
    unfolding Sort_Inr using tot forward_deps_Nil[OF _ ids] by blast
qed


subsection \<open>Independence of the order of the batch\<close>

lemma mset_concat_map: "mset (concat (map f xs)) = (\<Sum>x \<in># mset xs. mset (f x))"
  by (induction xs) simp_all

lemma kahn_inputs_perm:
  assumes eq: "mset ns' = mset ns"
  shows "set (in_layer ns') = set (in_layer ns)" and "initial_indegree ns' = initial_indegree ns"
    and "mset (children ns' d) = mset (children ns d)"
proof -
  show set_eq: "set (in_layer ns') = set (in_layer ns)"
    using mset_eq_setD[OF eq] by (simp add: in_layer_def)
  have "length (concat (map f ns')) = length (concat (map f ns))" for f :: "action \<Rightarrow> string list"
    using eq by (metis mset_concat_map size_mset)
  then show "initial_indegree ns' = initial_indegree ns"
    by (simp only: initial_indegree_def set_eq fun_eq_iff) simp
  show "mset (children ns' d) = mset (children ns d)"
    by (simp only: children_def set_eq mset_concat_map eq)
qed

lemma bySpecID_perm:
  assumes "distinct (in_layer ns)" and "mset ns' = mset ns"
  shows "bySpecID ns' = bySpecID ns"
proof
  fix i
  have d: "distinct (in_layer ns')"
    using assms by (metis in_layer_def mset_eq_imp_distinct_iff mset_map)
  show "bySpecID ns' i = bySpecID ns i"
  proof (cases "\<exists>n \<in> set ns. act_spec_node_id n = i")
    case True
    then show ?thesis
      using bySpecID_Some[OF assms(1)] bySpecID_Some[OF d] mset_eq_setD[OF assms(2)] by auto
  next
    case False
    then have "map_of (rev (map (\<lambda>n. (act_spec_node_id n, n)) ns)) i = None"
      "map_of (rev (map (\<lambda>n. (act_spec_node_id n, n)) ns')) i = None"
      using mset_eq_setD[OF assms(2)] by (auto simp: map_of_eq_None_iff)
    then show ?thesis by (simp add: bySpecID_def fold_map_upd[where g = "\<lambda>n. n"] map_add_def)
  qed
qed

lemma kahnSort_perm:
  assumes ids: "distinct (in_layer ns)" and eq: "mset ns' = mset ns"
  shows "kahnSort ns' = kahnSort ns"
proof -
  note inp = kahn_inputs_perm[OF eq]
  have ids': "distinct (in_layer ns')"
    using assms by (metis in_layer_def mset_eq_imp_distinct_iff mset_map)
  have len: "length ns' = length ns" using eq by (rule mset_eq_length)
  have ready: "sort (filter P (in_layer ns')) = sort (filter P (in_layer ns))" for P
    using ids ids' inp(1) by (intro sorted_distinct_set_unique) auto
  have start: "kahn_inv (set (in_layer ns)) (children ns) (initial_indegree ns)
      (sort (filter (\<lambda>i. initial_indegree ns i = 0) (in_layer ns))) []"
    by (rule kahn_start_inv[OF kahn_start_nodes[OF ids]])
  have run: "kahn_run ns' = kahn_run ns"
    using kahn_loop_cong[where ch = "children ns" and ch' = "children ns'", OF _ _ _ start]
      children_in_layer inp(3)
    by (simp add: kahn_run_def inp(2) len ready)
  have "sorted_set (filter P (in_layer ns')) = sorted_set (filter P (in_layer ns))" for P
    using inp(1) by (intro sorted_set_cong) auto
  then show ?thesis
    by (cases "kahn_run ns") (simp add: kahnSort_def run len bySpecID_perm[OF assms])
qed

lemma sort_layers_perm:
  assumes "distinct (in_layer as)" and "mset as' = mset as"
  shows "sort_layers as' lo ls = sort_layers as lo ls"
proof (induction ls)
  case (Cons l ls)
  have "kahnSort (filter P as') = kahnSort (filter P as)" for P
    using assms by (intro kahnSort_perm) (simp_all add: in_layer_filter_distinct)
  then show ?case using Cons by simp
qed simp

text \<open>
  The emitted order is a function of the set of actions: classifying in any other order gives
  the same changeset.
\<close>

theorem Sort_deterministic:
  assumes ids: "distinct (map act_spec_node_id as)" and eq: "mset as' = mset as"
    and ok: "Sort as rel = Inr xs"
  shows "Sort as' rel = Inr xs"
proof -
  let ?T = "\<lambda>as. layer_table (fst (layerPlan rel)) (snd (layerPlan rel)) as Map.empty"
  have d: "distinct (in_layer as)" using ids by (simp add: in_layer_def)
  have d': "distinct (in_layer as')"
    using d eq by (metis in_layer_def mset_eq_imp_distinct_iff mset_map)
  have set: "set as' = set as" using eq by (rule mset_eq_setD)
  obtain lo where lo: "?T as = Inr lo" and fd: "forward_deps as lo = []"
    and run: "sort_layers as lo [0..<length rel + 2] = Inr xs"
    using ok by (auto simp: Sort_Inr)
  obtain lo' where lo': "?T as' = Inr lo'"
    using lo layer_table_total[where as = as] layer_table_total[where as = as'] set by blast
  have "lo' = lo"
  proof
    fix k
    show "lo' k = lo k"
    proof (cases "k \<in> set (in_layer as)")
      case True
      then obtain a where "a \<in> set as" "act_spec_node_id a = k" by (auto simp: in_layer_def)
      then show ?thesis
        using layer_table_layer_of[OF lo d, of a] layer_table_layer_of[OF lo' d', of a] set by simp
    next
      case False
      then show ?thesis
        using layer_table_dom[OF lo d, of k] layer_table_dom[OF lo' d', of k] set by (simp add: in_layer_def)
    qed
  qed
  moreover have "forward_deps as' lo = []"
    using forward_deps_Nil[OF lo d] forward_deps_Nil[OF lo' d'] fd \<open>lo' = lo\<close> set
    by (simp add: forward_dep_def)
  ultimately show ?thesis
    using lo' run sort_layers_perm[OF d eq] by (auto simp: Sort_Inr)
qed


subsection \<open>A sample batch\<close>

definition sample_action :: "string \<Rightarrow> string \<Rightarrow> string list \<Rightarrow> action" where
  "sample_action t i deps =
     blank_action\<lparr>act_node_type := t, act_spec_node_id := i, act_deps := deps\<rparr>"

definition sample_batch :: "action list" where
  "sample_batch =
     [sample_action ''component'' ''c2'' [''c1'', ''r''], sample_action ''component'' ''c1'' [''r''],
      sample_action KindProposalEpic ''e'' [], sample_action ''requirement'' ''r'' []]"

lemma sample_batch_sorted:
  "Sort sample_batch [''requirement'', ''component''] =
     Inr [sample_action KindProposalEpic ''e'' [], sample_action ''requirement'' ''r'' [],
          sample_action ''component'' ''c1'' [''r''], sample_action ''component'' ''c2'' [''c1'', ''r'']]"
  by code_simp

lemma sample_batch_distinct: "distinct (map act_spec_node_id sample_batch)"
  by code_simp

theorem Sort_sound_witness:
  "mset [sample_action KindProposalEpic ''e'' [], sample_action ''requirement'' ''r'' [],
         sample_action ''component'' ''c1'' [''r''], sample_action ''component'' ''c2'' [''c1'', ''r'']] =
   mset sample_batch"
  using Sort_sound[OF sample_batch_distinct sample_batch_sorted] by (rule conjunct1)

theorem Sort_succeeds_iff_witness: "acyclic (dep_edges sample_batch)"
  using Sort_succeeds_iff[OF sample_batch_distinct, of "[''requirement'', ''component'']"]
    sample_batch_sorted by blast

theorem Sort_deterministic_witness:
  "Sort (rev sample_batch) [''requirement'', ''component''] = Sort sample_batch [''requirement'', ''component'']"
  using Sort_deterministic[OF sample_batch_distinct _ sample_batch_sorted, of "rev sample_batch"]
  by (simp add: sample_batch_sorted)

end
