(* ===== verification/Plan_Classifier.thy ===== *)
theory Plan_Classifier
  imports Plan_Matcher Plan_Sorter
begin

text \<open>
  The action classifier (\<open>plan/action_classifier.go\<close>): the state transition table from
  matched, orphaned and unmatched nodes to create, close and retarget actions, and the
  dependencies of the actions.
\<close>

subsection \<open>Gates and names\<close>

definition isTestSectionFoldback :: "classified_change \<Rightarrow> spec_graph \<Rightarrow> bool" where
  "isTestSectionFoldback c g =
     (if cc_node_type c \<noteq> ''test_section'' then False
      else case moduleByName g (cc_module c) of
             None \<Rightarrow> False
           | Some m \<Rightarrow> (case findTestSection (me_spec m) (cc_key c) of
                          None \<Rightarrow> False
                        | Some ts \<Rightarrow> length (tst_describes ts) = 1))"

definition planRelevant :: "profile \<Rightarrow> string \<Rightarrow> bool" where
  "planRelevant p nodeType \<longleftrightarrow> (\<exists>t \<in> set (prf_plan_relevant p). t = nodeType)"

definition gateAdmits :: "classified_change \<Rightarrow> spec_graph \<Rightarrow> bool" where
  "gateAdmits c g =
     (if cc_node_type c = ''module'' then True
      else if \<not> planRelevant (profileOrDefault g) (cc_node_type c) then False
      else if cc_node_type c = ''test_section'' then
        (case moduleByName g (cc_module c) of
           None \<Rightarrow> True
         | Some m \<Rightarrow> (case findTestSection (me_spec m) (cc_key c) of
                        None \<Rightarrow> True
                      | Some ts \<Rightarrow> 2 \<le> length (tst_describes ts)))
      else True)"

definition nodeName :: "string \<Rightarrow> string \<Rightarrow> string \<Rightarrow> spec_graph \<Rightarrow> string" where
  "nodeName moduleName nodeID nodeType g =
     (case moduleByName g moduleName of
        None \<Rightarrow> nodeID
      | Some m \<Rightarrow>
          if nodeType = ''component'' then
            (case findComponent (me_spec m) nodeID of Some c \<Rightarrow> cmp_name c | None \<Rightarrow> nodeID)
          else if nodeType = ''data_flow'' then
            (case findDataFlow (me_spec m) nodeID of Some f \<Rightarrow> dfl_name f | None \<Rightarrow> nodeID)
          else if nodeType = ''test_section'' then
            (case findTestSection (me_spec m) nodeID of Some t \<Rightarrow> tst_name t | None \<Rightarrow> nodeID)
          else nodeID)"

definition matchedNodeName :: "classified_change \<Rightarrow> spec_graph \<Rightarrow> string" where
  "matchedNodeName c g = nodeName (cc_module c) (cc_key c) (cc_node_type c) g"

subsection \<open>Dependencies\<close>

definition collectDescribes :: "string \<Rightarrow> string \<Rightarrow> spec_graph \<Rightarrow> string list" where
  "collectDescribes moduleName nodeID g =
     (case moduleByName g moduleName of
        None \<Rightarrow> []
      | Some m \<Rightarrow> (case findTestSection (me_spec m) nodeID of
                     None \<Rightarrow> []
                   | Some ts \<Rightarrow> if tst_describes ts = [] then [] else sort (dedup (tst_describes ts))))"

text \<open>
  The breadth-first walk over \<open>requires_module\<close>. The queue shrinks or a module that was not
  visited yet is visited, so the walk ends on every graph, cyclic ones included.
\<close>

function collect_bfs :: "(string \<times> module_entry) list \<Rightarrow> string list \<Rightarrow> string list \<Rightarrow> string list \<Rightarrow> string list" where
  "collect_bfs mods visited [] deps = deps"
| "collect_bfs mods visited (i # queue) deps =
     (if i \<in> set visited then collect_bfs mods visited queue deps
      else case map_of mods i of
             None \<Rightarrow> collect_bfs mods (i # visited) queue deps
           | Some req \<Rightarrow>
               collect_bfs mods (i # visited) (queue @ mod_requires_module (me_module req))
                 (deps @ map cmp_id (ms_components (me_spec req))))"
  by pat_completeness auto

termination
proof (relation "measures [\<lambda>(mods, visited, queue, deps). card (fst ` set mods - set visited),
                           \<lambda>(mods, visited, queue, deps). length queue]", goal_cases)
  case (4 mods visited i queue deps req)
  then have "i \<in> fst ` set mods - set visited" by (auto dest: map_of_SomeD intro: rev_image_eqI)
  then have "card (fst ` set mods - insert i (set visited)) < card (fst ` set mods - set visited)"
    by (intro psubset_card_mono) auto
  then show ?case by simp
next
  case (3 mods visited i queue deps)
  then have "fst ` set mods - insert i (set visited) = fst ` set mods - set visited"
    by (auto simp: map_of_eq_None_iff)
  then show ?case by simp
qed auto

definition collectDeps :: "string \<Rightarrow> string \<Rightarrow> spec_graph \<Rightarrow> string list" where
  "collectDeps moduleName nodeID g =
     (case moduleByName g moduleName of
        None \<Rightarrow> []
      | Some m \<Rightarrow>
          let own = (case findComponent (me_spec m) nodeID of
                       Some cm \<Rightarrow> filter (\<lambda>u. u \<noteq> nodeID) (cmp_uses cm)
                     | None \<Rightarrow> []);
              deps = collect_bfs (sg_by_id g) [mod_id (me_module m)]
                       (mod_requires_module (me_module m)) own
          in sorted_set deps)"

definition depsFor :: "classified_change \<Rightarrow> spec_graph \<Rightarrow> string list" where
  "depsFor c g =
     (if cc_node_type c = ''component'' then collectDeps (cc_module c) (cc_key c) g
      else if cc_node_type c = ''test_section'' then collectDescribes (cc_module c) (cc_key c) g
      else [])"

subsection \<open>Actions\<close>

definition slash_name :: "string \<Rightarrow> string \<Rightarrow> string" where
  "slash_name module name = module @ ''/'' @ name"

definition closeAction :: "string \<Rightarrow> string \<Rightarrow> string \<Rightarrow> string \<Rightarrow> string \<Rightarrow> string \<Rightarrow> action" where
  "closeAction module node nodeType specNodeID taskID changeType =
     blank_action\<lparr>act_type := ActionObsolete, act_task_id := taskID, act_module := module,
       act_node := node, act_node_type := nodeType, act_spec_node_id := specNodeID,
       act_change_type := changeType,
       act_reason := (if changeType = ''removed'' then ''Spec node removed: '' @ slash_name module node
                      else ''Spec node modified: '' @ slash_name module node)\<rparr>"

definition matchedCreateAction :: "classified_change \<Rightarrow> spec_graph \<Rightarrow> action" where
  "matchedCreateAction c g =
     (let name = matchedNodeName c g
      in blank_action\<lparr>act_type := ActionCreate, act_module := cc_module c, act_node := name,
           act_node_type := cc_node_type c, act_spec_node_id := cc_key c,
           act_spec_hash := cc_new_hash c, act_deps := depsFor c g,
           act_reason := ''Spec node modified (new): '' @ slash_name (cc_module c) name\<rparr>)"

definition cleanupAction :: "pairing \<Rightarrow> string \<Rightarrow> action" where
  "cleanupAction rec nodeType =
     blank_action\<lparr>act_type := ActionCreate, act_module := pr_module rec, act_node := pr_name rec,
       act_node_type := nodeType, act_spec_node_id := pr_spec_node_id rec,
       act_reason := ''Code cleanup: '' @ slash_name (pr_module rec) (pr_name rec)\<rparr>"

definition retargetAction :: "classified_change \<Rightarrow> pairing \<Rightarrow> spec_graph \<Rightarrow> action" where
  "retargetAction c rec g =
     (let name = matchedNodeName c g
      in blank_action\<lparr>act_type := ActionRetarget, act_task_id := pr_task_id rec,
           act_module := cc_module c, act_node := name, act_node_type := cc_node_type c,
           act_spec_node_id := cc_key c, act_spec_hash := cc_new_hash c, act_deps := depsFor c g,
           act_reason := ''Spec node modified (retarget): '' @ slash_name (cc_module c) name\<rparr>)"

subsection \<open>The transition table\<close>

text \<open>One pairing of a matched change: the actions and the claims it adds.\<close>

definition classify_record :: "classified_change \<Rightarrow> spec_graph \<Rightarrow> pairing \<Rightarrow> action list \<times> string list" where
  "classify_record c g rec =
     (if isTestSectionFoldback c g then
        (if pr_bead_status rec = ''open'' then
           ([closeAction (cc_module c) (matchedNodeName c g) (cc_node_type c) (cc_key c)
               (pr_task_id rec) ''modified''], [])
         else if pr_bead_status rec = ''in_progress'' then ([], [pr_task_id rec])
         else ([], []))
      else if pr_after rec \<noteq> [] \<and> pr_after rec = cc_new_hash c then ([], [])
      else if pr_bead_status rec = ''open'' then ([retargetAction c rec g], [])
      else if pr_bead_status rec = ''in_progress'' then ([], [pr_task_id rec])
      else ([matchedCreateAction c g], []))"

definition classifyMatch :: "matched \<Rightarrow> spec_graph \<Rightarrow> action list \<times> string list" where
  "classifyMatch m g =
     (let rs = map (classify_record (mt_change m) g) (mt_records m)
      in (concat (map fst rs), concat (map snd rs)))"

definition classifyUnmatched :: "unmatched \<Rightarrow> spec_graph \<Rightarrow> action option" where
  "classifyUnmatched u g =
     (let c = um_change u
      in if cc_type c = Removed then None
         else if \<not> gateAdmits c g then None
         else let name = nodeName (cc_module c) (cc_key c) (cc_node_type c) g
              in Some (blank_action\<lparr>act_type := ActionCreate, act_module := cc_module c,
                   act_node := name, act_node_type := cc_node_type c,
                   act_spec_node_id := cc_key c, act_spec_hash := cc_new_hash c,
                   act_deps := depsFor c g,
                   act_reason := (if cc_type c = Modified
                                  then ''Spec node modified (new): '' @ slash_name (cc_module c) name
                                  else ''New spec node: '' @ slash_name (cc_module c) name)\<rparr>))"

definition classifyOrphaned :: "orphaned \<Rightarrow> action list \<times> string" where
  "classifyOrphaned o' =
     (let rec = or_record o'
      in if pr_bead_status rec = ''open'' then
           ([closeAction (pr_module rec) (pr_name rec) (or_node_type o') (pr_spec_node_id rec)
               (pr_task_id rec) ''removed''], [])
         else if pr_bead_status rec = ''in_progress'' then ([], pr_task_id rec)
         else ([cleanupAction rec (or_node_type o')], []))"

subsection \<open>The data-flow add-on\<close>

definition add_flow_uses :: "spec_graph \<Rightarrow> classified_change \<Rightarrow> (string \<Rightarrow> string list) \<Rightarrow> (string \<Rightarrow> string list)" where
  "add_flow_uses g c m =
     (if cc_node_type c \<noteq> ''data_flow'' then m
      else case moduleByName g (cc_module c) of
             None \<Rightarrow> m
           | Some e \<Rightarrow> (case findDataFlow (me_spec e) (cc_key c) of
                          None \<Rightarrow> m
                        | Some flow \<Rightarrow>
                            fold (\<lambda>compID m. m(compID := m compID @ [cc_key c])) (dfl_uses flow) m))"

definition changedDataFlowUses :: "matched list \<Rightarrow> unmatched list \<Rightarrow> spec_graph \<Rightarrow> (string \<Rightarrow> string list)" where
  "changedDataFlowUses ms us g =
     fold (\<lambda>u. add_flow_uses g (um_change u)) us
       (fold (\<lambda>m. add_flow_uses g (mt_change m)) ms (\<lambda>_. []))"

definition add_on :: "(string \<Rightarrow> string list) \<Rightarrow> action \<Rightarrow> action" where
  "add_on flowUses a =
     (if act_type a \<noteq> ActionCreate \<or> act_node_type a \<noteq> ''component'' \<or> act_spec_hash a = [] then a
      else let flows = flowUses (act_spec_node_id a)
           in if flows = [] then a else a\<lparr>act_deps := sorted_set (act_deps a @ flows)\<rparr>)"

definition applyDataFlowAddOn :: "action list \<Rightarrow> (string \<Rightarrow> string list) \<Rightarrow> action list" where
  "applyDataFlowAddOn actions flowUses = map (add_on flowUses) actions"

subsection \<open>Classification\<close>

definition action_key :: "action \<Rightarrow> string \<times> string \<times> string \<times> string \<times> string" where
  "action_key a = (act_type a, act_module a, act_node a, act_task_id a, act_spec_node_id a)"

definition sortActions :: "action list \<Rightarrow> action list" where
  "sortActions = sort_key action_key"

definition ClassifyActions :: "matched list \<Rightarrow> unmatched list \<Rightarrow> orphaned list \<Rightarrow> spec_graph
    \<Rightarrow> (plan_error, action list) result" where
  "ClassifyActions ms us os g =
     (let flowUses = changedDataFlowUses ms us g;
          matchedRes = map (\<lambda>m. classifyMatch m g) ms;
          orphanRes = map classifyOrphaned os;
          actions = concat (map fst matchedRes) @ concat (map fst orphanRes);
          claimed = concat (map snd matchedRes) @ filter (\<lambda>c. c \<noteq> []) (map snd orphanRes)
      in if claimed \<noteq> [] then Inl (ClaimedTasks (sort claimed))
         else Inr (sortActions (applyDataFlowAddOn
                (actions @ List.map_filter (\<lambda>u. classifyUnmatched u g) us) flowUses)))"


subsection \<open>The walk over the required modules\<close>

declare collect_bfs.simps(2) [simp del]

text \<open>
  The modules reachable from the queue through unvisited modules, and their components.
\<close>

definition requires :: "(string \<times> module_entry) list \<Rightarrow> string \<Rightarrow> string set" where
  "requires mods i = (case map_of mods i of None \<Rightarrow> {} | Some e \<Rightarrow> set (mod_requires_module (me_module e)))"

definition components_of :: "(string \<times> module_entry) list \<Rightarrow> string \<Rightarrow> string set" where
  "components_of mods i = (case map_of mods i of None \<Rightarrow> {} | Some e \<Rightarrow> cmp_id ` set (ms_components (me_spec e)))"

inductive_set walk :: "(string \<times> module_entry) list \<Rightarrow> string set \<Rightarrow> string set \<Rightarrow> string set"
  for mods V Q where
  start: "q \<in> Q \<Longrightarrow> q \<notin> V \<Longrightarrow> q \<in> walk mods V Q"
| follow: "j \<in> walk mods V Q \<Longrightarrow> k \<in> requires mods j \<Longrightarrow> k \<notin> V \<Longrightarrow> k \<in> walk mods V Q"

lemma walk_mono: "x \<in> walk mods V Q \<Longrightarrow> Q \<subseteq> Q' \<union> V \<Longrightarrow> x \<in> walk mods V Q'"
  by (induction rule: walk.induct) (auto intro: walk.intros)

lemma walk_visited: "i \<in> V \<Longrightarrow> walk mods V (insert i Q) = walk mods V Q"
  by (auto intro: walk_mono)

lemma walk_visit:
  assumes "i \<notin> V"
  shows "walk mods V (insert i Q) = insert i (walk mods (insert i V) (Q \<union> requires mods i))"
proof (intro set_eqI iffI)
  fix x assume "x \<in> walk mods V (insert i Q)"
  then show "x \<in> insert i (walk mods (insert i V) (Q \<union> requires mods i))"
  proof (induction rule: walk.induct)
    case (follow j k)
    then show ?case by (cases "k = i") (auto intro: walk.intros)
  qed (auto intro: walk.intros)
next
  fix x assume x: "x \<in> insert i (walk mods (insert i V) (Q \<union> requires mods i))"
  have i: "i \<in> walk mods V (insert i Q)" using assms by (auto intro: walk.start)
  have "y \<in> walk mods V (insert i Q)" if "y \<in> walk mods (insert i V) (Q \<union> requires mods i)" for y
    using that
  proof (induction rule: walk.induct)
    case (start q)
    then show ?case using i by (auto intro: walk.intros)
  next
    case (follow j k)
    then show ?case by (auto intro: walk.follow)
  qed
  then show "x \<in> walk mods V (insert i Q)" using x i by auto
qed

lemma collect_bfs_set:
  "set (collect_bfs mods visited queue deps) =
     set deps \<union> (\<Union>j \<in> walk mods (set visited) (set queue). components_of mods j)"
proof (induction mods visited queue deps rule: collect_bfs.induct)
  case (1 mods visited deps)
  have "walk mods (set visited) {} = {}"
  proof -
    have "x \<in> walk mods (set visited) {} \<Longrightarrow> False" for x
      by (induction rule: walk.induct) auto
    then show ?thesis by blast
  qed
  then show ?case by simp
next
  case (2 mods visited i queue deps)
  show ?case
  proof (cases "i \<in> set visited")
    case True
    then show ?thesis using 2(1) by (simp add: collect_bfs.simps(2) walk_visited)
  next
    case False
    note w = walk_visit[OF False, of mods "set queue"]
    show ?thesis
    proof (cases "map_of mods i")
      case None
      then show ?thesis using 2(2)[OF False] False
        by (simp add: collect_bfs.simps(2) w requires_def components_of_def)
    next
      case (Some req)
      then show ?thesis using 2(3)[OF False Some] False
        by (auto simp: collect_bfs.simps(2) w requires_def components_of_def)
    qed
  qed
qed

text \<open>The transitive \<open>requires_module\<close> relation, without the bookkeeping of the walk.\<close>

definition requires_rel :: "spec_graph \<Rightarrow> (string \<times> string) set" where
  "requires_rel g = {(i, j). j \<in> requires (sg_by_id g) i}"

lemma walk_trancl:
  "walk (sg_by_id g) {i} (requires (sg_by_id g) i) = (requires_rel g)\<^sup>+ `` {i} - {i}"
proof (intro set_eqI iffI)
  fix x assume "x \<in> walk (sg_by_id g) {i} (requires (sg_by_id g) i)"
  then show "x \<in> (requires_rel g)\<^sup>+ `` {i} - {i}"
    by (induction rule: walk.induct) (auto simp: requires_rel_def intro: trancl_into_trancl)
next
  fix x assume x: "x \<in> (requires_rel g)\<^sup>+ `` {i} - {i}"
  have "y = i \<or> y \<in> walk (sg_by_id g) {i} (requires (sg_by_id g) i)" if "(i, y) \<in> (requires_rel g)\<^sup>+" for y
    using that
  proof (induction rule: trancl_induct)
    case (base y)
    then show ?case by (auto simp: requires_rel_def intro: walk.start)
  next
    case (step y z)
    then show ?case by (cases "z = i") (auto simp: requires_rel_def intro: walk.intros)
  qed
  then show "x \<in> walk (sg_by_id g) {i} (requires (sg_by_id g) i)" using x by auto
qed

lemma set_collectDeps:
  assumes "moduleByName g m = Some e" and "moduleByID g (mod_id (me_module e)) = Some e"
  shows "set (collectDeps m nodeID g) =
      (case findComponent (me_spec e) nodeID of Some c \<Rightarrow> set (cmp_uses c) - {nodeID} | None \<Rightarrow> {}) \<union>
      {cmp_id c |c j e'. (mod_id (me_module e), j) \<in> (requires_rel g)\<^sup>+ \<and> j \<noteq> mod_id (me_module e) \<and>
                        moduleByID g j = Some e' \<and> c \<in> set (ms_components (me_spec e'))}"
proof -
  let ?i = "mod_id (me_module e)"
  have "set (mod_requires_module (me_module e)) = requires (sg_by_id g) ?i"
    using assms(2) by (simp add: requires_def moduleByID_def)
  then have "set (collectDeps m nodeID g) =
      (case findComponent (me_spec e) nodeID of Some c \<Rightarrow> set (cmp_uses c) - {nodeID} | None \<Rightarrow> {}) \<union>
      (\<Union>j \<in> (requires_rel g)\<^sup>+ `` {?i} - {?i}. components_of (sg_by_id g) j)"
    using assms(1) by (auto simp: collectDeps_def Let_def collect_bfs_set walk_trancl split: option.splits)
  also have "(\<Union>j \<in> (requires_rel g)\<^sup>+ `` {?i} - {?i}. components_of (sg_by_id g) j) =
      {cmp_id c |c j e'. (?i, j) \<in> (requires_rel g)\<^sup>+ \<and> j \<noteq> ?i \<and>
                        moduleByID g j = Some e' \<and> c \<in> set (ms_components (me_spec e'))}"
    by (fastforce simp: components_of_def moduleByID_def split: option.splits)
  finally show ?thesis .
qed

text \<open>
  C18: the dependencies collected for a component are the components it uses, itself excepted,
  and every component of every other module its own module requires directly or transitively,
  on cyclic module graphs as well; the list is sorted and has no duplicates.
\<close>

theorem collectDeps_exact:
  assumes "moduleByName g m = Some e" and "moduleByID g (mod_id (me_module e)) = Some e"
  shows "sorted (collectDeps m nodeID g) \<and> distinct (collectDeps m nodeID g) \<and>
    set (collectDeps m nodeID g) =
      (case findComponent (me_spec e) nodeID of Some c \<Rightarrow> set (cmp_uses c) - {nodeID} | None \<Rightarrow> {}) \<union>
      {cmp_id c |c j e'. (mod_id (me_module e), j) \<in> (requires_rel g)\<^sup>+ \<and> j \<noteq> mod_id (me_module e) \<and>
                        moduleByID g j = Some e' \<and> c \<in> set (ms_components (me_spec e'))}"
  unfolding set_collectDeps[OF assms] using assms(1) by (simp add: collectDeps_def Let_def)


subsection \<open>The refusal\<close>

text \<open>The pairings that claim a change: in progress, and not already at the change's new hash.\<close>

definition already_tracked :: "classified_change \<Rightarrow> pairing \<Rightarrow> bool" where
  "already_tracked c rec \<longleftrightarrow> pr_after rec \<noteq> [] \<and> pr_after rec = cc_new_hash c"

definition settled :: "spec_graph \<Rightarrow> classified_change \<Rightarrow> pairing \<Rightarrow> bool" where
  "settled g c rec \<longleftrightarrow> \<not> isTestSectionFoldback c g \<and> already_tracked c rec"

definition with_status :: "string \<Rightarrow> spec_graph \<Rightarrow> classified_change \<Rightarrow> pairing \<Rightarrow> bool" where
  "with_status s g c rec \<longleftrightarrow> pr_bead_status rec = s \<and> \<not> settled g c rec"

definition matched_with :: "string \<Rightarrow> spec_graph \<Rightarrow> matched list \<Rightarrow> (classified_change \<times> pairing) list" where
  "matched_with s g ms =
     concat (map (\<lambda>m. map (Pair (mt_change m)) (filter (with_status s g (mt_change m)) (mt_records m))) ms)"

definition orphaned_with :: "string \<Rightarrow> orphaned list \<Rightarrow> orphaned list" where
  "orphaned_with s os = filter (\<lambda>o'. pr_bead_status (or_record o') = s) os"

definition claimed_tasks :: "spec_graph \<Rightarrow> matched list \<Rightarrow> orphaned list \<Rightarrow> string list" where
  "claimed_tasks g ms os =
     map (pr_task_id \<circ> snd) (matched_with ''in_progress'' g ms) @
     filter (\<lambda>t. t \<noteq> []) (map orphan_task (orphaned_with ''in_progress'' os))"

lemma classifyMatch_claims:
  "snd (classifyMatch m g) =
     map pr_task_id (filter (with_status ''in_progress'' g (mt_change m)) (mt_records m))"
proof -
  have "concat (map (\<lambda>r. snd (classify_record c g r)) rs) =
      map pr_task_id (filter (with_status ''in_progress'' g c) rs)" for c rs
    by (induction rs) (auto simp: classify_record_def with_status_def settled_def already_tracked_def)
  then show ?thesis by (simp add: classifyMatch_def Let_def comp_def)
qed

lemma orphan_claims:
  "filter (\<lambda>c. c \<noteq> []) (map (\<lambda>o'. snd (classifyOrphaned o')) os) =
     filter (\<lambda>t. t \<noteq> []) (map orphan_task (orphaned_with ''in_progress'' os))"
  by (induction os) (auto simp: classifyOrphaned_def Let_def orphaned_with_def)

lemma ClassifyActions_claimed:
  "ClassifyActions ms us os g =
     (if claimed_tasks g ms os \<noteq> [] then Inl (ClaimedTasks (sort (claimed_tasks g ms os)))
      else Inr (sortActions (applyDataFlowAddOn
             (concat (map (\<lambda>m. fst (classifyMatch m g)) ms) @
              concat (map (\<lambda>o'. fst (classifyOrphaned o')) os) @
              List.map_filter (\<lambda>u. classifyUnmatched u g) us) (changedDataFlowUses ms us g))))"
proof -
  have "concat (map (\<lambda>m. snd (classifyMatch m g)) ms) =
      map (pr_task_id \<circ> snd) (matched_with ''in_progress'' g ms)"
    by (simp add: classifyMatch_claims matched_with_def map_concat comp_def)
  note this[unfolded comp_def]
  then show ?thesis
    by (simp only: ClassifyActions_def Let_def claimed_tasks_def comp_def map_map orphan_claims append_assoc)
qed

text \<open>
  C15: classification refuses exactly when some task of a matched or orphaned pairing is claimed,
  the pairing not already at the change's new hash, and the refusal names every such task, sorted.
\<close>

theorem ClassifyActions_refusal:
  "ClassifyActions ms us os g = Inl e \<longleftrightarrow>
     claimed_tasks g ms os \<noteq> [] \<and> e = ClaimedTasks (sort (claimed_tasks g ms os))"
  by (auto simp: ClassifyActions_claimed)

subsection \<open>What becomes of every task\<close>

lemma add_on_simps [simp]:
  "act_type (add_on f a) = act_type a" "act_task_id (add_on f a) = act_task_id a"
  "act_reason (add_on f a) = act_reason a" "act_spec_node_id (add_on f a) = act_spec_node_id a"
  "act_spec_hash (add_on f a) = act_spec_hash a" "act_node_type (add_on f a) = act_node_type a"
  "act_module (add_on f a) = act_module a" "act_node (add_on f a) = act_node a"
  by (simp_all add: add_on_def Let_def)

lemma isCleanup_add_on [simp]: "isCleanup (add_on f a) = isCleanup a"
  by (simp add: isCleanup_def)

lemma add_on_no_hash: "act_spec_hash a = [] \<Longrightarrow> add_on f a = a"
  by (simp add: add_on_def)

lemmas action_simps = blank_action_def closeAction_def matchedCreateAction_def cleanupAction_def
  retargetAction_def Let_def ActionCreate_def ActionObsolete_def ActionRetarget_def

lemma isCleanup_actions:
  "\<not> isCleanup (closeAction m n t i k ct)" "\<not> isCleanup (matchedCreateAction c g)"
  "\<not> isCleanup (retargetAction c rec g)" "isCleanup (cleanupAction rec t)"
  "classifyUnmatched u g = Some a \<Longrightarrow> \<not> isCleanup a"
  by (auto simp: isCleanup_def cleanup_prefix_def action_simps classifyUnmatched_def split: if_splits)

lemma action_types:
  "act_type (closeAction m n t i k ct) = ActionObsolete" "act_type (matchedCreateAction c g) = ActionCreate"
  "act_type (retargetAction c rec g) = ActionRetarget" "act_type (cleanupAction rec t) = ActionCreate"
  "classifyUnmatched u g = Some a \<Longrightarrow> act_type a = ActionCreate"
  "ActionObsolete \<noteq> ActionCreate" "ActionRetarget \<noteq> ActionCreate" "ActionObsolete \<noteq> ActionRetarget"
  by (auto simp: action_simps classifyUnmatched_def split: if_splits)

lemma classifyMatch_task_actions:
  "filter (\<lambda>a. act_type a \<noteq> ActionCreate) (fst (classifyMatch m g)) =
     map (\<lambda>rec. if isTestSectionFoldback (mt_change m) g
                then closeAction (cc_module (mt_change m)) (matchedNodeName (mt_change m) g)
                       (cc_node_type (mt_change m)) (cc_key (mt_change m)) (pr_task_id rec) ''modified''
                else retargetAction (mt_change m) rec g)
       (filter (with_status ''open'' g (mt_change m)) (mt_records m))"
proof -
  have "filter (\<lambda>a. act_type a \<noteq> ActionCreate) (concat (map (\<lambda>r. fst (classify_record c g r)) rs)) =
      map (\<lambda>rec. if isTestSectionFoldback c g
                 then closeAction (cc_module c) (matchedNodeName c g) (cc_node_type c) (cc_key c)
                        (pr_task_id rec) ''modified''
                 else retargetAction c rec g) (filter (with_status ''open'' g c) rs)" for c rs
    by (induction rs)
       (auto simp: classify_record_def with_status_def settled_def already_tracked_def action_types)
  then show ?thesis by (simp add: classifyMatch_def Let_def comp_def)
qed

lemma classifyMatch_owed:
  "map (\<lambda>a. (act_type a, act_task_id a, act_spec_node_id a))
     (filter (\<lambda>a. act_type a \<noteq> ActionCreate) (fst (classifyMatch m g))) =
   map (\<lambda>rec. (if isTestSectionFoldback (mt_change m) g then ActionObsolete else ActionRetarget,
               pr_task_id rec, cc_key (mt_change m)))
     (filter (with_status ''open'' g (mt_change m)) (mt_records m))"
  unfolding classifyMatch_task_actions map_map
  by (intro map_cong) (simp_all add: closeAction_def retargetAction_def blank_action_def Let_def)

lemma classifyOrphaned_task_actions:
  "filter (\<lambda>a. act_type a \<noteq> ActionCreate) (concat (map (\<lambda>o'. fst (classifyOrphaned o')) os)) =
     map (\<lambda>o'. closeAction (pr_module (or_record o')) (pr_name (or_record o')) (or_node_type o')
                 (pr_spec_node_id (or_record o')) (orphan_task o') ''removed'')
       (orphaned_with ''open'' os)"
  by (induction os) (auto simp: classifyOrphaned_def Let_def orphaned_with_def action_types)

lemma classifyUnmatched_no_task:
  "filter (\<lambda>a. act_type a \<noteq> ActionCreate) (List.map_filter (\<lambda>u. classifyUnmatched u g) us) = []"
  by (induction us) (auto simp: map_filter_simps action_types split: option.splits)

text \<open>Sorting and the data-flow add-on change neither which actions there are nor who owns them.\<close>

lemma classified_view:
  assumes "as = sortActions (applyDataFlowAddOn acts f)"
    and "\<And>a. P (add_on f a) = P a" and "\<And>a. v (add_on f a) = v a"
  shows "mset (map v (filter P as)) = mset (map v (filter P acts))"
proof -
  have "map v (filter P (map (add_on f) acts)) = map v (filter P acts)"
    using assms(2,3) by (simp add: filter_map comp_def)
  moreover have "mset (map v (filter P as)) = mset (map v (filter P (map (add_on f) acts)))"
    by (simp only: assms(1) sortActions_def applyDataFlowAddOn_def mset_map mset_filter mset_sort)
  ultimately show ?thesis by simp
qed

text \<open>The one task operation each open pairing is owed.\<close>

definition owed_operations :: "spec_graph \<Rightarrow> matched list \<Rightarrow> orphaned list \<Rightarrow> (string \<times> string \<times> string) list" where
  "owed_operations g ms os =
     map (\<lambda>(c, rec). (if isTestSectionFoldback c g then ActionObsolete else ActionRetarget,
                      pr_task_id rec, cc_key c)) (matched_with ''open'' g ms) @
     map (\<lambda>o'. (ActionObsolete, orphan_task o', pr_spec_node_id (or_record o'))) (orphaned_with ''open'' os)"

text \<open>
  C9: the close and retarget actions are exactly the operations owed to the open tasks, each once:
  a retarget for an open task whose node still owes one, a close for the task of a folded-back
  test section or of a removed node, none for a pairing already at the new hash, and no other
  task is touched.
\<close>

theorem ClassifyActions_task_accounting:
  assumes "ClassifyActions ms us os g = Inr as"
  shows "mset (map (\<lambda>a. (act_type a, act_task_id a, act_spec_node_id a))
                 (filter (\<lambda>a. act_type a \<noteq> ActionCreate) as)) = mset (owed_operations g ms os)"
proof -
  let ?view = "\<lambda>a. (act_type a, act_task_id a, act_spec_node_id a)"
  let ?task = "\<lambda>a. act_type a \<noteq> ActionCreate"
  let ?acts = "concat (map (\<lambda>m. fst (classifyMatch m g)) ms) @
              concat (map (\<lambda>o'. fst (classifyOrphaned o')) os) @
              List.map_filter (\<lambda>u. classifyUnmatched u g) us"
  have "as = sortActions (applyDataFlowAddOn ?acts (changedDataFlowUses ms us g))"
    using assms by (simp add: ClassifyActions_claimed split: if_splits)
  then have "mset (map ?view (filter ?task as)) = mset (map ?view (filter ?task ?acts))"
    by (rule classified_view) simp_all
  also have "map ?view (filter ?task ?acts) =
      concat (map (\<lambda>m. map ?view (filter ?task (fst (classifyMatch m g)))) ms) @
      map ?view (filter ?task (concat (map (\<lambda>o'. fst (classifyOrphaned o')) os)))"
    by (simp only: filter_append map_append filter_concat map_concat map_map comp_def
        classifyUnmatched_no_task list.map(1) append_Nil2)
  also have "\<dots> = owed_operations g ms os"
    by (simp only: classifyMatch_owed classifyOrphaned_task_actions owed_operations_def
        matched_with_def map_concat map_map comp_def prod.case)
       (simp add: closeAction_def blank_action_def)
  finally show ?thesis by simp
qed


subsection \<open>Cleanups\<close>

lemma classifyMatch_no_cleanup: "filter isCleanup (fst (classifyMatch m g)) = []"
proof -
  have "filter isCleanup (concat (map (\<lambda>r. fst (classify_record c g r)) rs)) = []" for c rs
    by (induction rs) (auto simp: classify_record_def isCleanup_actions)
  then show ?thesis by (simp add: classifyMatch_def Let_def comp_def)
qed

lemma classifyOrphaned_cleanups:
  "filter isCleanup (concat (map (\<lambda>o'. fst (classifyOrphaned o')) os)) =
     map (\<lambda>o'. cleanupAction (or_record o') (or_node_type o'))
       (filter (\<lambda>o'. pr_bead_status (or_record o') \<notin> {''open'', ''in_progress''}) os)"
  by (induction os) (auto simp: classifyOrphaned_def Let_def isCleanup_actions)

lemma classifyUnmatched_no_cleanup:
  "filter isCleanup (List.map_filter (\<lambda>u. classifyUnmatched u g) us) = []"
  by (induction us) (auto simp: map_filter_simps isCleanup_actions split: option.splits)

text \<open>
  A cleanup is recognised by the prefix of its reason alone, and that recognition is exact:
  the actions it selects are the cleanups of the orphaned pairings without live work, each once,
  untouched by the data-flow add-on.
\<close>

theorem ClassifyActions_cleanups:
  assumes "ClassifyActions ms us os g = Inr as"
  shows "mset (filter isCleanup as) =
    mset (map (\<lambda>o'. cleanupAction (or_record o') (or_node_type o'))
            (filter (\<lambda>o'. pr_bead_status (or_record o') \<notin> {''open'', ''in_progress''}) os))"
proof -
  let ?f = "changedDataFlowUses ms us g"
  let ?acts = "concat (map (\<lambda>m. fst (classifyMatch m g)) ms) @
              concat (map (\<lambda>o'. fst (classifyOrphaned o')) os) @
              List.map_filter (\<lambda>u. classifyUnmatched u g) us"
  let ?cleanups = "map (\<lambda>o'. cleanupAction (or_record o') (or_node_type o'))
            (filter (\<lambda>o'. pr_bead_status (or_record o') \<notin> {''open'', ''in_progress''}) os)"
  have acts: "filter isCleanup ?acts = ?cleanups"
    by (simp only: filter_append filter_concat map_map comp_def classifyMatch_no_cleanup
        classifyUnmatched_no_cleanup append_Nil2 classifyOrphaned_cleanups[unfolded filter_concat map_map comp_def])
       simp
  have "map (add_on ?f) ?cleanups = ?cleanups"
    by (simp add: add_on_no_hash cleanupAction_def blank_action_def comp_def)
  moreover have "filter isCleanup (map (add_on ?f) ?acts) = map (add_on ?f) (filter isCleanup ?acts)"
    by (simp only: filter_map comp_def isCleanup_add_on)
  ultimately have "filter isCleanup (map (add_on ?f) ?acts) = ?cleanups" using acts by (simp only:)
  moreover have "as = sortActions (applyDataFlowAddOn ?acts ?f)"
    using assms by (simp add: ClassifyActions_claimed split: if_splits)
  then have "mset (filter isCleanup as) = mset (filter isCleanup (map (add_on ?f) ?acts))"
    by (simp only: sortActions_def applyDataFlowAddOn_def mset_filter mset_sort)
  ultimately show ?thesis by (simp only:)
qed

subsection \<open>A sample run\<close>

definition sample_entry_module :: "string \<Rightarrow> string list \<Rightarrow> component list \<Rightarrow> module_entry" where
  "sample_entry_module i reqs cs =
     \<lparr>me_module = \<lparr>mod_id = i, mod_name = i, mod_path = i, mod_description = [], mod_requires_module = reqs\<rparr>,
      me_spec = blank_module_spec\<lparr>ms_components := cs\<rparr>\<rparr>"

definition sample_component :: "string \<Rightarrow> string list \<Rightarrow> component" where
  "sample_component i uses =
     \<lparr>cmp_id = i, cmp_name = i, cmp_description = [], cmp_content = [], cmp_implements = [], cmp_uses = uses\<rparr>"

text \<open>Two modules that require each other.\<close>

definition sample_graph :: spec_graph where
  "sample_graph =
     (let a = sample_entry_module ''core'' [''util''] [sample_component ''c1'' [''c1'', ''c2''], sample_component ''c2'' []];
          b = sample_entry_module ''util'' [''core''] [sample_component ''u1'' []]
      in \<lparr>sg_by_name = [''core'' \<mapsto> a, ''util'' \<mapsto> b], sg_by_id = [(''core'', a), (''util'', b)],
          sg_project_reqs = Map.empty, sg_profile = None\<rparr>)"

definition sample_matched :: "string \<Rightarrow> matched" where
  "sample_matched status =
     \<lparr>mt_change = sample_change ''c1'' Modified, mt_records = [sample_pairing ''c1'' ''t-1'' status]\<rparr>"

definition sample_orphaned :: "string \<Rightarrow> orphaned" where
  "sample_orphaned status = \<lparr>or_record = sample_pairing ''c9'' ''t-9'' status, or_node_type = ''component''\<rparr>"

lemma sample_classified:
  "\<exists>as. ClassifyActions [sample_matched ''open''] [] [sample_orphaned []] sample_graph = Inr as"
  by (simp add: ClassifyActions_claimed claimed_tasks_def matched_with_def orphaned_with_def
      with_status_def sample_matched_def sample_orphaned_def sample_pairing_def)

theorem collectDeps_exact_witness:
  "set (collectDeps ''core'' ''c1'' sample_graph) = {''c2'', ''u1''} \<and> sorted (collectDeps ''core'' ''c1'' sample_graph)"
proof
  show "set (collectDeps ''core'' ''c1'' sample_graph) = {''c2'', ''u1''}" by code_simp
  show "sorted (collectDeps ''core'' ''c1'' sample_graph)"
    using collectDeps_exact[of sample_graph "''core''"
        "sample_entry_module ''core'' [''util''] [sample_component ''c1'' [''c1'', ''c2''], sample_component ''c2'' []]" "''c1''"]
    by (simp add: sample_graph_def Let_def moduleByName_def moduleByID_def sample_entry_module_def)
qed

theorem ClassifyActions_task_accounting_witness:
  "\<exists>as :: action list. mset (map (\<lambda>a. (act_type a, act_task_id a, act_spec_node_id a))
       (filter (\<lambda>a. act_type a \<noteq> ActionCreate) as)) = {#(ActionRetarget, ''t-1'', ''c1'')#}"
proof -
  obtain as where as: "ClassifyActions [sample_matched ''open''] [] [sample_orphaned []] sample_graph = Inr as"
    using sample_classified by blast
  have "owed_operations sample_graph [sample_matched ''open''] [sample_orphaned []] =
      [(ActionRetarget, ''t-1'', ''c1'')]" by code_simp
  then show ?thesis
    using ClassifyActions_task_accounting[OF as] by (intro exI[of _ as]) simp
qed

theorem ClassifyActions_cleanups_witness:
  "\<exists>as. mset (filter isCleanup as) = {#cleanupAction (sample_pairing ''c9'' ''t-9'' []) ''component''#}"
proof -
  obtain as where as: "ClassifyActions [sample_matched ''open''] [] [sample_orphaned []] sample_graph = Inr as"
    using sample_classified by blast
  show ?thesis
    using ClassifyActions_cleanups[OF as]
    by (intro exI[of _ as]) (simp add: sample_orphaned_def sample_pairing_def)
qed

end
