(* ===== verification/Plan_Resolver.thy ===== *)
theory Plan_Resolver
  imports Plan_Classifier Journal
begin

text \<open>
  The resolver and the labeler (\<open>plan/resolver.go\<close>, \<open>plan/labeler.go\<close>). Both see the journal
  through the two interfaces \<open>FoldLookup\<close> and \<open>RemovalLookup\<close>; \<open>plan_fold_laws\<close> states what the
  callers rely on, and the fold that \<open>cmd/spex/plan.go\<close> builds from the journal provides it.
\<close>

subsection \<open>Resolving dependencies, parent and priority\<close>

type_synonym fold_lookup = "string \<Rightarrow> pairing option"
type_synonym removal_lookup = "string \<Rightarrow> removal_record option"

definition isLiveBeadStatus :: "string \<Rightarrow> bool" where
  "isLiveBeadStatus status \<longleftrightarrow> status = ''open'' \<or> status = ''in_progress''"

fun ResolveDeps :: "string list \<Rightarrow> (string \<rightharpoonup> string) \<Rightarrow> fold_lookup \<Rightarrow> (plan_error, ref list) result" where
  "ResolveDeps [] batch lookup = Inr []"
| "ResolveDeps (dep # deps) batch lookup =
     (case batch dep of
        Some opID \<Rightarrow> bind_result (ResolveDeps deps batch lookup) (\<lambda>refs. Inr (op_ref opID # refs))
      | None \<Rightarrow>
          (case lookup dep of
             Some p \<Rightarrow>
               if \<not> isLiveBeadStatus (pr_bead_status p) then ResolveDeps deps batch lookup
               else bind_result (ResolveDeps deps batch lookup) (\<lambda>refs. Inr (task_ref (pr_task_id p) # refs))
           | None \<Rightarrow> Inl (UnresolvedDep dep)))"

definition ResolveEpicAction :: "string \<Rightarrow> fold_lookup \<Rightarrow> registration \<Rightarrow> (plan_error, action option) result" where
  "ResolveEpicAction proposalRef lookup reg =
     (case lookup proposalRef of
        Some _ \<Rightarrow> Inr None
      | None \<Rightarrow>
          if rg_eid reg = [] then Inl (NotRegistered proposalRef)
          else Inr (Some (blank_action\<lparr>act_type := ActionCreate, act_node_type := KindProposalEpic,
                 act_spec_node_id := proposalRef, act_reason := ''Proposal: '' @ proposalRef\<rparr>)))"

definition ResolveParent :: "string \<Rightarrow> fold_lookup \<Rightarrow> registration \<Rightarrow> (string \<rightharpoonup> string)
    \<Rightarrow> (plan_error, ref) result" where
  "ResolveParent proposalRef lookup reg batch =
     (case lookup proposalRef of
        Some p \<Rightarrow> Inr (task_ref (pr_task_id p))
      | None \<Rightarrow>
          if rg_eid reg = [] then Inl (NotRegistered proposalRef)
          else (case batch proposalRef of
                  None \<Rightarrow> Inl (EpicOpMissing proposalRef)
                | Some opID \<Rightarrow> Inr (op_ref opID)))"

definition best_priority :: "spec_graph \<Rightarrow> module_spec \<Rightarrow> string \<Rightarrow> int \<Rightarrow> int" where
  "best_priority g spec reqID best =
     (case findModuleRequirement spec reqID of
        None \<Rightarrow> best
      | Some modReq \<Rightarrow>
          if mrq_preq_id modReq = [] then best
          else (case projectRequirement g (mrq_preq_id modReq) of
                  None \<Rightarrow> best
                | Some projReq \<Rightarrow>
                    (case req_priority projReq of
                       None \<Rightarrow> best
                     | Some p \<Rightarrow> if best = -1 \<or> p < best then p else best)))"

definition ResolvePriority :: "string \<Rightarrow> string \<Rightarrow> spec_graph \<Rightarrow> int" where
  "ResolvePriority moduleName specNodeID g =
     (case moduleByName g moduleName of
        None \<Rightarrow> FallbackPriority
      | Some m \<Rightarrow>
          (case findComponent (me_spec m) specNodeID of
             None \<Rightarrow> FallbackPriority
           | Some cm \<Rightarrow>
               let best = fold (best_priority g (me_spec m)) (cmp_implements cm) (-1)
               in if best = -1 then FallbackPriority else best))"

subsection \<open>Labels\<close>

text \<open>A labeler without a fold (\<open>l.Fold == nil\<close>) is one whose removal lookup is empty.\<close>

definition cleanupLabel :: "string \<Rightarrow> removal_lookup \<Rightarrow> action \<Rightarrow> string \<Rightarrow> string" where
  "cleanupLabel gitHead removal a opID =
     (case removal (act_spec_node_id a) of
        Some entry \<Rightarrow>
          if rm_removed entry \<and> rm_eid entry \<noteq> [] then IdempotencyLabelPrefix @ rm_eid entry
          else IdempotencyLabelPrefix @ DeriveEID gitHead opID
      | None \<Rightarrow> IdempotencyLabelPrefix @ DeriveEID gitHead opID)"

definition LabelFor :: "string \<Rightarrow> removal_lookup \<Rightarrow> action \<Rightarrow> string \<Rightarrow> registration
    \<Rightarrow> (plan_error, string) result" where
  "LabelFor gitHead removal a opID reg =
     (if act_node_type a = KindProposalEpic then
        (if rg_eid reg = [] then Inl (LabelNotRegistered (act_spec_node_id a))
         else Inr (IdempotencyLabelPrefix @ rg_eid reg))
      else if act_spec_node_id a = [] then Inl LabelNoNode
      else if isCleanup a then Inr (cleanupLabel gitHead removal a opID)
      else Inr (IdempotencyLabelPrefix @ DeriveEID gitHead opID))"

subsection \<open>The journal behind the interface\<close>

text \<open>The \<open>planFold\<close> of \<open>cmd/spex/plan.go\<close>: the fold's entries split into pairings and removals.\<close>

record plan_fold =
  pf_lookup :: fold_lookup
  pf_removal :: removal_lookup

definition planPairingFromEntry :: "fold_entry \<Rightarrow> (string \<rightharpoonup> string) \<Rightarrow> pairing" where
  "planPairingFromEntry e taskStatus =
     \<lparr>pr_spec_node_id = fe_key e, pr_task_id = fe_task_id e, pr_node_type = ev_node_type (fe_source e),
      pr_module = ev_module (fe_source e), pr_name = ev_name (fe_source e),
      pr_bead_status = (case taskStatus (fe_task_id e) of Some s \<Rightarrow> s | None \<Rightarrow> []),
      pr_after = (case ev_after (fe_source e) of Some h \<Rightarrow> h | None \<Rightarrow> [])\<rparr>"

definition planPairingsForMatching :: "journal_fold \<Rightarrow> (string \<rightharpoonup> string) \<Rightarrow> pairing list" where
  "planPairingsForMatching f taskStatus =
     List.map_filter (\<lambda>e. if fe_removed e \<or> ev_node (fe_source e) = [] then None
                          else Some (planPairingFromEntry e taskStatus)) (jf_entries f)"

definition add_fold_entry :: "(string \<rightharpoonup> string) \<Rightarrow> fold_entry \<Rightarrow> plan_fold \<Rightarrow> plan_fold" where
  "add_fold_entry taskStatus e pf =
     (if fe_removed e then
        pf\<lparr>pf_removal := (pf_removal pf)(fe_key e \<mapsto> \<lparr>rm_removed = True, rm_eid = ev_eid (fe_source e)\<rparr>)\<rparr>
      else pf\<lparr>pf_lookup := (pf_lookup pf)(fe_key e \<mapsto> planPairingFromEntry e taskStatus)\<rparr>)"

definition newPlanFold :: "journal_fold \<Rightarrow> (string \<rightharpoonup> string) \<Rightarrow> plan_fold" where
  "newPlanFold f taskStatus =
     fold (add_fold_entry taskStatus) (jf_entries f) \<lparr>pf_lookup = Map.empty, pf_removal = Map.empty\<rparr>"

subsection \<open>The interface\<close>

locale plan_fold_laws =
  fixes lookup :: fold_lookup and removal :: removal_lookup
  assumes lookup_key: "lookup k = Some p \<Longrightarrow> pr_spec_node_id p = k"
    and removal_removed: "removal k = Some r \<Longrightarrow> rm_removed r"
    and removal_disjoint: "removal k = Some r \<Longrightarrow> lookup k = None"
begin

text \<open>A dependency resolves to an operation of the batch, or to the live task of that very node.\<close>

lemma resolved_dep:
  assumes "ResolveDeps deps batch lookup = Inr refs" and "r \<in> set refs"
  shows "(\<exists>dep \<in> set deps. \<exists>i. batch dep = Some i \<and> r = op_ref i) \<or>
    (\<exists>dep \<in> set deps. \<exists>p. batch dep = None \<and> lookup dep = Some p \<and> pr_spec_node_id p = dep \<and>
       isLiveBeadStatus (pr_bead_status p) \<and> r = task_ref (pr_task_id p))"
  using assms
proof (induction deps arbitrary: refs)
  case (Cons dep deps)
  then show ?case
    by (auto simp: bind_result_Inr_iff lookup_key split: option.splits if_splits)
qed simp

text \<open>A removed node never resolves, so a dependency on one refuses the plan.\<close>

lemma removed_dep_refused:
  assumes "removal dep = Some r" and "batch dep = None" and "dep \<in> set deps"
  shows "\<exists>e. ResolveDeps deps batch lookup = Inl e"
  using assms(3)
proof (induction deps)
  case (Cons d deps)
  then show ?case
    using assms(1,2) removal_disjoint[OF assms(1)] by (auto split: option.splits)
qed simp

text \<open>A cleanup carries the eid of the removal it answers.\<close>

lemma cleanup_label:
  assumes "removal (act_spec_node_id a) = Some r" and "rm_eid r \<noteq> []" and "isCleanup a"
    and "act_spec_node_id a \<noteq> []" and "act_node_type a \<noteq> KindProposalEpic"
  shows "LabelFor gitHead removal a opID reg = Inr (IdempotencyLabelPrefix @ rm_eid r)"
  using assms removal_removed[OF assms(1)] by (simp add: LabelFor_def cleanupLabel_def)

end

lemma newPlanFold_maps:
  assumes "distinct (map fe_key es)"
  shows "pf_lookup (fold (add_fold_entry st) es pf) k =
      (case find (\<lambda>e. fe_key e = k) es of
         Some e \<Rightarrow> if fe_removed e then pf_lookup pf k else Some (planPairingFromEntry e st)
       | None \<Rightarrow> pf_lookup pf k) \<and>
    pf_removal (fold (add_fold_entry st) es pf) k =
      (case find (\<lambda>e. fe_key e = k) es of
         Some e \<Rightarrow> if fe_removed e then Some \<lparr>rm_removed = True, rm_eid = ev_eid (fe_source e)\<rparr>
                   else pf_removal pf k
       | None \<Rightarrow> pf_removal pf k)"
  using assms
proof (induction es arbitrary: pf)
  case (Cons e es)
  have "find (\<lambda>e. fe_key e = k) es = None" if "fe_key e = k"
    using Cons.prems that unfolding find_None_iff by (metis distinct.simps(2) image_eqI list.map(2) list.set_map)
  then show ?case using Cons by (auto simp: add_fold_entry_def split: option.splits)
qed simp

lemma newPlanFold_lookup:
  "pf_lookup (newPlanFold (journal_fold events) st) k =
     (case find (\<lambda>e. fe_key e = k) (jf_entries (journal_fold events)) of
        Some e \<Rightarrow> if fe_removed e then None else Some (planPairingFromEntry e st)
      | None \<Rightarrow> None)"
  "pf_removal (newPlanFold (journal_fold events) st) k =
     (case find (\<lambda>e. fe_key e = k) (jf_entries (journal_fold events)) of
        Some e \<Rightarrow> if fe_removed e then Some \<lparr>rm_removed = True, rm_eid = ev_eid (fe_source e)\<rparr> else None
      | None \<Rightarrow> None)"
  by (auto simp: newPlanFold_def newPlanFold_maps[OF jf_entries_keys_distinct] split: option.splits)

interpretation journal_plan_fold:
  plan_fold_laws "pf_lookup (newPlanFold (journal_fold events) st)"
                 "pf_removal (newPlanFold (journal_fold events) st)" for events st
proof
  fix k p r
  show "pf_lookup (newPlanFold (journal_fold events) st) k = Some p \<Longrightarrow> pr_spec_node_id p = k"
    by (auto simp: newPlanFold_lookup planPairingFromEntry_def find_Some_iff split: option.splits if_splits)
  show "pf_removal (newPlanFold (journal_fold events) st) k = Some r \<Longrightarrow> rm_removed r"
    by (auto simp: newPlanFold_lookup split: option.splits if_splits)
  show "pf_removal (newPlanFold (journal_fold events) st) k = Some r \<Longrightarrow>
      pf_lookup (newPlanFold (journal_fold events) st) k = None"
    by (auto simp: newPlanFold_lookup split: option.splits if_splits)
qed


text \<open>
  With the journal behind the interface, a resolved dependency is an operation of the batch
  that creates that very node, or the task the journal currently pairs with it, open or in
  progress; a finished task is never depended on.
\<close>

theorem ResolveDeps_journal:
  assumes "ResolveDeps deps batch (pf_lookup (newPlanFold (journal_fold events) st)) = Inr refs"
    and "r \<in> set refs"
  shows "(\<exists>dep \<in> set deps. \<exists>i. batch dep = Some i \<and> r = op_ref i) \<or>
    (\<exists>dep \<in> set deps. \<exists>p. batch dep = None \<and> pf_lookup (newPlanFold (journal_fold events) st) dep = Some p \<and>
       pr_spec_node_id p = dep \<and> isLiveBeadStatus (pr_bead_status p) \<and> r = task_ref (pr_task_id p))"
  by (rule journal_plan_fold.resolved_dep[OF assms])

text \<open>
  A dependency on a node whose current journal entry is a removal refuses the plan, unless the
  batch itself creates the node again.
\<close>

theorem ResolveDeps_removed_refused:
  assumes "find (\<lambda>e. fe_key e = dep) (jf_entries (journal_fold events)) = Some e" and "fe_removed e"
    and "batch dep = None" and "dep \<in> set deps"
  shows "\<exists>err. ResolveDeps deps batch (pf_lookup (newPlanFold (journal_fold events) st)) = Inl err"
  using assms by (intro journal_plan_fold.removed_dep_refused) (auto simp: newPlanFold_lookup)

text \<open>
  A cleanup of a removed node is labelled with the eid of the journal's removal event, so that
  the receipt the task will get pairs with that event.
\<close>

theorem cleanup_label_journal:
  assumes "find (\<lambda>e. fe_key e = act_spec_node_id a) (jf_entries (journal_fold events)) = Some e"
    and "fe_removed e" and "ev_eid (fe_source e) \<noteq> []" and "isCleanup a" and "act_spec_node_id a \<noteq> []"
    and "act_node_type a \<noteq> KindProposalEpic"
  shows "LabelFor gitHead (pf_removal (newPlanFold (journal_fold events) st)) a opID reg =
    Inr (IdempotencyLabelPrefix @ ev_eid (fe_source e))"
proof -
  have "pf_removal (newPlanFold (journal_fold events) st) (act_spec_node_id a) =
      Some \<lparr>rm_removed = True, rm_eid = ev_eid (fe_source e)\<rparr>"
    using assms by (simp add: newPlanFold_lookup)
  from journal_plan_fold.cleanup_label[OF this _ assms(4,5,6)] show ?thesis using assms(3) by simp
qed

subsection \<open>A sample journal\<close>

definition removal_journal :: "event list" where
  "removal_journal =
     sample_journal @ [blank_event\<lparr>ev_event := ''removed'', ev_eid := ''h:3'', ev_node := ''n'', ev_line := 5\<rparr>]"

lemma removal_entry_found:
  "find (\<lambda>e. fe_key e = ''n'') (jf_entries (journal_fold removal_journal)) =
     Some \<lparr>fe_key = ''n'', fe_task_id = [], fe_removed = True, fe_source = removal_journal ! 4\<rparr>"
  by code_simp

theorem ResolveDeps_journal_witness:
  "\<exists>p. pf_lookup (newPlanFold (journal_fold sample_journal) [''t1'' \<mapsto> ''open'']) ''n'' = Some p \<and>
       isLiveBeadStatus (pr_bead_status p)"
proof -
  have "ResolveDeps [''n''] Map.empty (pf_lookup (newPlanFold (journal_fold sample_journal) [''t1'' \<mapsto> ''open''])) =
      Inr [task_ref ''t1'']" by code_simp
  from ResolveDeps_journal[OF this, of "task_ref ''t1''"] show ?thesis by auto
qed

theorem ResolveDeps_removed_refused_witness:
  "\<exists>err. ResolveDeps [''n''] Map.empty (pf_lookup (newPlanFold (journal_fold removal_journal) Map.empty)) = Inl err"
  by (rule ResolveDeps_removed_refused[OF removal_entry_found]) simp_all

theorem cleanup_label_journal_witness:
  "LabelFor ''abc1234'' (pf_removal (newPlanFold (journal_fold removal_journal) Map.empty))
     (cleanupAction \<lparr>pr_spec_node_id = ''n'', pr_task_id = ''t1'', pr_node_type = ''component'', pr_module = ''m'',
                    pr_name = ''x'', pr_bead_status = [], pr_after = []\<rparr> ''component'') ''op-cleanup-n'' \<lparr>rg_eid = []\<rparr> =
   Inr ''spex:h:3''"
proof -
  have "ev_eid (removal_journal ! 4) = ''h:3''" by code_simp
  then show ?thesis
    using cleanup_label_journal[where e = "\<lparr>fe_key = ''n'', fe_task_id = [], fe_removed = True,
        fe_source = removal_journal ! 4\<rparr>" and events = removal_journal]
      removal_entry_found
    by (simp add: isCleanup_actions cleanupAction_def blank_action_def KindProposalEpic_def
        IdempotencyLabelPrefix_def isCleanup_def cleanup_prefix_def)
qed

end
