(* ===== verification/Plan_Builder.thy ===== *)
theory Plan_Builder
  imports Plan_Resolver Paths
begin

text \<open>
  The changeset builder (\<open>plan/builder.go\<close>): operation ids, layer edges, dependencies, titles and
  bodies, and the composition of the changeset.
\<close>

subsection \<open>Operation ids\<close>

definition op_id_of :: "string \<Rightarrow> string \<Rightarrow> string" where
  "op_id_of kind i = ''op-'' @ kind @ ''-'' @ i"

definition createOpID :: "action \<Rightarrow> string" where
  "createOpID a =
     (if act_node_type a = KindProposalEpic then op_id_of KindProposalEpic (act_spec_node_id a)
      else if isCleanup a then op_id_of KindCleanup (act_spec_node_id a)
      else op_id_of (act_node_type a) (act_spec_node_id a))"

definition retargetOpID :: "action \<Rightarrow> string" where
  "retargetOpID a = op_id_of OpRetarget (act_spec_node_id a)"

definition closeOpID :: "action \<Rightarrow> string" where
  "closeOpID a = op_id_of OpClose (act_task_id a)"

subsection \<open>Layer edges\<close>

text \<open>
  The groups of consecutive indices with the same layer, and the edges of each index: the ids of
  the group before, the epic's layer being no predecessor.
\<close>

type_synonym layer_group = "nat \<times> nat list"

definition add_to_groups :: "nat \<Rightarrow> nat \<Rightarrow> layer_group list \<Rightarrow> layer_group list" where
  "add_to_groups i l groups =
     (if groups = [] \<or> fst (last groups) \<noteq> l then groups @ [(l, [i])]
      else butlast groups @ [(l, snd (last groups) @ [i])])"

fun group_layers :: "nat \<Rightarrow> action list \<Rightarrow> (string \<rightharpoonup> nat) \<Rightarrow> nat \<Rightarrow> layer_group list
    \<Rightarrow> (plan_error, layer_group list) result" where
  "group_layers i [] ix cl groups = Inr groups"
| "group_layers i (a # as) ix cl groups =
     bind_result (layerFor a ix cl) (\<lambda>l. group_layers (Suc i) as ix cl (add_to_groups i l groups))"

fun assign_edges :: "layer_group list \<Rightarrow> string list \<Rightarrow> string list \<Rightarrow> string list list \<Rightarrow> string list list" where
  "assign_edges [] opIDs prev edges = edges"
| "assign_edges ((l, idx) # gs) opIDs prev edges =
     (if l = 0 then assign_edges gs opIDs prev edges
      else assign_edges gs opIDs (map (\<lambda>i. opIDs ! i) idx) (fold (\<lambda>i e. e[i := prev]) idx edges))"

definition layerEdgesFor :: "action list \<Rightarrow> string list \<Rightarrow> string list \<Rightarrow> (plan_error, string list list) result" where
  "layerEdgesFor ordered opIDs relevant =
     (case layerPlan relevant of (layerIndex, cleanupLayer) \<Rightarrow>
        bind_result (group_layers 0 ordered layerIndex cleanupLayer []) (\<lambda>groups.
          Inr (assign_edges groups opIDs [] (replicate (length ordered) []))))"

subsection \<open>Dependencies\<close>

text \<open>A missing id reads index 0, as in a Go map of integers.\<close>

definition op_index :: "string list \<Rightarrow> (string \<rightharpoonup> nat)" where
  "op_index opIDs = fold (\<lambda>(i, x) m. m(x \<mapsto> i)) (enumerate 0 opIDs) Map.empty"

definition index_of :: "(string \<rightharpoonup> nat) \<Rightarrow> string \<Rightarrow> nat" where
  "index_of m x = (case m x of Some i \<Rightarrow> i | None \<Rightarrow> 0)"

definition composeDeps :: "action \<Rightarrow> fold_lookup \<Rightarrow> (string \<rightharpoonup> string) \<Rightarrow> (string \<rightharpoonup> nat)
    \<Rightarrow> string list \<Rightarrow> string list \<Rightarrow> (plan_error, ref list) result" where
  "composeDeps a lookup batch opIndex layerEdgeOpIDs extraTaskIDs =
     bind_result (ResolveDeps (act_deps a) batch lookup) (\<lambda>specDeps.
       let opRefs = dedup (map rf_op_id (filter (\<lambda>r. rf_kind r = RefOp) specDeps) @ layerEdgeOpIDs);
           taskRefs = dedup (map rf_task_id (filter (\<lambda>r. rf_kind r \<noteq> RefOp) specDeps) @ extraTaskIDs)
       in Inr (map op_ref (sort_key (index_of opIndex) opRefs) @ map task_ref (sort taskRefs)))"

subsection \<open>Titles and bodies\<close>

definition titleFor :: "action \<Rightarrow> string" where
  "titleFor a =
     (if act_node_type a = KindDataFlow then act_module a @ '': data_flow '' @ act_node a
      else if act_node_type a = KindTestSection then act_module a @ '': test '' @ act_node a
      else act_module a @ '': '' @ act_node a)"

definition newline :: string where
  "newline = [CHR 0x0A]"

definition bodyFor :: "action \<Rightarrow> spec_graph \<Rightarrow> string" where
  "bodyFor a g =
     (case moduleByName g (act_module a) of
        None \<Rightarrow> []
      | Some m \<Rightarrow>
          let content =
            (if act_node_type a = KindComponent then
               (case findComponent (me_spec m) (act_spec_node_id a) of Some c \<Rightarrow> cmp_content c | None \<Rightarrow> [])
             else if act_node_type a = KindDataFlow then
               (case findDataFlow (me_spec m) (act_spec_node_id a) of Some f \<Rightarrow> dfl_content f | None \<Rightarrow> [])
             else if act_node_type a = KindTestSection then
               (case findTestSection (me_spec m) (act_spec_node_id a) of Some t \<Rightarrow> tst_content t | None \<Rightarrow> [])
             else [])
          in if content = [] then []
             else ''Spec context:'' @ newline @ newline @ ''- '' @
                  filepath_Join [''spec'', mod_path (me_module m), content] @ newline @ ''- '' @
                  filepath_Join [''spec'', mod_path (me_module m), ''module.json''] @ newline)"

subsection \<open>Operations\<close>

record builder =
  bl_graph :: spec_graph
  bl_lookup :: fold_lookup
  bl_removal :: removal_lookup
  bl_registration :: registration
  bl_git_head :: string
  bl_proposal :: string
  bl_absorbed :: "absorbed_entry list"

definition createOp :: "builder \<Rightarrow> action \<Rightarrow> string \<Rightarrow> string \<Rightarrow> (string \<rightharpoonup> string) \<Rightarrow> (string \<rightharpoonup> nat)
    \<Rightarrow> string list \<Rightarrow> string list \<Rightarrow> (plan_error, op) result" where
  "createOp b a opID label batch opIndex layerEdgeOpIDs retargetTargets =
     (if act_node_type a = KindProposalEpic then
        Inr (blank_op\<lparr>op_id := opID, op_type := OpCreate, op_spec_node_kind := KindProposalEpic,
               op_spec_node_id := act_spec_node_id a, op_idempotency := Some \<lparr>idm_label = label\<rparr>,
               op_priority := FallbackPriority, op_title := act_reason a\<rparr>)
      else
        bind_result (ResolveParent (bl_proposal b) (bl_lookup b) (bl_registration b) batch) (\<lambda>parent.
          bind_result (composeDeps a (bl_lookup b) batch opIndex layerEdgeOpIDs
                         (if isCleanup a then retargetTargets else [])) (\<lambda>deps.
            if isCleanup a then
              Inr (blank_op\<lparr>op_id := opID, op_type := OpCreate, op_spec_node_kind := KindCleanup,
                     op_spec_node_id := act_spec_node_id a, op_idempotency := Some \<lparr>idm_label = label\<rparr>,
                     op_parent := Some parent, op_deps := deps, op_priority := FallbackPriority,
                     op_title := act_reason a\<rparr>)
            else
              Inr (blank_op\<lparr>op_id := opID, op_type := OpCreate, op_spec_node_kind := act_node_type a,
                     op_spec_node_id := act_spec_node_id a, op_idempotency := Some \<lparr>idm_label = label\<rparr>,
                     op_parent := Some parent, op_deps := deps,
                     op_priority := ResolvePriority (act_module a) (act_spec_node_id a) (bl_graph b),
                     op_title := titleFor a, op_body := bodyFor a (bl_graph b)\<rparr>))))"

definition retargetOp :: "builder \<Rightarrow> action \<Rightarrow> (string \<rightharpoonup> string) \<Rightarrow> (string \<rightharpoonup> nat) \<Rightarrow> (plan_error, op) result" where
  "retargetOp b a batch opIndex =
     bind_result (composeDeps a (bl_lookup b) batch opIndex [] []) (\<lambda>deps.
       bind_result (LabelFor (bl_git_head b) (bl_removal b) a (retargetOpID a) (bl_registration b)) (\<lambda>label.
         Inr (blank_op\<lparr>op_id := retargetOpID a, op_type := OpRetarget,
                op_spec_node_id := act_spec_node_id a, op_spec_hash := act_spec_hash a,
                op_target := Some (task_ref (act_task_id a)), op_deps := deps,
                op_labels := [label], op_reason := act_reason a\<rparr>)))"

definition closeOp :: "action \<Rightarrow> op" where
  "closeOp a =
     blank_op\<lparr>op_id := closeOpID a, op_type := OpClose, op_target := Some (task_ref (act_task_id a)),
       op_reason := act_reason a\<rparr>"

fun create_ops :: "builder \<Rightarrow> (string \<rightharpoonup> string) \<Rightarrow> (string \<rightharpoonup> nat) \<Rightarrow> string list
    \<Rightarrow> (action \<times> string \<times> string list) list \<Rightarrow> (plan_error, op list) result" where
  "create_ops b batch opIndex targets [] = Inr []"
| "create_ops b batch opIndex targets ((a, opID, edges) # rest) =
     bind_result (LabelFor (bl_git_head b) (bl_removal b) a opID (bl_registration b)) (\<lambda>label.
       bind_result (createOp b a opID label batch opIndex edges targets) (\<lambda>x.
         bind_result (create_ops b batch opIndex targets rest) (\<lambda>xs. Inr (x # xs))))"

fun retarget_ops :: "builder \<Rightarrow> (string \<rightharpoonup> string) \<Rightarrow> (string \<rightharpoonup> nat) \<Rightarrow> action list \<Rightarrow> (plan_error, op list) result" where
  "retarget_ops b batch opIndex [] = Inr []"
| "retarget_ops b batch opIndex (a # as) =
     bind_result (retargetOp b a batch opIndex) (\<lambda>x.
       bind_result (retarget_ops b batch opIndex as) (\<lambda>xs. Inr (x # xs)))"

definition batch_of :: "action list \<Rightarrow> (string \<rightharpoonup> string)" where
  "batch_of ordered = fold (\<lambda>a m. m(act_spec_node_id a \<mapsto> createOpID a)) ordered Map.empty"

definition with_epic :: "action option \<Rightarrow> action list \<Rightarrow> action list" where
  "with_epic epic creates = (case epic of Some e \<Rightarrow> e # creates | None \<Rightarrow> creates)"

text \<open>The operations of a ordered batch, the part of \<open>Build\<close> after \<open>Sort\<close>.\<close>

definition build_ops :: "builder \<Rightarrow> action list \<Rightarrow> action list \<Rightarrow> action list \<Rightarrow> (plan_error, op list) result" where
  "build_ops b ordered retargets obsoletes =
     (let relevant = prf_plan_relevant (profileOrDefault (bl_graph b));
          opIDs = map createOpID ordered;
          batch = batch_of ordered;
          opIndex = op_index opIDs;
          targets = sort (map act_task_id retargets)
      in bind_result (layerEdgesFor ordered opIDs relevant) (\<lambda>layerEdges.
           bind_result (create_ops b batch opIndex targets (zip ordered (zip opIDs layerEdges))) (\<lambda>creates.
             bind_result (retarget_ops b batch opIndex retargets) (\<lambda>rets.
               Inr (creates @ rets @ map closeOp obsoletes)))))"

definition Build :: "builder \<Rightarrow> action list \<Rightarrow> (plan_error, changeset) result" where
  "Build b actions =
     (let creates = filter (\<lambda>a. act_type a = ActionCreate) actions;
          retargets = filter (\<lambda>a. act_type a = ActionRetarget) actions;
          obsoletes = filter (\<lambda>a. act_type a = ActionObsolete) actions
      in bind_result (ResolveEpicAction (bl_proposal b) (bl_lookup b) (bl_registration b)) (\<lambda>epic.
           bind_result (Sort (with_epic epic creates) (prf_plan_relevant (profileOrDefault (bl_graph b)))) (\<lambda>ordered.
             bind_result (build_ops b ordered retargets obsoletes) (\<lambda>ops.
               Inr \<lparr>cs_version = ChangesetVersion, cs_git_head = bl_git_head b,
                    cs_proposal = bl_proposal b, cs_ops = ops, cs_absorbed = bl_absorbed b\<rparr>))))"


subsection \<open>The layer groups\<close>

text \<open>\<open>lay i\<close> is the layer of index \<open>i\<close>: the groups cut \<open>[0..<n]\<close> into runs of one layer each.\<close>

definition groups_ok :: "(nat \<Rightarrow> nat) \<Rightarrow> nat \<Rightarrow> layer_group list \<Rightarrow> bool" where
  "groups_ok lay n groups \<longleftrightarrow>
     concat (map snd groups) = [0..<n] \<and> sorted_wrt (<) (map fst groups) \<and>
     (\<forall>g \<in> set groups. snd g \<noteq> [] \<and> (\<forall>i \<in> set (snd g). lay i = fst g))"

lemma add_to_groups_ok:
  assumes ok: "groups_ok lay n groups" and mono: "\<And>i. i < n \<Longrightarrow> lay i \<le> lay n"
  shows "groups_ok lay (Suc n) (add_to_groups n (lay n) groups)"
proof (cases groups rule: rev_cases)
  case Nil
  then show ?thesis using ok by (simp add: groups_ok_def add_to_groups_def)
next
  case (snoc gs g)
  obtain l idx where g: "g = (l, idx)" by (cases g)
  obtain i where i: "i \<in> set idx" using ok snoc g by (auto simp: groups_ok_def intro: hd_in_set)
  moreover have "set idx \<subseteq> {0..<n}"
    using ok snoc g unfolding groups_ok_def by (metis Un_upper2 concat_append concat.simps list.map map_append set_append set_upt snd_conv append_Nil2)
  ultimately have "l \<le> lay n" using ok snoc g mono[of i] by (auto simp: groups_ok_def)
  moreover have "l' < l" if "l' \<in> set (map fst gs)" for l'
    using ok snoc g that by (auto simp: groups_ok_def sorted_wrt_append)
  ultimately show ?thesis
    using ok snoc g by (fastforce simp: groups_ok_def add_to_groups_def sorted_wrt_append)
qed

lemma group_layers_ok:
  assumes "group_layers n as ix cl groups = Inr out" and "groups_ok lay n groups"
    and "\<And>k. k < length as \<Longrightarrow> layerFor (as ! k) ix cl = Inr (lay (n + k))"
    and "\<And>i j. i \<le> j \<Longrightarrow> j < n + length as \<Longrightarrow> lay i \<le> lay j"
  shows "groups_ok lay (n + length as) out"
  using assms
proof (induction as arbitrary: n groups)
  case (Cons a as)
  have l: "layerFor a ix cl = Inr (lay n)" using Cons.prems(3)[of 0] by simp
  have "groups_ok lay (Suc n) (add_to_groups n (lay n) groups)"
    using Cons.prems(2,4) by (intro add_to_groups_ok) auto
  moreover have "layerFor (as ! k) ix cl = Inr (lay (Suc n + k))" if "k < length as" for k
    using Cons.prems(3)[of "Suc k"] that by simp
  ultimately have "groups_ok lay (Suc n + length as) out"
    using Cons.prems(1,4) l by (intro Cons.IH) auto
  then show ?case by simp
qed simp

fun prev_group :: "string list \<Rightarrow> string list \<Rightarrow> layer_group list \<Rightarrow> string list" where
  "prev_group opIDs prev [] = prev"
| "prev_group opIDs prev ((l, idx) # gs) =
     prev_group opIDs (if l = 0 then prev else map (\<lambda>i. opIDs ! i) idx) gs"

lemma fold_update_nth:
  "length (fold (\<lambda>i e. e[i := x]) idx es) = length es \<and>
   (i < length es \<longrightarrow> fold (\<lambda>i e. e[i := x]) idx es ! i = (if i \<in> set idx then x else es ! i))"
  by (induction idx arbitrary: es) (auto simp: nth_list_update)

lemma length_assign_edges [simp]: "length (assign_edges gs opIDs prev es) = length es"
  by (induction gs opIDs prev es rule: assign_edges.induct) (simp_all add: fold_update_nth)

lemma assign_edges_other:
  "i \<notin> set (concat (map snd gs)) \<Longrightarrow> i < length es \<Longrightarrow> assign_edges gs opIDs prev es ! i = es ! i"
  by (induction gs opIDs prev es rule: assign_edges.induct) (simp_all add: fold_update_nth)

lemma assign_edges_nth:
  assumes "gs = g1 @ (l, idx) # g2" and "distinct (concat (map snd gs))" and "i \<in> set idx" and "i < length es"
  shows "assign_edges gs opIDs prev es ! i = (if l = 0 then es ! i else prev_group opIDs prev g1)"
  using assms
proof (induction g1 arbitrary: gs prev es)
  case Nil
  then have "i \<notin> set (concat (map snd g2))" by auto
  then show ?case using Nil by (simp add: assign_edges_other fold_update_nth)
next
  case (Cons g g1)
  obtain l' idx' where g: "g = (l', idx')" by (cases g)
  have i: "i \<notin> set idx'" using Cons.prems(1-3) g by auto
  have rest: "distinct (concat (map snd (g1 @ (l, idx) # g2)))" using Cons.prems(1,2) by simp
  define prev' es' where "prev' = (if l' = 0 then prev else map (\<lambda>i. opIDs ! i) idx')"
    and "es' = (if l' = 0 then es else fold (\<lambda>i e. e[i := prev]) idx' es)"
  have es': "es' ! i = es ! i" "i < length es'"
    using Cons.prems(4) i by (simp_all add: es'_def fold_update_nth)
  have "assign_edges gs opIDs prev es ! i = assign_edges (g1 @ (l, idx) # g2) opIDs prev' es' ! i"
    using Cons.prems(1) g by (simp add: prev'_def es'_def)
  also have "\<dots> = (if l = 0 then es' ! i else prev_group opIDs prev' g1)"
    by (rule Cons.IH[OF refl rest Cons.prems(3) es'(2)])
  finally show ?case using g es'(1) by (simp add: prev'_def)
qed

lemma prev_group_last:
  "prev_group opIDs prev (gs @ [(l, idx)]) =
     (if l = 0 then prev_group opIDs prev gs else map (\<lambda>i. opIDs ! i) idx)"
  by (induction opIDs prev gs rule: prev_group.induct) simp_all

lemma prev_group_sorted:
  assumes "sorted_wrt (<) (map fst gs)"
  shows "prev_group opIDs [] gs =
    (if gs = [] \<or> fst (last gs) = 0 then [] else map (\<lambda>i. opIDs ! i) (snd (last gs)))"
proof (cases gs rule: rev_cases)
  case (snoc gs' g)
  then show ?thesis
    using assms by (cases g; cases gs') (auto simp: prev_group_last sorted_wrt_append)
qed simp

definition fence :: "(nat \<Rightarrow> nat) \<Rightarrow> nat \<Rightarrow> nat \<Rightarrow> nat set" where
  "fence lay n i = {j. j < i \<and> 0 < lay j \<and> lay j < lay i \<and>
                       (\<forall>k < n. \<not> (lay j < lay k \<and> lay k < lay i))}"

text \<open>
  The layer edges of index \<open>i\<close>: exactly the ids of the indices whose layer is the greatest
  occupied one strictly between the epic's layer and that of \<open>i\<close>.
\<close>

lemma layerEdgesFor_exact:
  assumes run: "layerEdgesFor as opIDs rel = Inr es" and i: "i < length as"
    and lay: "\<And>k. k < length as \<Longrightarrow> action_layer rel (as ! k) = Inr (lay k)"
    and mono: "\<And>i j. i \<le> j \<Longrightarrow> j < length as \<Longrightarrow> lay i \<le> lay j"
  shows "length es = length as"
    and "set (es ! i) = (\<lambda>j. opIDs ! j) ` fence lay (length as) i"
proof -
  obtain groups where groups: "group_layers 0 as (fst (layerPlan rel)) (snd (layerPlan rel)) [] = Inr groups"
    and es: "es = assign_edges groups opIDs [] (replicate (length as) [])"
    using run by (auto simp: layerEdgesFor_def bind_result_Inr_iff split: prod.splits)
  then show "length es = length as" by simp
  have "groups_ok lay (0 + length as) groups"
    using lay mono by (intro group_layers_ok[OF groups]) (auto simp: groups_ok_def action_layer_def)
  then have ok: "groups_ok lay (length as) groups" by simp
  then have cover: "concat (map snd groups) = [0..<length as]" by (simp add: groups_ok_def)
  have "i \<in> set (concat (map snd groups))" using cover i by simp
  then obtain g where "g \<in> set groups" "i \<in> set (snd g)" by auto
  moreover from this obtain g1 g2 where "groups = g1 @ g # g2" by (meson split_list)
  ultimately obtain g1 l idx g2 where split: "groups = g1 @ (l, idx) # g2" and idx: "i \<in> set idx"
    by (metis prod.collapse)
  have li: "lay i = l" using ok idx split by (auto simp: groups_ok_def)
  have s1: "sorted_wrt (<) (map fst g1)" and lt: "\<And>g. g \<in> set g1 \<Longrightarrow> fst g < l"
    and gt: "\<And>g. g \<in> set g2 \<Longrightarrow> l < fst g"
    using ok split by (auto simp: groups_ok_def sorted_wrt_append)
  have "distinct (concat (map snd groups))" unfolding cover by simp
  from assign_edges_nth[OF split this idx, of "replicate (length as) []" opIDs "[]"]
  have nth: "es ! i = (if l = 0 then [] else prev_group opIDs [] g1)" using i es by simp
  have where_j: "\<exists>g \<in> set groups. fst g = lay j \<and> j \<in> set (snd g)" if "j < length as" for j
  proof -
    have "j \<in> set (concat (map snd groups))" using cover that by simp
    then obtain g where "g \<in> set groups" "j \<in> set (snd g)" by auto
    then show ?thesis using ok by (intro bexI[of _ g]) (auto simp: groups_ok_def)
  qed
  have lay_g: "\<And>g j. g \<in> set groups \<Longrightarrow> j \<in> set (snd g) \<Longrightarrow> lay j = fst g \<and> j < length as"
  proof -
    fix g j assume "g \<in> set groups" "j \<in> set (snd g)"
    moreover from this have "j \<in> set (concat (map snd groups))" by auto
    ultimately show "lay j = fst g \<and> j < length as" using ok cover by (auto simp: groups_ok_def)
  qed
  have "set (es ! i) = {opIDs ! j |j. j < i \<and> 0 < lay j \<and> lay j < lay i \<and>
      (\<forall>k < length as. \<not> (lay j < lay k \<and> lay k < lay i))}" (is "_ = ?R")
  proof (cases g1 rule: rev_cases)
    case Nil
    have False if ji: "j < i" and less: "lay j < lay i" for j
    proof -
      obtain g where "g \<in> set groups" "fst g = lay j" using where_j[of j] ji i by auto
      then show False using split Nil gt[of g] less li by auto
    qed
    then show ?thesis using nth Nil by auto
  next
    case (snoc g0 p)
    obtain l' idx' where p: "p = (l', idx')" by (cases p)
    have low: "\<And>g. g \<in> set g0 \<Longrightarrow> fst g < l'" using s1 snoc p by (auto simp: sorted_wrt_append)
    have l': "l' < l" using lt[of p] snoc p by auto
    have before: "j < i" if "lay j < lay i" "j < length as" for j
      using mono[of i j] that by (meson leD not_le_imp_less)
    have val: "es ! i = (if l' = 0 then [] else map (\<lambda>i. opIDs ! i) idx')"
      using nth prev_group_sorted[OF s1] snoc p l' by auto
    have "?R = (if l' = 0 then {} else (\<lambda>i. opIDs ! i) ` set idx')"
    proof (intro set_eqI iffI)
      fix x assume "x \<in> ?R"
      then obtain j where j: "x = opIDs ! j" "j < i" "0 < lay j" "lay j < lay i"
        and no: "\<forall>k < length as. \<not> (lay j < lay k \<and> lay k < lay i)" by blast
      obtain g where g: "g \<in> set groups" "fst g = lay j" "j \<in> set (snd g)"
        using where_j[of j] j(2) i by auto
      have g1: "g \<in> set g1" using g split gt j(4) li by fastforce
      obtain k where k: "k \<in> set idx'" using ok split snoc p by (auto simp: groups_ok_def intro: hd_in_set)
      have kl: "lay k = l'" "k < length as" using lay_g[of p k] k split snoc p by auto
      have "\<not> lay j < l'" using no kl l' li by auto
      then have "g = p" using g1 g(2) low[of g] snoc by auto
      then show "x \<in> (if l' = 0 then {} else (\<lambda>i. opIDs ! i) ` set idx')" using g j p by auto
    next
      fix x assume x: "x \<in> (if l' = 0 then {} else (\<lambda>i. opIDs ! i) ` set idx')"
      then obtain j where j: "j \<in> set idx'" "x = opIDs ! j" and pos: "0 < l'" by (auto split: if_splits)
      have jl: "lay j = l'" "j < length as" using lay_g[of p j] j split snoc p by auto
      have "\<not> (lay j < lay k \<and> lay k < lay i)" if k: "k < length as" for k
      proof -
        obtain g where "g \<in> set groups" "fst g = lay k" using where_j k by blast
        moreover from this have "g \<in> set g0 \<or> g = p \<or> g = (l, idx) \<or> g \<in> set g2"
          using split snoc by auto
        ultimately show ?thesis using low[of g] gt[of g] jl li p by auto
      qed
      then show "x \<in> ?R" using j jl pos l' li before[of j] by auto
    qed
    then show ?thesis using val by auto
  qed
  then show "set (es ! i) = (\<lambda>j. opIDs ! j) ` fence lay (length as) i"
    by (auto simp: fence_def)
qed


subsection \<open>The operations one by one\<close>

lemma composed_ref:
  assumes "composeDeps a lookup batch ix edges tasks = Inr deps" and "r \<in> set deps"
  shows "(\<exists>i. r = op_ref i \<and> (i \<in> set edges \<or> (\<exists>dep \<in> set (act_deps a). batch dep = Some i))) \<or>
         (\<exists>t. r = task_ref t)"
proof -
  obtain sd where sd: "ResolveDeps (act_deps a) batch lookup = Inr sd"
    and deps: "set deps = op_ref ` (rf_op_id ` {r \<in> set sd. rf_kind r = RefOp} \<union> set edges) \<union>
        task_ref ` (rf_task_id ` {r \<in> set sd. rf_kind r \<noteq> RefOp} \<union> set tasks)"
    using assms(1) by (auto simp: composeDeps_def bind_result_Inr_iff Let_def)
  have "\<exists>dep \<in> set ds. batch dep = Some (rf_op_id x)"
    if "ResolveDeps ds batch lookup = Inr xs" "x \<in> set xs" "rf_kind x = RefOp" for x ds xs
    using that
  proof (induction ds arbitrary: xs)
    case (Cons d ds)
    then show ?case
      by (auto simp: bind_result_Inr_iff op_ref_def task_ref_def RefOp_def RefTask_def
          split: option.splits if_splits)
  qed simp
  then show ?thesis using assms(2) sd deps by blast
qed

lemma composed_edges:
  assumes "composeDeps a lookup batch ix edges tasks = Inr deps" and "i \<in> set edges"
  shows "op_ref i \<in> set deps"
  using assms by (auto simp: composeDeps_def bind_result_Inr_iff Let_def)

lemma createOp_op_id: "createOp b a i label batch ix edges targets = Inr x \<Longrightarrow> op_id x = i"
  by (auto simp: createOp_def bind_result_Inr_iff blank_op_def split: if_splits)

lemma retargetOp_fields:
  "retargetOp b a batch ix = Inr x \<Longrightarrow>
     \<exists>deps. composeDeps a (bl_lookup b) batch ix [] [] = Inr deps \<and> op_deps x = deps \<and>
            op_parent x = None \<and> op_target x = Some (task_ref (act_task_id a)) \<and> op_id x = retargetOpID a"
  by (auto simp: retargetOp_def bind_result_Inr_iff blank_op_def)

lemma create_ops_nth:
  assumes "create_ops b batch ix targets ts = Inr ops"
  shows "length ops = length ts" and
    "k < length ts \<Longrightarrow> ts ! k = (a, i, es) \<Longrightarrow>
       \<exists>label. LabelFor (bl_git_head b) (bl_removal b) a i (bl_registration b) = Inr label \<and>
               createOp b a i label batch ix es targets = Inr (ops ! k)"
proof -
  have "length ops = length ts \<and> (\<forall>k < length ts. \<forall>a i es. ts ! k = (a, i, es) \<longrightarrow>
      (\<exists>label. LabelFor (bl_git_head b) (bl_removal b) a i (bl_registration b) = Inr label \<and>
               createOp b a i label batch ix es targets = Inr (ops ! k)))"
    using assms
  proof (induction ts arbitrary: ops)
    case (Cons t ts)
    obtain a i es where t: "t = (a, i, es)" by (cases t)
    obtain label x xs where x: "LabelFor (bl_git_head b) (bl_removal b) a i (bl_registration b) = Inr label"
      "createOp b a i label batch ix es targets = Inr x" "create_ops b batch ix targets ts = Inr xs"
      "ops = x # xs"
      using Cons.prems t by (auto simp: bind_result_Inr_iff)
    show ?case using Cons.IH[OF x(3)] x t by (auto simp: nth_Cons split: nat.splits)
  qed simp
  then show "length ops = length ts" and
    "k < length ts \<Longrightarrow> ts ! k = (a, i, es) \<Longrightarrow>
       \<exists>label. LabelFor (bl_git_head b) (bl_removal b) a i (bl_registration b) = Inr label \<and>
               createOp b a i label batch ix es targets = Inr (ops ! k)" by blast+
qed

lemma retarget_ops_mem:
  "retarget_ops b batch ix as = Inr ops \<Longrightarrow> x \<in> set ops \<Longrightarrow> \<exists>a \<in> set as. retargetOp b a batch ix = Inr x"
  by (induction as arbitrary: ops) (auto simp: bind_result_Inr_iff)

lemma batch_of_Some:
  "batch_of ordered d = Some i \<Longrightarrow> \<exists>a \<in> set ordered. act_spec_node_id a = d \<and> createOpID a = i"
  by (auto simp: batch_of_def fold_map_upd dest!: map_of_SomeD)

lemma batch_of_distinct:
  "distinct (map act_spec_node_id ordered) \<Longrightarrow> a \<in> set ordered \<Longrightarrow>
     batch_of ordered (act_spec_node_id a) = Some (createOpID a)"
  by (simp add: batch_of_def fold_map_upd_distinct)

subsection \<open>Every reference points backwards\<close>

definition op_refs :: "op \<Rightarrow> ref list" where
  "op_refs x = op_deps x @ (case op_parent x of Some r \<Rightarrow> [r] | None \<Rightarrow> []) @
               (case op_target x of Some r \<Rightarrow> [r] | None \<Rightarrow> [])"

definition refs_within :: "string set \<Rightarrow> op \<Rightarrow> bool" where
  "refs_within ids x \<longleftrightarrow> (\<forall>r \<in> set (op_refs x). rf_kind r = RefOp \<longrightarrow> rf_op_id r \<in> ids)"

lemma refs_within_mono: "refs_within I x \<Longrightarrow> I \<subseteq> J \<Longrightarrow> refs_within J x"
  by (auto simp: refs_within_def)

lemma ref_kinds [simp]: "rf_kind (task_ref t) \<noteq> RefOp" "rf_op_id (op_ref i) = i"
  by (simp_all add: task_ref_def op_ref_def RefOp_def RefTask_def)

lemma createOp_parts:
  assumes "createOp b a i label batch ix es targets = Inr x" and "act_node_type a \<noteq> KindProposalEpic"
  shows "\<exists>parent deps. ResolveParent (bl_proposal b) (bl_lookup b) (bl_registration b) batch = Inr parent \<and>
    composeDeps a (bl_lookup b) batch ix es (if isCleanup a then targets else []) = Inr deps \<and>
    op_deps x = deps \<and> op_parent x = Some parent \<and> op_target x = None"
  using assms by (auto simp: createOp_def bind_result_Inr_iff blank_op_def split: if_splits)

lemma createOp_refs:
  assumes "createOp b a i label batch ix es targets = Inr x"
  shows "refs_within (set es \<union> {j. \<exists>dep \<in> set (act_deps a). batch dep = Some j} \<union>
           (if act_node_type a = KindProposalEpic then {}
            else {j. bl_lookup b (bl_proposal b) = None \<and> batch (bl_proposal b) = Some j})) x"
proof (cases "act_node_type a = KindProposalEpic")
  case True
  then show ?thesis using assms by (auto simp: createOp_def refs_within_def op_refs_def blank_op_def)
next
  case False
  then obtain parent deps where
    parent: "ResolveParent (bl_proposal b) (bl_lookup b) (bl_registration b) batch = Inr parent"
    and deps: "composeDeps a (bl_lookup b) batch ix es (if isCleanup a then targets else []) = Inr deps"
    and x: "op_deps x = deps" "op_parent x = Some parent" "op_target x = None"
    using createOp_parts[OF assms] by blast
  have "rf_kind parent = RefOp \<Longrightarrow>
      bl_lookup b (bl_proposal b) = None \<and> batch (bl_proposal b) = Some (rf_op_id parent)"
    using parent by (auto simp: ResolveParent_def split: option.splits if_splits)
  then show ?thesis using composed_ref[OF deps] x False by (fastforce simp: refs_within_def op_refs_def)
qed

lemma retargetOp_refs:
  assumes "retargetOp b a batch ix = Inr x"
  shows "refs_within {j. \<exists>dep \<in> set (act_deps a). batch dep = Some j} x"
proof -
  obtain deps where "composeDeps a (bl_lookup b) batch ix [] [] = Inr deps" "op_deps x = deps"
    "op_parent x = None" "op_target x = Some (task_ref (act_task_id a))"
    using retargetOp_fields[OF assms] by blast
  then show ?thesis using composed_ref by (fastforce simp: refs_within_def op_refs_def)
qed

lemma closeOp_refs: "refs_within {} (closeOp a)"
  by (simp add: refs_within_def op_refs_def closeOp_def blank_op_def)


subsection \<open>The whole changeset\<close>

lemma epic_layer: "act_node_type a = KindProposalEpic \<Longrightarrow> layer_number rel a = 0"
  by (simp add: layer_number_def action_layer_def layerFor_def)

lemma other_layer:
  assumes "act_node_type a \<noteq> KindProposalEpic" and "action_layer rel a = Inr l"
  shows "0 < l"
  using assms layerPlan_bound[of rel "act_node_type a"]
  by (auto simp: action_layer_def layerFor_def layerPlan_def split: if_splits option.splits)

text \<open>The facts of a successful \<open>Build\<close>, position by position.\<close>

lemma Build_parts:
  assumes "Build b actions = Inr cs"
  obtains epic ordered es creates rets where
    "ResolveEpicAction (bl_proposal b) (bl_lookup b) (bl_registration b) = Inr epic"
    "Sort (with_epic epic (filter (\<lambda>a. act_type a = ActionCreate) actions))
       (prf_plan_relevant (profileOrDefault (bl_graph b))) = Inr ordered"
    "layerEdgesFor ordered (map createOpID ordered) (prf_plan_relevant (profileOrDefault (bl_graph b))) = Inr es"
    "create_ops b (batch_of ordered) (op_index (map createOpID ordered))
       (sort (map act_task_id (filter (\<lambda>a. act_type a = ActionRetarget) actions)))
       (zip ordered (zip (map createOpID ordered) es)) = Inr creates"
    "retarget_ops b (batch_of ordered) (op_index (map createOpID ordered))
       (filter (\<lambda>a. act_type a = ActionRetarget) actions) = Inr rets"
    "cs_ops cs = creates @ rets @ map closeOp (filter (\<lambda>a. act_type a = ActionObsolete) actions)"
  using assms by (auto simp: Build_def build_ops_def bind_result_Inr_iff Let_def)

lemma layerEdgesFor_length: "layerEdgesFor as opIDs rel = Inr es \<Longrightarrow> length es = length as"
  by (auto simp: layerEdgesFor_def bind_result_Inr_iff split: prod.splits)

lemma created_op_ids:
  assumes "create_ops b batch ix targets (zip ordered (zip (map createOpID ordered) es)) = Inr creates"
    and "length es = length ordered"
  shows "map op_id creates = map createOpID ordered"
proof (rule nth_equalityI)
  show len: "length (map op_id creates) = length (map createOpID ordered)"
    using create_ops_nth(1)[OF assms(1)] assms(2) by simp
  fix k assume "k < length (map op_id creates)"
  then have k: "k < length (zip ordered (zip (map createOpID ordered) es))" using len assms(2) by simp
  then have "zip ordered (zip (map createOpID ordered) es) ! k = (ordered ! k, createOpID (ordered ! k), es ! k)"
    by simp
  from create_ops_nth(2)[OF assms(1) k this] show "map op_id creates ! k = map createOpID ordered ! k"
    using createOp_op_id k create_ops_nth(1)[OF assms(1)] by fastforce
qed

text \<open>Position \<open>k\<close> of the creates, with the facts about its layer edges.\<close>

lemma created_at:
  assumes ids: "distinct (map act_spec_node_id acts)" and srt: "Sort acts rel = Inr ordered"
    and es: "layerEdgesFor ordered (map createOpID ordered) rel = Inr es"
    and ops: "create_ops b batch ix targets (zip ordered (zip (map createOpID ordered) es)) = Inr creates"
    and k: "k < length ordered"
  shows "length creates = length ordered" and "op_id (creates ! k) = createOpID (ordered ! k)"
    and "\<exists>label. createOp b (ordered ! k) (createOpID (ordered ! k)) label batch ix (es ! k) targets = Inr (creates ! k)"
    and "set (es ! k) = (\<lambda>j. createOpID (ordered ! j)) `
           fence (\<lambda>m. layer_number rel (ordered ! m)) (length ordered) k"
proof -
  note S = Sort_order[OF ids srt]
  have mem: "ordered ! m \<in> set acts" if "m < length ordered" for m
    using S mset_eq_setD nth_mem[OF that] by blast
  have mono: "layer_number rel (ordered ! i) \<le> layer_number rel (ordered ! j)" if "i \<le> j" "j < length ordered" for i j
    using S that by (auto simp: sorted_iff_nth_mono)
  have known: "action_layer rel (ordered ! m) = Inr (layer_number rel (ordered ! m))"
    if "m < length ordered" for m
    using Sort_layers_known[OF srt mem[OF that]] .
  have L: "length es = length ordered \<and> set (es ! k) = (\<lambda>j. map createOpID ordered ! j) `
      fence (\<lambda>m. layer_number rel (ordered ! m)) (length ordered) k"
    using layerEdgesFor_exact[OF es k, of "\<lambda>m. layer_number rel (ordered ! m)"] known mono by blast
  show len: "length creates = length ordered" using create_ops_nth(1)[OF ops] L by simp
  have nth: "zip ordered (zip (map createOpID ordered) es) ! k = (ordered ! k, createOpID (ordered ! k), es ! k)"
    using k L by simp
  have "k < length (zip ordered (zip (map createOpID ordered) es))" using k L by simp
  from create_ops_nth(2)[OF ops this nth]
  show ex: "\<exists>label. createOp b (ordered ! k) (createOpID (ordered ! k)) label batch ix (es ! k) targets = Inr (creates ! k)"
    by blast
  then show "op_id (creates ! k) = createOpID (ordered ! k)" using createOp_op_id by blast
  show "set (es ! k) = (\<lambda>j. createOpID (ordered ! j)) `
           fence (\<lambda>m. layer_number rel (ordered ! m)) (length ordered) k"
    unfolding L[THEN conjunct2] using k by (intro image_cong) (auto simp: fence_def)
qed


lemma nth_in_take: "m < k \<Longrightarrow> k \<le> length xs \<Longrightarrow> xs ! m \<in> set (take k xs)"
  by (auto simp: in_set_conv_nth intro!: exI[of _ m])

lemma epic_first:
  assumes ids: "distinct (map act_spec_node_id acts)" and srt: "Sort acts rel = Inr ordered"
    and e: "e \<in> set acts" "act_node_type e = KindProposalEpic"
    and k: "k < length ordered" and ne: "act_node_type (ordered ! k) \<noteq> KindProposalEpic"
  shows "e \<in> set (take k ordered)"
proof -
  note S = Sort_order[OF ids srt]
  have "e \<in> set ordered" using S mset_eq_setD e(1) by blast
  then obtain m where m: "m < length ordered" "ordered ! m = e" by (auto simp: in_set_conv_nth)
  have "ordered ! k \<in> set acts" using S mset_eq_setD k nth_mem by blast
  then have "0 < layer_number rel (ordered ! k)"
    using other_layer[OF ne] Sort_layers_known[OF srt] by blast
  moreover have "layer_number rel (ordered ! m) = 0" using e(2) m(2) by (simp add: epic_layer)
  moreover have "layer_number rel (ordered ! k) \<le> layer_number rel (ordered ! m)" if "k \<le> m"
    using S that m(1) by (auto simp: sorted_iff_nth_mono)
  ultimately have "m < k" by (cases "k \<le> m") auto
  then show ?thesis using nth_in_take[of m k ordered] m k by simp
qed

lemma dep_before:
  assumes ids: "distinct (map act_spec_node_id acts)" and srt: "Sort acts rel = Inr ordered"
    and k: "k < length ordered" and dep: "dep \<in> set (act_deps (ordered ! k))"
    and j: "batch_of ordered dep = Some j"
  shows "j \<in> createOpID ` set (take k ordered)"
proof -
  note S = Sort_order[OF ids srt]
  obtain a where a: "a \<in> set ordered" "act_spec_node_id a = dep" "createOpID a = j"
    using batch_of_Some[OF j] by blast
  then have "a \<in> set acts" using S mset_eq_setD by blast
  moreover have "ordered = take k ordered @ ordered ! k # drop (Suc k) ordered" using k by (rule id_take_nth_drop)
  ultimately have "a \<in> set (take k ordered)" using S a(2) dep by blast
  then show ?thesis using a(3) by blast
qed

definition proposal_creates :: "builder \<Rightarrow> action list \<Rightarrow> bool" where
  "proposal_creates b actions \<longleftrightarrow>
     distinct (bl_proposal b # map act_spec_node_id (filter (\<lambda>a. act_type a = ActionCreate) actions)) \<and>
     KindProposalEpic \<notin> act_node_type ` set (filter (\<lambda>a. act_type a = ActionCreate) actions)"

lemma ResolveEpicAction_Inr:
  "ResolveEpicAction p lookup reg = Inr epic \<Longrightarrow>
     (lookup p \<noteq> None \<and> epic = None) \<or>
     (lookup p = None \<and> (\<exists>e. epic = Some e \<and> act_spec_node_id e = p \<and> act_node_type e = KindProposalEpic))"
  by (auto simp: ResolveEpicAction_def blank_action_def split: option.splits if_splits)

lemma proposal_ids_distinct:
  assumes "proposal_creates b actions"
    and "ResolveEpicAction (bl_proposal b) (bl_lookup b) (bl_registration b) = Inr epic"
  shows "distinct (map act_spec_node_id (with_epic epic (filter (\<lambda>a. act_type a = ActionCreate) actions)))"
  using assms(1) ResolveEpicAction_Inr[OF assms(2)]
  by (auto simp: proposal_creates_def with_epic_def split: option.splits)

lemma created_refs:
  assumes pc: "proposal_creates b actions"
    and ep: "ResolveEpicAction (bl_proposal b) (bl_lookup b) (bl_registration b) = Inr epic"
    and srt: "Sort (with_epic epic (filter (\<lambda>a. act_type a = ActionCreate) actions)) rel = Inr ordered"
    and es: "layerEdgesFor ordered (map createOpID ordered) rel = Inr es"
    and ops: "create_ops b (batch_of ordered) ix targets (zip ordered (zip (map createOpID ordered) es)) = Inr creates"
    and k: "k < length ordered"
  shows "refs_within (op_id ` set (take k creates)) (creates ! k)"
proof -
  let ?acts = "with_epic epic (filter (\<lambda>a. act_type a = ActionCreate) actions)"
  have ids: "distinct (map act_spec_node_id ?acts)"
    by (rule proposal_ids_distinct[OF pc ep])
  note C = created_at[OF ids srt es ops]
  have "map op_id (take k creates) = map createOpID (take k ordered)"
    using C(1,2)[OF k] C(2) k by (intro nth_equalityI) auto
  then have pre: "op_id ` set (take k creates) = createOpID ` set (take k ordered)"
    by (metis list.set_map)
  have edges: "set (es ! k) \<subseteq> createOpID ` set (take k ordered)"
    using C(4)[OF k] k by (auto simp: fence_def intro!: imageI nth_in_take)
  have parent: "j \<in> createOpID ` set (take k ordered)"
    if ne: "act_node_type (ordered ! k) \<noteq> KindProposalEpic" and none: "bl_lookup b (bl_proposal b) = None"
      and j: "batch_of ordered (bl_proposal b) = Some j" for j
  proof -
    obtain e where "epic = Some e" and e': "act_node_type e = KindProposalEpic" "act_spec_node_id e = bl_proposal b"
      using ResolveEpicAction_Inr[OF ep] none by auto
    then have e: "e \<in> set ?acts" "act_node_type e = KindProposalEpic" "act_spec_node_id e = bl_proposal b"
      by (simp_all add: with_epic_def)
    have before: "e \<in> set (take k ordered)" by (rule epic_first[OF ids srt e(1,2) k ne])
    have "distinct (map act_spec_node_id ordered)"
      using Sort_order[OF ids srt] ids by (metis mset_eq_imp_distinct_iff mset_map)
    then have "batch_of ordered (bl_proposal b) = Some (createOpID e)"
      using batch_of_distinct[of ordered e, OF _ in_set_takeD[OF before]] e(3) by simp
    then show ?thesis using j before by auto
  qed
  obtain label where "createOp b (ordered ! k) (createOpID (ordered ! k)) label (batch_of ordered) ix (es ! k) targets =
      Inr (creates ! k)" using C(3)[OF k] by blast
  note refs = createOp_refs[OF this]
  show ?thesis
    unfolding pre
  proof (rule refs_within_mono[OF refs])
    show "set (es ! k) \<union> {j. \<exists>dep \<in> set (act_deps (ordered ! k)). batch_of ordered dep = Some j} \<union>
        (if act_node_type (ordered ! k) = KindProposalEpic then {}
         else {j. bl_lookup b (bl_proposal b) = None \<and> batch_of ordered (bl_proposal b) = Some j})
        \<subseteq> createOpID ` set (take k ordered)"
      using edges parent dep_before[OF ids srt k] by (intro Un_least) auto
  qed
qed

lemma Build_backwards:
  assumes "proposal_creates b actions" and "Build b actions = Inr cs" and "k < length (cs_ops cs)"
  shows "refs_within (op_id ` set (take k (cs_ops cs))) (cs_ops cs ! k)"
proof -
  obtain epic ordered es creates rets where
    ep: "ResolveEpicAction (bl_proposal b) (bl_lookup b) (bl_registration b) = Inr epic"
    and srt: "Sort (with_epic epic (filter (\<lambda>a. act_type a = ActionCreate) actions))
       (prf_plan_relevant (profileOrDefault (bl_graph b))) = Inr ordered"
    and es: "layerEdgesFor ordered (map createOpID ordered) (prf_plan_relevant (profileOrDefault (bl_graph b))) = Inr es"
    and cr: "create_ops b (batch_of ordered) (op_index (map createOpID ordered))
       (sort (map act_task_id (filter (\<lambda>a. act_type a = ActionRetarget) actions)))
       (zip ordered (zip (map createOpID ordered) es)) = Inr creates"
    and rt: "retarget_ops b (batch_of ordered) (op_index (map createOpID ordered))
       (filter (\<lambda>a. act_type a = ActionRetarget) actions) = Inr rets"
    and ops: "cs_ops cs = creates @ rets @ map closeOp (filter (\<lambda>a. act_type a = ActionObsolete) actions)"
    by (rule Build_parts[OF assms(2)])
  have len: "length creates = length ordered"
    using create_ops_nth(1)[OF cr] layerEdgesFor_length[OF es] by simp
  show ?thesis
  proof (cases "k < length creates")
    case True
    then show ?thesis
      using created_refs[OF assms(1) ep srt es cr] len by (simp add: ops nth_append)
  next
    case False
    let ?x = "cs_ops cs ! k"
    have "?x \<in> set rets \<or> (\<exists>a. ?x = closeOp a)"
      using False assms(3) unfolding ops by (auto simp: nth_append intro: nth_mem)
    moreover have "refs_within (createOpID ` set ordered) ?x" if x: "?x \<in> set rets"
    proof -
      obtain a where "retargetOp b a (batch_of ordered) (op_index (map createOpID ordered)) = Inr ?x"
        using retarget_ops_mem[OF rt x] by blast
      from retargetOp_refs[OF this] show ?thesis
        by (rule refs_within_mono) (auto dest!: batch_of_Some)
    qed
    moreover have "refs_within {} (closeOp a)" for a by (rule closeOp_refs)
    moreover have "createOpID ` set ordered \<subseteq> op_id ` set (take k (cs_ops cs))"
    proof -
      have "map op_id creates = map createOpID ordered" by (rule created_op_ids[OF cr layerEdgesFor_length[OF es]])
      then have "createOpID ` set ordered = op_id ` set creates" by (metis list.set_map)
      then show ?thesis using False by (auto simp: ops)
    qed
    ultimately show ?thesis by (metis bot_least refs_within_mono)
  qed
qed


text \<open>
  C25: a changeset can be executed from first to last: every operation an operation refers to,
  as its parent, its target or a dependency, stands before it in the list.
\<close>

theorem Build_refs_point_backwards:
  assumes "proposal_creates b actions" and "Build b actions = Inr cs" and "k < length (cs_ops cs)"
  shows "refs_within (op_id ` set (take k (cs_ops cs))) (cs_ops cs ! k)"
  using assms by (rule Build_backwards)

text \<open>
  Layers are fenced: a create of one layer depends on every create of the nearest occupied
  layer before it, the epic's layer excepted, so that no task of a layer starts before the layer
  below it is done.
\<close>

theorem Build_layer_fence:
  assumes "proposal_creates b actions" and "Build b actions = Inr cs"
    and "ResolveEpicAction (bl_proposal b) (bl_lookup b) (bl_registration b) = Inr epic"
    and "Sort (with_epic epic (filter (\<lambda>a. act_type a = ActionCreate) actions))
           (prf_plan_relevant (profileOrDefault (bl_graph b))) = Inr ordered"
    and "k < length ordered"
    and "j \<in> fence (\<lambda>m. layer_number (prf_plan_relevant (profileOrDefault (bl_graph b))) (ordered ! m))
               (length ordered) k"
  shows "op_id (cs_ops cs ! j) = createOpID (ordered ! j) \<and> op_id (cs_ops cs ! k) = createOpID (ordered ! k) \<and>
    op_ref (createOpID (ordered ! j)) \<in> set (op_deps (cs_ops cs ! k))"
proof -
  let ?rel = "prf_plan_relevant (profileOrDefault (bl_graph b))"
  let ?acts = "with_epic epic (filter (\<lambda>a. act_type a = ActionCreate) actions)"
  obtain epic' ordered' es creates rets where
    "ResolveEpicAction (bl_proposal b) (bl_lookup b) (bl_registration b) = Inr epic'"
    "Sort (with_epic epic' (filter (\<lambda>a. act_type a = ActionCreate) actions)) ?rel = Inr ordered'"
    and es': "layerEdgesFor ordered' (map createOpID ordered') ?rel = Inr es"
    and cr': "create_ops b (batch_of ordered') (op_index (map createOpID ordered'))
       (sort (map act_task_id (filter (\<lambda>a. act_type a = ActionRetarget) actions)))
       (zip ordered' (zip (map createOpID ordered') es)) = Inr creates"
    and "retarget_ops b (batch_of ordered') (op_index (map createOpID ordered'))
       (filter (\<lambda>a. act_type a = ActionRetarget) actions) = Inr rets"
    and ops: "cs_ops cs = creates @ rets @ map closeOp (filter (\<lambda>a. act_type a = ActionObsolete) actions)"
    by (rule Build_parts[OF assms(2)])
  then have "ordered' = ordered" using assms(3,4) by simp
  note es = es'[unfolded this] and cr = cr'[unfolded this]
  have ids: "distinct (map act_spec_node_id ?acts)"
    by (rule proposal_ids_distinct[OF assms(1,3)])
  note C = created_at[OF ids assms(4) es cr]
  have j: "j < k" "j < length ordered" using assms(5,6) by (auto simp: fence_def)
  have at: "cs_ops cs ! k = creates ! k" "cs_ops cs ! j = creates ! j"
    using C(1)[OF assms(5)] assms(5) j by (simp_all add: ops nth_append)
  have "0 < layer_number ?rel (ordered ! k)" using assms(6) by (auto simp: fence_def)
  then have ne: "act_node_type (ordered ! k) \<noteq> KindProposalEpic" using epic_layer by fastforce
  obtain label where "createOp b (ordered ! k) (createOpID (ordered ! k)) label (batch_of ordered)
      (op_index (map createOpID ordered)) (es ! k)
      (sort (map act_task_id (filter (\<lambda>a. act_type a = ActionRetarget) actions))) = Inr (creates ! k)"
    using C(3)[OF assms(5)] by blast
  from createOp_parts[OF this ne] obtain tasks where deps:
    "composeDeps (ordered ! k) (bl_lookup b) (batch_of ordered) (op_index (map createOpID ordered)) (es ! k) tasks =
       Inr (op_deps (creates ! k))" by blast
  have "createOpID (ordered ! j) \<in> set (es ! k)" using C(4)[OF assms(5)] assms(6) by blast
  then have "op_ref (createOpID (ordered ! j)) \<in> set (op_deps (creates ! k))"
    using composed_edges[OF deps] by blast
  then show ?thesis using at C(2)[OF assms(5)] C(2)[OF j(2)] by simp
qed


subsection \<open>The nodes of the operations\<close>

lemma createOp_node:
  "createOp b a i label batch ix es targets = Inr x \<Longrightarrow> op_spec_node_id x = act_spec_node_id a"
  by (auto simp: createOp_def bind_result_Inr_iff blank_op_def split: if_splits)

lemma retargetOp_node: "retargetOp b a batch ix = Inr x \<Longrightarrow> op_spec_node_id x = act_spec_node_id a"
  by (auto simp: retargetOp_def bind_result_Inr_iff blank_op_def)

lemma create_ops_nodes:
  "create_ops b batch ix targets ts = Inr ops \<Longrightarrow> op_spec_node_id ` set ops \<subseteq> act_spec_node_id ` fst ` set ts"
proof (induction ts arbitrary: ops)
  case (Cons t ts)
  obtain a i es where t: "t = (a, i, es)" by (cases t)
  obtain label x xs where x: "createOp b a i label batch ix es targets = Inr x"
    "create_ops b batch ix targets ts = Inr xs" "ops = x # xs"
    using Cons.prems t by (auto simp: bind_result_Inr_iff)
  show ?case using Cons.IH[OF x(2)] createOp_node[OF x(1)] by (auto simp: x(3) t)
qed simp

text \<open>An operation names no node, the proposal, or a node of some action.\<close>

lemma Build_nodes:
  assumes "Build b actions = Inr cs" and pc: "proposal_creates b actions"
  shows "op_spec_node_id ` set (cs_ops cs) \<subseteq> {[], bl_proposal b} \<union> act_spec_node_id ` set actions"
proof -
  obtain epic ordered es creates rets where
    ep: "ResolveEpicAction (bl_proposal b) (bl_lookup b) (bl_registration b) = Inr epic"
    and srt: "Sort (with_epic epic (filter (\<lambda>a. act_type a = ActionCreate) actions))
       (prf_plan_relevant (profileOrDefault (bl_graph b))) = Inr ordered"
    and "layerEdgesFor ordered (map createOpID ordered) (prf_plan_relevant (profileOrDefault (bl_graph b))) = Inr es"
    and cr: "create_ops b (batch_of ordered) (op_index (map createOpID ordered))
       (sort (map act_task_id (filter (\<lambda>a. act_type a = ActionRetarget) actions)))
       (zip ordered (zip (map createOpID ordered) es)) = Inr creates"
    and rt: "retarget_ops b (batch_of ordered) (op_index (map createOpID ordered))
       (filter (\<lambda>a. act_type a = ActionRetarget) actions) = Inr rets"
    and ops: "cs_ops cs = creates @ rets @ map closeOp (filter (\<lambda>a. act_type a = ActionObsolete) actions)"
    by (rule Build_parts[OF assms(1)])
  have "set ordered = set (with_epic epic (filter (\<lambda>a. act_type a = ActionCreate) actions))"
    using Sort_order[OF proposal_ids_distinct[OF pc ep] srt] mset_eq_setD by blast
  then have ord: "act_spec_node_id ` set ordered \<subseteq> {bl_proposal b} \<union> act_spec_node_id ` set actions"
    using ResolveEpicAction_Inr[OF ep] by (auto simp: with_epic_def split: option.splits)
  have "fst ` set (zip ordered (zip (map createOpID ordered) es)) \<subseteq> set ordered"
    by (auto dest: set_zip_leftD)
  then have c: "op_spec_node_id ` set creates \<subseteq> {bl_proposal b} \<union> act_spec_node_id ` set actions"
    using create_ops_nodes[OF cr] ord by (meson image_mono order_trans)
  have r: "op_spec_node_id ` set rets \<subseteq> act_spec_node_id ` set actions"
    using retarget_ops_mem[OF rt] retargetOp_node by fastforce
  have cl: "op_spec_node_id (closeOp a) = []" for a by (simp add: closeOp_def blank_op_def)
  show ?thesis unfolding ops using c r by (auto simp: cl)
qed

subsection \<open>A sample changeset\<close>

definition sample_builder :: builder where
  "sample_builder =
     \<lparr>bl_graph = sample_graph\<lparr>sg_profile := Some
        \<lparr>prf_version = None, prf_node_types = [], prf_coverage_chains = [],
         prf_plan_relevant = [''requirement'', ''component''], prf_impact_levels = [], prf_absorbable = [],
         prf_edges = [], prf_hashed_fields = []\<rparr>\<rparr>,
      bl_lookup = Map.empty, bl_removal = Map.empty, bl_registration = \<lparr>rg_eid = ''reg:1''\<rparr>,
      bl_git_head = ''abc1234'', bl_proposal = ''p'', bl_absorbed = []\<rparr>"

definition sample_creates :: "action list" where
  "sample_creates =
     map (\<lambda>a. a\<lparr>act_type := ActionCreate\<rparr>)
       [sample_action ''component'' ''c2'' [''c1''], sample_action ''component'' ''c1'' [''r1''],
        sample_action ''requirement'' ''r1'' []]"

definition sample_epic :: action where
  "sample_epic = blank_action\<lparr>act_type := ActionCreate, act_node_type := KindProposalEpic,
     act_spec_node_id := ''p'', act_reason := ''Proposal: p''\<rparr>"

lemma sample_creates_ok: "proposal_creates sample_builder sample_creates"
  by code_simp

lemma sample_epic_resolved:
  "ResolveEpicAction (bl_proposal sample_builder) (bl_lookup sample_builder) (bl_registration sample_builder) =
     Inr (Some sample_epic)"
  by code_simp

lemma sample_ordered:
  "Sort (with_epic (Some sample_epic) (filter (\<lambda>a. act_type a = ActionCreate) sample_creates))
     (prf_plan_relevant (profileOrDefault (bl_graph sample_builder))) =
   Inr [sample_epic, sample_creates ! 2, sample_creates ! 1, sample_creates ! 0]"
  by code_simp

definition is_Inr :: "('e, 'a) result \<Rightarrow> bool" where
  "is_Inr r = (case r of Inr _ \<Rightarrow> True | Inl _ \<Rightarrow> False)"

lemma is_InrE: "is_Inr r \<Longrightarrow> (\<And>a. r = Inr a \<Longrightarrow> P) \<Longrightarrow> P"
  by (cases r) (simp_all add: is_Inr_def)

lemma sample_build: "is_Inr (Build sample_builder sample_creates)"
  by code_simp


theorem Build_refs_point_backwards_witness:
  "\<exists>cs. Build sample_builder sample_creates = Inr cs \<and>
        refs_within (op_id ` set (take 3 (cs_ops cs))) (cs_ops cs ! 3)"
proof -
  obtain cs where cs: "Build sample_builder sample_creates = Inr cs"
    using sample_build by (rule is_InrE)
  have "case Build sample_builder sample_creates of Inr cs \<Rightarrow> 3 < length (cs_ops cs) | Inl _ \<Rightarrow> False"
    by code_simp
  then have "3 < length (cs_ops cs)" using cs by simp
  then show ?thesis using Build_refs_point_backwards[OF sample_creates_ok cs] cs by blast
qed

theorem Build_layer_fence_witness:
  "\<exists>cs. Build sample_builder sample_creates = Inr cs \<and>
        op_ref ''op-requirement-r1'' \<in> set (op_deps (cs_ops cs ! 3))"
proof -
  obtain cs where cs: "Build sample_builder sample_creates = Inr cs"
    using sample_build by (rule is_InrE)
  let ?ordered = "[sample_epic, sample_creates ! 2, sample_creates ! 1, sample_creates ! 0]"
  have "map (layer_number (prf_plan_relevant (profileOrDefault (bl_graph sample_builder)))) ?ordered = [0, 1, 2, 2]"
    by code_simp
  then have "1 \<in> fence (\<lambda>m. layer_number (prf_plan_relevant (profileOrDefault (bl_graph sample_builder))) (?ordered ! m))
      (length ?ordered) 3"
    by (auto simp: fence_def less_Suc_eq numeral_eq_Suc)
  from Build_layer_fence[OF sample_creates_ok cs sample_epic_resolved sample_ordered _ this]
  have "op_ref (createOpID (?ordered ! 1)) \<in> set (op_deps (cs_ops cs ! 3))" by simp
  moreover have "createOpID (?ordered ! 1) = ''op-requirement-r1''" by code_simp
  ultimately show ?thesis using cs by auto
qed

end
