(* ===== verification/Plan_Command.thy ===== *)
theory Plan_Command
  imports Plan_Builder
begin

text \<open>
  The \<open>spex plan\<close> command (\<open>cmd/spex/plan.go\<close>): the absorb marks, the registration lookup and
  the pipeline from a diff, a journal, a spec graph and a task-state artifact to a changeset.
  The documents are taken decoded; reading and writing files is left out.
\<close>

subsection \<open>Absorb marks\<close>

record absorb_input =
  abi_node :: string
  abi_reason :: string

datatype plan_command_error =
    MissingProposal
  | BadGitHead string
  | DiffErrors nat
  | AbsorbNotHash string
  | AbsorbNotModified string
  | PlanRefused plan_error

text \<open>Exit code 1 for malformed input, 2 for a refusal.\<close>

definition exit_code :: "plan_command_error \<Rightarrow> nat" where
  "exit_code e =
     (case e of MissingProposal \<Rightarrow> 1 | BadGitHead _ \<Rightarrow> 1 | DiffErrors _ \<Rightarrow> 1
      | AbsorbNotHash _ \<Rightarrow> 2 | AbsorbNotModified _ \<Rightarrow> 2 | PlanRefused _ \<Rightarrow> 2)"

definition git_head_pattern :: "string \<Rightarrow> bool" where
  "git_head_pattern s \<longleftrightarrow> 7 \<le> length s \<and> length s \<le> 40 \<and> set s \<subseteq> set hex_alphabet"

fun absorb_entries :: "absorb_input list \<Rightarrow> (string \<rightharpoonup> classified_change)
    \<Rightarrow> (plan_command_error, absorbed_entry list) result" where
  "absorb_entries [] byKey = Inr []"
| "absorb_entries (e # es) byKey =
     (if \<not> identity_hash_pattern (abi_node e) then Inl (AbsorbNotHash (abi_node e))
      else case byKey (abi_node e) of
             None \<Rightarrow> Inl (AbsorbNotModified (abi_node e))
           | Some c \<Rightarrow>
               if cc_type c \<noteq> Modified then Inl (AbsorbNotModified (abi_node e))
               else bind_result (absorb_entries es byKey) (\<lambda>rest.
                      Inr (\<lparr>abe_node = abi_node e, abe_before = cc_old_hash c, abe_after = cc_new_hash c,
                            abe_reason = abi_reason e\<rparr> # rest)))"

definition applyAbsorb :: "absorb_input list \<Rightarrow> classified_change list
    \<Rightarrow> (plan_command_error, absorbed_entry list \<times> classified_change list) result" where
  "applyAbsorb entries changes =
     (let byKey = fold (\<lambda>c m. m(cc_key c \<mapsto> c)) changes Map.empty
      in bind_result (absorb_entries entries byKey) (\<lambda>absorbed.
           let withheld = map abi_node entries
           in Inr (absorbed, filter (\<lambda>c. cc_key c \<notin> set withheld) changes)))"

subsection \<open>The pipeline\<close>

definition resolvePlanRegistration :: "event list \<Rightarrow> string \<Rightarrow> registration" where
  "resolvePlanRegistration events proposal =
     fold (\<lambda>ev reg. if ev_event ev = ''registered'' \<and> ev_proposal ev = proposal
                    then \<lparr>rg_eid = ev_eid ev\<rparr> else reg) events \<lparr>rg_eid = []\<rparr>"

definition task_statuses :: "(string \<times> string) list \<Rightarrow> (string \<rightharpoonup> string)" where
  "task_statuses tasks = fold (\<lambda>(i, s) m. m(i \<mapsto> s)) tasks Map.empty"

record plan_inputs =
  pin_proposal :: string
  pin_git_head :: string
  pin_changes :: "classified_change list"
  pin_diff_errors :: "string list"
  pin_events :: "event list"
  pin_graph :: spec_graph
  pin_tasks :: "(string \<times> string) list"
  pin_absorb :: "absorb_input list option"

text \<open>The part of the command after the inputs are read: matching, classification, building.\<close>

definition plan_builder :: "plan_inputs \<Rightarrow> absorbed_entry list \<Rightarrow> builder" where
  "plan_builder inp absorbed =
     (let pf = newPlanFold (journal_fold (pin_events inp)) (task_statuses (pin_tasks inp))
      in \<lparr>bl_graph = pin_graph inp, bl_lookup = pf_lookup pf, bl_removal = pf_removal pf,
          bl_registration = resolvePlanRegistration (pin_events inp) (pin_proposal inp),
          bl_git_head = pin_git_head inp, bl_proposal = pin_proposal inp, bl_absorbed = absorbed\<rparr>)"

definition plan_changes :: "plan_inputs \<Rightarrow> absorbed_entry list \<Rightarrow> classified_change list
    \<Rightarrow> (plan_error, changeset) result" where
  "plan_changes inp absorbed changes =
     (let pairings = planPairingsForMatching (journal_fold (pin_events inp)) (task_statuses (pin_tasks inp));
          (matches, unmatched, orphaned) = MatchNodes changes pairings
      in bind_result (ClassifyActions matches unmatched orphaned (pin_graph inp)) (Build (plan_builder inp absorbed)))"

definition refuse :: "(plan_error, 'a) result \<Rightarrow> (plan_command_error, 'a) result" where
  "refuse r = (case r of Inl e \<Rightarrow> Inl (PlanRefused e) | Inr a \<Rightarrow> Inr a)"

definition runPlanE :: "plan_inputs \<Rightarrow> (plan_command_error, changeset) result" where
  "runPlanE inp =
     (if pin_proposal inp = [] then Inl MissingProposal
      else if \<not> git_head_pattern (pin_git_head inp) then Inl (BadGitHead (pin_git_head inp))
      else if pin_diff_errors inp \<noteq> [] then Inl (DiffErrors (length (pin_diff_errors inp)))
      else bind_result
             (case pin_absorb inp of
                None \<Rightarrow> Inr ([], pin_changes inp)
              | Some entries \<Rightarrow> applyAbsorb entries (pin_changes inp))
             (\<lambda>(absorbed, changes). refuse (plan_changes inp absorbed changes)))"

subsection \<open>Absorbed nodes are withheld\<close>

lemma absorb_entries_Inr:
  "absorb_entries es byKey = Inr out \<Longrightarrow>
     map abe_node out = map abi_node es \<and>
     (\<forall>x \<in> set out. identity_hash_pattern (abe_node x) \<and>
        (\<exists>c. byKey (abe_node x) = Some c \<and> cc_type c = Modified \<and>
             abe_before x = cc_old_hash c \<and> abe_after x = cc_new_hash c))"
  by (induction es arbitrary: out)
     (auto simp: bind_result_Inr_iff split: option.splits if_splits)

lemma absorb_entries_total:
  "(\<exists>out. absorb_entries es byKey = Inr out) \<longleftrightarrow>
     (\<forall>e \<in> set es. identity_hash_pattern (abi_node e) \<and>
        (\<exists>c. byKey (abi_node e) = Some c \<and> cc_type c = Modified))"
  by (induction es) (auto simp: bind_result_Inr_iff split: option.splits)

lemma byKey_lookup:
  "distinct (map cc_key cs) \<Longrightarrow>
     fold (\<lambda>c m. m(cc_key c \<mapsto> c)) cs Map.empty k = Some c \<longleftrightarrow> c \<in> set cs \<and> cc_key c = k"
proof
  assume "fold (\<lambda>c m. m(cc_key c \<mapsto> c)) cs Map.empty k = Some c"
  then show "c \<in> set cs \<and> cc_key c = k"
    by (auto simp: fold_map_upd[where g = "\<lambda>c. c"] dest!: map_of_SomeD)
next
  assume "distinct (map cc_key cs)" "c \<in> set cs \<and> cc_key c = k"
  then show "fold (\<lambda>c m. m(cc_key c \<mapsto> c)) cs Map.empty k = Some c"
    using fold_map_upd_distinct[where g = "\<lambda>c. c" and f = cc_key] by auto
qed

text \<open>
  C26: absorb marks are accepted exactly when each names, by identity hash, a node the diff reports
  modified; what remains of the diff is every change of a node that is not marked, and every
  absorbed entry carries the hashes of the change it withholds.
\<close>

theorem applyAbsorb_exact:
  assumes "distinct (map cc_key changes)"
  shows "((\<exists>r. applyAbsorb entries changes = Inr r) \<longleftrightarrow>
      (\<forall>e \<in> set entries. identity_hash_pattern (abi_node e) \<and>
         (\<exists>c \<in> set changes. cc_key c = abi_node e \<and> cc_type c = Modified))) \<and>
    (\<forall>absorbed rest. applyAbsorb entries changes = Inr (absorbed, rest) \<longrightarrow>
       rest = filter (\<lambda>c. cc_key c \<notin> abi_node ` set entries) changes \<and>
       map abe_node absorbed = map abi_node entries \<and>
       (\<forall>x \<in> set absorbed. \<exists>c \<in> set changes. cc_key c = abe_node x \<and> cc_type c = Modified \<and>
          abe_before x = cc_old_hash c \<and> abe_after x = cc_new_hash c))"
proof (intro conjI allI impI)
  let ?ix = "fold (\<lambda>c m. m(cc_key c \<mapsto> c)) changes Map.empty"
  note look = byKey_lookup[OF assms]
  have "(\<exists>r. applyAbsorb entries changes = Inr r) \<longleftrightarrow> (\<exists>out. absorb_entries entries ?ix = Inr out)"
    by (auto simp: applyAbsorb_def bind_result_Inr_iff Let_def)
  then show "(\<exists>r. applyAbsorb entries changes = Inr r) \<longleftrightarrow>
      (\<forall>e \<in> set entries. identity_hash_pattern (abi_node e) \<and>
         (\<exists>c \<in> set changes. cc_key c = abi_node e \<and> cc_type c = Modified))"
    unfolding absorb_entries_total look by blast
  fix absorbed rest assume "applyAbsorb entries changes = Inr (absorbed, rest)"
  then have run: "absorb_entries entries ?ix = Inr absorbed"
    and rest: "rest = filter (\<lambda>c. cc_key c \<notin> abi_node ` set entries) changes"
    by (auto simp: applyAbsorb_def bind_result_Inr_iff Let_def)
  show "rest = filter (\<lambda>c. cc_key c \<notin> abi_node ` set entries) changes" by (rule rest)
  note A = absorb_entries_Inr[OF run, unfolded look]
  show "map abe_node absorbed = map abi_node entries" using A by blast
  show "\<forall>x \<in> set absorbed. \<exists>c \<in> set changes. cc_key c = abe_node x \<and> cc_type c = Modified \<and>
      abe_before x = cc_old_hash c \<and> abe_after x = cc_new_hash c" using A by blast
qed


subsection \<open>One create per node\<close>

lemma subseq_distinct: "subseq xs ys \<Longrightarrow> distinct ys \<Longrightarrow> distinct xs \<and> set xs \<subseteq> set ys"
  by (induction rule: list_emb.induct) auto

lemma classifyMatch_ids:
  "length (mt_records m) \<le> 1 \<Longrightarrow> subseq (map act_spec_node_id (fst (classifyMatch m g))) [cc_key (mt_change m)]"
proof -
  assume "length (mt_records m) \<le> 1"
  then consider "mt_records m = []" | r where "mt_records m = [r]"
    by (cases "mt_records m") auto
  then show ?thesis
    by cases (auto simp: classifyMatch_def classify_record_def action_simps)
qed

lemma classifyMatches_ids:
  "\<forall>m \<in> set ms. length (mt_records m) \<le> 1 \<Longrightarrow>
     subseq (map act_spec_node_id (concat (map (\<lambda>m. fst (classifyMatch m g)) ms)))
            (map (\<lambda>m. cc_key (mt_change m)) ms)"
proof (induction ms)
  case (Cons m ms)
  then have "subseq (map act_spec_node_id (fst (classifyMatch m g)) @
        map act_spec_node_id (concat (map (\<lambda>m. fst (classifyMatch m g)) ms)))
      ([cc_key (mt_change m)] @ map (\<lambda>m. cc_key (mt_change m)) ms)"
    by (intro list_emb_append_mono classifyMatch_ids) auto
  then show ?case by simp
qed simp

lemma classifyOrphans_ids:
  "subseq (map act_spec_node_id (concat (map (\<lambda>o'. fst (classifyOrphaned o')) os)))
          (map (\<lambda>o'. pr_spec_node_id (or_record o')) os)"
  by (induction os) (auto simp: classifyOrphaned_def action_simps)

lemma classifyUnmatched_ids:
  "subseq (map act_spec_node_id (List.map_filter (\<lambda>u. classifyUnmatched u g) us))
          (map (\<lambda>u. cc_key (um_change u)) us)"
  by (induction us) (auto simp: classifyUnmatched_def map_filter_simps action_simps)

lemma classified_ids:
  assumes "ClassifyActions ms us os g = Inr as" and "\<forall>m \<in> set ms. length (mt_records m) \<le> 1"
    and "distinct (map (\<lambda>m. cc_key (mt_change m)) ms @ map (\<lambda>o'. pr_spec_node_id (or_record o')) os @
                   map (\<lambda>u. cc_key (um_change u)) us)"
  shows "distinct (map act_spec_node_id as)"
    and "act_spec_node_id ` set as \<subseteq> (\<lambda>m. cc_key (mt_change m)) ` set ms \<union>
           (\<lambda>o'. pr_spec_node_id (or_record o')) ` set os \<union> (\<lambda>u. cc_key (um_change u)) ` set us"
proof -
  let ?acts = "concat (map (\<lambda>m. fst (classifyMatch m g)) ms) @
              concat (map (\<lambda>o'. fst (classifyOrphaned o')) os) @
              List.map_filter (\<lambda>u. classifyUnmatched u g) us"
  have "as = sortActions (applyDataFlowAddOn ?acts (changedDataFlowUses ms us g))"
    using assms(1) by (simp add: ClassifyActions_claimed split: if_splits)
  then have "mset (map act_spec_node_id (filter (\<lambda>_. True) as)) =
      mset (map act_spec_node_id (filter (\<lambda>_. True) ?acts))"
    by (rule classified_view) simp_all
  then have m: "mset (map act_spec_node_id as) = mset (map act_spec_node_id ?acts)" by simp
  have "subseq (map act_spec_node_id ?acts)
      (map (\<lambda>m. cc_key (mt_change m)) ms @ map (\<lambda>o'. pr_spec_node_id (or_record o')) os @
       map (\<lambda>u. cc_key (um_change u)) us)"
    unfolding map_append
    by (intro list_emb_append_mono classifyMatches_ids classifyOrphans_ids classifyUnmatched_ids assms(2))
  from subseq_distinct[OF this assms(3)]
  have D: "distinct (map act_spec_node_id ?acts)" "set (map act_spec_node_id ?acts) \<subseteq>
      set (map (\<lambda>m. cc_key (mt_change m)) ms @ map (\<lambda>o'. pr_spec_node_id (or_record o')) os @
           map (\<lambda>u. cc_key (um_change u)) us)" by blast+
  show "distinct (map act_spec_node_id as)" using D(1) m by (metis mset_eq_imp_distinct_iff)
  have "set (map act_spec_node_id as) \<subseteq>
      set (map (\<lambda>m. cc_key (mt_change m)) ms @ map (\<lambda>o'. pr_spec_node_id (or_record o')) os @
           map (\<lambda>u. cc_key (um_change u)) us)"
    using D(2) mset_eq_setD[OF m] by (simp only:)
  then show "act_spec_node_id ` set as \<subseteq> (\<lambda>m. cc_key (mt_change m)) ` set ms \<union>
           (\<lambda>o'. pr_spec_node_id (or_record o')) ` set os \<union> (\<lambda>u. cc_key (um_change u)) ` set us"
    by (simp only: set_map set_append Un_assoc)
qed

text \<open>The journal pairs a node at most once.\<close>

lemma planPairings_distinct:
  "distinct (map pr_spec_node_id (planPairingsForMatching (journal_fold events) st))"
proof -
  have "subseq (map pr_spec_node_id (planPairingsForMatching f st)) (map fe_key (jf_entries f))" for f
  proof -
    have "subseq (map pr_spec_node_id (List.map_filter (\<lambda>e. if fe_removed e \<or> ev_node (fe_source e) = [] then None
                          else Some (planPairingFromEntry e st)) es)) (map fe_key es)" for es
      by (induction es) (auto simp: map_filter_simps planPairingFromEntry_def)
    then show ?thesis by (simp add: planPairingsForMatching_def)
  qed
  then show ?thesis using subseq_distinct jf_entries_keys_distinct by blast
qed

lemma pairings_of_single:
  "distinct (map pr_spec_node_id ps) \<Longrightarrow> length (pairings_of ps k) \<le> 1"
proof (induction ps)
  case (Cons p ps)
  then have "pr_spec_node_id p = k \<Longrightarrow> pairings_of ps k = []"
    by (auto simp: pairings_of_def filter_empty_conv image_iff)
  then show ?case using Cons by (auto simp: pairings_of_def)
qed (simp add: pairings_of_def)

lemma matched_distinct:
  assumes keys: "distinct (map cc_key changes)" and ps: "distinct (map pr_spec_node_id ps)"
    and run: "MatchNodes changes ps = (ms, us, os)"
  shows "\<forall>m \<in> set ms. length (mt_records m) \<le> 1"
    and "distinct (map (\<lambda>m. cc_key (mt_change m)) ms @ map (\<lambda>o'. pr_spec_node_id (or_record o')) os @
                   map (\<lambda>u. cc_key (um_change u)) us)"
proof -
  note M = MatchNodes_lists[OF run]
  show "\<forall>m \<in> set ms. length (mt_records m) \<le> 1"
  proof
    fix m assume "m \<in> set ms"
    then have "mset (mt_records m) = mset (pairings_of ps (cc_key (mt_change m)))" using M by blast
    then have "length (mt_records m) = length (pairings_of ps (cc_key (mt_change m)))" by (rule mset_eq_length)
    then show "length (mt_records m) \<le> 1" using pairings_of_single[OF ps] by (simp only:)
  qed
  have ms: "map (\<lambda>m. cc_key (mt_change m)) ms =
      map cc_key (filter (\<lambda>c. kept_change c \<and> pairings_of ps (cc_key c) \<noteq> []) changes)"
    by (simp only: conjunct1[OF M, symmetric] map_map comp_def)
  have us: "map (\<lambda>u. cc_key (um_change u)) us =
      map cc_key (filter (\<lambda>c. kept_change c \<and> pairings_of ps (cc_key c) = []) changes)"
    by (simp only: conjunct1[OF conjunct2[OF conjunct2[OF M]], symmetric] map_map comp_def)
  have inj: "c = c'" if "c \<in> set changes" "c' \<in> set changes" "cc_key c = cc_key c'" for c c'
    using keys that by (auto simp: distinct_map inj_on_def)
  have os: "\<exists>c \<in> set changes. removing_change c \<and> cc_key c = pr_spec_node_id (or_record o')"
    if "o' \<in> set os" for o'
    using M that by (fastforce simp: pairings_of_def)
  have "distinct (map orphan_task os)" using M strict_sorted_iff by blast
  then have "distinct (map (\<lambda>o'. pr_spec_node_id (or_record o')) os)"
  proof -
    assume d: "distinct (map orphan_task os)"
    have "or_record ` set os \<subseteq> set ps" using M by blast
    moreover have "inj_on pr_spec_node_id (set ps)" using ps by (simp add: distinct_map)
    moreover have "inj_on orphan_task (set os)" "distinct os" using d by (auto simp: distinct_map)
    ultimately show ?thesis
      by (auto simp: distinct_map inj_on_def) (metis (no_types, lifting) image_subset_iff)
  qed
  moreover have "set (map (\<lambda>o'. pr_spec_node_id (or_record o')) os) \<inter>
      cc_key ` {c \<in> set changes. kept_change c} = {}"
    using os inj by (fastforce simp: kept_change_def removing_change_def)
  moreover have "cc_key ` set (filter (\<lambda>c. kept_change c \<and> pairings_of ps (cc_key c) \<noteq> []) changes) \<inter>
      cc_key ` set (filter (\<lambda>c. kept_change c \<and> pairings_of ps (cc_key c) = []) changes) = {}"
    by auto
  ultimately show "distinct (map (\<lambda>m. cc_key (mt_change m)) ms @ map (\<lambda>o'. pr_spec_node_id (or_record o')) os @
                   map (\<lambda>u. cc_key (um_change u)) us)"
    unfolding ms us distinct_append using keys by (auto simp: distinct_map_filter)
qed


subsection \<open>From the diff to the changeset\<close>

text \<open>What the diff engine guarantees of its changes, and a proposal that names no spec node.\<close>

definition plan_inputs_ok :: "plan_inputs \<Rightarrow> bool" where
  "plan_inputs_ok inp \<longleftrightarrow>
     distinct (map cc_key (pin_changes inp)) \<and> pin_proposal inp \<notin> cc_key ` set (pin_changes inp) \<and>
     KindProposalEpic \<notin> cc_node_type ` set (pin_changes inp)"

lemma classified_node_types:
  assumes "ClassifyActions ms us os g = Inr as"
  shows "act_node_type ` set as \<subseteq> (\<lambda>m. cc_node_type (mt_change m)) ` set ms \<union> or_node_type ` set os \<union>
           (\<lambda>u. cc_node_type (um_change u)) ` set us"
proof -
  let ?acts = "concat (map (\<lambda>m. fst (classifyMatch m g)) ms) @
              concat (map (\<lambda>o'. fst (classifyOrphaned o')) os) @
              List.map_filter (\<lambda>u. classifyUnmatched u g) us"
  have "as = sortActions (applyDataFlowAddOn ?acts (changedDataFlowUses ms us g))"
    using assms by (simp add: ClassifyActions_claimed split: if_splits)
  then have "mset (map act_node_type (filter (\<lambda>_. True) as)) =
      mset (map act_node_type (filter (\<lambda>_. True) ?acts))"
    by (rule classified_view) simp_all
  then have m: "set (map act_node_type as) = set (map act_node_type ?acts)" by (intro mset_eq_setD) simp
  have 1: "act_node_type a = cc_node_type (mt_change m)" if "a \<in> set (fst (classifyMatch m g))" for a m
    using that by (auto simp: classifyMatch_def classify_record_def action_simps split: if_splits)
  have 2: "act_node_type a = or_node_type o'" if "a \<in> set (fst (classifyOrphaned o'))" for a o'
    using that by (auto simp: classifyOrphaned_def action_simps split: if_splits)
  have 3: "act_node_type a = cc_node_type (um_change u)" if "classifyUnmatched u g = Some a" for a u
    using that by (auto simp: classifyUnmatched_def action_simps split: if_splits)
  have "set (map act_node_type ?acts) \<subseteq> (\<lambda>m. cc_node_type (mt_change m)) ` set ms \<union> or_node_type ` set os \<union>
           (\<lambda>u. cc_node_type (um_change u)) ` set us"
    using 1 2 3 by (fastforce simp: set_map_filter_iff)
  then show ?thesis unfolding m[symmetric] by (simp only: set_map)
qed

text \<open>The facts about the actions of a run, for a diff with one change per node.\<close>

lemma plan_classified:
  assumes keys: "distinct (map cc_key changes)"
    and M: "MatchNodes changes (planPairingsForMatching (journal_fold events) status) = (ms, us, os)"
    and C: "ClassifyActions ms us os g = Inr actions"
  shows "distinct (map act_spec_node_id actions)"
    and "act_spec_node_id ` set actions \<subseteq> cc_key ` set changes"
    and "act_node_type ` set actions \<subseteq> cc_node_type ` set changes"
    and "mt_change ` set ms \<subseteq> set changes" and "um_change ` set us \<subseteq> set changes"
proof -
  let ?ps = "planPairingsForMatching (journal_fold events) status"
  note D = matched_distinct[OF keys planPairings_distinct M]
  note L = MatchNodes_lists[OF M]
  show ms: "mt_change ` set ms \<subseteq> set changes"
    using arg_cong[OF conjunct1[OF L], of set] by auto
  show us: "um_change ` set us \<subseteq> set changes"
    using arg_cong[OF conjunct1[OF conjunct2[OF conjunct2[OF L]]], of set] by auto
  have os: "\<exists>c \<in> set changes. pr_spec_node_id (or_record o') = cc_key c \<and> or_node_type o' = cc_node_type c"
    if o': "o' \<in> set os" for o'
  proof -
    obtain c where "c \<in> set changes" "or_record o' \<in> set (pairings_of ?ps (cc_key c))"
      "or_node_type o' = cc_node_type c" using L o' by blast
    then show ?thesis by (intro bexI[of _ c]) (auto simp: pairings_of_def)
  qed
  have os': "(\<lambda>o'. pr_spec_node_id (or_record o')) ` set os \<subseteq> cc_key ` set changes"
    "or_node_type ` set os \<subseteq> cc_node_type ` set changes" using os by blast+
  have ms': "(\<lambda>m. f (mt_change m)) ` set ms \<subseteq> f ` set changes" for f :: "classified_change \<Rightarrow> string"
    using ms by blast
  have us': "(\<lambda>u. f (um_change u)) ` set us \<subseteq> f ` set changes" for f :: "classified_change \<Rightarrow> string"
    using us by blast
  show "act_spec_node_id ` set actions \<subseteq> cc_key ` set changes"
    using classified_ids(2)[OF C D] by (rule order_trans) (intro Un_least ms' us' os')
  show "act_node_type ` set actions \<subseteq> cc_node_type ` set changes"
    using classified_node_types[OF C] by (rule order_trans) (intro Un_least ms' us' os')
  show "distinct (map act_spec_node_id actions)" by (rule classified_ids(1)[OF C D])
qed

lemma plan_changes_built:
  assumes keys: "distinct (map cc_key changes)" and run: "plan_changes inp absorbed changes = Inr cs"
  obtains actions where "Build (plan_builder inp absorbed) actions = Inr cs"
    and "distinct (map act_spec_node_id actions)"
    and "act_spec_node_id ` set actions \<subseteq> cc_key ` set changes"
    and "act_node_type ` set actions \<subseteq> cc_node_type ` set changes"
proof -
  let ?ps = "planPairingsForMatching (journal_fold (pin_events inp)) (task_statuses (pin_tasks inp))"
  obtain ms us os where M: "MatchNodes changes ?ps = (ms, us, os)" by (cases "MatchNodes changes ?ps")
  obtain actions where C: "ClassifyActions ms us os (pin_graph inp) = Inr actions"
    and B: "Build (plan_builder inp absorbed) actions = Inr cs"
    using run by (auto simp: plan_changes_def Let_def M bind_result_Inr_iff)
  show ?thesis using that[OF B] plan_classified(1-3)[OF keys M C] .
qed

lemma plan_builder_fields [simp]:
  "bl_proposal (plan_builder inp absorbed) = pin_proposal inp" "bl_absorbed (plan_builder inp absorbed) = absorbed"
  "bl_git_head (plan_builder inp absorbed) = pin_git_head inp"
  "bl_registration (plan_builder inp absorbed) = resolvePlanRegistration (pin_events inp) (pin_proposal inp)"
  "bl_removal (plan_builder inp absorbed) =
     pf_removal (newPlanFold (journal_fold (pin_events inp)) (task_statuses (pin_tasks inp)))"
  by (simp_all add: plan_builder_def Let_def)

lemma plan_changes_parts:
  assumes "distinct (map cc_key changes)" and "plan_changes inp absorbed changes = Inr cs"
  obtains b actions where "Build b actions = Inr cs" and "bl_proposal b = pin_proposal inp"
    and "bl_absorbed b = absorbed" and "distinct (map act_spec_node_id actions)"
    and "act_spec_node_id ` set actions \<subseteq> cc_key ` set changes"
    and "act_node_type ` set actions \<subseteq> cc_node_type ` set changes"
  using plan_changes_built[OF assms] plan_builder_fields(1,2) by metis

lemma plan_changes_creates:
  assumes "distinct (map act_spec_node_id actions)"
    and "act_spec_node_id ` set actions \<subseteq> K" and "bl_proposal b \<notin> K"
    and "act_node_type ` set actions \<subseteq> T" and "KindProposalEpic \<notin> T"
  shows "proposal_creates b actions"
  using assms by (auto simp: proposal_creates_def distinct_map_filter)

lemma refuse_Inr: "refuse r = Inr a \<longleftrightarrow> r = Inr a"
  by (cases r) (simp_all add: refuse_def)

lemma runPlanE_Inr:
  assumes "runPlanE inp = Inr cs"
  obtains absorbed changes where "plan_changes inp absorbed changes = Inr cs"
    and "(pin_absorb inp = None \<and> absorbed = [] \<and> changes = pin_changes inp) \<or>
         (\<exists>es. pin_absorb inp = Some es \<and> applyAbsorb es (pin_changes inp) = Inr (absorbed, changes))"
  using assms
  by (auto simp: runPlanE_def bind_result_Inr_iff refuse_Inr split: if_splits option.splits)

lemma applyAbsorb_rest:
  assumes "applyAbsorb es changes = Inr (absorbed, rest)"
  shows "rest = filter (\<lambda>c. cc_key c \<notin> abi_node ` set es) changes \<and>
    abe_node ` set absorbed = abi_node ` set es \<and> (\<forall>x \<in> set absorbed. identity_hash_pattern (abe_node x))"
proof -
  obtain out where out: "absorb_entries es (fold (\<lambda>c m. m(cc_key c \<mapsto> c)) changes Map.empty) = Inr out"
    "absorbed = out" "rest = filter (\<lambda>c. cc_key c \<notin> abi_node ` set es) changes"
    using assms by (auto simp: applyAbsorb_def bind_result_Inr_iff Let_def)
  note A = absorb_entries_Inr[OF out(1)]
  have "abe_node ` set out = abi_node ` set es" using A by (metis list.set_map)
  then show ?thesis using A out by blast
qed

lemma remaining_changes:
  assumes "(pin_absorb inp = None \<and> absorbed = [] \<and> changes = pin_changes inp) \<or>
         (\<exists>es. pin_absorb inp = Some es \<and> applyAbsorb es (pin_changes inp) = Inr (absorbed, changes))"
    and "plan_inputs_ok inp"
  shows "distinct (map cc_key changes)" and "set changes \<subseteq> set (pin_changes inp)"
    and "\<forall>x \<in> set absorbed. abe_node x \<notin> cc_key ` set changes \<and> identity_hash_pattern (abe_node x)"
proof -
  have "distinct (map cc_key changes) \<and> set changes \<subseteq> set (pin_changes inp) \<and>
    (\<forall>x \<in> set absorbed. abe_node x \<notin> cc_key ` set changes \<and> identity_hash_pattern (abe_node x))"
  proof (cases "pin_absorb inp")
    case None
    then show ?thesis using assms by (simp add: plan_inputs_ok_def)
  next
    case (Some es)
    then have A: "changes = filter (\<lambda>c. cc_key c \<notin> abi_node ` set es) (pin_changes inp) \<and>
        abe_node ` set absorbed = abi_node ` set es \<and> (\<forall>x \<in> set absorbed. identity_hash_pattern (abe_node x))"
      using assms(1) applyAbsorb_rest by simp
    have "abe_node x \<notin> cc_key ` set changes" if x: "x \<in> set absorbed" for x
    proof -
      have "abe_node x \<in> abi_node ` set es" using A x by blast
      then show ?thesis using A by auto
    qed
    moreover have "distinct (map cc_key changes)" "set changes \<subseteq> set (pin_changes inp)"
      using A assms(2) by (auto simp: plan_inputs_ok_def distinct_map_filter)
    ultimately show ?thesis using A by blast
  qed
  then show "distinct (map cc_key changes)" and "set changes \<subseteq> set (pin_changes inp)"
    and "\<forall>x \<in> set absorbed. abe_node x \<notin> cc_key ` set changes \<and> identity_hash_pattern (abe_node x)"
    by blast+
qed

text \<open>
  C27: every changeset \<open>spex plan\<close> writes for a well-formed diff can be executed from first to last:
  whatever the journal, the task states and the spec graph are, an operation refers to earlier
  operations only.
\<close>

theorem runPlanE_executable:
  assumes "plan_inputs_ok inp" and "runPlanE inp = Inr cs" and "k < length (cs_ops cs)"
  shows "refs_within (op_id ` set (take k (cs_ops cs))) (cs_ops cs ! k)"
proof -
  obtain absorbed changes where P: "plan_changes inp absorbed changes = Inr cs"
    and src: "(pin_absorb inp = None \<and> absorbed = [] \<and> changes = pin_changes inp) \<or>
         (\<exists>es. pin_absorb inp = Some es \<and> applyAbsorb es (pin_changes inp) = Inr (absorbed, changes))"
    by (rule runPlanE_Inr[OF assms(2)])
  note R = remaining_changes[OF src assms(1)]
  obtain b actions where B: "Build b actions = Inr cs" "bl_proposal b = pin_proposal inp"
    and A: "distinct (map act_spec_node_id actions)" "act_spec_node_id ` set actions \<subseteq> cc_key ` set changes"
      "act_node_type ` set actions \<subseteq> cc_node_type ` set changes"
    by (rule plan_changes_parts[OF R(1) P])
  have "proposal_creates b actions"
    using assms(1) R(2) B(2) by (intro plan_changes_creates[OF A(1,2) _ A(3)]) (auto simp: plan_inputs_ok_def)
  then show ?thesis using Build_backwards B(1) assms(3) by blast
qed


text \<open>
  C28: an absorbed node is left alone: every absorbed entry of a changeset names, by identity hash,
  a node that no operation of that changeset touches.
\<close>

theorem runPlanE_absorbed_untouched:
  assumes "plan_inputs_ok inp" and "\<not> identity_hash_pattern (pin_proposal inp)" and "runPlanE inp = Inr cs"
    and "e \<in> set (cs_absorbed cs)" and "x \<in> set (cs_ops cs)"
  shows "identity_hash_pattern (abe_node e) \<and> op_spec_node_id x \<noteq> abe_node e"
proof -
  obtain absorbed changes where P: "plan_changes inp absorbed changes = Inr cs"
    and src: "(pin_absorb inp = None \<and> absorbed = [] \<and> changes = pin_changes inp) \<or>
         (\<exists>es. pin_absorb inp = Some es \<and> applyAbsorb es (pin_changes inp) = Inr (absorbed, changes))"
    by (rule runPlanE_Inr[OF assms(3)])
  note R = remaining_changes[OF src assms(1)]
  obtain b actions where B: "Build b actions = Inr cs" "bl_proposal b = pin_proposal inp" "bl_absorbed b = absorbed"
    and A: "distinct (map act_spec_node_id actions)" "act_spec_node_id ` set actions \<subseteq> cc_key ` set changes"
      "act_node_type ` set actions \<subseteq> cc_node_type ` set changes"
    by (rule plan_changes_parts[OF R(1) P])
  have abs: "cs_absorbed cs = absorbed" using B by (auto simp: Build_def bind_result_Inr_iff Let_def)
  have pc: "proposal_creates b actions"
    using assms(1) R(2) B(2) by (intro plan_changes_creates[OF A(1,2) _ A(3)]) (auto simp: plan_inputs_ok_def)
  have "op_spec_node_id ` set (cs_ops cs) \<subseteq> {[], bl_proposal b} \<union> act_spec_node_id ` set actions"
    by (rule Build_nodes[OF B(1) pc])
  then have "op_spec_node_id x \<in> {[], pin_proposal inp} \<union> cc_key ` set changes"
    using A(2) assms(5) unfolding B(2) by (meson UnE UnI1 UnI2 imageI subsetD)
  moreover have h: "identity_hash_pattern (abe_node e)" "abe_node e \<notin> cc_key ` set changes"
    using R(3) assms(4) abs by blast+
  moreover have "\<not> identity_hash_pattern []" by (simp add: identity_hash_pattern_def)
  ultimately show ?thesis using assms(2) by (metis UnE empty_iff insert_iff)
qed

subsection \<open>A sample run\<close>

definition sample_inputs :: plan_inputs where
  "sample_inputs =
     \<lparr>pin_proposal = ''p'', pin_git_head = ''abc1234'',
      pin_changes = [sample_change ''aaaaaaaaaaaa'' Modified, sample_change ''bbbbbbbbbbbb'' Added],
      pin_diff_errors = [],
      pin_events = [blank_event\<lparr>ev_event := ''registered'', ev_eid := ''p:1'', ev_proposal := ''p''\<rparr>],
      pin_graph = (bl_graph sample_builder)\<lparr>sg_by_name := Map.empty\<rparr>, pin_tasks = [],
      pin_absorb = Some [\<lparr>abi_node = ''aaaaaaaaaaaa'', abi_reason = ''typo''\<rparr>]\<rparr>"

lemma sample_inputs_ok: "plan_inputs_ok sample_inputs" "\<not> identity_hash_pattern (pin_proposal sample_inputs)"
  by code_simp+

lemma sample_run:
  "map_sum (\<lambda>_. ()) (\<lambda>cs. (map op_id (cs_ops cs), map abe_node (cs_absorbed cs))) (runPlanE sample_inputs) =
     Inr ([''op-proposal_epic-p'', ''op-component-bbbbbbbbbbbb''], [''aaaaaaaaaaaa''])"
  by code_simp

lemma sample_run_Inr:
  obtains cs where "runPlanE sample_inputs = Inr cs" "length (cs_ops cs) = 2" "length (cs_absorbed cs) = 1"
proof -
  obtain cs where cs: "runPlanE sample_inputs = Inr cs"
    using sample_run by (cases "runPlanE sample_inputs") auto
  moreover have "map op_id (cs_ops cs) = [''op-proposal_epic-p'', ''op-component-bbbbbbbbbbbb'']"
    "map abe_node (cs_absorbed cs) = [''aaaaaaaaaaaa'']"
    using sample_run cs by auto
  ultimately show ?thesis using that by (metis length_map length_Cons list.size(3) One_nat_def Suc_1)
qed

theorem applyAbsorb_exact_witness:
  "\<exists>r. applyAbsorb [\<lparr>abi_node = ''aaaaaaaaaaaa'', abi_reason = ''typo''\<rparr>] (pin_changes sample_inputs) = Inr r"
proof -
  have d: "distinct (map cc_key (pin_changes sample_inputs))" by code_simp
  have "identity_hash_pattern ''aaaaaaaaaaaa''" by code_simp
  moreover have "\<exists>c \<in> set (pin_changes sample_inputs). cc_key c = ''aaaaaaaaaaaa'' \<and> cc_type c = Modified"
    by (simp add: sample_inputs_def sample_change_def)
  ultimately show ?thesis
    using applyAbsorb_exact[OF d, of "[\<lparr>abi_node = ''aaaaaaaaaaaa'', abi_reason = ''typo''\<rparr>]"] by auto
qed

theorem runPlanE_executable_witness:
  "\<exists>cs. runPlanE sample_inputs = Inr cs \<and> refs_within (op_id ` set (take 1 (cs_ops cs))) (cs_ops cs ! 1)"
proof -
  obtain cs where cs: "runPlanE sample_inputs = Inr cs" "length (cs_ops cs) = 2" by (rule sample_run_Inr)
  then show ?thesis using runPlanE_executable[OF sample_inputs_ok(1) cs(1), of 1] by auto
qed

theorem runPlanE_absorbed_untouched_witness:
  "\<exists>cs. runPlanE sample_inputs = Inr cs \<and>
        op_spec_node_id (cs_ops cs ! 1) \<noteq> abe_node (cs_absorbed cs ! 0)"
proof -
  obtain cs where cs: "runPlanE sample_inputs = Inr cs" "length (cs_ops cs) = 2" "length (cs_absorbed cs) = 1"
    by (rule sample_run_Inr)
  have "cs_absorbed cs ! 0 \<in> set (cs_absorbed cs)" "cs_ops cs ! 1 \<in> set (cs_ops cs)"
    using cs by (auto intro: nth_mem)
  from runPlanE_absorbed_untouched[OF sample_inputs_ok cs(1) this] show ?thesis using cs(1) by blast
qed

end
