(* ===== verification/Ingest_Events.thy ===== *)
theory Ingest_Events
  imports Plan_Builder
begin

text \<open>
  Package \<open>ingest\<close>, the event builder (\<open>ingest/event_builder.go\<close>): the journal lines each
  operation of a changeset gives rise to, with the receipts of the adapter
  (\<open>adapters/types.go\<close>) and the node metadata of the live spec (\<open>cmd/spex/ingest.go\<close>).
\<close>

subsection \<open>Receipts and metadata\<close>

definition ReceiptsVersion :: int where "ReceiptsVersion = 2"

definition StatusComplete :: string where "StatusComplete = ''complete''"
definition StatusPartial :: string where "StatusPartial = ''partial''"

definition OpStatusOk :: string where "OpStatusOk = ''ok''"
definition OpStatusSkipped :: string where "OpStatusSkipped = ''skipped''"
definition OpStatusError :: string where "OpStatusError = ''error''"

record op_receipt =
  orc_op_id :: string
  orc_status :: string
  orc_task_id :: string
  orc_was_existing :: bool
  orc_reason :: string
  orc_error :: string

record receipts =
  rc_version :: int
  rc_status :: string
  rc_ops :: "op_receipt list"

record node_metadata =
  nmd_module :: string
  nmd_component :: string
  nmd_content_file :: string
  nmd_spec_hash :: string
  nmd_node_type :: string

type_synonym metadata_lookup = "string \<Rightarrow> node_metadata option"

datatype ingest_error =
    DuplicateReceipt string
  | NoReceipt string
  | ForeignReceipt string
  | UnknownStatus string string
  | UnknownOpType string string
  | TargetNotTask string
  | NoEntryForTask string string
  | NoRegisteredEvent string string
  | CleanupWithoutHistory string string
  | NoMetadata string
  | ProposalPairedTwice string
  | EventPairedTwice string
  | EventRetargetedTwice string
  | UnknownEvent string
  | LineRejected nat
  | LineInvalid string
  | NodeTypeUndeclared string

text \<open>
  The metadata of the live spec: the leaves of a module's components, data flows and test
  sections. \<open>hash_file\<close> is the content of a leaf file as a hash, or \<open>None\<close> when it cannot be
  read, which fails the construction.
\<close>

definition registerLeaf :: "(string \<Rightarrow> string option) \<Rightarrow> module_decl \<Rightarrow> string \<times> string \<times> string \<times> string
    \<Rightarrow> (string \<rightharpoonup> node_metadata) \<Rightarrow> (string, string \<rightharpoonup> node_metadata) result" where
  "registerLeaf hash_file m leaf g =
     (case leaf of (i, name, content, nodeType) \<Rightarrow>
        if i = [] then Inr g
        else
          let md = \<lparr>nmd_module = mod_name m, nmd_component = name, nmd_content_file = [],
                    nmd_spec_hash = [], nmd_node_type = nodeType\<rparr>
          in if content = [] then Inr (g(i \<mapsto> md))
             else
               let file = filepath_Join [''spec'', mod_path m, content]
               in (case hash_file (filepath_Join [mod_path m, content]) of
                     None \<Rightarrow> Inl file
                   | Some h \<Rightarrow> Inr (g(i \<mapsto> md\<lparr>nmd_content_file := file, nmd_spec_hash := h\<rparr>))))"

fun register_leaves :: "(string \<Rightarrow> string option) \<Rightarrow> module_decl \<Rightarrow> (string \<times> string \<times> string \<times> string) list
    \<Rightarrow> (string \<rightharpoonup> node_metadata) \<Rightarrow> (string, string \<rightharpoonup> node_metadata) result" where
  "register_leaves hash_file m [] g = Inr g"
| "register_leaves hash_file m (l # ls) g =
     bind_result (registerLeaf hash_file m l g) (register_leaves hash_file m ls)"

definition registerModule :: "(string \<Rightarrow> string option) \<Rightarrow> module_decl \<Rightarrow> module_spec
    \<Rightarrow> (string \<rightharpoonup> node_metadata) \<Rightarrow> (string, string \<rightharpoonup> node_metadata) result" where
  "registerModule hash_file m ms g =
     register_leaves hash_file m
       (map (\<lambda>c. (cmp_id c, cmp_name c, cmp_content c, ''component'')) (ms_components ms) @
        map (\<lambda>f. (dfl_id f, dfl_name f, dfl_content f, ''data_flow'')) (ms_data_flows ms) @
        map (\<lambda>t. (tst_id t, tst_name t, tst_content t, ''test_section'')) (ms_test_sections ms)) g"

fun register_modules :: "(string \<Rightarrow> string option) \<Rightarrow> (string \<rightharpoonup> module_spec) \<Rightarrow> module_decl list
    \<Rightarrow> (string \<rightharpoonup> node_metadata) \<Rightarrow> (string, string \<rightharpoonup> node_metadata) result" where
  "register_modules hash_file specs [] g = Inr g"
| "register_modules hash_file specs (m # ms) g =
     (case specs (mod_id m) of
        None \<Rightarrow> register_modules hash_file specs ms g
      | Some s \<Rightarrow> bind_result (registerModule hash_file m s g) (register_modules hash_file specs ms))"

definition newIngestSpecGraph :: "(string \<Rightarrow> string option) \<Rightarrow> project \<Rightarrow> (string \<rightharpoonup> module_spec)
    \<Rightarrow> (string, string \<rightharpoonup> node_metadata) result" where
  "newIngestSpecGraph hash_file proj specs = register_modules hash_file specs (prj_modules proj) Map.empty"

subsection \<open>The builder\<close>

definition ReasonRemovedPrefix :: string where "ReasonRemovedPrefix = ''Spec node removed''"
definition ReasonModifiedPrefix :: string where "ReasonModifiedPrefix = ''Spec node modified''"

record event_builder =
  eb_graph :: metadata_lookup
  eb_fold :: journal_fold
  eb_registered :: "string \<rightharpoonup> string"
  eb_has_eid :: "string \<Rightarrow> bool"

definition nonEmpty :: "string \<Rightarrow> string \<Rightarrow> string" where
  "nonEmpty primary fallback = (if primary \<noteq> [] then primary else fallback)"

definition foldEntryByKey :: "event_builder \<Rightarrow> string \<Rightarrow> fold_entry option" where
  "foldEntryByKey b key = find (\<lambda>e. fe_key e = key) (jf_entries (eb_fold b))"

definition foldEntryByTask :: "event_builder \<Rightarrow> string \<Rightarrow> fold_entry option" where
  "foldEntryByTask b taskID = find (\<lambda>e. fe_task_id e = taskID) (jf_entries (eb_fold b))"

definition priorHash :: "event_builder \<Rightarrow> string \<Rightarrow> string option" where
  "priorHash b node = (case foldEntryByKey b node of None \<Rightarrow> None | Some e \<Rightarrow> ev_after (fe_source e))"

definition lookupMetadata :: "event_builder \<Rightarrow> string \<Rightarrow> (ingest_error, node_metadata) result" where
  "lookupMetadata b node = (case eb_graph b node of None \<Rightarrow> Inl (NoMetadata node) | Some md \<Rightarrow> Inr md)"

definition receipt_event :: "string \<Rightarrow> string \<Rightarrow> string \<Rightarrow> event" where
  "receipt_event kind task for' = blank_event\<lparr>ev_event := kind, ev_task_id := task, ev_for := for'\<rparr>"

definition buildNodeCreate :: "event_builder \<Rightarrow> changeset \<Rightarrow> op \<Rightarrow> op_receipt \<Rightarrow> (ingest_error, event list) result" where
  "buildNodeCreate b cs x receipt =
     (let eid = DeriveEID (cs_git_head cs) (op_id x)
      in if eb_has_eid b eid then Inr []
         else bind_result (lookupMetadata b (op_spec_node_id x)) (\<lambda>md.
           let prior = priorHash b (op_spec_node_id x);
               ev = blank_event\<lparr>ev_event := (if prior \<noteq> None then ''modified'' else ''added''),
                      ev_eid := eid, ev_node := op_spec_node_id x,
                      ev_name := nonEmpty (nmd_component md) (op_title x),
                      ev_node_type := nonEmpty (nmd_node_type md) (op_spec_node_kind x),
                      ev_module := nmd_module md, ev_before := prior,
                      ev_after := Some (nmd_spec_hash md), ev_git_head := cs_git_head cs,
                      ev_proposal := cs_proposal cs, ev_path := nmd_content_file md\<rparr>
           in Inr [ev, receipt_event ''task_created'' (orc_task_id receipt) eid]))"

definition buildEpicCreate :: "op \<Rightarrow> op_receipt \<Rightarrow> journal_fold \<Rightarrow> (string \<rightharpoonup> string) \<Rightarrow> (ingest_error, event list) result" where
  "buildEpicCreate x receipt f registered =
     (let stem = op_spec_node_id x
      in if \<exists>e \<in> set (jf_entries f). fe_key e = stem then Inr []
         else case registered stem of
                None \<Rightarrow> Inl (NoRegisteredEvent (op_id x) stem)
              | Some eid \<Rightarrow> Inr [receipt_event ''task_created'' (orc_task_id receipt) eid])"

definition removed_event :: "changeset \<Rightarrow> string \<Rightarrow> string \<Rightarrow> fold_entry \<Rightarrow> event" where
  "removed_event cs eid node entry =
     blank_event\<lparr>ev_event := ''removed'', ev_eid := eid, ev_node := node,
       ev_name := ev_name (fe_source entry), ev_node_type := ev_node_type (fe_source entry),
       ev_module := ev_module (fe_source entry), ev_before := ev_after (fe_source entry),
       ev_after := None, ev_git_head := cs_git_head cs, ev_proposal := cs_proposal cs,
       ev_path := ev_path (fe_source entry)\<rparr>"

definition buildCleanupCreate :: "event_builder \<Rightarrow> changeset \<Rightarrow> op \<Rightarrow> op_receipt \<Rightarrow> (ingest_error, event list) result" where
  "buildCleanupCreate b cs x receipt =
     (let node = op_spec_node_id x
      in case foldEntryByKey b node of
           None \<Rightarrow> Inl (CleanupWithoutHistory (op_id x) node)
         | Some entry \<Rightarrow>
             if fe_removed entry then
               (if fe_task_id entry \<noteq> [] then Inr []
                else Inr [receipt_event ''task_created'' (orc_task_id receipt) (ev_eid (fe_source entry))])
             else
               let eid = DeriveEID (cs_git_head cs) (op_id x)
               in if eb_has_eid b eid then Inr []
                  else Inr [removed_event cs eid node entry,
                            receipt_event ''task_created'' (orc_task_id receipt) eid])"

definition BuildCreate :: "event_builder \<Rightarrow> changeset \<Rightarrow> op \<Rightarrow> op_receipt \<Rightarrow> (ingest_error, event list) result" where
  "BuildCreate b cs x receipt =
     (if op_spec_node_kind x = KindProposalEpic then buildEpicCreate x receipt (eb_fold b) (eb_registered b)
      else if op_spec_node_kind x = KindCleanup then buildCleanupCreate b cs x receipt
      else buildNodeCreate b cs x receipt)"

definition task_target :: "op \<Rightarrow> string option" where
  "task_target x =
     (case op_target x of
        None \<Rightarrow> None
      | Some r \<Rightarrow> if rf_kind r \<noteq> RefTask \<or> rf_task_id r = [] then None else Some (rf_task_id r))"

definition buildRemoved :: "event_builder \<Rightarrow> changeset \<Rightarrow> op \<Rightarrow> op_receipt \<Rightarrow> (ingest_error, event list) result" where
  "buildRemoved b cs x receipt =
     (case task_target x of
        None \<Rightarrow> Inl (TargetNotTask (op_id x))
      | Some task \<Rightarrow>
          let eid = DeriveEID (cs_git_head cs) (op_id x)
          in if eb_has_eid b eid then Inr []
             else case foldEntryByTask b task of
                    None \<Rightarrow> Inl (NoEntryForTask (op_id x) task)
                  | Some entry \<Rightarrow>
                      Inr [removed_event cs eid (fe_key entry) entry,
                           receipt_event ''task_closed'' (orc_task_id receipt) eid])"

definition buildModifiedFromClose :: "event_builder \<Rightarrow> changeset \<Rightarrow> op \<Rightarrow> string \<Rightarrow> op_receipt
    \<Rightarrow> (ingest_error, event list) result" where
  "buildModifiedFromClose b cs x task receipt =
     (let eid = DeriveEID (cs_git_head cs) (op_id x)
      in if eb_has_eid b eid then Inr []
         else case foldEntryByTask b task of
                None \<Rightarrow> Inl (NoEntryForTask (op_id x) task)
              | Some entry \<Rightarrow>
                  bind_result (lookupMetadata b (fe_key entry)) (\<lambda>md.
                    Inr [blank_event\<lparr>ev_event := ''modified'', ev_eid := eid, ev_node := fe_key entry,
                           ev_name := nonEmpty (nmd_component md) (ev_name (fe_source entry)),
                           ev_node_type := nonEmpty (nmd_node_type md) (ev_node_type (fe_source entry)),
                           ev_module := nmd_module md, ev_before := ev_after (fe_source entry),
                           ev_after := Some (nmd_spec_hash md), ev_git_head := cs_git_head cs,
                           ev_proposal := cs_proposal cs, ev_path := nmd_content_file md\<rparr>,
                         receipt_event ''task_closed'' (orc_task_id receipt) eid]))"

definition BuildClose :: "event_builder \<Rightarrow> changeset \<Rightarrow> op \<Rightarrow> op_receipt \<Rightarrow> (ingest_error, event list) result" where
  "BuildClose b cs x receipt =
     (if prefix ReasonRemovedPrefix (op_reason x) then buildRemoved b cs x receipt
      else if prefix ReasonModifiedPrefix (op_reason x) then
        (case task_target x of
           None \<Rightarrow> Inl (TargetNotTask (op_id x))
         | Some task \<Rightarrow> buildModifiedFromClose b cs x task receipt)
      else Inr [])"

definition BuildRetarget :: "event_builder \<Rightarrow> changeset \<Rightarrow> op \<Rightarrow> op_receipt \<Rightarrow> (ingest_error, event list) result" where
  "BuildRetarget b cs x receipt =
     (case task_target x of
        None \<Rightarrow> Inl (TargetNotTask (op_id x))
      | Some task \<Rightarrow>
          let eid = DeriveEID (cs_git_head cs) (op_id x)
          in if eb_has_eid b eid then Inr []
             else bind_result (lookupMetadata b (op_spec_node_id x)) (\<lambda>md.
               Inr [blank_event\<lparr>ev_event := ''modified'', ev_eid := eid, ev_node := op_spec_node_id x,
                      ev_name := nonEmpty (nmd_component md) [],
                      ev_node_type := nonEmpty (nmd_node_type md) [],
                      ev_module := nmd_module md, ev_before := priorHash b (op_spec_node_id x),
                      ev_after := Some (op_spec_hash x), ev_git_head := cs_git_head cs,
                      ev_proposal := cs_proposal cs, ev_path := nmd_content_file md\<rparr>,
                    receipt_event ''task_retargeted'' task eid]))"

definition derefOrEmpty :: "string option \<Rightarrow> string" where
  "derefOrEmpty s = (case s of None \<Rightarrow> [] | Some x \<Rightarrow> x)"

definition deriveRefreshEID :: "string \<Rightarrow> string option \<Rightarrow> string option \<Rightarrow> string" where
  "deriveRefreshEID node old new =
     ''refresh:'' @ node @ '':'' @ derefOrEmpty old @ '':'' @ derefOrEmpty new"

text \<open>The lines of the absorbed entries; the eids of a batch are not added to \<open>HasEID\<close> on the way.\<close>

fun absorbed_lines :: "event_builder \<Rightarrow> changeset \<Rightarrow> absorbed_entry list \<Rightarrow> (ingest_error, event list) result" where
  "absorbed_lines b cs [] = Inr []"
| "absorbed_lines b cs (entry # rest) =
     (let eid = deriveRefreshEID (abe_node entry) (Some (abe_before entry)) (Some (abe_after entry))
      in if eb_has_eid b eid then absorbed_lines b cs rest
         else bind_result (lookupMetadata b (abe_node entry)) (\<lambda>md.
           bind_result (absorbed_lines b cs rest) (\<lambda>lines.
             Inr (blank_event\<lparr>ev_event := ''modified'', ev_eid := eid, ev_node := abe_node entry,
                    ev_name := nonEmpty (nmd_component md) [],
                    ev_node_type := nonEmpty (nmd_node_type md) [],
                    ev_module := nmd_module md, ev_before := Some (abe_before entry),
                    ev_after := Some (abe_after entry), ev_git_head := cs_git_head cs,
                    ev_proposal := cs_proposal cs, ev_path := nmd_content_file md\<rparr> # lines))))"

definition BuildAbsorbed :: "event_builder \<Rightarrow> changeset \<Rightarrow> (ingest_error, event list) result" where
  "BuildAbsorbed b cs =
     bind_result (absorbed_lines b cs (cs_absorbed cs)) (\<lambda>lines.
       if lines = [] then Inr []
       else Inr (lines @ [blank_event\<lparr>ev_event := ''refresh'', ev_git_head := cs_git_head cs,
                            ev_absorbed := map ev_eid lines\<rparr>]))"

end
