(* ===== verification/Ingest_Invariants.thy ===== *)
theory Ingest_Invariants
  imports Ingest_Events
begin

text \<open>
  The journal's write side: the append of \<open>mapping/mapping_store.go\<close>, the line checks of
  \<open>ingest/journal_encoder.go\<close> and the invariants of \<open>ingest/invariant_checker.go\<close>.
  The JSON schema of a journal line is checked by a third-party validator, the parameter
  \<open>schema_ok\<close> here, applied to the line as it is written.
\<close>

subsection \<open>Lines as they are written\<close>

text \<open>
  The fields \<open>encodeLine\<close> writes for each kind of line, which are those that a later parse reads
  back; an unknown kind is not written.
\<close>

definition encodeLine :: "event \<Rightarrow> event option" where
  "encodeLine ev =
     (if is_change_event ev then
        Some (blank_event\<lparr>ev_event := ev_event ev, ev_eid := ev_eid ev, ev_node := ev_node ev,
          ev_name := ev_name ev, ev_node_type := ev_node_type ev, ev_module := ev_module ev,
          ev_before := ev_before ev, ev_after := ev_after ev, ev_git_head := ev_git_head ev,
          ev_proposal := ev_proposal ev, ev_path := ev_path ev\<rparr>)
      else if ev_event ev = ''registered'' then
        Some (blank_event\<lparr>ev_event := ev_event ev, ev_eid := ev_eid ev, ev_proposal := ev_proposal ev,
          ev_git_head := ev_git_head ev\<rparr>)
      else if is_receipt_event ev then
        Some (blank_event\<lparr>ev_event := ev_event ev, ev_task_id := ev_task_id ev, ev_for := ev_for ev,
          ev_proposal := ev_proposal ev\<rparr>)
      else if ev_event ev = ''refresh'' then
        Some (blank_event\<lparr>ev_event := ev_event ev, ev_git_head := ev_git_head ev,
          ev_absorbed := ev_absorbed ev\<rparr>)
      else None)"

definition line_ok :: "(event \<Rightarrow> bool) \<Rightarrow> event \<Rightarrow> bool" where
  "line_ok schema_ok ev \<longleftrightarrow> (case encodeLine ev of Some l \<Rightarrow> schema_ok l | None \<Rightarrow> False)"

text \<open>A journal file: its parsed lines and the number of lines of the file.\<close>

record journal_file =
  jnl_events :: "event list"
  jnl_lines :: nat

definition number_lines :: "nat \<Rightarrow> event list \<Rightarrow> event list" where
  "number_lines n evs = map (\<lambda>(i, ev). ev\<lparr>ev_line := i\<rparr>) (enumerate (Suc n) evs)"

text \<open>All lines are checked before any is written; the first bad one is named, counted from 1.\<close>

definition first_bad :: "(event \<Rightarrow> bool) \<Rightarrow> event list \<Rightarrow> nat option" where
  "first_bad P evs =
     (if list_all P evs then None else Some (Suc (length (takeWhile P evs))))"

definition Append :: "(event \<Rightarrow> bool) \<Rightarrow> journal_file \<Rightarrow> event list \<Rightarrow> (ingest_error, journal_file) result" where
  "Append schema_ok j batch =
     (if batch = [] then Inr j
      else case first_bad (line_ok schema_ok) batch of
             Some i \<Rightarrow> Inl (LineRejected i)
           | None \<Rightarrow> Inr \<lparr>jnl_events = jnl_events j @ number_lines (jnl_lines j) (List.map_filter encodeLine batch),
                          jnl_lines = jnl_lines j + length batch\<rparr>)"

subsection \<open>Declared node types\<close>

definition nodeTypeDeclared :: "profile \<Rightarrow> string \<Rightarrow> bool" where
  "nodeTypeDeclared p name \<longleftrightarrow> (\<exists>t \<in> set (prf_node_types p). nt_name t = name)"

definition checkNodeTypeDeclared :: "profile \<Rightarrow> event \<Rightarrow> ingest_error option" where
  "checkNodeTypeDeclared p ev =
     (if \<not> is_change_event ev then None
      else if nodeTypeDeclared p (ev_node_type ev) then None
      else Some (NodeTypeUndeclared (ev_node_type ev)))"

text \<open>
  The encoder of package \<open>ingest\<close> writes the same lines, but a retarget receipt without its
  proposal.
\<close>

definition ingest_encodeLine :: "event \<Rightarrow> event option" where
  "ingest_encodeLine ev =
     (if ev_event ev = ''task_retargeted''
      then Some (blank_event\<lparr>ev_event := ev_event ev, ev_task_id := ev_task_id ev, ev_for := ev_for ev\<rparr>)
      else encodeLine ev)"

definition validate_line :: "(event \<Rightarrow> bool) \<Rightarrow> profile \<Rightarrow> event \<Rightarrow> ingest_error option" where
  "validate_line schema_ok p ev =
     (case ingest_encodeLine ev of
        None \<Rightarrow> Some (LineInvalid (ev_event ev))
      | Some l \<Rightarrow> if \<not> schema_ok l then Some (LineInvalid (ev_event ev)) else checkNodeTypeDeclared p ev)"

fun checkInvariant5 :: "(event \<Rightarrow> bool) \<Rightarrow> event list \<Rightarrow> profile \<Rightarrow> ingest_error option" where
  "checkInvariant5 schema_ok [] p = None"
| "checkInvariant5 schema_ok (ev # evs) p =
     (case validate_line schema_ok p ev of
        Some e \<Rightarrow> Some e
      | None \<Rightarrow> checkInvariant5 schema_ok evs p)"

subsection \<open>The invariants\<close>

record seen_pairings =
  sp_for :: "string list"
  sp_proposal :: "string list"
  sp_retarget_for :: "string list"

definition check_pairing :: "event \<Rightarrow> seen_pairings \<Rightarrow> (ingest_error, seen_pairings) result" where
  "check_pairing ev s =
     (if ev_event ev = ''task_created'' then
        (if ev_proposal ev \<noteq> [] then
           (if ev_proposal ev \<in> set (sp_proposal s) then Inl (ProposalPairedTwice (ev_proposal ev))
            else Inr (s\<lparr>sp_proposal := ev_proposal ev # sp_proposal s\<rparr>))
         else if ev_for ev \<noteq> [] then
           (if ev_for ev \<in> set (sp_for s) then Inl (EventPairedTwice (ev_for ev))
            else Inr (s\<lparr>sp_for := ev_for ev # sp_for s\<rparr>))
         else Inr s)
      else if ev_event ev = ''task_retargeted'' then
        (if ev_for ev \<noteq> [] then
           (if ev_for ev \<in> set (sp_retarget_for s) then Inl (EventRetargetedTwice (ev_for ev))
            else Inr (s\<lparr>sp_retarget_for := ev_for ev # sp_retarget_for s\<rparr>))
         else Inr s)
      else Inr s)"

fun check_pairings :: "event list \<Rightarrow> seen_pairings \<Rightarrow> (ingest_error, seen_pairings) result" where
  "check_pairings [] s = Inr s"
| "check_pairings (ev # evs) s = bind_result (check_pairing ev s) (check_pairings evs)"

definition checkInvariant1 :: "event list \<Rightarrow> event list \<Rightarrow> ingest_error option" where
  "checkInvariant1 existing batch =
     (case check_pairings (existing @ batch) \<lparr>sp_for = [], sp_proposal = [], sp_retarget_for = []\<rparr> of
        Inl e \<Rightarrow> Some e | Inr _ \<Rightarrow> None)"

definition known_eids :: "event list \<Rightarrow> string set" where
  "known_eids evs = set (filter (\<lambda>e. e \<noteq> []) (map ev_eid evs))"

fun check_references :: "string set \<Rightarrow> event list \<Rightarrow> ingest_error option" where
  "check_references known [] = None"
| "check_references known (ev # evs) =
     (if is_receipt_event ev then
        (if ev_for ev \<noteq> [] \<and> ev_for ev \<notin> known then Some (UnknownEvent (ev_for ev))
         else check_references known evs)
      else if ev_event ev = ''refresh'' then
        (case find (\<lambda>a. a \<notin> known) (ev_absorbed ev) of
           Some a \<Rightarrow> Some (UnknownEvent a)
         | None \<Rightarrow> check_references known evs)
      else check_references known evs)"

definition checkInvariant2 :: "event list \<Rightarrow> event list \<Rightarrow> ingest_error option" where
  "checkInvariant2 existing batch = check_references (known_eids (existing @ batch)) batch"

definition Check :: "event list \<Rightarrow> event list \<Rightarrow> ingest_error option" where
  "Check existing batch =
     (case checkInvariant1 existing batch of
        Some e \<Rightarrow> Some e
      | None \<Rightarrow> checkInvariant2 existing batch)"

subsection \<open>What the invariants say\<close>

definition created_for :: "event list \<Rightarrow> string list" where
  "created_for evs = map ev_for (filter (\<lambda>ev. ev_event ev = ''task_created'' \<and> ev_proposal ev = [] \<and> ev_for ev \<noteq> []) evs)"

definition created_proposals :: "event list \<Rightarrow> string list" where
  "created_proposals evs = map ev_proposal (filter (\<lambda>ev. ev_event ev = ''task_created'' \<and> ev_proposal ev \<noteq> []) evs)"

definition retargeted_for :: "event list \<Rightarrow> string list" where
  "retargeted_for evs = map ev_for (filter (\<lambda>ev. ev_event ev = ''task_retargeted'' \<and> ev_for ev \<noteq> []) evs)"

definition paired_once :: "event list \<Rightarrow> bool" where
  "paired_once evs \<longleftrightarrow> distinct (created_for evs) \<and> distinct (created_proposals evs) \<and> distinct (retargeted_for evs)"

definition references_known :: "string set \<Rightarrow> event list \<Rightarrow> bool" where
  "references_known known evs \<longleftrightarrow>
     (\<forall>ev \<in> set evs. (is_receipt_event ev \<longrightarrow> ev_for ev \<noteq> [] \<longrightarrow> ev_for ev \<in> known) \<and>
                    (ev_event ev = ''refresh'' \<longrightarrow> set (ev_absorbed ev) \<subseteq> known))"

lemmas pairing_views = created_for_def created_proposals_def retargeted_for_def

lemma created_for_Cons:
  "created_for (ev # evs) =
     (if ev_event ev = ''task_created'' \<and> ev_proposal ev = [] \<and> ev_for ev \<noteq> [] then [ev_for ev] else []) @ created_for evs"
  by (simp add: created_for_def)

lemma created_proposals_Cons:
  "created_proposals (ev # evs) =
     (if ev_event ev = ''task_created'' \<and> ev_proposal ev \<noteq> [] then [ev_proposal ev] else []) @ created_proposals evs"
  by (simp add: created_proposals_def)

lemma retargeted_for_Cons:
  "retargeted_for (ev # evs) =
     (if ev_event ev = ''task_retargeted'' \<and> ev_for ev \<noteq> [] then [ev_for ev] else []) @ retargeted_for evs"
  by (simp add: retargeted_for_def)

lemmas pairing_conses = created_for_Cons created_proposals_Cons retargeted_for_Cons

lemma check_pairings_ok:
  "(\<exists>s'. check_pairings evs s = Inr s') \<longleftrightarrow>
     distinct (created_for evs) \<and> set (created_for evs) \<inter> set (sp_for s) = {} \<and>
     distinct (created_proposals evs) \<and> set (created_proposals evs) \<inter> set (sp_proposal s) = {} \<and>
     distinct (retargeted_for evs) \<and> set (retargeted_for evs) \<inter> set (sp_retarget_for s) = {}"
proof (induction evs arbitrary: s)
  case Nil
  then show ?case by (simp add: pairing_views)
next
  case (Cons ev evs)
  consider (proposal) "ev_event ev = ''task_created''" "ev_proposal ev \<noteq> []"
    | (event) "ev_event ev = ''task_created''" "ev_proposal ev = []" "ev_for ev \<noteq> []"
    | (retarget) "ev_event ev = ''task_retargeted''" "ev_for ev \<noteq> []"
    | (none) "ev_event ev = ''task_created'' \<longrightarrow> ev_proposal ev = [] \<and> ev_for ev = []"
        "ev_event ev = ''task_retargeted'' \<longrightarrow> ev_for ev = []"
    by blast
  then show ?case
  proof cases
    case proposal
    have "created_for (ev # evs) = created_for evs"
      "created_proposals (ev # evs) = ev_proposal ev # created_proposals evs"
      "retargeted_for (ev # evs) = retargeted_for evs"
      using proposal by (simp_all add: pairing_conses)
    then show ?thesis
      using proposal by (cases "ev_proposal ev \<in> set (sp_proposal s)") (simp_all add: check_pairing_def Cons.IH, blast)
  next
    case event
    have "created_for (ev # evs) = ev_for ev # created_for evs"
      "created_proposals (ev # evs) = created_proposals evs"
      "retargeted_for (ev # evs) = retargeted_for evs"
      using event by (simp_all add: pairing_conses)
    then show ?thesis
      using event by (cases "ev_for ev \<in> set (sp_for s)") (simp_all add: check_pairing_def Cons.IH, blast)
  next
    case retarget
    have "created_for (ev # evs) = created_for evs"
      "created_proposals (ev # evs) = created_proposals evs"
      "retargeted_for (ev # evs) = ev_for ev # retargeted_for evs"
      using retarget by (simp_all add: pairing_conses)
    then show ?thesis
      using retarget by (cases "ev_for ev \<in> set (sp_retarget_for s)") (simp_all add: check_pairing_def Cons.IH, blast)
  next
    case none
    have same: "created_for (ev # evs) = created_for evs"
      "created_proposals (ev # evs) = created_proposals evs"
      "retargeted_for (ev # evs) = retargeted_for evs"
      using none by (auto simp: pairing_conses)
    have "check_pairing ev s = Inr s"
      using none by (auto simp: check_pairing_def)
    then show ?thesis unfolding same by (simp add: Cons.IH)
  qed
qed

lemma checkInvariant1_ok: "checkInvariant1 existing batch = None \<longleftrightarrow> paired_once (existing @ batch)"
proof -
  have "checkInvariant1 existing batch = None \<longleftrightarrow>
      (\<exists>s. check_pairings (existing @ batch) \<lparr>sp_for = [], sp_proposal = [], sp_retarget_for = []\<rparr> = Inr s)"
    by (auto simp: checkInvariant1_def split: sum.splits)
  then show ?thesis unfolding check_pairings_ok by (simp add: paired_once_def)
qed

lemma receipt_not_refresh: "is_receipt_event ev \<Longrightarrow> ev_event ev \<noteq> ''refresh''"
  by (auto simp: is_receipt_event_def)

lemma check_references_ok: "check_references known evs = None \<longleftrightarrow> references_known known evs"
proof (induction evs)
  case (Cons ev evs)
  have "find (\<lambda>a. a \<notin> known) (ev_absorbed ev) = None \<longleftrightarrow> set (ev_absorbed ev) \<subseteq> known"
    by (auto simp: find_None_iff)
  then show ?case
    using Cons receipt_not_refresh[of ev]
    by (auto simp: references_known_def split: option.splits)
qed (simp add: references_known_def)

lemma Check_ok:
  "Check existing batch = None \<longleftrightarrow>
     paired_once (existing @ batch) \<and> references_known (known_eids (existing @ batch)) batch"
  by (auto simp: Check_def checkInvariant1_ok[symmetric] checkInvariant2_def check_references_ok[symmetric]
      split: option.splits)


definition ingest_line_ok :: "(event \<Rightarrow> bool) \<Rightarrow> profile \<Rightarrow> event \<Rightarrow> bool" where
  "ingest_line_ok schema_ok p ev \<longleftrightarrow>
     (\<exists>l. ingest_encodeLine ev = Some l \<and> schema_ok l) \<and>
     (is_change_event ev \<longrightarrow> nodeTypeDeclared p (ev_node_type ev))"

lemma validate_line_ok: "validate_line schema_ok p ev = None \<longleftrightarrow> ingest_line_ok schema_ok p ev"
  by (auto simp: validate_line_def ingest_line_ok_def checkNodeTypeDeclared_def split: option.splits)

lemma checkInvariant5_ok:
  "checkInvariant5 schema_ok evs p = None \<longleftrightarrow> (\<forall>ev \<in> set evs. ingest_line_ok schema_ok p ev)"
  by (induction evs) (auto simp: validate_line_ok[symmetric] split: option.splits)

lemma Append_Inr:
  assumes "Append schema_ok j batch = Inr j'"
  shows "jnl_events j' = jnl_events j @ number_lines (jnl_lines j) (List.map_filter encodeLine batch)"
    and "\<forall>ev \<in> set batch. line_ok schema_ok ev" and "jnl_lines j' = jnl_lines j + length batch"
  using assms
  by (auto simp: Append_def first_bad_def list_all_iff map_filter_simps number_lines_def split: if_splits)

end
