(* ===== verification/Ingest_Reconciler.thy ===== *)
theory Ingest_Reconciler
  imports Ingest_Invariants
begin

text \<open>
  The reconciler (\<open>ingest/reconciler.go\<close>), the preflight of the \<open>spex ingest\<close> command
  (\<open>cmd/spex/ingest.go\<close>) and the snapshot gate (\<open>ingest/snapshot_saver.go\<close>): a changeset and
  the receipts of its adapter become journal lines, all of them or none.
\<close>

subsection \<open>Summaries\<close>

record reconcile_summary =
  rs_ok_creates :: nat
  rs_ok_closes :: nat
  rs_ok_retargets :: nat
  rs_skipped :: nat
  rs_errors :: nat
  rs_events :: nat
  rs_receipts :: nat

definition zero_summary :: reconcile_summary where
  "zero_summary = \<lparr>rs_ok_creates = 0, rs_ok_closes = 0, rs_ok_retargets = 0, rs_skipped = 0,
     rs_errors = 0, rs_events = 0, rs_receipts = 0\<rparr>"

subsection \<open>Pairing receipts with operations\<close>

fun index_receipts :: "op_receipt list \<Rightarrow> (string \<rightharpoonup> op_receipt)
    \<Rightarrow> (ingest_error, string \<rightharpoonup> op_receipt) result" where
  "index_receipts [] m = Inr m"
| "index_receipts (r # rs) m =
     (if m (orc_op_id r) \<noteq> None then Inl (DuplicateReceipt (orc_op_id r))
      else index_receipts rs (m(orc_op_id r \<mapsto> r)))"

text \<open>
  The last loop ranges over a Go map, so which of several foreign receipts it names is not
  specified; here it is the first of the list.
\<close>

definition pairReceipts :: "changeset \<Rightarrow> receipts \<Rightarrow> (ingest_error, string \<rightharpoonup> op_receipt) result" where
  "pairReceipts cs rc =
     bind_result (index_receipts (rc_ops rc) Map.empty) (\<lambda>byOp.
       case find (\<lambda>x. byOp (op_id x) = None) (cs_ops cs) of
         Some x \<Rightarrow> Inl (NoReceipt (op_id x))
       | None \<Rightarrow>
           (case find (\<lambda>r. orc_op_id r \<notin> set (map op_id (cs_ops cs))) (rc_ops rc) of
              Some r \<Rightarrow> Inl (ForeignReceipt (orc_op_id r))
            | None \<Rightarrow> Inr byOp))"

definition blank_receipt :: op_receipt where
  "blank_receipt = \<lparr>orc_op_id = [], orc_status = [], orc_task_id = [], orc_was_existing = False,
     orc_reason = [], orc_error = []\<rparr>"

definition receipt_of :: "(string \<rightharpoonup> op_receipt) \<Rightarrow> op \<Rightarrow> op_receipt" where
  "receipt_of byOp x = (case byOp (op_id x) of Some r \<Rightarrow> r | None \<Rightarrow> blank_receipt)"

subsection \<open>The batch\<close>

definition registered_by_stem :: "event list \<Rightarrow> (string \<rightharpoonup> string)" where
  "registered_by_stem existing =
     fold (\<lambda>ev m. if ev_event ev = ''registered'' then m(ev_proposal ev \<mapsto> ev_eid ev) else m)
       existing Map.empty"

definition has_eid :: "event list \<Rightarrow> event list \<Rightarrow> string \<Rightarrow> bool" where
  "has_eid existing batch eid \<longleftrightarrow> eid \<in> known_eids existing \<or> eid \<in> known_eids batch"

definition reconcile_builder :: "metadata_lookup \<Rightarrow> event list \<Rightarrow> event list \<Rightarrow> event_builder" where
  "reconcile_builder graph existing batch =
     \<lparr>eb_graph = graph, eb_fold = journal_fold existing, eb_registered = registered_by_stem existing,
      eb_has_eid = has_eid existing batch\<rparr>"

definition op_lines :: "event_builder \<Rightarrow> changeset \<Rightarrow> op \<Rightarrow> op_receipt \<Rightarrow> (ingest_error, event list) result" where
  "op_lines b cs x r =
     (if op_type x = OpClose then BuildClose b cs x r
      else if op_type x = OpCreate then BuildCreate b cs x r
      else if op_type x = OpRetarget then BuildRetarget b cs x r
      else Inl (UnknownOpType (op_id x) (op_type x)))"

definition count_ok :: "op \<Rightarrow> reconcile_summary \<Rightarrow> reconcile_summary" where
  "count_ok x s =
     (if op_type x = OpClose then s\<lparr>rs_ok_closes := Suc (rs_ok_closes s)\<rparr>
      else if op_type x = OpCreate then s\<lparr>rs_ok_creates := Suc (rs_ok_creates s)\<rparr>
      else s\<lparr>rs_ok_retargets := Suc (rs_ok_retargets s)\<rparr>)"

text \<open>One iteration of the loop over the operations, on the summary and the batch so far.\<close>

definition reconcile_op :: "metadata_lookup \<Rightarrow> event list \<Rightarrow> changeset \<Rightarrow> op \<Rightarrow> op_receipt
    \<Rightarrow> reconcile_summary \<times> event list \<Rightarrow> (ingest_error, reconcile_summary \<times> event list) result" where
  "reconcile_op graph existing cs x r st =
     (case st of (s, batch) \<Rightarrow>
        if op_type x \<notin> {OpClose, OpCreate, OpRetarget} then Inl (UnknownOpType (op_id x) (op_type x))
        else if orc_status r = OpStatusOk then
          bind_result (op_lines (reconcile_builder graph existing batch) cs x r) (\<lambda>lines.
            Inr (count_ok x s, batch @ lines))
        else if orc_status r = OpStatusError then Inr (s\<lparr>rs_errors := Suc (rs_errors s)\<rparr>, batch)
        else if orc_status r = OpStatusSkipped then Inr (s\<lparr>rs_skipped := Suc (rs_skipped s)\<rparr>, batch)
        else Inl (UnknownStatus (op_id x) (orc_status r)))"

fun reconcile_ops :: "metadata_lookup \<Rightarrow> event list \<Rightarrow> changeset \<Rightarrow> (string \<rightharpoonup> op_receipt) \<Rightarrow> op list
    \<Rightarrow> reconcile_summary \<times> event list \<Rightarrow> (ingest_error, reconcile_summary \<times> event list) result" where
  "reconcile_ops graph existing cs byOp [] st = Inr st"
| "reconcile_ops graph existing cs byOp (x # xs) st =
     bind_result (reconcile_op graph existing cs x (receipt_of byOp x) st)
       (reconcile_ops graph existing cs byOp xs)"

definition reconcile_batch :: "metadata_lookup \<Rightarrow> event list \<Rightarrow> changeset \<Rightarrow> (string \<rightharpoonup> op_receipt)
    \<Rightarrow> (ingest_error, reconcile_summary \<times> event list) result" where
  "reconcile_batch graph existing cs byOp =
     bind_result (reconcile_ops graph existing cs byOp (cs_ops cs) (zero_summary, [])) (\<lambda>(s, batch).
       bind_result (BuildAbsorbed (reconcile_builder graph existing batch) cs) (\<lambda>absorbed.
         Inr (s, batch @ absorbed)))"

definition count_lines :: "event list \<Rightarrow> reconcile_summary \<Rightarrow> reconcile_summary" where
  "count_lines batch s =
     s\<lparr>rs_events := rs_events s + length (filter is_change_event batch),
       rs_receipts := rs_receipts s +
         length (filter (\<lambda>ev. is_receipt_event ev \<or> ev_event ev = ''refresh'') batch)\<rparr>"

text \<open>The gates and the append: an empty batch passes no gate and writes nothing.\<close>

definition commit_batch :: "(event \<Rightarrow> bool) \<Rightarrow> profile \<Rightarrow> journal_file \<Rightarrow> event list
    \<Rightarrow> (ingest_error, journal_file) result" where
  "commit_batch schema_ok p j batch =
     (if batch = [] then Inr j
      else case Check (jnl_events j) batch of
             Some e \<Rightarrow> Inl e
           | None \<Rightarrow>
               (case checkInvariant5 schema_ok batch p of
                  Some e \<Rightarrow> Inl e
                | None \<Rightarrow> Append schema_ok j batch))"

definition Reconciler_Apply :: "(event \<Rightarrow> bool) \<Rightarrow> profile \<Rightarrow> metadata_lookup \<Rightarrow> journal_file \<Rightarrow> changeset
    \<Rightarrow> receipts \<Rightarrow> (ingest_error, reconcile_summary \<times> journal_file) result" where
  "Reconciler_Apply schema_ok p graph j cs rc =
     bind_result (pairReceipts cs rc) (\<lambda>byOp.
       bind_result (reconcile_batch graph (jnl_events j) cs byOp) (\<lambda>(s, batch).
         bind_result (commit_batch schema_ok p j batch) (\<lambda>j'. Inr (count_lines batch s, j'))))"

subsection \<open>The command\<close>

datatype preflight_error =
    BadChangesetVersion int
  | BadReceiptsVersion int
  | PreflightForeign string
  | PreflightMissing string

definition preflightPair :: "changeset \<Rightarrow> receipts \<Rightarrow> preflight_error option" where
  "preflightPair cs rc =
     (if cs_version cs \<noteq> ChangesetVersion then Some (BadChangesetVersion (cs_version cs))
      else if rc_version rc \<noteq> ReceiptsVersion then Some (BadReceiptsVersion (rc_version rc))
      else case find (\<lambda>r. orc_op_id r \<notin> set (map op_id (cs_ops cs))) (rc_ops rc) of
             Some r \<Rightarrow> Some (PreflightForeign (orc_op_id r))
           | None \<Rightarrow>
               (case find (\<lambda>x. op_id x \<notin> set (map orc_op_id (rc_ops rc))) (cs_ops cs) of
                  Some x \<Rightarrow> Some (PreflightMissing (op_id x))
                | None \<Rightarrow> None))"

text \<open>
  The state the command changes: the journal and the snapshot. \<open>Save\<close> writes the tree of the
  live spec when the receipts are complete; a snapshot that cannot be written leaves the journal
  as \<open>Apply\<close> committed it.
\<close>

record project_state =
  ps_journal :: journal_file
  ps_snapshot :: "snapshot option"

definition Save :: "snapshot option \<Rightarrow> string \<Rightarrow> snapshot option \<Rightarrow> (string, snapshot option \<times> bool) result" where
  "Save tree status snap =
     (if status \<noteq> StatusComplete then Inr (snap, False)
      else case tree of None \<Rightarrow> Inl ''build tree'' | Some t \<Rightarrow> Inr (Some t, True))"

datatype ingest_failure =
    IngestInput preflight_error
  | IngestSnapshot
  | IngestInvariant ingest_error

definition ingest_exit_code :: "ingest_failure \<Rightarrow> nat" where
  "ingest_exit_code e = (case e of IngestInput _ \<Rightarrow> 1 | IngestSnapshot \<Rightarrow> 1 | IngestInvariant _ \<Rightarrow> 2)"

record ingest_summary =
  is_ok :: nat
  is_skipped :: nat
  is_errors :: nat
  is_events :: nat
  is_receipts :: nat
  is_saved :: bool
  is_status :: string

definition final_summary :: "reconcile_summary \<Rightarrow> bool \<Rightarrow> string \<Rightarrow> ingest_summary" where
  "final_summary s wrote status =
     \<lparr>is_ok = rs_ok_creates s + rs_ok_closes s + rs_ok_retargets s, is_skipped = rs_skipped s,
      is_errors = rs_errors s, is_events = rs_events s, is_receipts = rs_receipts s,
      is_saved = wrote, is_status = status\<rparr>"

text \<open>Normal mode; the result is the outcome and the state the run leaves behind.\<close>

definition runIngest :: "(event \<Rightarrow> bool) \<Rightarrow> profile \<Rightarrow> metadata_lookup \<Rightarrow> snapshot option \<Rightarrow> changeset
    \<Rightarrow> receipts \<Rightarrow> project_state \<Rightarrow> (ingest_failure, ingest_summary) result \<times> project_state" where
  "runIngest schema_ok p graph tree cs rc ps =
     (case preflightPair cs rc of
        Some e \<Rightarrow> (Inl (IngestInput e), ps)
      | None \<Rightarrow>
          (case Reconciler_Apply schema_ok p graph (ps_journal ps) cs rc of
             Inl e \<Rightarrow> (Inl (IngestInvariant e), ps)
           | Inr (s, j') \<Rightarrow>
               (case Save tree (rc_status rc) (ps_snapshot ps) of
                  Inl _ \<Rightarrow> (Inl IngestSnapshot, ps\<lparr>ps_journal := j'\<rparr>)
                | Inr (snap, wrote) \<Rightarrow>
                    (Inr (final_summary s wrote (rc_status rc)), \<lparr>ps_journal = j', ps_snapshot = snap\<rparr>))))"

end
