(* ===== verification/Journal_Growth.thy ===== *)
theory Journal_Growth
  imports Journal
begin

text \<open>
  How the fold of a journal changes when lines are appended to it. A journal is closed when no
  receipt of it dangles; lines whose eids are new to a closed journal leave the entries of its
  own lines as they were, so the fold moves forward from where it stood.
\<close>

subsection \<open>Closed journals and new eids\<close>

definition eids :: "event list \<Rightarrow> string set" where
  "eids evs = ev_eid ` set evs"

definition needs_referent :: "event \<Rightarrow> bool" where
  "needs_referent ev \<longleftrightarrow> is_task_bearing ev \<and> ev_proposal ev = []"

definition closed :: "event list \<Rightarrow> bool" where
  "closed evs \<longleftrightarrow> (\<forall>ev \<in> set evs. needs_referent ev \<longrightarrow> byEID evs (ev_for ev) \<noteq> None)"

text \<open>Two referents of one eid are the same kind of line about the same subject.\<close>

definition eids_consistent :: "event list \<Rightarrow> bool" where
  "eids_consistent evs \<longleftrightarrow>
     (\<forall>a \<in> set evs. \<forall>b \<in> set evs. is_referent a \<longrightarrow> is_referent b \<longrightarrow> ev_eid a = ev_eid b \<longrightarrow>
        ev_event a = ev_event b \<and> source_key a = source_key b)"

definition new_eids :: "event list \<Rightarrow> event list \<Rightarrow> bool" where
  "new_eids evs new \<longleftrightarrow> (\<forall>ev \<in> set new. is_referent ev \<longrightarrow> ev_eid ev \<notin> eids evs)"

lemma byEID_eids: "byEID evs e = Some r \<Longrightarrow> e \<in> eids evs"
  by (auto simp: eids_def dest: byEID_Some)

lemma eids_append [simp]: "eids (xs @ ys) = eids xs \<union> eids ys"
  by (simp add: eids_def image_Un)

lemma byEID_old:
  assumes "new_eids evs new" and "e \<in> eids evs"
  shows "byEID (evs @ new) e = byEID evs e"
proof -
  have "byEID new e = None"
    using assms by (auto simp: byEID_None_iff new_eids_def)
  then show ?thesis by (simp add: byEID_append)
qed

lemma closedD: "closed evs \<Longrightarrow> ev \<in> set evs \<Longrightarrow> needs_referent ev \<Longrightarrow> ev_for ev \<in> eids evs"
  by (auto simp: closed_def dest: byEID_eids)

lemma closed_append:
  assumes "closed evs" and "new_eids evs new"
    and "\<And>ev. ev \<in> set new \<Longrightarrow> needs_referent ev \<Longrightarrow> byEID (evs @ new) (ev_for ev) \<noteq> None"
  shows "closed (evs @ new)"
  unfolding closed_def
proof (intro ballI impI)
  fix ev assume ev: "ev \<in> set (evs @ new)" and n: "needs_referent ev"
  show "byEID (evs @ new) (ev_for ev) \<noteq> None"
  proof (cases "ev \<in> set evs")
    case True
    then show ?thesis
      using byEID_old[OF assms(2) closedD[OF assms(1) True n]] assms(1) n by (simp add: closed_def)
  qed (use ev n assms(3) in auto)
qed

lemma closed_iff_no_dangling: "closed evs \<longleftrightarrow> jf_dangling (journal_fold evs) = []"
proof -
  have "jf_dangling (journal_fold evs) = filter (\<lambda>ev. is_task_bearing ev \<and> bears (byEID evs) ev = None) evs"
    by (simp add: journal_fold_def fold_walk_def fold_dangling split: prod.split)
      (metis append_Nil fold_dangling snd_conv)
  then show ?thesis
    by (auto simp: closed_def needs_referent_def filter_empty_conv bears_receipt receipt_entry_None
        simp del: not_None_eq)
qed

subsection \<open>The walk moves forward\<close>

lemma fold_step_index_cong:
  "(needs_referent ev \<Longrightarrow> index (ev_for ev) = index' (ev_for ev)) \<Longrightarrow>
     fold_step index ev st = fold_step index' ev st"
  by (cases st) (auto simp: fold_step_bears bears_def receipt_entry_def needs_referent_def
      split: option.splits)

lemma walk_append:
  assumes "closed evs" and "new_eids evs new"
  shows "fold_walk (evs @ new) = fold (fold_step (byEID (evs @ new))) new (fold_walk evs)"
proof -
  have "fold (fold_step (byEID (evs @ new))) evs ([], []) = fold (fold_step (byEID evs)) evs ([], [])"
    by (rule fold_cong)
      (auto intro!: fold_step_index_cong ext simp: byEID_old[OF assms(2)] dest: closedD[OF assms(1)])
  then show ?thesis by (simp add: fold_walk_def)
qed

text \<open>The pairing of a node as the fold answers it: its task and whether it is removed.\<close>

type_synonym linkage = "string \<rightharpoonup> string \<times> bool"

definition view :: "fold_entry \<Rightarrow> string \<times> bool" where
  "view e = (fe_task_id e, fe_removed e)"

definition linkage_of :: "event list \<Rightarrow> linkage" where
  "linkage_of evs k = map_option view (walk_entry evs k)"

lemma linkage_of_state: "linkage_of evs = (\<lambda>k. map_option view (map_of (fst (fold_walk evs)) k))"
  by (simp add: linkage_of_def fun_eq_iff)

lemma fold_step_view:
  assumes "\<not> stale_removal ev (fst st)"
  shows "(\<lambda>k. map_option view (map_of (fst (fold_step index ev st)) k)) =
     (case bears index ev of
        None \<Rightarrow> (\<lambda>k. map_option view (map_of (fst st) k))
      | Some e \<Rightarrow> (\<lambda>k. map_option view (map_of (fst st) k))(fe_key e \<mapsto> view e))"
  using assms by (cases st) (auto simp: fold_step_bears fun_eq_iff split: option.splits)

text \<open>A removal with a new eid is never stale.\<close>

lemma removal_not_stale:
  assumes "ev_eid ev \<notin> eids evs" and "fst st = fst (fold_walk evs)"
  shows "\<not> stale_removal ev (fst st)"
proof
  assume "stale_removal ev (fst st)"
  then obtain prior where "map_of (fst (fold_walk evs)) (ev_node ev) = Some prior"
    and eq: "ev_eid (fe_source prior) = ev_eid ev"
    using assms(2) by (auto simp: stale_removal_def)
  then have "fe_source prior \<in> set evs"
    using walk_inv_mem(2)[OF walk_inv_walk] by (force dest: map_of_SomeD)
  then have "ev_eid ev \<in> eids evs" unfolding eq[symmetric] eids_def by simp
  then show False using assms(1) by simp
qed

lemma not_removal_not_stale: "ev_event ev \<noteq> ''removed'' \<Longrightarrow> \<not> stale_removal ev entries"
  by (simp add: stale_removal_def)

text \<open>Entries of removed nodes are sourced by a removal.\<close>

definition removal_sourced :: "fold_entry \<Rightarrow> bool" where
  "removal_sourced e \<longleftrightarrow> (fe_removed e \<longrightarrow> ev_event (fe_source e) = ''removed'')"

lemma bears_removal_sourced: "bears index ev = Some e \<Longrightarrow> removal_sourced e"
  by (auto simp: bears_def removal_entry_def receipt_entry_def removal_sourced_def split: if_splits)

lemma set_alist_update: "x \<in> set (AList.update k v m) \<Longrightarrow> x = (k, v) \<or> x \<in> set m"
  by (induction m) (auto split: if_splits)

lemma walk_removal_sourced: "walk_entry evs k = Some e \<Longrightarrow> removal_sourced e"
proof -
  have "\<forall>x \<in> set (fst st). removal_sourced (snd x) \<Longrightarrow>
        \<forall>x \<in> set (fst (fold (fold_step index) es st)). removal_sourced (snd x)" for index es st
  proof (induction es arbitrary: st)
    case (Cons ev es)
    obtain entries dangling where st: "st = (entries, dangling)" by (cases st)
    have "\<forall>x \<in> set (fst (fold_step index ev st)). removal_sourced (snd x)"
      using Cons.prems bears_removal_sourced[of index ev]
      by (auto simp: st fold_step_bears split: option.split dest!: set_alist_update)
    then show ?case using Cons.IH by simp
  qed simp
  from this[of "([], [])" "byEID evs" evs] show "walk_entry evs k = Some e \<Longrightarrow> removal_sourced e"
    by (auto simp: fold_walk_def dest!: map_of_SomeD)
qed

lemma walk_entry_source: "walk_entry evs k = Some e \<Longrightarrow> fe_source e \<in> set evs \<and> source_key (fe_source e) = k"
  using walk_inv_walk[of evs] by (auto simp: walk_inv_def dest!: map_of_SomeD)

end
