(* ===== verification/Ingest_Ledger.thy ===== *)
theory Ingest_Ledger
  imports Ingest_Reconciler Journal_Growth
begin

text \<open>
  What a reconciliation does to the pairings: an abstract ledger, the map from a node or a
  proposal to its task and removal mark, with one update per operation, and the proof that the
  fold of the journal the reconciler writes is that ledger.
\<close>

subsection \<open>The abstract ledger\<close>

text \<open>
  The ledger after one operation with an ok receipt. \<open>node_of\<close> and \<open>old\<close> are the pairings
  before the run, which the builder reads throughout; \<open>K\<close> holds the eids already written.
\<close>

definition ledger_close :: "(string \<Rightarrow> string option) \<Rightarrow> changeset \<Rightarrow> op \<Rightarrow> linkage \<times> string set \<Rightarrow> linkage \<times> string set" where
  "ledger_close node_of cs x = (\<lambda>(L, K).
     let eid = DeriveEID (cs_git_head cs) (op_id x)
     in if eid \<in> K then (L, K)
        else if prefix ReasonRemovedPrefix (op_reason x) then
          (case Option.bind (task_target x) node_of of
             Some node \<Rightarrow> (L(node \<mapsto> ([], True)), insert eid K) | None \<Rightarrow> (L, K))
        else if prefix ReasonModifiedPrefix (op_reason x) then (L, insert eid K)
        else (L, K))"

definition ledger_create :: "linkage \<Rightarrow> changeset \<Rightarrow> op \<Rightarrow> string \<Rightarrow> linkage \<times> string set \<Rightarrow> linkage \<times> string set" where
  "ledger_create old cs x task = (\<lambda>(L, K).
     let eid = DeriveEID (cs_git_head cs) (op_id x); node = op_spec_node_id x
     in if op_spec_node_kind x = KindProposalEpic then
          (if old node \<noteq> None then (L, K) else (L(node \<mapsto> (task, False)), K))
        else if op_spec_node_kind x = KindCleanup then
          (case old node of
             Some (t, True) \<Rightarrow> (if t \<noteq> [] then (L, K) else (L(node \<mapsto> (task, True)), K))
           | _ \<Rightarrow> (if eid \<in> K then (L, K) else (L(node \<mapsto> (task, True)), insert eid K)))
        else if eid \<in> K then (L, K)
        else (L(node \<mapsto> (task, False)), insert eid K))"

definition ledger_retarget :: "changeset \<Rightarrow> op \<Rightarrow> linkage \<times> string set \<Rightarrow> linkage \<times> string set" where
  "ledger_retarget cs x = (\<lambda>(L, K).
     let eid = DeriveEID (cs_git_head cs) (op_id x)
     in if eid \<in> K then (L, K)
        else (case task_target x of
                Some task \<Rightarrow> (L(op_spec_node_id x \<mapsto> (task, False)), insert eid K)
              | None \<Rightarrow> (L, K)))"

definition ledger_op :: "(string \<Rightarrow> string option) \<Rightarrow> linkage \<Rightarrow> changeset \<Rightarrow> op \<Rightarrow> op_receipt
    \<Rightarrow> linkage \<times> string set \<Rightarrow> linkage \<times> string set" where
  "ledger_op node_of old cs x r st =
     (if orc_status r \<noteq> OpStatusOk then st
      else if op_type x = OpClose then ledger_close node_of cs x st
      else if op_type x = OpCreate then ledger_create old cs x (orc_task_id r) st
      else ledger_retarget cs x st)"

definition ledger_run :: "(string \<Rightarrow> string option) \<Rightarrow> linkage \<Rightarrow> changeset \<Rightarrow> (string \<rightharpoonup> op_receipt)
    \<Rightarrow> op list \<Rightarrow> linkage \<times> string set \<Rightarrow> linkage \<times> string set" where
  "ledger_run node_of old cs byOp xs = fold (\<lambda>x. ledger_op node_of old cs x (receipt_of byOp x)) xs"

definition task_node :: "event list \<Rightarrow> string \<Rightarrow> string option" where
  "task_node evs t = map_option fe_key (find (\<lambda>e. fe_task_id e = t) (jf_entries (journal_fold evs)))"

subsection \<open>The lines of an operation\<close>

definition wire :: "event \<Rightarrow> bool" where
  "wire ev \<longleftrightarrow> encodeLine ev = Some ev \<and> ingest_encodeLine ev = Some ev \<and>
     (is_referent ev \<longrightarrow> ev_eid ev \<noteq> []) \<and> (\<not> is_referent ev \<longrightarrow> ev_eid ev = [])"

definition change_line :: "bool \<Rightarrow> string \<Rightarrow> string \<Rightarrow> event \<Rightarrow> bool" where
  "change_line removed eid node c \<longleftrightarrow>
     is_change_event c \<and> (ev_event c = ''removed'' \<longleftrightarrow> removed) \<and> ev_eid c = eid \<and> ev_node c = node \<and> wire c"

lemma wire_receipt [simp]:
  "k \<in> {''task_created'', ''task_closed'', ''task_retargeted''} \<Longrightarrow> wire (receipt_event k t f)"
  by (auto simp: wire_def receipt_event_def encodeLine_def ingest_encodeLine_def is_change_event_def
      is_receipt_event_def is_referent_def blank_event_def)

lemma DeriveEID_not_Nil [simp]: "DeriveEID h i \<noteq> []"
  by (simp add: DeriveEID_def)

lemma wire_blank_change:
  assumes "kind = ''added'' \<or> kind = ''modified'' \<or> kind = ''removed''" and "e \<noteq> []"
  shows "wire (blank_event\<lparr>ev_event := kind, ev_eid := e, ev_node := n, ev_name := nm,
     ev_node_type := ty, ev_module := m, ev_before := be, ev_after := af, ev_git_head := h,
     ev_proposal := p, ev_path := pa\<rparr>)"
  using assms by (auto simp: wire_def encodeLine_def ingest_encodeLine_def is_change_event_def is_referent_def blank_event_def)

lemma change_line_blank:
  assumes "kind = ''added'' \<or> kind = ''modified'' \<or> kind = ''removed''" and "e \<noteq> []"
  shows "change_line (kind = ''removed'') e n (blank_event\<lparr>ev_event := kind, ev_eid := e, ev_node := n, ev_name := nm,
     ev_node_type := ty, ev_module := m, ev_before := be, ev_after := af, ev_git_head := h,
     ev_proposal := p, ev_path := pa\<rparr>)"
  using wire_blank_change[OF assms] assms(1) by (simp add: change_line_def is_change_event_def)

lemma buildNodeCreate_lines:
  assumes "buildNodeCreate b cs x r = Inr ls"
  defines "eid \<equiv> DeriveEID (cs_git_head cs) (op_id x)"
  shows "if eb_has_eid b eid then ls = []
    else \<exists>c. change_line False eid (op_spec_node_id x) c \<and> ls = [c, receipt_event ''task_created'' (orc_task_id r) eid]"
proof (cases "eb_has_eid b eid")
  case False
  define kind where "kind = (if priorHash b (op_spec_node_id x) \<noteq> None then ''modified'' else ''added'')"
  obtain md where "eb_graph b (op_spec_node_id x) = Some md"
    using assms False by (auto simp: buildNodeCreate_def lookupMetadata_def Let_def split: option.splits)
  with assms False show ?thesis
    using change_line_blank[of kind eid]
    by (auto simp: buildNodeCreate_def lookupMetadata_def Let_def kind_def split: if_splits)
qed (use assms in \<open>auto simp: buildNodeCreate_def\<close>)

lemma removed_event_line: "e \<noteq> [] \<Longrightarrow> change_line True e node (removed_event cs e node entry)"
  using change_line_blank[of "''removed''" e node] by (simp add: removed_event_def)

lemma buildCleanupCreate_lines:
  assumes "buildCleanupCreate b cs x r = Inr ls"
  defines "eid \<equiv> DeriveEID (cs_git_head cs) (op_id x)"
  obtains entry where "foldEntryByKey b (op_spec_node_id x) = Some entry"
    and "if fe_removed entry
         then ls = (if fe_task_id entry \<noteq> [] then []
                    else [receipt_event ''task_created'' (orc_task_id r) (ev_eid (fe_source entry))])
         else if eb_has_eid b eid then ls = []
         else \<exists>c. change_line True eid (op_spec_node_id x) c \<and> ls = [c, receipt_event ''task_created'' (orc_task_id r) eid]"
  using assms removed_event_line[of eid "op_spec_node_id x" cs]
  by (auto simp: buildCleanupCreate_def Let_def split: option.splits if_splits)

lemma buildEpicCreate_lines:
  assumes "buildEpicCreate x r f registered = Inr ls"
  shows "if \<exists>e \<in> set (jf_entries f). fe_key e = op_spec_node_id x then ls = []
    else \<exists>eid. registered (op_spec_node_id x) = Some eid \<and> ls = [receipt_event ''task_created'' (orc_task_id r) eid]"
  using assms by (auto simp: buildEpicCreate_def Let_def split: option.splits if_splits)

lemma buildRemoved_lines:
  assumes "buildRemoved b cs x r = Inr ls"
  defines "eid \<equiv> DeriveEID (cs_git_head cs) (op_id x)"
  shows "if eb_has_eid b eid then ls = []
    else \<exists>t e c. task_target x = Some t \<and> foldEntryByTask b t = Some e \<and> change_line True eid (fe_key e) c \<and>
           ls = [c, receipt_event ''task_closed'' (orc_task_id r) eid]"
  using assms removed_event_line[of eid _ cs]
  by (auto simp: buildRemoved_def Let_def split: option.splits if_splits)

lemma buildModifiedFromClose_lines:
  assumes "buildModifiedFromClose b cs x t r = Inr ls"
  defines "eid \<equiv> DeriveEID (cs_git_head cs) (op_id x)"
  shows "if eb_has_eid b eid then ls = []
    else \<exists>e c. foldEntryByTask b t = Some e \<and> change_line False eid (fe_key e) c \<and>
           ls = [c, receipt_event ''task_closed'' (orc_task_id r) eid]"
proof (cases "eb_has_eid b eid")
  case False
  then obtain e md where "foldEntryByTask b t = Some e" "eb_graph b (fe_key e) = Some md"
    using assms by (auto simp: buildModifiedFromClose_def lookupMetadata_def Let_def split: option.splits)
  then show ?thesis
    using assms False change_line_blank[of "''modified''" eid "fe_key e"]
    by (auto simp: buildModifiedFromClose_def lookupMetadata_def Let_def)
qed (use assms in \<open>auto simp: buildModifiedFromClose_def\<close>)

lemma BuildRetarget_lines:
  assumes "BuildRetarget b cs x r = Inr ls"
  defines "eid \<equiv> DeriveEID (cs_git_head cs) (op_id x)"
  obtains t where "task_target x = Some t"
    and "if eb_has_eid b eid then ls = []
    else \<exists>c. change_line False eid (op_spec_node_id x) c \<and> ls = [c, receipt_event ''task_retargeted'' t eid]"
proof -
  obtain t where t: "task_target x = Some t"
    using assms by (auto simp: BuildRetarget_def split: option.splits)
  show ?thesis
  proof (cases "eb_has_eid b eid")
    case False
    then obtain md where "eb_graph b (op_spec_node_id x) = Some md"
      using assms t by (auto simp: BuildRetarget_def lookupMetadata_def Let_def split: option.splits)
    then show ?thesis
      using that[OF t] assms False t change_line_blank[of "''modified''" eid]
      by (auto simp: BuildRetarget_def lookupMetadata_def Let_def)
  qed (use that[OF t] assms t in \<open>auto simp: BuildRetarget_def\<close>)
qed

subsection \<open>One operation on the fold\<close>

lemma linkage_append:
  assumes "closed evs" and "new_eids evs new"
  shows "linkage_of (evs @ new) =
    (\<lambda>k. map_option view (map_of (fst (fold (fold_step (byEID (evs @ new))) new (fold_walk evs))) k))"
  by (simp add: linkage_of_state walk_append[OF assms])

lemma bears_change: "is_change_event c \<Longrightarrow> bears index c = (if ev_event c = ''removed'' then Some (removal_entry c) else None)"
  by (auto simp: bears_def is_task_bearing_def is_change_event_def)

lemma view_removal [simp]: "view (removal_entry c) = ([], True)" "fe_key (removal_entry c) = ev_node c"
  by (simp_all add: view_def removal_entry_def)

definition after_change :: "event \<Rightarrow> linkage \<Rightarrow> linkage" where
  "after_change c L = (if ev_event c = ''removed'' then L(ev_node c \<mapsto> ([], True)) else L)"

lemma step_change:
  assumes "closed evs" and "ev_eid c \<notin> eids evs" and "is_change_event c"
  shows "(\<lambda>k. map_option view (map_of (fst (fold_step index c (fold_walk evs))) k)) = after_change c (linkage_of evs)"
  using fold_step_view[OF removal_not_stale[OF assms(2) refl], of index] assms(3)
  by (simp add: bears_change after_change_def linkage_of_state)

lemma linkage_change_close:
  assumes "closed evs" and "ev_eid c \<notin> eids evs" and "is_change_event c"
    and "\<not> is_task_bearing r" and "\<not> is_referent r"
  shows "linkage_of (evs @ [c, r]) = after_change c (linkage_of evs)"
proof -
  have "new_eids evs [c, r]" using assms by (simp add: new_eids_def)
  moreover have "bears index r = None" for index
    using assms(4,5) by (auto simp: bears_def is_referent_def is_change_event_def)
  moreover have "ev_event r \<noteq> ''removed''"
    using assms(5) by (auto simp: is_referent_def is_change_event_def)
  ultimately show ?thesis
    using step_change[OF assms(1-3)]
    by (simp add: linkage_append[OF assms(1)] fold_step_view[OF not_removal_not_stale])
qed

lemma receipt_entry_view:
  assumes "ev_proposal r = []" and "index (ev_for r) = Some c" and "is_referent c"
  shows "\<exists>e. receipt_entry index r = Some e \<and> fe_key e = source_key c \<and>
    view e = (ev_task_id r, ev_event c = ''removed'')"
  using assms by (auto simp: receipt_entry_def view_def source_key_def is_referent_def is_change_event_def)

lemma linkage_change_receipt:
  assumes "closed evs" and "ev_eid c \<notin> eids evs" and "is_change_event c"
    and r: "is_task_bearing r" "ev_proposal r = []" "ev_for r = ev_eid c" "\<not> is_referent r"
  shows "linkage_of (evs @ [c, r]) = (linkage_of evs)(ev_node c \<mapsto> (ev_task_id r, ev_event c = ''removed''))"
proof -
  let ?idx = "byEID (evs @ [c, r])"
  have new: "new_eids evs [c, r]" using assms by (simp add: new_eids_def)
  have c: "is_referent c" using assms(3) by (simp add: is_referent_def)
  have idx: "?idx = (byEID evs)(ev_eid c \<mapsto> c)"
    using c r(4) by (simp add: byEID_def index_event_def)
  obtain e where e: "receipt_entry ?idx r = Some e" "fe_key e = ev_node c"
      "view e = (ev_task_id r, ev_event c = ''removed'')"
    using receipt_entry_view[of r ?idx c] r(2,3) c idx assms(3) by (auto simp: source_key_def)
  have "linkage_of (evs @ [c, r]) = (after_change c (linkage_of evs))(fe_key e \<mapsto> view e)"
    unfolding linkage_append[OF assms(1) new]
    using step_change[OF assms(1-3), of ?idx] e(1) r(1)
    by (simp add: fold_step_view[OF not_removal_not_stale] task_bearing_not_removed bears_receipt)
  then show ?thesis by (simp add: e after_change_def)
qed

lemma linkage_receipt:
  assumes "closed evs" and "byEID evs (ev_for r) = Some c"
    and r: "is_task_bearing r" "ev_proposal r = []" "\<not> is_referent r"
  shows "linkage_of (evs @ [r]) = (linkage_of evs)(source_key c \<mapsto> (ev_task_id r, ev_event c = ''removed''))"
proof -
  have new: "new_eids evs [r]" using r(3) by (simp add: new_eids_def)
  have idx: "byEID (evs @ [r]) = byEID evs" using r(3) by (simp add: byEID_def index_event_def)
  obtain e where e: "receipt_entry (byEID evs) r = Some e" "fe_key e = source_key c"
      "view e = (ev_task_id r, ev_event c = ''removed'')"
    using receipt_entry_view[of r "byEID evs" c] assms(2) r(2) byEID_Some[OF assms(2)] by auto
  show ?thesis
    unfolding linkage_append[OF assms(1) new] idx
    using e r(1) by (simp add: fold_step_view[OF not_removal_not_stale] task_bearing_not_removed bears_receipt linkage_of_state)
qed

lemma linkage_silent:
  assumes "closed evs" and "new_eids evs new"
    and "\<And>ev. ev \<in> set new \<Longrightarrow> \<not> is_task_bearing ev \<and> ev_event ev \<noteq> ''removed''"
  shows "linkage_of (evs @ new) = linkage_of evs"
proof -
  have "map_of (fst (fold (fold_step index) new st)) k = map_of (fst st) k" for index st k
    by (rule fold_keeps_entry) (use assms(3) in \<open>auto simp: bears_def\<close>)
  then show ?thesis unfolding linkage_append[OF assms(1,2)] by (simp add: linkage_of_state)
qed

subsection \<open>Numbered lines\<close>

lemma number_lines_Nil [simp]: "number_lines n [] = []"
  by (simp add: number_lines_def)

lemma number_lines_Cons [simp]: "number_lines n (ev # evs) = ev\<lparr>ev_line := Suc n\<rparr> # number_lines (Suc n) evs"
  by (simp add: number_lines_def)

lemma number_lines_append: "number_lines n (xs @ ys) = number_lines n xs @ number_lines (n + length xs) ys"
  by (induction xs arbitrary: n) simp_all

lemma line_kind [simp]:
  "is_change_event (ev\<lparr>ev_line := i\<rparr>) = is_change_event ev"
  "is_receipt_event (ev\<lparr>ev_line := i\<rparr>) = is_receipt_event ev"
  "is_referent (ev\<lparr>ev_line := i\<rparr>) = is_referent ev"
  "is_task_bearing (ev\<lparr>ev_line := i\<rparr>) = is_task_bearing ev"
  "needs_referent (ev\<lparr>ev_line := i\<rparr>) = needs_referent ev"
  "source_key (ev\<lparr>ev_line := i\<rparr>) = source_key ev"
  by (simp_all add: is_change_event_def is_receipt_event_def is_referent_def is_task_bearing_def
      needs_referent_def source_key_def)

lemma eids_number_lines [simp]: "eids (number_lines n evs) = eids evs"
  by (induction evs arbitrary: n) (auto simp: eids_def)

lemma eids_Nil [simp]: "eids [] = {}"
  by (simp add: eids_def)

lemma eids_Cons [simp]: "eids (ev # evs) = insert (ev_eid ev) (eids evs)"
  by (simp add: eids_def)

lemma known_eids_eids: "known_eids evs = eids evs - {[]}"
  by (auto simp: known_eids_def eids_def)

lemma new_eids_number_lines [simp]: "new_eids evs (number_lines n new) = new_eids evs new"
  by (induction new arbitrary: n) (auto simp: new_eids_def)

lemma length_number_lines [simp]: "length (number_lines n evs) = length evs"
  by (simp add: number_lines_def)

subsection \<open>The batch grows the journal\<close>

definition grown :: "event list \<Rightarrow> nat \<Rightarrow> event list \<Rightarrow> event list" where
  "grown existing n batch = existing @ number_lines n batch"

definition growing :: "event list \<Rightarrow> nat \<Rightarrow> event list \<Rightarrow> bool" where
  "growing existing n batch \<longleftrightarrow>
     closed (grown existing n batch) \<and> new_eids existing batch \<and> (\<forall>ev \<in> set batch. wire ev)"

definition written :: "event list \<Rightarrow> event list \<Rightarrow> string set" where
  "written existing batch = known_eids existing \<union> known_eids batch"

lemma has_eid_written: "has_eid existing batch e \<longleftrightarrow> e \<in> written existing batch"
  by (simp add: has_eid_def written_def)

lemma grown_append: "grown existing n (batch @ ls) = grown existing n batch @ number_lines (n + length batch) ls"
  by (simp add: grown_def number_lines_append)

lemma eids_grown [simp]: "eids (grown existing n batch) = eids existing \<union> eids batch"
  by (simp add: grown_def)

lemma not_written_new: "e \<notin> written existing batch \<Longrightarrow> e \<noteq> [] \<Longrightarrow> e \<notin> eids existing \<union> eids batch"
  by (simp add: written_def known_eids_eids)

lemma receipt_event_fields [simp]:
  "ev_event (receipt_event k t f) = k" "ev_for (receipt_event k t f) = f" "ev_task_id (receipt_event k t f) = t"
  "ev_proposal (receipt_event k t f) = []" "ev_eid (receipt_event k t f) = []"
  by (simp_all add: receipt_event_def blank_event_def)

lemma receipt_event_kind [simp]:
  "is_task_bearing (receipt_event k t f) \<longleftrightarrow> k = ''task_created'' \<or> k = ''task_retargeted''"
  by (simp add: is_task_bearing_def)

lemma receipt_kind_not_referent:
  "k \<in> {''task_created'', ''task_closed'', ''task_retargeted''} \<Longrightarrow> \<not> is_referent (receipt_event k t f)"
  by (auto simp: is_referent_def is_change_event_def)

lemma written_lines:
  "written existing (batch @ [c, receipt_event k t f]) = (if ev_eid c = [] then {} else {ev_eid c}) \<union> written existing batch"
  "written existing (batch @ [receipt_event k t f]) = written existing batch"
  by (auto simp: written_def known_eids_eids)

lemma grow_pair:
  assumes "growing existing n batch" and c: "change_line removed eid node c"
    and fresh: "eid \<notin> written existing batch" and "eid \<noteq> []"
    and k: "k \<in> {''task_created'', ''task_closed'', ''task_retargeted''}"
    and ls: "ls = [c, receipt_event k task eid]"
  shows "growing existing n (batch @ ls)"
    and "linkage_of (grown existing n (batch @ ls)) =
      (if k = ''task_closed'' then (if removed then (linkage_of (grown existing n batch))(node \<mapsto> ([], True))
                                   else linkage_of (grown existing n batch))
       else (linkage_of (grown existing n batch))(node \<mapsto> (task, removed)))"
    and "written existing (batch @ ls) = insert eid (written existing batch)"
proof -
  let ?J = "grown existing n batch" and ?new = "number_lines (n + length batch) ls"
  have J: "closed ?J" and wires: "\<forall>ev \<in> set batch. wire ev" and old: "new_eids existing batch"
    using assms(1) by (simp_all add: growing_def)
  have eid: "eid \<notin> eids ?J" using not_written_new[OF fresh assms(4)] by simp
  have cf: "is_change_event c" "ev_eid c = eid" "ev_node c = node" "(ev_event c = ''removed'') = removed" "wire c"
    using c by (simp_all add: change_line_def)
  note nr = receipt_kind_not_referent[OF k, of task eid]
  have new: "new_eids ?J ?new" using eid cf nr by (simp add: ls new_eids_def)
  have idx: "byEID (?J @ ?new) eid \<noteq> None"
    using byEID_defined[of "c\<lparr>ev_line := Suc (n + length batch)\<rparr>" "?J @ ?new"] cf
    by (simp add: ls is_referent_def)
  have "closed (?J @ ?new)"
    by (rule closed_append[OF J new]) (use idx cf in \<open>auto simp: ls needs_referent_def is_task_bearing_def is_change_event_def\<close>)
  moreover have "new_eids existing (batch @ ls)"
    using old eid cf nr by (auto simp: new_eids_def ls)
  moreover have "wire (receipt_event k task eid)" using k by (rule wire_receipt)
  ultimately show "growing existing n (batch @ ls)"
    using wires cf by (auto simp: growing_def grown_append ls)
  show "written existing (batch @ ls) = insert eid (written existing batch)"
    using cf assms(4) by (simp add: ls written_lines)
  show "linkage_of (grown existing n (batch @ ls)) =
      (if k = ''task_closed'' then (if removed then (linkage_of ?J)(node \<mapsto> ([], True)) else linkage_of ?J)
       else (linkage_of ?J)(node \<mapsto> (task, removed)))"
  proof (cases "k = ''task_closed''")
    case True
    then show ?thesis
      using linkage_change_close[OF J, of "c\<lparr>ev_line := Suc (n + length batch)\<rparr>"] eid cf nr
      by (simp add: grown_append ls after_change_def)
  next
    case False
    then have "k = ''task_created'' \<or> k = ''task_retargeted''" using k by blast
    then show ?thesis
      using linkage_change_receipt[OF J, of "c\<lparr>ev_line := Suc (n + length batch)\<rparr>"] eid cf nr False
      by (simp add: grown_append ls)
  qed
qed

lemma grow_receipt:
  assumes "growing existing n batch" and c: "byEID existing eid = Some c"
    and ls: "ls = [receipt_event ''task_created'' task eid]"
  shows "growing existing n (batch @ ls)"
    and "linkage_of (grown existing n (batch @ ls)) =
      (linkage_of (grown existing n batch))(source_key c \<mapsto> (task, ev_event c = ''removed''))"
    and "written existing (batch @ ls) = written existing batch"
proof -
  let ?J = "grown existing n batch" and ?new = "number_lines (n + length batch) ls"
  have J: "closed ?J" and wires: "\<forall>ev \<in> set batch. wire ev" and old: "new_eids existing batch"
    using assms(1) by (simp_all add: growing_def)
  note nr = receipt_kind_not_referent[of "''task_created''" task eid, simplified]
  have idx: "byEID ?J eid = Some c"
    using byEID_old[of existing "number_lines n batch" eid] old c byEID_eids[OF c] by (simp add: grown_def)
  have new: "new_eids ?J ?new" using nr by (simp add: ls new_eids_def)
  have "closed (?J @ ?new)"
    by (rule closed_append[OF J new])
      (use idx byEID_old[OF new, of eid] byEID_eids[OF idx] in \<open>auto simp: ls\<close>)
  moreover have "new_eids existing (batch @ ls)" using old nr by (auto simp: new_eids_def ls)
  ultimately show "growing existing n (batch @ ls)"
    using wires by (auto simp: growing_def grown_append ls)
  show "written existing (batch @ ls) = written existing batch"
    by (simp add: ls written_lines)
  show "linkage_of (grown existing n (batch @ ls)) =
      (linkage_of ?J)(source_key c \<mapsto> (task, ev_event c = ''removed''))"
    using linkage_receipt[OF J, of "(receipt_event ''task_created'' task eid)\<lparr>ev_line := Suc (n + length batch)\<rparr>" c] idx nr
    by (simp add: grown_append ls)
qed

subsection \<open>The reconciler implements the ledger\<close>

lemma builder_fields [simp]:
  "eb_has_eid (reconcile_builder graph existing batch) e \<longleftrightarrow> e \<in> written existing batch"
  "eb_fold (reconcile_builder graph existing batch) = journal_fold existing"
  "eb_registered (reconcile_builder graph existing batch) = registered_by_stem existing"
  by (simp_all add: reconcile_builder_def has_eid_written)

lemma builder_entries:
  "foldEntryByKey (reconcile_builder graph existing batch) k = walk_entry existing k"
  "map_option fe_key (foldEntryByTask (reconcile_builder graph existing batch) t) = task_node existing t"
  by (simp_all add: foldEntryByKey_def foldEntryByTask_def find_entry_by_key task_node_def)

lemma registered_by_stem_Some:
  "registered_by_stem existing stem = Some eid \<Longrightarrow>
     \<exists>ev \<in> set existing. ev_event ev = ''registered'' \<and> ev_proposal ev = stem \<and> ev_eid ev = eid"
  unfolding registered_by_stem_def
  by (induction existing rule: rev_induct) (auto split: if_splits)

lemma consistent_index:
  assumes "eids_consistent existing" and "ev \<in> set existing" and "is_referent ev"
  obtains c where "byEID existing (ev_eid ev) = Some c" and "ev_event c = ev_event ev"
    and "source_key c = source_key ev"
proof -
  obtain c where c: "byEID existing (ev_eid ev) = Some c"
    using byEID_defined[OF assms(2,3)] by blast
  with byEID_Some[OF c] assms that show ?thesis unfolding eids_consistent_def by metis
qed

definition ledger_state :: "event list \<Rightarrow> nat \<Rightarrow> event list \<Rightarrow> linkage \<times> string set" where
  "ledger_state existing n batch = (linkage_of (grown existing n batch), written existing batch)"

lemma create_step:
  assumes g: "growing existing n batch" and con: "eids_consistent existing"
    and ls: "BuildCreate (reconcile_builder graph existing batch) cs x r = Inr ls"
  shows "growing existing n (batch @ ls) \<and>
    ledger_state existing n (batch @ ls) =
      ledger_create (linkage_of existing) cs x (orc_task_id r) (ledger_state existing n batch)"
proof -
  let ?b = "reconcile_builder graph existing batch" and ?node = "op_spec_node_id x" and ?t = "orc_task_id r"
  let ?eid = "DeriveEID (cs_git_head cs) (op_id x)"
  have pair: "?thesis" if "change_line removed ?eid ?node c" and "?eid \<notin> written existing batch"
    and "ls = [c, receipt_event ''task_created'' ?t ?eid]"
    and "ledger_create (linkage_of existing) cs x ?t (ledger_state existing n batch) =
      ((linkage_of (grown existing n batch))(?node \<mapsto> (?t, removed)), insert ?eid (written existing batch))" for removed c
    using grow_pair[OF g that(1,2), of "''task_created''" ls ?t] that(3,4)
    by (simp add: ledger_state_def)
  have receipt: "?thesis" if "byEID existing e = Some c" and "ls = [receipt_event ''task_created'' ?t e]"
    and "ledger_create (linkage_of existing) cs x ?t (ledger_state existing n batch) =
      ((linkage_of (grown existing n batch))(source_key c \<mapsto> (?t, ev_event c = ''removed'')), written existing batch)" for e c
    using grow_receipt[OF g that(1), of ls ?t] that(2,3) by (simp add: ledger_state_def)
  consider (epic) "op_spec_node_kind x = KindProposalEpic" | (cleanup) "op_spec_node_kind x = KindCleanup"
    | (node) "op_spec_node_kind x \<noteq> KindProposalEpic" "op_spec_node_kind x \<noteq> KindCleanup" by blast
  then show ?thesis
  proof cases
    case epic
    have lines: "if \<exists>e \<in> set (jf_entries (journal_fold existing)). fe_key e = ?node then ls = []
      else \<exists>eid. registered_by_stem existing ?node = Some eid \<and> ls = [receipt_event ''task_created'' ?t eid]"
      using ls epic by (intro buildEpicCreate_lines) (simp add: BuildCreate_def)
    have known: "(\<exists>e \<in> set (jf_entries (journal_fold existing)). fe_key e = ?node) \<longleftrightarrow> walk_entry existing ?node \<noteq> None"
      unfolding find_entry_by_key[symmetric] find_None_iff by auto
    show ?thesis
    proof (cases "walk_entry existing ?node")
      case None
      then obtain e where e: "registered_by_stem existing ?node = Some e" "ls = [receipt_event ''task_created'' ?t e]"
        using lines known by auto
      then obtain ev where ev: "ev \<in> set existing" "ev_event ev = ''registered''" "ev_proposal ev = ?node" "ev_eid ev = e"
        using registered_by_stem_Some by blast
      obtain c where c: "byEID existing e = Some c" "ev_event c = ''registered''" "source_key c = ?node"
        using consistent_index[OF con ev(1)] ev(2-4)
        by (auto simp: is_referent_def source_key_def is_change_event_def)
      then show ?thesis
        using e(2) epic None c(2,3)
        by (intro receipt[OF c(1)]) (simp_all add: ledger_create_def ledger_state_def linkage_of_def)
    next
      case (Some e)
      then have "ls = []" using lines known by auto
      then show ?thesis using g epic Some by (simp add: ledger_create_def ledger_state_def linkage_of_def)
    qed
  next
    case cleanup
    have "buildCleanupCreate ?b cs x r = Inr ls"
      using ls cleanup by (simp add: BuildCreate_def vocabulary_defs)
    then obtain entry where entry: "walk_entry existing ?node = Some entry"
      and lines: "if fe_removed entry
         then ls = (if fe_task_id entry \<noteq> [] then []
                    else [receipt_event ''task_created'' ?t (ev_eid (fe_source entry))])
         else if ?eid \<in> written existing batch then ls = []
         else \<exists>c. change_line True ?eid ?node c \<and> ls = [c, receipt_event ''task_created'' ?t ?eid]"
      by (rule buildCleanupCreate_lines) (simp add: builder_entries)
    have old: "linkage_of existing ?node = Some (fe_task_id entry, fe_removed entry)"
      using entry by (simp add: linkage_of_def view_def)
    have kind: "op_spec_node_kind x \<noteq> KindProposalEpic" using cleanup by (simp add: vocabulary_defs)
    show ?thesis
    proof (cases "fe_removed entry")
      case True
      have src: "fe_source entry \<in> set existing" "source_key (fe_source entry) = ?node"
        "ev_event (fe_source entry) = ''removed''"
        using walk_entry_source[OF entry] walk_removal_sourced[OF entry] True by (simp_all add: removal_sourced_def)
      then have "is_referent (fe_source entry)" by (simp add: is_referent_def is_change_event_def)
      then obtain c where c: "byEID existing (ev_eid (fe_source entry)) = Some c" "ev_event c = ''removed''"
          "source_key c = ?node"
        using consistent_index[OF con src(1)] src by auto
      show ?thesis
      proof (cases "fe_task_id entry = []")
        case True
        then show ?thesis
          using lines \<open>fe_removed entry\<close> c cleanup kind old
          by (intro receipt[OF c(1)]) (simp_all add: ledger_create_def ledger_state_def)
      next
        case False
        then show ?thesis
          using lines \<open>fe_removed entry\<close> g cleanup kind old by (simp add: ledger_create_def ledger_state_def)
      qed
    next
      case False
      show ?thesis
      proof (cases "?eid \<in> written existing batch")
        case True
        then show ?thesis
          using lines False g cleanup kind old by (simp add: ledger_create_def ledger_state_def)
      next
        case fresh: False
        then obtain c where "change_line True ?eid ?node c" "ls = [c, receipt_event ''task_created'' ?t ?eid]"
          using lines False by auto
        then show ?thesis
          using fresh False cleanup kind old
          by (intro pair) (simp_all add: ledger_create_def ledger_state_def)
      qed
    qed
  next
    case node
    have lines: "if ?eid \<in> written existing batch then ls = []
      else \<exists>c. change_line False ?eid ?node c \<and> ls = [c, receipt_event ''task_created'' ?t ?eid]"
      using buildNodeCreate_lines[of ?b cs x r ls] ls node by (simp add: BuildCreate_def)
    show ?thesis
    proof (cases "?eid \<in> written existing batch")
      case True
      then show ?thesis using lines g node by (simp add: ledger_create_def ledger_state_def)
    next
      case False
      then obtain c where "change_line False ?eid ?node c" "ls = [c, receipt_event ''task_created'' ?t ?eid]"
        using lines by auto
      then show ?thesis using False node by (intro pair) (simp_all add: ledger_create_def ledger_state_def)
    qed
  qed
qed

lemma close_step:
  assumes g: "growing existing n batch"
    and ls: "BuildClose (reconcile_builder graph existing batch) cs x r = Inr ls"
  shows "growing existing n (batch @ ls) \<and>
    ledger_state existing n (batch @ ls) = ledger_close (task_node existing) cs x (ledger_state existing n batch)"
proof -
  let ?b = "reconcile_builder graph existing batch" and ?eid = "DeriveEID (cs_git_head cs) (op_id x)"
  have pair: "?thesis" if "change_line removed ?eid node c" and "?eid \<notin> written existing batch"
    and "ls = [c, receipt_event ''task_closed'' (orc_task_id r) ?eid]"
    and "ledger_close (task_node existing) cs x (ledger_state existing n batch) =
      (if removed then (linkage_of (grown existing n batch))(node \<mapsto> ([], True)) else linkage_of (grown existing n batch),
       insert ?eid (written existing batch))" for removed node c
    using grow_pair[OF g that(1,2), of "''task_closed''" ls "orc_task_id r"] that(3,4)
    by (simp add: ledger_state_def)
  have task: "task_node existing t = Some (fe_key e)" if "foldEntryByTask ?b t = Some e" for t e
    using builder_entries(2)[of graph existing batch t] that by simp
  consider (removed) "prefix ReasonRemovedPrefix (op_reason x)"
    | (modified) "\<not> prefix ReasonRemovedPrefix (op_reason x)" "prefix ReasonModifiedPrefix (op_reason x)"
    | (other) "\<not> prefix ReasonRemovedPrefix (op_reason x)" "\<not> prefix ReasonModifiedPrefix (op_reason x)"
    by blast
  then show ?thesis
  proof cases
    case removed
    have lines: "if ?eid \<in> written existing batch then ls = []
      else \<exists>t e c. task_target x = Some t \<and> foldEntryByTask ?b t = Some e \<and> change_line True ?eid (fe_key e) c \<and>
           ls = [c, receipt_event ''task_closed'' (orc_task_id r) ?eid]"
      using buildRemoved_lines[of ?b cs x r ls] ls removed by (simp add: BuildClose_def)
    show ?thesis
    proof (cases "?eid \<in> written existing batch")
      case False
      then obtain t e c where l: "task_target x = Some t" "foldEntryByTask ?b t = Some e"
        "change_line True ?eid (fe_key e) c" "ls = [c, receipt_event ''task_closed'' (orc_task_id r) ?eid]"
        using lines by auto
      then show ?thesis
        using False removed task[OF l(2)]
        by (intro pair[OF l(3)]) (simp_all add: ledger_close_def ledger_state_def)
    qed (use lines g in \<open>simp add: ledger_close_def ledger_state_def\<close>)
  next
    case modified
    then obtain t where t: "task_target x = Some t"
      using ls by (auto simp: BuildClose_def split: option.splits)
    have lines: "if ?eid \<in> written existing batch then ls = []
      else \<exists>e c. foldEntryByTask ?b t = Some e \<and> change_line False ?eid (fe_key e) c \<and>
           ls = [c, receipt_event ''task_closed'' (orc_task_id r) ?eid]"
      using buildModifiedFromClose_lines[of ?b cs x t r ls] ls modified t by (simp add: BuildClose_def)
    show ?thesis
    proof (cases "?eid \<in> written existing batch")
      case False
      note ex = lines[unfolded if_not_P[OF False]]
      obtain e :: fold_entry and c where l: "change_line False ?eid (fe_key e) c"
        "ls = [c, receipt_event ''task_closed'' (orc_task_id r) ?eid]"
        using ex by blast
      then show ?thesis
        using False modified by (intro pair[OF l(1)]) (simp_all add: ledger_close_def ledger_state_def)
    qed (use lines g in \<open>simp add: ledger_close_def ledger_state_def\<close>)
  next
    case other
    then have "ls = []" using ls by (simp add: BuildClose_def)
    then show ?thesis using g other by (simp add: ledger_close_def ledger_state_def Let_def)
  qed
qed

lemma retarget_step:
  assumes g: "growing existing n batch"
    and ls: "BuildRetarget (reconcile_builder graph existing batch) cs x r = Inr ls"
  shows "growing existing n (batch @ ls) \<and>
    ledger_state existing n (batch @ ls) = ledger_retarget cs x (ledger_state existing n batch)"
proof -
  let ?eid = "DeriveEID (cs_git_head cs) (op_id x)"
  obtain t where t: "task_target x = Some t" and lines: "if ?eid \<in> written existing batch then ls = []
      else \<exists>c. change_line False ?eid (op_spec_node_id x) c \<and> ls = [c, receipt_event ''task_retargeted'' t ?eid]"
    using ls by (rule BuildRetarget_lines) simp
  show ?thesis
  proof (cases "?eid \<in> written existing batch")
    case False
    then obtain c where l: "change_line False ?eid (op_spec_node_id x) c" "ls = [c, receipt_event ''task_retargeted'' t ?eid]"
      using lines by auto
    show ?thesis
      using grow_pair[OF g l(1) False, of "''task_retargeted''" ls t] l(2) False t
      by (simp add: ledger_retarget_def ledger_state_def)
  qed (use lines g in \<open>simp add: ledger_retarget_def ledger_state_def\<close>)
qed

lemma op_step:
  assumes "growing existing n batch" and "eids_consistent existing"
    and "reconcile_op graph existing cs x r (s, batch) = Inr (s', batch')"
  shows "growing existing n batch' \<and>
    ledger_state existing n batch' =
      ledger_op (task_node existing) (linkage_of existing) cs x r (ledger_state existing n batch)"
proof (cases "orc_status r = OpStatusOk")
  case True
  then obtain ls where ls: "op_lines (reconcile_builder graph existing batch) cs x r = Inr ls" "batch' = batch @ ls"
    using assms(3) by (auto simp: reconcile_op_def split: if_splits)
  then show ?thesis
    using create_step[OF assms(1,2), of graph cs x r ls] close_step[OF assms(1), of graph cs x r ls]
      retarget_step[OF assms(1), of graph cs x r ls] True
    by (auto simp: op_lines_def ledger_op_def split: if_splits)
next
  case False
  then have "batch' = batch" using assms(3) by (auto simp: reconcile_op_def split: if_splits)
  then show ?thesis using assms(1) False by (simp add: ledger_op_def)
qed

lemma ops_run:
  assumes "growing existing n batch" and "eids_consistent existing"
    and "reconcile_ops graph existing cs byOp xs (s, batch) = Inr (s', batch')"
  shows "growing existing n batch' \<and>
    ledger_state existing n batch' =
      ledger_run (task_node existing) (linkage_of existing) cs byOp xs (ledger_state existing n batch)"
  using assms
proof (induction xs arbitrary: s batch)
  case (Cons x xs)
  obtain s1 b1 where st: "reconcile_op graph existing cs x (receipt_of byOp x) (s, batch) = Inr (s1, b1)"
    and rest: "reconcile_ops graph existing cs byOp xs (s1, b1) = Inr (s', batch')"
    using Cons.prems(3) by (auto elim!: bind_result_InrE)
  note step = op_step[OF Cons.prems(1,2) st]
  show ?case using Cons.IH[OF _ Cons.prems(2) rest] step by (simp add: ledger_run_def)
qed (simp add: ledger_run_def)

subsection \<open>Absorbed lines and the whole batch\<close>

lemma absorbed_lines_shape:
  "absorbed_lines b cs es = Inr ls \<Longrightarrow>
     \<forall>ev \<in> set ls. \<exists>e \<in> set es. change_line False (deriveRefreshEID (abe_node e) (Some (abe_before e)) (Some (abe_after e))) (abe_node e) ev \<and>
        \<not> eb_has_eid b (ev_eid ev)"
proof (induction es arbitrary: ls)
  case (Cons e es)
  let ?eid = "deriveRefreshEID (abe_node e) (Some (abe_before e)) (Some (abe_after e))"
  have ne: "?eid \<noteq> []" by (simp add: deriveRefreshEID_def)
  note line = change_line_blank[of "''modified''", OF _ ne, simplified]
  show ?case
  proof (cases "eb_has_eid b ?eid")
    case True
    then show ?thesis using Cons by auto
  next
    case False
    then obtain ev rest where "ls = ev # rest" "absorbed_lines b cs es = Inr rest" "change_line False ?eid (abe_node e) ev"
      using Cons.prems line by (auto simp: Let_def elim!: bind_result_InrE)
    then show ?thesis using Cons.IH False by (fastforce simp: change_line_def)
  qed
qed simp

lemma change_line_new: "change_line removed eid node c \<Longrightarrow> is_referent c \<and> \<not> is_task_bearing c \<and> wire c \<and> (ev_event c = ''removed'') = removed"
  by (auto simp: change_line_def is_referent_def is_change_event_def is_task_bearing_def)

definition refresh_line :: "string \<Rightarrow> string list \<Rightarrow> event" where
  "refresh_line h as = blank_event\<lparr>ev_event := ''refresh'', ev_git_head := h, ev_absorbed := as\<rparr>"

lemma refresh_line_fields [simp]:
  "\<not> is_referent (refresh_line h as)" "\<not> is_task_bearing (refresh_line h as)" "ev_event (refresh_line h as) = ''refresh''"
  "wire (refresh_line h as)" "\<not> is_change_event (refresh_line h as)" "ev_eid (refresh_line h as) = []"
  by (simp_all add: refresh_line_def is_referent_def is_change_event_def is_task_bearing_def blank_event_def
      wire_def encodeLine_def ingest_encodeLine_def is_receipt_event_def)

lemma BuildAbsorbed_shape:
  assumes "BuildAbsorbed b cs = Inr ls"
  shows "\<exists>changes. absorbed_lines b cs (cs_absorbed cs) = Inr changes \<and>
    ls = (if changes = [] then [] else changes @ [refresh_line (cs_git_head cs) (map ev_eid changes)])"
proof -
  obtain changes where "absorbed_lines b cs (cs_absorbed cs) = Inr changes"
    using assms by (auto simp: BuildAbsorbed_def elim!: bind_result_InrE)
  then show ?thesis
    using assms by (cases "changes = []") (simp_all add: BuildAbsorbed_def refresh_line_def)
qed

lemma grow_silent:
  assumes "growing existing n batch"
    and "\<And>ev. ev \<in> set ls \<Longrightarrow> wire ev \<and> \<not> is_task_bearing ev \<and> ev_event ev \<noteq> ''removed'' \<and>
      (is_referent ev \<longrightarrow> ev_eid ev \<notin> written existing batch)"
  shows "growing existing n (batch @ ls)"
    and "linkage_of (grown existing n (batch @ ls)) = linkage_of (grown existing n batch)"
proof -
  let ?J = "grown existing n batch" and ?new = "number_lines (n + length batch) ls"
  have J: "closed ?J" and wires: "\<forall>ev \<in> set batch. wire ev" and old: "new_eids existing batch"
    using assms(1) by (simp_all add: growing_def)
  have outside: "is_referent ev \<Longrightarrow> ev_eid ev \<notin> eids existing \<union> eids batch" if "ev \<in> set ls" for ev
    using assms(2)[OF that] not_written_new[of "ev_eid ev"] by (auto simp: wire_def)
  then have new: "new_eids ?J ?new" and all: "new_eids existing (batch @ ls)"
    using old by (auto simp: new_eids_def[of _ ls] new_eids_def[of existing])
  have numbered: "\<not> is_task_bearing ev \<and> ev_event ev \<noteq> ''removed''" if "ev \<in> set ?new" for ev
    using that assms(2) by (auto simp: number_lines_def dest!: in_set_enumerate_eq[THEN iffD1] nth_mem)
  have "closed (?J @ ?new)"
    by (rule closed_append[OF J new]) (use numbered in \<open>auto simp: needs_referent_def\<close>)
  with all wires assms(2) show "growing existing n (batch @ ls)"
    by (auto simp: growing_def grown_append)
  show "linkage_of (grown existing n (batch @ ls)) = linkage_of ?J"
    unfolding grown_append by (rule linkage_silent[OF J new numbered])
qed

lemma growing_start: "closed existing \<Longrightarrow> growing existing n []"
  by (simp add: growing_def grown_def new_eids_def)

lemma wire_encoded: "\<forall>ev \<in> set batch. wire ev \<Longrightarrow> List.map_filter encodeLine batch = batch"
  by (induction batch) (auto simp: wire_def)

lemma reconcile_batch_run:
  assumes "closed existing" and "eids_consistent existing"
    and "reconcile_batch graph existing cs byOp = Inr (s, batch)"
  shows "growing existing n batch \<and>
    linkage_of (grown existing n batch) =
      fst (ledger_run (task_node existing) (linkage_of existing) cs byOp (cs_ops cs) (linkage_of existing, known_eids existing))"
proof -
  obtain s1 ops where ops: "reconcile_ops graph existing cs byOp (cs_ops cs) (zero_summary, []) = Inr (s1, ops)"
    using assms(3) by (auto simp: reconcile_batch_def elim!: bind_result_InrE)
  then obtain ls where ls: "BuildAbsorbed (reconcile_builder graph existing ops) cs = Inr ls" and batch: "batch = ops @ ls"
    using assms(3) by (auto simp: reconcile_batch_def elim!: bind_result_InrE)
  have start: "ledger_state existing n [] = (linkage_of existing, known_eids existing)"
    by (simp add: ledger_state_def grown_def written_def known_eids_eids)
  note run = ops_run[OF growing_start[OF assms(1), of n] assms(2) ops, unfolded start]
  have silent: "wire ev \<and> \<not> is_task_bearing ev \<and> ev_event ev \<noteq> ''removed'' \<and>
      (is_referent ev \<longrightarrow> ev_eid ev \<notin> written existing ops)" if "ev \<in> set ls" for ev
    using BuildAbsorbed_shape[OF ls] that
    by (auto split: if_splits dest!: absorbed_lines_shape change_line_new)
  show ?thesis
    using grow_silent[of existing n ops ls, OF _ silent] run unfolding batch by (auto simp: ledger_state_def prod_eq_iff)
qed

subsection \<open>Properties of a run\<close>

lemma commit_batch_Inr:
  assumes "commit_batch schema_ok p j batch = Inr j'" and "\<forall>ev \<in> set batch. wire ev"
  shows "jnl_events j' = grown (jnl_events j) (jnl_lines j) batch" and "jnl_lines j' = jnl_lines j + length batch"
    and "batch \<noteq> [] \<Longrightarrow> Check (jnl_events j) batch = None"
proof -
  have "(batch = [] \<and> j' = j) \<or>
      (batch \<noteq> [] \<and> Check (jnl_events j) batch = None \<and> Append schema_ok j batch = Inr j')"
    using assms(1) by (auto simp: commit_batch_def split: if_splits option.splits)
  then show "jnl_events j' = grown (jnl_events j) (jnl_lines j) batch" "jnl_lines j' = jnl_lines j + length batch"
    "batch \<noteq> [] \<Longrightarrow> Check (jnl_events j) batch = None"
    using Append_Inr[of schema_ok j batch j'] wire_encoded[OF assms(2)] by (auto simp: grown_def)
qed

lemma Reconciler_ApplyE:
  assumes "Reconciler_Apply schema_ok p graph j cs rc = Inr (s, j')"
  obtains byOp s0 batch where "pairReceipts cs rc = Inr byOp"
    and "reconcile_batch graph (jnl_events j) cs byOp = Inr (s0, batch)"
    and "commit_batch schema_ok p j batch = Inr j'" and "s = count_lines batch s0"
  using assms by (auto simp: Reconciler_Apply_def elim!: bind_result_InrE)

lemma Reconciler_ledger:
  assumes "closed (jnl_events j)" and "eids_consistent (jnl_events j)"
    and "Reconciler_Apply schema_ok p graph j cs rc = Inr (s, j')" and "pairReceipts cs rc = Inr byOp"
  shows "closed (jnl_events j') \<and>
    linkage_of (jnl_events j') =
      fst (ledger_run (task_node (jnl_events j)) (linkage_of (jnl_events j)) cs byOp (cs_ops cs)
             (linkage_of (jnl_events j), known_eids (jnl_events j)))"
proof -
  obtain s0 batch where b: "reconcile_batch graph (jnl_events j) cs byOp = Inr (s0, batch)"
    and c: "commit_batch schema_ok p j batch = Inr j'"
    using assms(3,4) by (auto elim: Reconciler_ApplyE)
  note run = reconcile_batch_run[OF assms(1,2) b, of "jnl_lines j"]
  then have "\<forall>ev \<in> set batch. wire ev" by (simp add: growing_def)
  then show ?thesis using commit_batch_Inr(1)[OF c] run by (simp add: growing_def)
qed

end
