(* ===== verification/Ingest_Rerun.thy ===== *)
theory Ingest_Rerun
  imports Ingest_Ledger
begin

text \<open>
  What a run reports and what running it again does: the summary counts every operation once and
  every line once, and a second run of the same changeset and receipts writes nothing.
\<close>

subsection \<open>The summary\<close>

definition count_op :: "op \<Rightarrow> op_receipt \<Rightarrow> reconcile_summary \<Rightarrow> reconcile_summary" where
  "count_op x r s =
     (if orc_status r = OpStatusOk then count_ok x s
      else if orc_status r = OpStatusError then s\<lparr>rs_errors := Suc (rs_errors s)\<rparr>
      else s\<lparr>rs_skipped := Suc (rs_skipped s)\<rparr>)"

definition known_op :: "op \<Rightarrow> op_receipt \<Rightarrow> bool" where
  "known_op x r \<longleftrightarrow> op_type x \<in> {OpClose, OpCreate, OpRetarget} \<and>
     orc_status r \<in> {OpStatusOk, OpStatusError, OpStatusSkipped}"

lemma reconcile_op_Inr_iff:
  "reconcile_op graph existing cs x r (s, batch) = Inr (s', batch') \<longleftrightarrow>
     known_op x r \<and> s' = count_op x r s \<and>
     (if orc_status r = OpStatusOk
      then \<exists>ls. op_lines (reconcile_builder graph existing batch) cs x r = Inr ls \<and> batch' = batch @ ls
      else batch' = batch)"
proof -
  have statuses: "OpStatusOk \<noteq> OpStatusError" "OpStatusOk \<noteq> OpStatusSkipped" "OpStatusError \<noteq> OpStatusSkipped"
    by (simp_all add: OpStatusOk_def OpStatusError_def OpStatusSkipped_def)
  then show ?thesis
    by (auto simp: reconcile_op_def known_op_def count_op_def loop_simps)
qed

definition count_ops :: "(string \<rightharpoonup> op_receipt) \<Rightarrow> op list \<Rightarrow> reconcile_summary \<Rightarrow> reconcile_summary" where
  "count_ops byOp = fold (\<lambda>x. count_op x (receipt_of byOp x))"

lemma reconcile_ops_counts:
  "reconcile_ops graph existing cs byOp xs (s, batch) = Inr (s', batch') \<Longrightarrow>
     s' = count_ops byOp xs s \<and> (\<forall>x \<in> set xs. known_op x (receipt_of byOp x))"
proof (induction xs arbitrary: s batch)
  case (Cons x xs)
  then obtain s1 b1 where "reconcile_op graph existing cs x (receipt_of byOp x) (s, batch) = Inr (s1, b1)"
    and "reconcile_ops graph existing cs byOp xs (s1, b1) = Inr (s', batch')"
    by (auto elim!: bind_result_InrE)
  then show ?case using Cons.IH by (auto simp: reconcile_op_Inr_iff count_ops_def)
qed (simp add: count_ops_def)

definition having :: "string \<Rightarrow> (string \<rightharpoonup> op_receipt) \<Rightarrow> op list \<Rightarrow> nat" where
  "having status byOp xs = length (filter (\<lambda>x. orc_status (receipt_of byOp x) = status) xs)"

lemma count_ops_totals:
  assumes "\<forall>x \<in> set xs. known_op x (receipt_of byOp x)"
  shows "rs_ok_creates (count_ops byOp xs s) + rs_ok_closes (count_ops byOp xs s) + rs_ok_retargets (count_ops byOp xs s) =
           rs_ok_creates s + rs_ok_closes s + rs_ok_retargets s + having OpStatusOk byOp xs"
    and "rs_errors (count_ops byOp xs s) = rs_errors s + having OpStatusError byOp xs"
    and "rs_skipped (count_ops byOp xs s) = rs_skipped s + having OpStatusSkipped byOp xs"
    and "rs_events (count_ops byOp xs s) = rs_events s" and "rs_receipts (count_ops byOp xs s) = rs_receipts s"
  using assms
  by (induction xs arbitrary: s)
    (auto simp: count_ops_def count_op_def count_ok_def known_op_def having_def OpStatusOk_def OpStatusError_def OpStatusSkipped_def)

lemma having_total:
  assumes "\<forall>x \<in> set xs. known_op x (receipt_of byOp x)"
  shows "having OpStatusOk byOp xs + having OpStatusError byOp xs + having OpStatusSkipped byOp xs = length xs"
  using assms
  by (induction xs) (auto simp: having_def known_op_def OpStatusOk_def OpStatusError_def OpStatusSkipped_def)

lemma reconcile_batch_parts:
  assumes "reconcile_batch graph existing cs byOp = Inr (s, batch)"
  obtains ops ls where "reconcile_ops graph existing cs byOp (cs_ops cs) (zero_summary, []) = Inr (s, ops)"
    and "BuildAbsorbed (reconcile_builder graph existing ops) cs = Inr ls" and "batch = ops @ ls"
proof -
  obtain s1 ops where ops: "reconcile_ops graph existing cs byOp (cs_ops cs) (zero_summary, []) = Inr (s1, ops)"
    using assms by (auto simp: reconcile_batch_def elim!: bind_result_InrE)
  then show ?thesis
    using assms that by (auto simp: reconcile_batch_def elim!: bind_result_InrE)
qed

subsection \<open>Every line is an event or a receipt\<close>

definition counted :: "event \<Rightarrow> bool" where
  "counted ev \<longleftrightarrow> is_change_event ev \<or> is_receipt_event ev \<or> ev_event ev = ''refresh''"

lemma receipt_event_counted:
  "k \<in> {''task_created'', ''task_closed'', ''task_retargeted''} \<Longrightarrow> counted (receipt_event k t f)"
  by (auto simp: counted_def is_receipt_event_def)

lemma change_line_counted: "change_line removed eid node c \<Longrightarrow> counted c"
  by (simp add: change_line_def counted_def)

lemma wire_counted: "wire ev \<Longrightarrow> ev_event ev \<noteq> ''registered'' \<Longrightarrow> counted ev"
  by (auto simp: wire_def encodeLine_def counted_def split: if_splits)

lemma length_counted:
  "\<forall>ev \<in> set batch. counted ev \<Longrightarrow>
     length (filter is_change_event batch) +
     length (filter (\<lambda>ev. is_receipt_event ev \<or> ev_event ev = ''refresh'') batch) = length batch"
  by (induction batch) (auto simp: counted_def is_change_event_def is_receipt_event_def)

definition tallied :: "event \<Rightarrow> bool" where
  "tallied ev \<longleftrightarrow> counted ev \<and> wire ev"

lemma change_tallied: "change_line removed eid node c \<Longrightarrow> tallied c"
  using change_line_counted[of removed eid node c] by (simp add: tallied_def change_line_def)

lemma receipt_tallied [simp]:
  "tallied (receipt_event ''task_created'' t e)" "tallied (receipt_event ''task_closed'' t e)"
  "tallied (receipt_event ''task_retargeted'' t e)"
  by (simp_all add: tallied_def receipt_event_counted)

lemma op_lines_tallied:
  assumes "op_lines b cs x r = Inr ls"
  shows "\<forall>ev \<in> set ls. tallied ev"
proof -
  have epic: "\<forall>ev \<in> set ls. tallied ev" if "buildEpicCreate x r f reg = Inr ls" for f reg
    using buildEpicCreate_lines[OF that] by (auto split: if_splits)
  have cleanup: "\<forall>ev \<in> set ls. tallied ev" if "buildCleanupCreate b cs x r = Inr ls"
    using that by (rule buildCleanupCreate_lines) (auto split: if_splits dest: change_tallied)
  have node: "\<forall>ev \<in> set ls. tallied ev" if "buildNodeCreate b cs x r = Inr ls"
    using buildNodeCreate_lines[OF that] by (auto split: if_splits dest: change_tallied)
  have removed: "\<forall>ev \<in> set ls. tallied ev" if "buildRemoved b cs x r = Inr ls"
    using buildRemoved_lines[OF that] by (auto split: if_splits dest: change_tallied)
  have modified: "\<forall>ev \<in> set ls. tallied ev" if "buildModifiedFromClose b cs x t r = Inr ls" for t
    using buildModifiedFromClose_lines[OF that] by (auto split: if_splits dest: change_tallied)
  have retarget: "\<forall>ev \<in> set ls. tallied ev" if "BuildRetarget b cs x r = Inr ls"
    using that by (rule BuildRetarget_lines) (auto split: if_splits dest: change_tallied)
  show ?thesis
    using assms epic cleanup node removed modified retarget
    unfolding op_lines_def BuildClose_def BuildCreate_def
    by (cases "task_target x") (auto split: if_splits)
qed

lemma reconcile_ops_tallied:
  "reconcile_ops graph existing cs byOp xs (s, batch) = Inr (s', batch') \<Longrightarrow> \<forall>ev \<in> set batch. tallied ev \<Longrightarrow>
     \<forall>ev \<in> set batch'. tallied ev"
proof (induction xs arbitrary: s batch)
  case (Cons x xs)
  obtain s1 b1 where st: "reconcile_op graph existing cs x (receipt_of byOp x) (s, batch) = Inr (s1, b1)"
    and rest: "reconcile_ops graph existing cs byOp xs (s1, b1) = Inr (s', batch')"
    using Cons.prems(1) by (auto elim!: bind_result_InrE)
  have "\<forall>ev \<in> set b1. tallied ev"
    using st Cons.prems(2) op_lines_tallied by (auto simp: reconcile_op_Inr_iff split: if_splits)
  then show ?case using Cons.IH rest by blast
qed simp

lemma reconcile_batch_tallied:
  assumes "reconcile_batch graph existing cs byOp = Inr (s, batch)"
  shows "\<forall>ev \<in> set batch. tallied ev"
proof -
  obtain ops ls where ops: "reconcile_ops graph existing cs byOp (cs_ops cs) (zero_summary, []) = Inr (s, ops)"
    and ls: "BuildAbsorbed (reconcile_builder graph existing ops) cs = Inr ls" and batch: "batch = ops @ ls"
    using assms by (rule reconcile_batch_parts)
  have "\<forall>ev \<in> set ls. tallied ev"
    using BuildAbsorbed_shape[OF ls]
    by (auto simp: tallied_def split: if_splits dest!: absorbed_lines_shape)
      (auto simp: counted_def change_line_def)
  then show ?thesis using reconcile_ops_tallied[OF ops] by (auto simp: batch)
qed

text \<open>
  C3: the summary of a successful reconciliation accounts for everything: each operation of the
  changeset is counted once, as ok, skipped or failed by the status of its receipt, and each line
  appended to the journal once, as an event or as a receipt; what the journal held before stays
  its prefix.
\<close>

theorem Reconciler_Apply_accounts:
  assumes "Reconciler_Apply schema_ok p graph j cs rc = Inr (s, j')"
  shows "rs_ok_creates s + rs_ok_closes s + rs_ok_retargets s + rs_errors s + rs_skipped s = length (cs_ops cs) \<and>
    (\<exists>byOp. pairReceipts cs rc = Inr byOp \<and>
      rs_ok_creates s + rs_ok_closes s + rs_ok_retargets s = having OpStatusOk byOp (cs_ops cs) \<and>
      rs_errors s = having OpStatusError byOp (cs_ops cs) \<and> rs_skipped s = having OpStatusSkipped byOp (cs_ops cs)) \<and>
    length (jnl_events j') = length (jnl_events j) + rs_events s + rs_receipts s \<and>
    prefix (jnl_events j) (jnl_events j')"
proof -
  obtain byOp s0 batch where b: "pairReceipts cs rc = Inr byOp"
    "reconcile_batch graph (jnl_events j) cs byOp = Inr (s0, batch)"
    and c: "commit_batch schema_ok p j batch = Inr j'" and s: "s = count_lines batch s0"
    using assms by (rule Reconciler_ApplyE)
  obtain ops where "reconcile_ops graph (jnl_events j) cs byOp (cs_ops cs) (zero_summary, []) = Inr (s0, ops)"
    using reconcile_batch_parts[OF b(2)] by metis
  then have s0: "s0 = count_ops byOp (cs_ops cs) zero_summary" and k: "\<forall>x \<in> set (cs_ops cs). known_op x (receipt_of byOp x)"
    using reconcile_ops_counts by blast+
  have t: "\<forall>ev \<in> set batch. tallied ev" by (rule reconcile_batch_tallied[OF b(2)])
  then have j': "jnl_events j' = grown (jnl_events j) (jnl_lines j) batch"
    using commit_batch_Inr(1)[OF c] by (simp add: tallied_def)
  note totals = count_ops_totals[OF k, of zero_summary]
  show ?thesis
    using b(1) totals having_total[OF k] length_counted[of batch] t
    by (auto simp: s s0 count_lines_def zero_summary_def j' grown_def tallied_def)
qed

subsection \<open>Running again\<close>

text \<open>
  The node whose pairing an operation moves, if it moves one; a cleanup stands alone when no other
  operation of the changeset moves the pairing of its node.
\<close>

definition moved_node :: "(string \<Rightarrow> string option) \<Rightarrow> op \<Rightarrow> string option" where
  "moved_node node_of x =
     (if op_type x = OpClose then
        (if prefix ReasonRemovedPrefix (op_reason x) then Option.bind (task_target x) node_of else None)
      else Some (op_spec_node_id x))"

definition is_cleanup_op :: "op \<Rightarrow> bool" where
  "is_cleanup_op x \<longleftrightarrow> op_type x = OpCreate \<and> op_spec_node_kind x = KindCleanup"

definition cleanups_alone :: "(string \<Rightarrow> string option) \<Rightarrow> op list \<Rightarrow> bool" where
  "cleanups_alone node_of xs \<longleftrightarrow>
     (\<forall>i < length xs. is_cleanup_op (xs ! i) \<longrightarrow>
        (\<forall>k < length xs. k \<noteq> i \<longrightarrow> moved_node node_of (xs ! k) \<noteq> Some (op_spec_node_id (xs ! i))))"

definition cleanups_tasked :: "(string \<rightharpoonup> op_receipt) \<Rightarrow> op list \<Rightarrow> bool" where
  "cleanups_tasked byOp xs \<longleftrightarrow>
     (\<forall>x \<in> set xs. is_cleanup_op x \<longrightarrow> orc_status (receipt_of byOp x) = OpStatusOk \<longrightarrow>
        orc_task_id (receipt_of byOp x) \<noteq> [])"

lemma ledger_op_frame:
  "moved_node node_of x \<noteq> Some k \<Longrightarrow> fst (ledger_op node_of old cs x r st) k = fst st k"
  by (cases st) (auto simp: ledger_op_def ledger_close_def ledger_create_def ledger_retarget_def moved_node_def
      Let_def split: option.splits bool.splits)

definition extends :: "linkage \<times> string set \<Rightarrow> linkage \<times> string set \<Rightarrow> bool" where
  "extends st st' \<longleftrightarrow> dom (fst st) \<subseteq> dom (fst st') \<and> snd st \<subseteq> snd st'"

lemma extends_refl [simp]: "extends st st"
  by (simp add: extends_def)

lemma extends_upd [simp]:
  "extends (L, K) (L(k \<mapsto> v), K)" "extends (L, K) (L, insert e K)" "extends (L, K) (L(k \<mapsto> v), insert e K)"
  by (auto simp: extends_def)

lemma extends_trans: "extends a b \<Longrightarrow> extends b c \<Longrightarrow> extends a c"
  unfolding extends_def by (meson subset_trans)

lemma ledger_close_extends: "extends st (ledger_close node_of cs x st)"
  by (cases st) (simp add: ledger_close_def Let_def split: option.split)

lemma ledger_create_extends: "extends st (ledger_create old cs x task st)"
  by (cases st) (simp add: ledger_create_def Let_def split: option.split prod.split bool.split)

lemma ledger_retarget_extends: "extends st (ledger_retarget cs x st)"
  by (cases st) (simp add: ledger_retarget_def Let_def split: option.split)

lemma ledger_op_extends: "extends st (ledger_op node_of old cs x r st)"
  by (simp add: ledger_op_def ledger_close_extends ledger_create_extends ledger_retarget_extends)

lemma ledger_run_Nil [simp]: "ledger_run node_of old cs byOp [] st = st"
  by (simp add: ledger_run_def)

lemma ledger_run_Cons [simp]:
  "ledger_run node_of old cs byOp (x # xs) st = ledger_run node_of old cs byOp xs (ledger_op node_of old cs x (receipt_of byOp x) st)"
  by (simp add: ledger_run_def)

lemma ledger_run_append:
  "ledger_run node_of old cs byOp (xs @ ys) st = ledger_run node_of old cs byOp ys (ledger_run node_of old cs byOp xs st)"
  by (simp add: ledger_run_def)

lemma ledger_run_frame:
  "(\<And>x. x \<in> set xs \<Longrightarrow> moved_node node_of x \<noteq> Some k) \<Longrightarrow> fst (ledger_run node_of old cs byOp xs st) k = fst st k"
  by (induction xs arbitrary: st) (simp_all add: ledger_op_frame)

lemma ledger_run_extends: "extends st (ledger_run node_of old cs byOp xs st)"
proof (induction xs arbitrary: st)
  case (Cons x xs)
  show ?case unfolding ledger_run_Cons by (rule extends_trans[OF ledger_op_extends Cons.IH])
qed simp

lemma ledger_run_mono:
  "dom (fst st) \<subseteq> dom (fst (ledger_run node_of old cs byOp xs st)) \<and> snd st \<subseteq> snd (ledger_run node_of old cs byOp xs st)"
  using ledger_run_extends by (simp add: extends_def)

text \<open>What the journal after the run holds about an operation with an ok receipt.\<close>

definition settled :: "linkage \<Rightarrow> string set \<Rightarrow> changeset \<Rightarrow> op \<Rightarrow> bool" where
  "settled L K cs x \<longleftrightarrow>
     (let eid = DeriveEID (cs_git_head cs) (op_id x); node = op_spec_node_id x
      in if op_type x = OpCreate \<and> op_spec_node_kind x = KindProposalEpic then L node \<noteq> None
         else if is_cleanup_op x then
           (case L node of None \<Rightarrow> False | Some (t, rem) \<Rightarrow> if rem then t \<noteq> [] else eid \<in> K)
         else if op_type x = OpClose \<and> \<not> prefix ReasonRemovedPrefix (op_reason x) \<and> \<not> prefix ReasonModifiedPrefix (op_reason x)
         then True else eid \<in> K \<and> (op_type x \<noteq> OpCreate \<longrightarrow> task_target x \<noteq> None))"

lemma settled_quiet:
  assumes "settled (linkage_of evs) (known_eids evs) cs x" and "op_type x \<in> {OpClose, OpCreate, OpRetarget}"
  shows "op_lines (reconcile_builder graph evs []) cs x r = Inr []"
proof -
  let ?b = "reconcile_builder graph evs []" and ?eid = "DeriveEID (cs_git_head cs) (op_id x)"
  have K: "eb_has_eid ?b ?eid \<longleftrightarrow> ?eid \<in> known_eids evs" by (simp add: written_def known_eids_eids)
  have kinds: "KindProposalEpic \<noteq> KindCleanup" "OpCreate \<noteq> OpClose" "OpRetarget \<noteq> OpClose" "OpRetarget \<noteq> OpCreate"
    by (simp_all add: vocabulary_defs)
  consider (epic) "op_type x = OpCreate" "op_spec_node_kind x = KindProposalEpic" | (cleanup) "is_cleanup_op x"
    | (node) "op_type x = OpCreate" "op_spec_node_kind x \<noteq> KindProposalEpic" "op_spec_node_kind x \<noteq> KindCleanup"
    | (close) "op_type x = OpClose" | (retarget) "op_type x = OpRetarget"
    using assms(2) by (auto simp: is_cleanup_op_def)
  then show ?thesis
  proof cases
    case epic
    then have "walk_entry evs (op_spec_node_id x) \<noteq> None"
      using assms(1) by (auto simp: settled_def linkage_of_def)
    then have "\<exists>e \<in> set (jf_entries (journal_fold evs)). fe_key e = op_spec_node_id x"
      unfolding find_entry_by_key[symmetric] find_None_iff by auto
    then show ?thesis using epic kinds by (simp add: op_lines_def BuildCreate_def buildEpicCreate_def)
  next
    case cleanup
    then obtain e where e: "walk_entry evs (op_spec_node_id x) = Some e"
      "if fe_removed e then fe_task_id e \<noteq> [] else ?eid \<in> known_eids evs"
      using assms(1) kinds by (auto simp: settled_def linkage_of_def view_def is_cleanup_op_def Let_def split: option.splits)
    then show ?thesis
      using cleanup kinds K
      by (auto simp: op_lines_def BuildCreate_def is_cleanup_op_def buildCleanupCreate_def builder_entries Let_def)
  next
    case node
    then show ?thesis
      using assms(1) kinds K
      by (simp add: settled_def is_cleanup_op_def op_lines_def BuildCreate_def buildNodeCreate_def Let_def)
  next
    case close
    then show ?thesis
      using assms(1) kinds K
      by (auto simp: settled_def is_cleanup_op_def op_lines_def BuildClose_def buildRemoved_def buildModifiedFromClose_def Let_def
          split: option.splits if_splits)
  next
    case retarget
    then show ?thesis
      using assms(1) kinds K
      by (auto simp: settled_def is_cleanup_op_def op_lines_def BuildRetarget_def Let_def split: option.splits)
  qed
qed

lemma quiet_rerun:
  assumes "\<And>x. x \<in> set xs \<Longrightarrow> known_op x (receipt_of byOp x)"
    and "\<And>x. x \<in> set xs \<Longrightarrow> orc_status (receipt_of byOp x) = OpStatusOk \<Longrightarrow> settled (linkage_of evs) (known_eids evs) cs x"
  shows "reconcile_ops graph evs cs byOp xs (s, []) = Inr (count_ops byOp xs s, [])"
  using assms
proof (induction xs arbitrary: s)
  case (Cons x xs)
  have "reconcile_op graph evs cs x (receipt_of byOp x) (s, []) = Inr (count_op x (receipt_of byOp x) s, [])"
    unfolding reconcile_op_Inr_iff
    using Cons.prems(1)[of x] settled_quiet[OF Cons.prems(2)[of x]] by (simp add: known_op_def)
  then show ?case using Cons by (simp add: count_ops_def)
qed (simp add: count_ops_def)

lemma settled_keep:
  assumes "settled L K cs x" and "dom L \<subseteq> dom L'" and "K \<subseteq> K'"
    and "is_cleanup_op x \<Longrightarrow> L' (op_spec_node_id x) = L (op_spec_node_id x)"
  shows "settled L' K' cs x"
proof (cases "is_cleanup_op x")
  case True
  then show ?thesis
    using assms(1,3) assms(4)[OF True] by (auto simp: settled_def Let_def is_cleanup_op_def vocabulary_defs split: if_splits option.splits)
next
  case False
  then show ?thesis
    using assms(1-3) by (auto simp: settled_def Let_def split: if_splits)
qed

lemma op_settles:
  assumes g: "growing existing n batch" and con: "eids_consistent existing"
    and st: "reconcile_op graph existing cs x r (s, batch) = Inr (s', batch')" and ok: "orc_status r = OpStatusOk"
    and dom: "dom (linkage_of existing) \<subseteq> dom (linkage_of (grown existing n batch))"
    and cleanup: "is_cleanup_op x \<Longrightarrow> orc_task_id r \<noteq> [] \<and>
      linkage_of (grown existing n batch) (op_spec_node_id x) = linkage_of existing (op_spec_node_id x)"
  shows "settled (linkage_of (grown existing n batch')) (written existing batch') cs x"
proof -
  let ?b = "reconcile_builder graph existing batch"
  obtain ls where ls: "op_lines ?b cs x r = Inr ls" using st ok by (auto simp: reconcile_op_Inr_iff)
  have type: "op_type x \<in> {OpClose, OpCreate, OpRetarget}" using st by (auto simp: reconcile_op_Inr_iff known_op_def)
  have out: "(linkage_of (grown existing n batch'), written existing batch') =
      ledger_op (task_node existing) (linkage_of existing) cs x r (linkage_of (grown existing n batch), written existing batch)"
    using op_step[OF g con st] by (simp add: ledger_state_def)
  have kinds: "KindProposalEpic \<noteq> KindCleanup" "OpCreate \<noteq> OpClose" "OpRetarget \<noteq> OpClose" "OpRetarget \<noteq> OpCreate"
    by (simp_all add: vocabulary_defs)
  consider (epic) "op_type x = OpCreate" "op_spec_node_kind x = KindProposalEpic" | (cleanup) "is_cleanup_op x"
    | (node) "op_type x = OpCreate" "op_spec_node_kind x \<noteq> KindProposalEpic" "op_spec_node_kind x \<noteq> KindCleanup"
    | (close) "op_type x = OpClose" | (retarget) "op_type x = OpRetarget"
    using type by (auto simp: is_cleanup_op_def)
  then show ?thesis
  proof cases
    case epic
    then show ?thesis
      using out kinds ok dom
      by (auto simp: settled_def ledger_op_def ledger_create_def Let_def split: if_splits)
  next
    case cleanup
    then have "buildCleanupCreate ?b cs x r = Inr ls"
      using ls kinds by (simp add: op_lines_def BuildCreate_def is_cleanup_op_def)
    then obtain e where "walk_entry existing (op_spec_node_id x) = Some e"
      by (rule buildCleanupCreate_lines) (simp add: builder_entries)
    then show ?thesis
      using out kinds ok cleanup assms(6)[OF cleanup]
      by (auto simp: settled_def ledger_op_def ledger_create_def is_cleanup_op_def Let_def linkage_of_def[of existing] view_def
          split: if_splits bool.splits option.splits)
  next
    case node
    then show ?thesis
      using out kinds ok
      by (auto simp: settled_def ledger_op_def ledger_create_def is_cleanup_op_def Let_def split: if_splits)
  next
    case close
    have target: "task_target x \<noteq> None" if "prefix ReasonRemovedPrefix (op_reason x) \<or> prefix ReasonModifiedPrefix (op_reason x)"
      using ls close that by (auto simp: op_lines_def BuildClose_def buildRemoved_def split: option.splits if_splits)
    have node: "task_node existing t \<noteq> None"
      if "prefix ReasonRemovedPrefix (op_reason x)" "task_target x = Some t" "DeriveEID (cs_git_head cs) (op_id x) \<notin> written existing batch" for t
      using ls close that unfolding builder_entries(2)[of graph existing batch t, symmetric]
      by (auto simp: op_lines_def BuildClose_def buildRemoved_def Let_def split: option.splits if_splits)
    show ?thesis
      using out kinds ok close target node
      by (auto simp: settled_def ledger_op_def ledger_close_def is_cleanup_op_def Let_def split: if_splits option.splits)
  next
    case retarget
    then have "task_target x \<noteq> None"
      using ls kinds by (auto simp: op_lines_def BuildRetarget_def split: option.splits)
    then show ?thesis
      using out kinds ok retarget
      by (auto simp: settled_def ledger_op_def ledger_retarget_def is_cleanup_op_def Let_def split: if_splits option.splits)
  qed
qed

lemma reconcile_ops_append:
  "reconcile_ops graph existing cs byOp (xs @ ys) st =
     bind_result (reconcile_ops graph existing cs byOp xs st) (reconcile_ops graph existing cs byOp ys)"
  by (induction xs arbitrary: st) (simp_all add: bind_result_assoc cong: bind_result_cong)

lemma reconcile_ops_split:
  assumes "reconcile_ops graph existing cs byOp (pre @ x # post) st = Inr out"
  obtains s1 b1 s2 b2 where "reconcile_ops graph existing cs byOp pre st = Inr (s1, b1)"
    and "reconcile_op graph existing cs x (receipt_of byOp x) (s1, b1) = Inr (s2, b2)"
    and "reconcile_ops graph existing cs byOp post (s2, b2) = Inr out"
  using assms unfolding reconcile_ops_append reconcile_ops.simps(2)
  by (elim bind_result_InrE) (metis surj_pair)

lemma ops_settled:
  assumes "closed existing" and con: "eids_consistent existing"
    and run: "reconcile_ops graph existing cs byOp xs (zero_summary, []) = Inr (s, batch)"
    and alone: "cleanups_alone (task_node existing) xs" and tasked: "cleanups_tasked byOp xs"
    and x: "x \<in> set xs" "orc_status (receipt_of byOp x) = OpStatusOk"
  shows "settled (linkage_of (grown existing n batch)) (written existing batch) cs x"
proof -
  obtain pre post where xs: "xs = pre @ x # post" using x(1) by (meson split_list)
  obtain s1 b1 s2 b2 where p: "reconcile_ops graph existing cs byOp pre (zero_summary, []) = Inr (s1, b1)"
    and o: "reconcile_op graph existing cs x (receipt_of byOp x) (s1, b1) = Inr (s2, b2)"
    and q: "reconcile_ops graph existing cs byOp post (s2, b2) = Inr (s, batch)"
    using run unfolding xs by (rule reconcile_ops_split)
  let ?run = "ledger_run (task_node existing) (linkage_of existing) cs byOp"
  have start: "ledger_state existing n [] = (linkage_of existing, known_eids existing)"
    by (simp add: ledger_state_def grown_def written_def known_eids_eids)
  note p' = ops_run[OF growing_start[OF assms(1), of n] con p, unfolded start]
  note o' = op_step[OF conjunct1[OF p'] con o]
  note q' = ops_run[OF conjunct1[OF o'] con q]
  have others: "moved_node (task_node existing) y \<noteq> Some (op_spec_node_id x)"
    if c: "is_cleanup_op x" and y: "y \<in> set pre \<union> set post" for y
  proof -
    have i: "length pre < length xs" "xs ! length pre = x" by (simp_all add: xs)
    obtain k where "k < length xs" "k \<noteq> length pre" "xs ! k = y"
    proof (cases "y \<in> set pre")
      case True
      then obtain k where "k < length pre" "pre ! k = y" by (auto simp: in_set_conv_nth)
      then show ?thesis using that[of k] by (simp add: xs nth_append)
    next
      case False
      then obtain k where "k < length post" "post ! k = y" using y by (auto simp: in_set_conv_nth)
      then show ?thesis using that[of "Suc (length pre + k)"] by (simp add: xs nth_append)
    qed
    then show ?thesis using alone i c unfolding cleanups_alone_def by metis
  qed
  have "settled (linkage_of (grown existing n b2)) (written existing b2) cs x"
  proof (rule op_settles[OF conjunct1[OF p'] con o x(2)])
    show "dom (linkage_of existing) \<subseteq> dom (linkage_of (grown existing n b1))"
      using ledger_run_mono[of "(linkage_of existing, known_eids existing)"] p' by (metis fst_conv ledger_state_def)
    assume c: "is_cleanup_op x"
    have "fst (?run pre (linkage_of existing, known_eids existing)) (op_spec_node_id x) = linkage_of existing (op_spec_node_id x)"
      using others[OF c] by (subst ledger_run_frame) auto
    then show "orc_task_id (receipt_of byOp x) \<noteq> [] \<and>
        linkage_of (grown existing n b1) (op_spec_node_id x) = linkage_of existing (op_spec_node_id x)"
      using p' tasked x c by (auto simp: cleanups_tasked_def ledger_state_def prod_eq_iff)
  qed
  then show ?thesis
  proof (rule settled_keep)
    have out: "ledger_state existing n batch = ?run post (ledger_state existing n b2)" using q' by blast
    then show "dom (linkage_of (grown existing n b2)) \<subseteq> dom (linkage_of (grown existing n batch))"
      "written existing b2 \<subseteq> written existing batch"
      using ledger_run_mono[of "ledger_state existing n b2"] by (metis fst_conv snd_conv ledger_state_def)+
    assume c: "is_cleanup_op x"
    have "fst (?run post (ledger_state existing n b2)) (op_spec_node_id x) = fst (ledger_state existing n b2) (op_spec_node_id x)"
      using others[OF c] by (intro ledger_run_frame) auto
    then show "linkage_of (grown existing n batch) (op_spec_node_id x) = linkage_of (grown existing n b2) (op_spec_node_id x)"
      using out by (metis fst_conv ledger_state_def)
  qed
qed

lemma absorbed_lines_covered:
  "absorbed_lines b cs es = Inr ls \<Longrightarrow> e \<in> set es \<Longrightarrow>
     eb_has_eid b (deriveRefreshEID (abe_node e) (Some (abe_before e)) (Some (abe_after e))) \<or>
     deriveRefreshEID (abe_node e) (Some (abe_before e)) (Some (abe_after e)) \<in> eids ls"
proof (induction es arbitrary: ls)
  case (Cons x es)
  show ?case
  proof (cases "eb_has_eid b (deriveRefreshEID (abe_node x) (Some (abe_before x)) (Some (abe_after x)))")
    case True
    then show ?thesis using Cons by auto
  next
    case False
    then obtain ev rest where "ls = ev # rest" "absorbed_lines b cs es = Inr rest"
      "ev_eid ev = deriveRefreshEID (abe_node x) (Some (abe_before x)) (Some (abe_after x))"
      using Cons.prems(1) by (auto simp: Let_def elim!: bind_result_InrE)
    then show ?thesis using Cons by auto
  qed
qed simp

lemma absorbed_lines_quiet:
  "(\<And>e. e \<in> set es \<Longrightarrow> eb_has_eid b (deriveRefreshEID (abe_node e) (Some (abe_before e)) (Some (abe_after e)))) \<Longrightarrow>
     absorbed_lines b cs es = Inr []"
  by (induction es) auto

lemma deriveRefreshEID_not_Nil [simp]: "deriveRefreshEID n b a \<noteq> []"
  by (simp add: deriveRefreshEID_def)

lemma BuildAbsorbed_quiet:
  assumes "BuildAbsorbed (reconcile_builder graph existing ops) cs = Inr ls"
    and "written existing (ops @ ls) \<subseteq> known_eids evs"
  shows "BuildAbsorbed (reconcile_builder graph' evs []) cs = Inr []"
proof -
  let ?eid = "\<lambda>e. deriveRefreshEID (abe_node e) (Some (abe_before e)) (Some (abe_after e))"
  obtain changes where c: "absorbed_lines (reconcile_builder graph existing ops) cs (cs_absorbed cs) = Inr changes"
    and ls: "ls = (if changes = [] then [] else changes @ [refresh_line (cs_git_head cs) (map ev_eid changes)])"
    using BuildAbsorbed_shape[OF assms(1)] by blast
  have "?eid e \<in> known_eids evs" if "e \<in> set (cs_absorbed cs)" for e
  proof -
    have "?eid e \<in> written existing ops \<or> ?eid e \<in> eids ls"
      using absorbed_lines_covered[OF c that] ls by auto
    then have "?eid e \<in> written existing (ops @ ls)" by (auto simp: written_def known_eids_eids)
    then show ?thesis using assms(2) by blast
  qed
  then have "absorbed_lines (reconcile_builder graph' evs []) cs (cs_absorbed cs) = Inr []"
    by (intro absorbed_lines_quiet) (simp add: written_def)
  then show ?thesis by (simp add: BuildAbsorbed_def)
qed

lemma written_grown: "known_eids (grown existing n batch) = written existing batch"
  by (auto simp: written_def known_eids_eids)

text \<open>
  C2: ingest can be run again. After a successful reconciliation of a closed, consistent journal,
  in which every cleanup stands alone on its node and its task is named, the same changeset and
  receipts reconcile again whatever the live spec then holds, count the same operations and leave
  the journal as it is.
\<close>

theorem Reconciler_Apply_idempotent:
  assumes "closed (jnl_events j)" and "eids_consistent (jnl_events j)"
    and run: "Reconciler_Apply schema_ok p graph j cs rc = Inr (s, j')"
    and pair: "pairReceipts cs rc = Inr byOp"
    and "cleanups_alone (task_node (jnl_events j)) (cs_ops cs)" and "cleanups_tasked byOp (cs_ops cs)"
  shows "Reconciler_Apply schema_ok' p' graph' j' cs rc = Inr (s\<lparr>rs_events := 0, rs_receipts := 0\<rparr>, j')"
proof -
  obtain s0 batch where b: "reconcile_batch graph (jnl_events j) cs byOp = Inr (s0, batch)"
    and c: "commit_batch schema_ok p j batch = Inr j'" and s: "s = count_lines batch s0"
    using run pair by (auto elim: Reconciler_ApplyE)
  obtain ops ls where ops: "reconcile_ops graph (jnl_events j) cs byOp (cs_ops cs) (zero_summary, []) = Inr (s0, ops)"
    and ls: "BuildAbsorbed (reconcile_builder graph (jnl_events j) ops) cs = Inr ls" and batch: "batch = ops @ ls"
    using b by (rule reconcile_batch_parts)
  have s0: "s0 = count_ops byOp (cs_ops cs) zero_summary" and k: "\<forall>x \<in> set (cs_ops cs). known_op x (receipt_of byOp x)"
    using reconcile_ops_counts[OF ops] by blast+
  have wires: "\<forall>ev \<in> set batch. wire ev" using reconcile_batch_tallied[OF b] by (simp add: tallied_def)
  then have j': "jnl_events j' = grown (jnl_events j) (jnl_lines j) batch" using commit_batch_Inr(1)[OF c] by blast
  have K: "known_eids (jnl_events j') = written (jnl_events j) batch" by (simp add: j' written_grown)
  have L: "linkage_of (jnl_events j') = linkage_of (grown (jnl_events j) (jnl_lines j) ops)"
    using reconcile_batch_run[OF assms(1,2) b, of "jnl_lines j"]
      ops_run[OF growing_start[OF assms(1)] assms(2) ops, of "jnl_lines j"]
    by (simp add: j' ledger_state_def grown_def written_def known_eids_eids prod_eq_iff)
  have "settled (linkage_of (jnl_events j')) (known_eids (jnl_events j')) cs x"
    if "x \<in> set (cs_ops cs)" "orc_status (receipt_of byOp x) = OpStatusOk" for x
    unfolding L K
    by (rule settled_keep[OF ops_settled[OF assms(1,2) ops assms(5,6) that, of "jnl_lines j"]])
      (auto simp: batch written_def known_eids_eids)
  then have "reconcile_ops graph' (jnl_events j') cs byOp (cs_ops cs) (zero_summary, []) = Inr (s0, [])"
    unfolding s0 using k by (intro quiet_rerun) auto
  moreover have "BuildAbsorbed (reconcile_builder graph' (jnl_events j') []) cs = Inr []"
    by (rule BuildAbsorbed_quiet[OF ls]) (simp add: K batch)
  ultimately have "reconcile_batch graph' (jnl_events j') cs byOp = Inr (s0, [])"
    by (simp add: reconcile_batch_def)
  then show ?thesis
    using pair count_ops_totals(4,5)[OF k, of zero_summary]
    by (simp add: Reconciler_Apply_def commit_batch_def s count_lines_def s0 zero_summary_def)
qed

text \<open>
  C1: the reconciler implements the ledger. On a closed journal whose eids are consistent, a
  successful reconciliation leaves a closed journal, and the pairings its fold answers are those
  the ledger reaches by one update per operation with an ok receipt.
\<close>

theorem Reconciler_refines_ledger:
  assumes "closed (jnl_events j)" and "eids_consistent (jnl_events j)"
    and "Reconciler_Apply schema_ok p graph j cs rc = Inr (s, j')" and "pairReceipts cs rc = Inr byOp"
  shows "closed (jnl_events j') \<and>
    linkage_of (jnl_events j') =
      fst (ledger_run (task_node (jnl_events j)) (linkage_of (jnl_events j)) cs byOp (cs_ops cs)
             (linkage_of (jnl_events j), known_eids (jnl_events j)))"
  using Reconciler_ledger[OF assms] .

subsection \<open>A sample run\<close>

definition sample_journal :: journal_file where
  "sample_journal =
     \<lparr>jnl_events = number_lines 0
        [blank_event\<lparr>ev_event := ''registered'', ev_eid := ''abc:2024-a'', ev_proposal := ''2024-a''\<rparr>,
         blank_event\<lparr>ev_event := ''added'', ev_eid := ''old:op-1'', ev_node := ''n1'', ev_node_type := ''component''\<rparr>,
         receipt_event ''task_created'' ''t0'' ''old:op-1''], jnl_lines = 3\<rparr>"

definition sample_changeset :: changeset where
  "sample_changeset =
     \<lparr>cs_version = ChangesetVersion, cs_git_head = ''abc'', cs_proposal = ''2024-a'',
      cs_ops =
        [blank_op\<lparr>op_id := ''op-e'', op_type := OpCreate, op_spec_node_kind := KindProposalEpic, op_spec_node_id := ''2024-a''\<rparr>,
         blank_op\<lparr>op_id := ''op-2'', op_type := OpCreate, op_spec_node_kind := KindComponent, op_spec_node_id := ''n2''\<rparr>,
         blank_op\<lparr>op_id := ''op-3'', op_type := OpCreate, op_spec_node_kind := KindCleanup, op_spec_node_id := ''n1''\<rparr>],
      cs_absorbed = []\<rparr>"

definition sample_receipt :: "string \<Rightarrow> string \<Rightarrow> op_receipt" where
  "sample_receipt i t = blank_receipt\<lparr>orc_op_id := i, orc_status := OpStatusOk, orc_task_id := t\<rparr>"

definition sample_receipts :: receipts where
  "sample_receipts =
     \<lparr>rc_version = ReceiptsVersion, rc_status = StatusComplete,
      rc_ops = [sample_receipt ''op-e'' ''t1'', sample_receipt ''op-2'' ''t2'', sample_receipt ''op-3'' ''t3'']\<rparr>"

definition sample_graph :: metadata_lookup where
  "sample_graph n =
     (if n = ''n2'' then Some \<lparr>nmd_module = ''m'', nmd_component = ''C'', nmd_content_file = [],
        nmd_spec_hash = ''h'', nmd_node_type = ''component''\<rparr> else None)"

definition sample_profile :: profile where
  "sample_profile = DefaultProfile"

definition sample_ingest :: "(ingest_error, reconcile_summary \<times> journal_file) result" where
  "sample_ingest = Reconciler_Apply (\<lambda>_. True) sample_profile sample_graph sample_journal sample_changeset sample_receipts"

lemma sample_ingest_ok: "is_Inr sample_ingest"
  by code_simp

lemma sample_closed: "closed (jnl_events sample_journal)"
  by code_simp

lemma sample_consistent: "eids_consistent (jnl_events sample_journal)"
  by code_simp

lemma sample_alone: "cleanups_alone (task_node (jnl_events sample_journal)) (cs_ops sample_changeset)"
  by code_simp

lemma sample_paired: "pairReceipts sample_changeset sample_receipts = Inr [''op-e'' \<mapsto> sample_receipt ''op-e'' ''t1'',
    ''op-2'' \<mapsto> sample_receipt ''op-2'' ''t2'', ''op-3'' \<mapsto> sample_receipt ''op-3'' ''t3'']"
  by (simp add: pairReceipts_def sample_changeset_def sample_receipts_def sample_receipt_def blank_receipt_def blank_op_def)

lemma sample_tasked: "cleanups_tasked [''op-e'' \<mapsto> sample_receipt ''op-e'' ''t1'',
    ''op-2'' \<mapsto> sample_receipt ''op-2'' ''t2'', ''op-3'' \<mapsto> sample_receipt ''op-3'' ''t3''] (cs_ops sample_changeset)"
  by (simp add: cleanups_tasked_def sample_changeset_def receipt_of_def is_cleanup_op_def blank_op_def vocabulary_defs
      sample_receipt_def)

theorem Reconciler_Apply_accounts_witness:
  "\<exists>s j'. sample_ingest = Inr (s, j') \<and> rs_ok_creates s + rs_ok_closes s + rs_ok_retargets s + rs_errors s + rs_skipped s = 3"
proof -
  obtain s j' where r: "sample_ingest = Inr (s, j')" using is_InrE[OF sample_ingest_ok] by (metis surj_pair)
  note run = r[unfolded sample_ingest_def]
  have "length (cs_ops sample_changeset) = 3" by (simp add: sample_changeset_def)
  then show ?thesis
    using Reconciler_Apply_accounts[OF run] r by force
qed

theorem Reconciler_Apply_idempotent_witness:
  "\<exists>s j'. sample_ingest = Inr (s, j') \<and>
     Reconciler_Apply (\<lambda>_. False) sample_profile Map.empty j' sample_changeset sample_receipts =
       Inr (s\<lparr>rs_events := 0, rs_receipts := 0\<rparr>, j')"
proof -
  obtain s j' where r: "sample_ingest = Inr (s, j')" using is_InrE[OF sample_ingest_ok] by (metis surj_pair)
  note run = r[unfolded sample_ingest_def]
  show ?thesis
    using Reconciler_Apply_idempotent[OF sample_closed sample_consistent run sample_paired sample_alone sample_tasked] r by blast
qed

theorem Reconciler_refines_ledger_witness:
  "\<exists>s j'. sample_ingest = Inr (s, j') \<and> closed (jnl_events j')"
proof -
  obtain s j' where r: "sample_ingest = Inr (s, j')" using is_InrE[OF sample_ingest_ok] by (metis surj_pair)
  note run = r[unfolded sample_ingest_def]
  show ?thesis
    using Reconciler_refines_ledger[OF sample_closed sample_consistent run sample_paired] r by blast
qed

end
