(* ===== verification/Plan_Ingest.thy ===== *)
theory Plan_Ingest
  imports Plan_Command Ingest_Rerun
begin

text \<open>
  Between the two commands: the planner writes an idempotency label on every task it asks for, and
  ingest pairs the task with an event. The labels lead back from a task to its event because both
  sides derive the same eid, from the journal or from the changeset.
\<close>

lemma registration_by_stem:
  "registered_by_stem events stem = Some eid \<Longrightarrow> resolvePlanRegistration events stem = \<lparr>rg_eid = eid\<rparr>"
  unfolding registered_by_stem_def resolvePlanRegistration_def
  by (induction events rule: rev_induct) (auto split: if_splits)

lemma created_op:
  assumes "Build b actions = Inr cs" and "x \<in> set (cs_ops cs)" and "op_type x = OpCreate"
    and pc: "proposal_creates b actions"
  obtains a label es batch ix targets where
    "LabelFor (bl_git_head b) (bl_removal b) a (op_id x) (bl_registration b) = Inr label"
    and "createOp b a (op_id x) label batch ix es targets = Inr x"
    and "(act_node_type a = KindProposalEpic \<and> act_spec_node_id a = bl_proposal b) \<or> a \<in> set actions"
proof -
  obtain epic ordered es creates rets where
    epic: "ResolveEpicAction (bl_proposal b) (bl_lookup b) (bl_registration b) = Inr epic" and
    sorted: "Sort (with_epic epic (filter (\<lambda>a. act_type a = ActionCreate) actions))
       (prf_plan_relevant (profileOrDefault (bl_graph b))) = Inr ordered" and
    es: "layerEdgesFor ordered (map createOpID ordered) (prf_plan_relevant (profileOrDefault (bl_graph b))) = Inr es" and
    creates: "create_ops b (batch_of ordered) (op_index (map createOpID ordered))
       (sort (map act_task_id (filter (\<lambda>a. act_type a = ActionRetarget) actions)))
       (zip ordered (zip (map createOpID ordered) es)) = Inr creates" and
    rets: "retarget_ops b (batch_of ordered) (op_index (map createOpID ordered))
       (filter (\<lambda>a. act_type a = ActionRetarget) actions) = Inr rets" and
    ops: "cs_ops cs = creates @ rets @ map closeOp (filter (\<lambda>a. act_type a = ActionObsolete) actions)"
    by (rule Build_parts[OF assms(1)]) blast
  have ops_differ: "OpRetarget \<noteq> OpCreate" by (simp add: vocabulary_defs)
  have "op_type y = OpRetarget" if "retargetOp b a batch ix = Inr y" for y a batch ix
    using that by (auto simp: retargetOp_def bind_result_Inr_iff)
  then have "x \<notin> set rets"
    using retarget_ops_mem[OF rets, of x] assms(3) ops_differ by metis
  moreover have "x \<notin> closeOp ` set actions"
    using assms(3) by (auto simp: closeOp_def vocabulary_defs)
  ultimately have "x \<in> set creates" using assms(2) ops by auto
  then obtain k where k: "k < length creates" "creates ! k = x" by (auto simp: in_set_conv_nth)
  have len: "length creates = length (zip ordered (zip (map createOpID ordered) es))"
    using create_ops_nth(1)[OF creates] .
  obtain a i e where z: "zip ordered (zip (map createOpID ordered) es) ! k = (a, i, e)" by (metis surj_pair)
  obtain label where label: "LabelFor (bl_git_head b) (bl_removal b) a i (bl_registration b) = Inr label"
    and op: "createOp b a i label (batch_of ordered) (op_index (map createOpID ordered)) e
      (sort (map act_task_id (filter (\<lambda>a. act_type a = ActionRetarget) actions))) = Inr x"
    using create_ops_nth(2)[OF creates, of k a i e] k z len by auto
  have "(a, i, e) \<in> set (zip ordered (zip (map createOpID ordered) es))"
    using nth_mem[of k "zip ordered (zip (map createOpID ordered) es)"] k z len by simp
  then have "a \<in> set ordered" by (rule set_zip_leftD)
  then have "a \<in> set (with_epic epic (filter (\<lambda>a. act_type a = ActionCreate) actions))"
    using Sort_order[OF proposal_ids_distinct[OF pc epic] sorted] by (metis set_mset_mset)
  then have "(act_node_type a = KindProposalEpic \<and> act_spec_node_id a = bl_proposal b) \<or> a \<in> set actions"
    using ResolveEpicAction_Inr[OF epic] by (auto simp: with_epic_def split: option.splits)
  then show ?thesis using that label op createOp_op_id[OF op] by blast
qed

lemma createOp_identity:
  assumes "createOp b a i label batch ix es targets = Inr x"
  shows "op_idempotency x = Some \<lparr>idm_label = label\<rparr>" and "op_spec_node_id x = act_spec_node_id a"
    and "op_spec_node_kind x = (if act_node_type a = KindProposalEpic then KindProposalEpic
                                else if isCleanup a then KindCleanup else act_node_type a)"
  using assms by (auto simp: createOp_def bind_result_Inr_iff blank_op_def split: if_splits)

definition removals_have_eids :: "event list \<Rightarrow> bool" where
  "removals_have_eids events \<longleftrightarrow> (\<forall>ev \<in> set events. ev_event ev = ''removed'' \<longrightarrow> ev_eid ev \<noteq> [])"

text \<open>The label of an operation and the event of its receipt, for one action of the planner.\<close>

lemma label_of_create:
  assumes label: "LabelFor h (pf_removal (newPlanFold (journal_fold events) st)) a (op_id x)
      (resolvePlanRegistration events proposal) = Inr label"
    and op: "createOp b a (op_id x) label batch ix es targets = Inr x"
    and epic: "act_node_type a = KindProposalEpic \<Longrightarrow> act_spec_node_id a = proposal"
    and kind: "act_node_type a \<noteq> KindCleanup" and eids: "removals_have_eids events" and h: "cs_git_head cs = h"
    and ls: "BuildCreate (reconcile_builder graph events lines) cs x r = Inr ls"
    and ev: "ev \<in> set ls" "ev_event ev = ''task_created''"
  shows "label = IdempotencyLabelPrefix @ ev_for ev"
proof -
  let ?b = "reconcile_builder graph events lines" and ?node = "op_spec_node_id x"
  let ?eid = "DeriveEID (cs_git_head cs) (op_id x)"
  note x = createOp_identity[OF op]
  have not_created: "change_line removed e n c \<Longrightarrow> ev_event c \<noteq> ''task_created''" for removed e n c
    by (auto simp: change_line_def is_change_event_def)
  consider (epic) "act_node_type a = KindProposalEpic" | (cleanup) "act_node_type a \<noteq> KindProposalEpic" "isCleanup a"
    | (node) "act_node_type a \<noteq> KindProposalEpic" "\<not> isCleanup a" by blast
  then show ?thesis
  proof cases
    case epic
    then have "buildEpicCreate x r (eb_fold ?b) (eb_registered ?b) = Inr ls" "?node = proposal"
      using ls x assms(3) by (simp_all add: BuildCreate_def)
    then obtain eid where "registered_by_stem events proposal = Some eid" "ls = [receipt_event ''task_created'' (orc_task_id r) eid]"
      using buildEpicCreate_lines[of x r "eb_fold ?b" "eb_registered ?b" ls] ev by (auto split: if_splits)
    then show ?thesis
      using label epic ev registration_by_stem[of events proposal eid] by (auto simp: LabelFor_def split: if_splits)
  next
    case cleanup
    have kinds: "KindCleanup \<noteq> KindProposalEpic" by (simp add: vocabulary_defs)
    have "buildCleanupCreate ?b cs x r = Inr ls" using ls x cleanup kinds by (simp add: BuildCreate_def)
    then obtain entry where entry: "walk_entry events ?node = Some entry"
      and lines: "if fe_removed entry
         then ls = (if fe_task_id entry \<noteq> [] then []
                    else [receipt_event ''task_created'' (orc_task_id r) (ev_eid (fe_source entry))])
         else if ?eid \<in> written events lines then ls = []
         else \<exists>c. change_line True ?eid ?node c \<and> ls = [c, receipt_event ''task_created'' (orc_task_id r) ?eid]"
      by (rule buildCleanupCreate_lines) (simp add: builder_entries)
    have removal: "pf_removal (newPlanFold (journal_fold events) st) (act_spec_node_id a) =
        (if fe_removed entry then Some \<lparr>rm_removed = True, rm_eid = ev_eid (fe_source entry)\<rparr> else None)"
      using entry x(2) by (simp add: newPlanFold_lookup find_entry_by_key)
    have label': "label = cleanupLabel h (pf_removal (newPlanFold (journal_fold events) st)) a (op_id x)"
      using label cleanup by (auto simp: LabelFor_def split: if_splits)
    show ?thesis
    proof (cases "fe_removed entry")
      case True
      have "ev_eid (fe_source entry) \<noteq> []"
        using walk_entry_source[OF entry] walk_removal_sourced[OF entry] eids True
        by (auto simp: removal_sourced_def removals_have_eids_def)
      moreover have "ev_for ev = ev_eid (fe_source entry)" using lines True ev by (auto split: if_splits)
      ultimately show ?thesis using label' removal True by (simp add: cleanupLabel_def)
    next
      case False
      then have "ev_for ev = ?eid" using lines ev not_created by (auto split: if_splits)
      then show ?thesis using label' removal False h by (simp add: cleanupLabel_def)
    qed
  next
    case node
    then have "buildNodeCreate ?b cs x r = Inr ls" using ls x kind by (simp add: BuildCreate_def)
    from buildNodeCreate_lines[OF this] have "ev_for ev = ?eid" using ev not_created by (auto split: if_splits)
    then show ?thesis using label node h by (auto simp: LabelFor_def split: if_splits)
  qed
qed

text \<open>
  C5: the label leads back to the event. Whatever create operation of a planned changeset ingest
  turns into lines over the journal it was planned from, the event that the task is paired with
  has the eid the planner put into the task's idempotency label.
\<close>

theorem planned_label_names_event:
  assumes "plan_inputs_ok inp" and "KindCleanup \<notin> cc_node_type ` set (pin_changes inp)"
    and "removals_have_eids (pin_events inp)" and "runPlanE inp = Inr cs"
    and "x \<in> set (cs_ops cs)" and "op_type x = OpCreate"
    and "BuildCreate (reconcile_builder graph (pin_events inp) lines) cs x r = Inr ls"
    and "ev \<in> set ls" and "ev_event ev = ''task_created''"
  shows "op_idempotency x = Some \<lparr>idm_label = IdempotencyLabelPrefix @ ev_for ev\<rparr>"
proof -
  obtain absorbed changes where P: "plan_changes inp absorbed changes = Inr cs"
    and R: "(pin_absorb inp = None \<and> absorbed = [] \<and> changes = pin_changes inp) \<or>
         (\<exists>es. pin_absorb inp = Some es \<and> applyAbsorb es (pin_changes inp) = Inr (absorbed, changes))"
    by (rule runPlanE_Inr[OF assms(4)])
  have changes: "set changes \<subseteq> set (pin_changes inp)" "distinct (map cc_key changes)"
    using remaining_changes[OF R assms(1)] by simp_all
  obtain actions where B: "Build (plan_builder inp absorbed) actions = Inr cs"
    and A: "distinct (map act_spec_node_id actions)" "act_spec_node_id ` set actions \<subseteq> cc_key ` set changes"
      "act_node_type ` set actions \<subseteq> cc_node_type ` set changes"
    by (rule plan_changes_built[OF changes(2) P])
  have pc: "proposal_creates (plan_builder inp absorbed) actions"
    using assms(1) changes(1) by (intro plan_changes_creates[OF A(1,2) _ A(3)]) (auto simp: plan_inputs_ok_def)
  obtain a label es batch ix targets where
    label: "LabelFor (bl_git_head (plan_builder inp absorbed)) (bl_removal (plan_builder inp absorbed)) a (op_id x)
      (bl_registration (plan_builder inp absorbed)) = Inr label"
    and op: "createOp (plan_builder inp absorbed) a (op_id x) label batch ix es targets = Inr x"
    and a: "(act_node_type a = KindProposalEpic \<and> act_spec_node_id a = bl_proposal (plan_builder inp absorbed)) \<or> a \<in> set actions"
    by (rule created_op[OF B assms(5,6) pc])
  have types: "a \<in> set actions \<Longrightarrow> act_node_type a \<noteq> KindProposalEpic \<and> act_node_type a \<noteq> KindCleanup"
    using A(3) changes(1) assms(1,2) by (force simp: plan_inputs_ok_def)
  have "label = IdempotencyLabelPrefix @ ev_for ev"
  proof (rule label_of_create[OF label[unfolded plan_builder_fields] op _ _ assms(3) _ assms(7-9)])
    show "act_node_type a = KindProposalEpic \<Longrightarrow> act_spec_node_id a = pin_proposal inp" using a types by auto
    show "act_node_type a \<noteq> KindCleanup" using a types by (auto simp: vocabulary_defs)
    show "cs_git_head cs = pin_git_head inp" using B by (auto simp: Build_def bind_result_Inr_iff Let_def)
  qed
  then show ?thesis using createOp_identity(1)[OF op] by simp
qed

lemma sample_epic_lines:
  "map_sum (\<lambda>_. ()) (\<lambda>cs. (op_type (cs_ops cs ! 0),
       BuildCreate (reconcile_builder Map.empty (pin_events sample_inputs) []) cs (cs_ops cs ! 0) (sample_receipt [] ''t'')))
     (runPlanE sample_inputs) = Inr (OpCreate, Inr [receipt_event ''task_created'' ''t'' ''p:1''])"
  by code_simp

theorem planned_label_names_event_witness:
  "\<exists>cs. runPlanE sample_inputs = Inr cs \<and> op_idempotency (cs_ops cs ! 0) = Some \<lparr>idm_label = ''spex:p:1''\<rparr>"
proof -
  obtain cs where cs: "runPlanE sample_inputs = Inr cs" "length (cs_ops cs) = 2" by (rule sample_run_Inr)
  have lines: "op_type (cs_ops cs ! 0) = OpCreate"
    "BuildCreate (reconcile_builder Map.empty (pin_events sample_inputs) []) cs (cs_ops cs ! 0) (sample_receipt [] ''t'') =
       Inr [receipt_event ''task_created'' ''t'' ''p:1'']"
    using sample_epic_lines by (simp_all add: cs(1))
  have hyps: "KindCleanup \<notin> cc_node_type ` set (pin_changes sample_inputs)" "removals_have_eids (pin_events sample_inputs)"
    by code_simp+
  show ?thesis
    using planned_label_names_event[OF sample_inputs_ok(1) hyps cs(1) _ lines, of "receipt_event ''task_created'' ''t'' ''p:1''"] cs
    by (simp add: IdempotencyLabelPrefix_def)
qed

end
