(* ===== verification/Decimal.thy ===== *)
theory Decimal
  imports Prelude
begin

text \<open>
  The decimal digits Go's formatting verbs print, with the injectivity the generated names rely on.
\<close>

subsection \<open>Decimal numbers\<close>

text \<open>The verb \<open>%d\<close> of a natural number.\<close>

definition digit :: "nat \<Rightarrow> char" where
  "digit d = char_of (48 + d)"

fun decimal :: "nat \<Rightarrow> string" where
  "decimal n = (if n < 10 then [digit n] else decimal (n div 10) @ [digit (n mod 10)])"

declare decimal.simps [simp del]

lemma digit_inj: "digit a = digit b \<Longrightarrow> a < 10 \<Longrightarrow> b < 10 \<Longrightarrow> a = b"
  by (simp add: digit_def char_of_eq_iff of_char_of take_bit_eq_mod flip: of_nat_add)

lemma decimal_inj: "decimal a = decimal b \<Longrightarrow> a = b"
proof (induction a arbitrary: b rule: decimal.induct)
  case (1 a)
  have len: "decimal n \<noteq> []" "[] \<noteq> decimal n" for n by (subst decimal.simps; simp)+
  show ?case
  proof (cases "a < 10"; cases "b < 10")
    assume "a < 10" "b < 10"
    then show ?thesis using "1.prems" digit_inj by (simp add: decimal.simps)
  next
    assume "a < 10" "\<not> b < 10"
    then show ?thesis using "1.prems" len by (simp add: decimal.simps[of a] decimal.simps[of b] Cons_eq_append_conv append_eq_Cons_conv)
  next
    assume "\<not> a < 10" "b < 10"
    then show ?thesis using "1.prems" len by (simp add: decimal.simps[of a] decimal.simps[of b] Cons_eq_append_conv append_eq_Cons_conv)
  next
    assume ab: "\<not> a < 10" "\<not> b < 10"
    then have "decimal (a div 10) = decimal (b div 10)" "digit (a mod 10) = digit (b mod 10)"
      using "1.prems" by (simp_all add: decimal.simps[of a] decimal.simps[of b])
    then have "a div 10 = b div 10" "a mod 10 = b mod 10"
      using "1.IH"[OF ab(1)] digit_inj by simp_all
    then show ?thesis by (metis div_mult_mod_eq)
  qed
qed

text \<open>The verb of an integer.\<close>

definition signed_decimal :: "int \<Rightarrow> string" where
  "signed_decimal n = (if n < 0 then ''-'' @ decimal (nat (- n)) else decimal (nat n))"

end
