(* ===== verification/Ingest_Refresh.thy ===== *)
theory Ingest_Refresh
  imports Ingest_Ledger Decimal
begin

text \<open>
  Refresh mode (\<open>ingest/refresh.go\<close>): drift of the spec against the snapshot is written to the
  journal as change events closed by a refresh receipt, and the snapshot is replaced by the live
  tree, both or neither.
\<close>

subsection \<open>A fresh eid\<close>

text \<open>
  The candidates of the loop of \<open>uniqueRefreshEID\<close>: the base itself, then the base with the
  suffixes \<open>#2\<close>, \<open>#3\<close> and so on. The loop ends because the candidates differ and only finitely
  many eids are taken.
\<close>

definition eid_candidate :: "string \<Rightarrow> nat \<Rightarrow> string" where
  "eid_candidate base n = (if n < 2 then base else base @ ''#'' @ decimal n)"

lemma eid_candidate_inj: "1 \<le> a \<Longrightarrow> 1 \<le> b \<Longrightarrow> eid_candidate base a = eid_candidate base b \<Longrightarrow> a = b"
  by (auto simp: eid_candidate_def split: if_splits dest: decimal_inj)

function first_free_eid :: "string list \<Rightarrow> string \<Rightarrow> nat \<Rightarrow> string" where
  "first_free_eid seen base n =
     (if n \<noteq> 0 \<and> eid_candidate base n \<in> set seen then first_free_eid seen base (Suc n)
      else eid_candidate base n)"
  by pat_completeness auto

lemma taken_finite: "finite {m. 1 \<le> m \<and> eid_candidate base m \<in> set seen}"
proof (rule finite_imageD)
  show "finite (eid_candidate base ` {m. 1 \<le> m \<and> eid_candidate base m \<in> set seen})"
    by (rule finite_subset[of _ "set seen"]) auto
  show "inj_on (eid_candidate base) {m. 1 \<le> m \<and> eid_candidate base m \<in> set seen}"
    by (rule inj_onI) (blast dest: eid_candidate_inj)
qed

termination first_free_eid
proof (relation "measure (\<lambda>(seen, base, n). card {m. n \<le> m \<and> 1 \<le> m \<and> eid_candidate base m \<in> set seen})")
  fix seen base and n :: nat
  assume n: "n \<noteq> 0 \<and> eid_candidate base n \<in> set seen"
  have "finite {m. n \<le> m \<and> 1 \<le> m \<and> eid_candidate base m \<in> set seen}"
    by (rule finite_subset[OF _ taken_finite[of base seen]]) auto
  moreover have "{m. Suc n \<le> m \<and> 1 \<le> m \<and> eid_candidate base m \<in> set seen} \<subset>
      {m. n \<le> m \<and> 1 \<le> m \<and> eid_candidate base m \<in> set seen}"
    using n by (auto simp: psubset_eq) (metis (mono_tags, lifting) One_nat_def Suc_leI Suc_n_not_le_n le_refl mem_Collect_eq)
  ultimately show "((seen, base, Suc n), seen, base, n) \<in>
      measure (\<lambda>(seen, base, n). card {m. n \<le> m \<and> 1 \<le> m \<and> eid_candidate base m \<in> set seen})"
    by (simp add: psubset_card_mono)
qed simp

declare first_free_eid.simps [simp del]

definition uniqueRefreshEID :: "string list \<Rightarrow> string \<Rightarrow> string \<times> string list" where
  "uniqueRefreshEID seen base = (let eid = first_free_eid seen base 1 in (eid, eid # seen))"

lemma first_free_eid_fresh: "n \<noteq> 0 \<Longrightarrow> first_free_eid seen base n \<notin> set seen"
  by (induction seen base n rule: first_free_eid.induct) (subst first_free_eid.simps, simp)

lemma first_free_eid_base: "base \<notin> set seen \<Longrightarrow> first_free_eid seen base 1 = base"
  by (subst first_free_eid.simps) (simp add: eid_candidate_def)

lemma first_free_eid_prefix: "\<exists>suffix. first_free_eid seen base n = base @ suffix"
  by (induction seen base n rule: first_free_eid.induct) (subst first_free_eid.simps, auto simp: eid_candidate_def)

lemma first_free_eid_least:
  "n \<noteq> 0 \<Longrightarrow> \<exists>m \<ge> n. first_free_eid seen base n = eid_candidate base m \<and>
     (\<forall>i. n \<le> i \<and> i < m \<longrightarrow> eid_candidate base i \<in> set seen)"
proof (induction seen base n rule: first_free_eid.induct)
  case (1 seen base n)
  show ?case
  proof (cases "eid_candidate base n \<in> set seen")
    case True
    then obtain m where m: "m \<ge> Suc n" "first_free_eid seen base (Suc n) = eid_candidate base m"
      "\<forall>i. Suc n \<le> i \<and> i < m \<longrightarrow> eid_candidate base i \<in> set seen"
      using 1 by blast
    moreover have "\<forall>i. n \<le> i \<and> i < m \<longrightarrow> eid_candidate base i \<in> set seen"
      using m(3) True by (metis Suc_leI le_neq_implies_less)
    ultimately show ?thesis
      using True "1.prems" by (intro exI[of _ m]) (subst first_free_eid.simps, simp)
  next
    case False
    then show ?thesis by (intro exI[of _ n]) (subst first_free_eid.simps, auto)
  qed
qed

text \<open>
  \<open>uniqueRefreshEID\<close> ends, within one candidate more than there are eids taken: it returns the
  base when it is free and otherwise the base with a numbered suffix, in every case an eid that
  was not taken, and marks it taken.
\<close>

theorem uniqueRefreshEID_fresh:
  "\<exists>eid n. uniqueRefreshEID seen base = (eid, eid # seen) \<and> eid \<notin> set seen \<and> eid = eid_candidate base n \<and>
     1 \<le> n \<and> n \<le> Suc (card (set seen)) \<and> (base \<in> set seen \<or> eid = base)"
proof -
  obtain n where n: "n \<ge> 1" "first_free_eid seen base 1 = eid_candidate base n"
    and taken: "\<forall>i. 1 \<le> i \<and> i < n \<longrightarrow> eid_candidate base i \<in> set seen"
    using first_free_eid_least[of 1 seen base] by auto
  have "eid_candidate base ` {1..<n} \<subseteq> set seen" using taken by auto
  moreover have "inj_on (eid_candidate base) {1..<n}" by (rule inj_onI) (auto intro: eid_candidate_inj)
  ultimately have "card {1..<n} \<le> card (set seen)" by (metis card_image card_mono List.finite_set)
  then show ?thesis
    using n first_free_eid_fresh[of 1 seen base] first_free_eid_base[of base seen]
    by (intro exI[of _ "first_free_eid seen base 1"] exI[of _ n]) (auto simp: uniqueRefreshEID_def Let_def)
qed

subsection \<open>Names and paths of the live spec\<close>

record live_metadata =
  lmd_name :: string
  lmd_path :: string

definition contentPath :: "string \<Rightarrow> string \<Rightarrow> string" where
  "contentPath modPath content = (if content = [] then [] else filepath_Join [''spec'', modPath, content])"

definition index_all :: "(string \<times> live_metadata) list \<Rightarrow> (string \<rightharpoonup> live_metadata) \<Rightarrow> (string \<rightharpoonup> live_metadata)" where
  "index_all = fold (\<lambda>(i, md) idx. idx(i \<mapsto> md))"

definition module_live :: "module_decl \<Rightarrow> module_spec \<Rightarrow> (string \<times> live_metadata) list" where
  "module_live m ms =
     map (\<lambda>r. (mrq_id r, \<lparr>lmd_name = mrq_title r, lmd_path = []\<rparr>)) (ms_requirements ms) @
     map (\<lambda>a. (api_id a, \<lparr>lmd_name = api_name a, lmd_path = []\<rparr>)) (ms_apis ms) @
     map (\<lambda>c. (cmp_id c, \<lparr>lmd_name = cmp_name c, lmd_path = contentPath (mod_path m) (cmp_content c)\<rparr>)) (ms_components ms) @
     map (\<lambda>f. (dfl_id f, \<lparr>lmd_name = dfl_name f, lmd_path = contentPath (mod_path m) (dfl_content f)\<rparr>)) (ms_data_flows ms) @
     map (\<lambda>t. (tst_id t, \<lparr>lmd_name = tst_name t, lmd_path = contentPath (mod_path m) (tst_content t)\<rparr>)) (ms_test_sections ms)"

fun index_modules :: "(string \<rightharpoonup> module_spec) \<Rightarrow> module_decl list \<Rightarrow> (string \<rightharpoonup> live_metadata)
    \<Rightarrow> (string, string \<rightharpoonup> live_metadata) result" where
  "index_modules specs [] idx = Inr idx"
| "index_modules specs (m # ms) idx =
     (case specs (mod_id m) of
        None \<Rightarrow> Inl (mod_path m)
      | Some s \<Rightarrow> index_modules specs ms (index_all (module_live m s) idx))"

definition buildLiveIndex :: "project \<Rightarrow> (string \<rightharpoonup> module_spec) \<Rightarrow> (string, string \<rightharpoonup> live_metadata) result" where
  "buildLiveIndex proj specs =
     index_modules specs (prj_modules proj)
       (index_all (map (\<lambda>r. (req_id r, \<lparr>lmd_name = req_title r, lmd_path = []\<rparr>)) (prj_requirements proj)) Map.empty)"

subsection \<open>Absorbable changes\<close>

definition isAbsorbable :: "string \<Rightarrow> change_type \<Rightarrow> profile \<Rightarrow> bool" where
  "isAbsorbable nodeType dir p =
     (if nodeType = ''meta'' \<or> nodeType = ''module'' then False
      else case dir of
             Added \<Rightarrow> (case map_of (prf_absorbable p) nodeType of Some d \<Rightarrow> abs_added d | None \<Rightarrow> False)
           | Removed \<Rightarrow> (case map_of (prf_absorbable p) nodeType of Some d \<Rightarrow> abs_removed d | None \<Rightarrow> False)
           | Modified \<Rightarrow> False)"

lemma isAbsorbable_types: "isAbsorbable t d p \<Longrightarrow> t \<notin> {''meta'', ''module''}"
  by (auto simp: isAbsorbable_def)

definition refused_keys :: "change_type \<Rightarrow> profile \<Rightarrow> change list \<Rightarrow> string list" where
  "refused_keys dir p changes =
     map chg_key (filter (\<lambda>c. chg_type c = dir \<and> \<not> isAbsorbable (chg_node_type c) dir p) changes)"

subsection \<open>The change events\<close>

definition last_change :: "event list \<Rightarrow> (string \<rightharpoonup> event)" where
  "last_change existing = fold (\<lambda>ev m. if is_change_event ev then m(ev_node ev \<mapsto> ev) else m) existing Map.empty"

definition seen_eids :: "event list \<Rightarrow> string list" where
  "seen_eids existing = filter (\<lambda>e. e \<noteq> []) (map ev_eid existing)"

text \<open>Whether the journal already holds the change, so that a refresh after a lost snapshot write skips it.\<close>

definition already_journaled :: "(string \<rightharpoonup> event) \<Rightarrow> change \<Rightarrow> bool" where
  "already_journaled lastc c =
     (case lastc (chg_key c) of
        None \<Rightarrow> False
      | Some ev \<Rightarrow>
          (case chg_type c of
             Added \<Rightarrow> ev_event ev = ''added''
           | Removed \<Rightarrow> ev_event ev = ''removed''
           | Modified \<Rightarrow> ev_event ev = ''modified'' \<and> derefOrEmpty (ev_before ev) = chg_old_hash c \<and>
                         derefOrEmpty (ev_after ev) = chg_new_hash c))"

definition skip_change :: "(string \<rightharpoonup> event) \<Rightarrow> change \<Rightarrow> bool" where
  "skip_change lastc c \<longleftrightarrow> (chg_type c = Modified \<and> chg_node_type c = ''meta'') \<or> already_journaled lastc c"

definition change_before :: "change \<Rightarrow> string option" where
  "change_before c = (if chg_type c = Added then None else Some (chg_old_hash c))"

definition change_after :: "change \<Rightarrow> string option" where
  "change_after c = (if chg_type c = Removed then None else Some (chg_new_hash c))"

text \<open>The name and path of an event: of the live node, or of the journal for a removed one.\<close>

definition change_metadata :: "(string \<rightharpoonup> live_metadata) \<Rightarrow> journal_fold \<Rightarrow> (string \<rightharpoonup> event) \<Rightarrow> change \<Rightarrow> string \<times> string" where
  "change_metadata live f lastc c =
     (if chg_type c = Removed then
        (case find (\<lambda>e. fe_key e = chg_key c) (jf_entries f) of
           Some e \<Rightarrow> (ev_name (fe_source e), ev_path (fe_source e))
         | None \<Rightarrow> (case lastc (chg_key c) of Some ev \<Rightarrow> (ev_name ev, ev_path ev) | None \<Rightarrow> ([], [])))
      else (case live (chg_key c) of Some md \<Rightarrow> (lmd_name md, lmd_path md) | None \<Rightarrow> ([], [])))"

definition change_event :: "string \<Rightarrow> string \<times> string \<Rightarrow> change \<Rightarrow> string \<Rightarrow> event" where
  "change_event gitHead md c eid =
     blank_event\<lparr>ev_event := change_type_string (chg_type c), ev_eid := eid, ev_node := chg_key c,
       ev_name := fst md, ev_node_type := chg_node_type c, ev_module := chg_module c,
       ev_before := change_before c, ev_after := change_after c, ev_git_head := gitHead, ev_path := snd md\<rparr>"

record refresh_context =
  rx_live :: "string \<rightharpoonup> live_metadata"
  rx_fold :: journal_fold
  rx_last :: "string \<rightharpoonup> event"
  rx_git_head :: string

fun refresh_events :: "refresh_context \<Rightarrow> change list \<Rightarrow> string list \<Rightarrow> event list" where
  "refresh_events rx [] seen = []"
| "refresh_events rx (c # cs) seen =
     (if skip_change (rx_last rx) c then refresh_events rx cs seen
      else
        let (eid, seen') = uniqueRefreshEID seen (deriveRefreshEID (chg_key c) (change_before c) (change_after c))
        in change_event (rx_git_head rx) (change_metadata (rx_live rx) (rx_fold rx) (rx_last rx) c) c eid #
           refresh_events rx cs seen')"

definition refresh_batch :: "(string \<rightharpoonup> live_metadata) \<Rightarrow> string \<Rightarrow> event list \<Rightarrow> change list \<Rightarrow> event list" where
  "refresh_batch live gitHead existing changes =
     (let rx = \<lparr>rx_live = live, rx_fold = journal_fold existing, rx_last = last_change existing, rx_git_head = gitHead\<rparr>;
          evs = refresh_events rx changes (seen_eids existing)
      in evs @ [blank_event\<lparr>ev_event := ''refresh'', ev_git_head := gitHead, ev_absorbed := map ev_eid evs\<rparr>])"

subsection \<open>The handler\<close>

datatype refresh_error =
    RefreshNonEmptyArtifacts
  | RefreshNoCompletedCycle
  | RefreshRefusedAdded "string list"
  | RefreshRefusedRemoved "string list"
  | RefreshLiveIndex string
  | RefreshInvalid ingest_error
  | RefreshAppend ingest_error
  | RefreshJournalWrite
  | RefreshSnapshotWrite
  | RefreshRollbackFailed

record refresh_summary =
  rfs_events :: nat
  rfs_saved :: bool
  rfs_status :: string

record refresh_inputs =
  rfi_ops :: "op list"
  rfi_receipts :: "op_receipt list"
  rfi_git_head :: string
  rfi_profile :: profile
  rfi_project :: project
  rfi_specs :: "string \<rightharpoonup> module_spec"
  rfi_tree :: node
  rfi_loaded :: node
  rfi_now :: string
  rfi_append_ok :: bool
  rfi_write_ok :: bool
  rfi_restore_ok :: bool

text \<open>
  \<open>rfi_tree\<close> is the live tree and \<open>rfi_loaded\<close> the snapshot as it was loaded. The last three say which
  file operations succeed: reading the journal's bytes and writing the extended journal, writing the
  snapshot, and writing the journal's old bytes back. Each replaces its file by a rename, so one that fails
  leaves the file as it was: when the snapshot cannot be written the journal is restored, and when that
  fails as well the appended lines stay.
\<close>

definition Refresh_Apply :: "(event \<Rightarrow> bool) \<Rightarrow> refresh_inputs \<Rightarrow> project_state
    \<Rightarrow> (refresh_error, refresh_summary) result \<times> project_state" where
  "Refresh_Apply schema_ok inp ps =
     (let existing = jnl_events (ps_journal ps); p = rfi_profile inp; changes = Diff (rfi_tree inp) (Some (rfi_loaded inp))
      in if rfi_ops inp \<noteq> [] \<or> rfi_receipts inp \<noteq> [] then (Inl RefreshNonEmptyArtifacts, ps)
         else if existing = [] then (Inl RefreshNoCompletedCycle, ps)
         else if changes = [] then (Inr \<lparr>rfs_events = 0, rfs_saved = False, rfs_status = StatusComplete\<rparr>, ps)
         else if refused_keys Added p changes \<noteq> [] then (Inl (RefreshRefusedAdded (refused_keys Added p changes)), ps)
         else if refused_keys Removed p changes \<noteq> [] then (Inl (RefreshRefusedRemoved (refused_keys Removed p changes)), ps)
         else
           (case buildLiveIndex (rfi_project inp) (rfi_specs inp) of
              Inl e \<Rightarrow> (Inl (RefreshLiveIndex e), ps)
            | Inr live \<Rightarrow>
                let batch = refresh_batch live (rfi_git_head inp) existing changes
                in (case checkInvariant5 schema_ok batch p of
                      Some e \<Rightarrow> (Inl (RefreshInvalid e), ps)
                    | None \<Rightarrow>
                        (case Append schema_ok (ps_journal ps) batch of
                           Inl e \<Rightarrow> (Inl (RefreshAppend e), ps)
                         | Inr j' \<Rightarrow>
                             if \<not> rfi_append_ok inp then (Inl RefreshJournalWrite, ps)
                             else if rfi_write_ok inp
                             then (Inr \<lparr>rfs_events = length batch - 1, rfs_saved = True, rfs_status = StatusComplete\<rparr>,
                                   \<lparr>ps_journal = j', ps_snapshot = Some (EncodeSnapshot (rfi_tree inp) (rfi_now inp))\<rparr>)
                             else if rfi_restore_ok inp then (Inl RefreshSnapshotWrite, ps)
                             else (Inl RefreshRollbackFailed, ps\<lparr>ps_journal := j'\<rparr>)))))"

subsection \<open>What a refresh writes\<close>

definition refresh_eid :: "string list \<Rightarrow> change \<Rightarrow> string" where
  "refresh_eid seen c = first_free_eid seen (deriveRefreshEID (chg_key c) (change_before c) (change_after c)) 1"

definition event_of_change :: "refresh_context \<Rightarrow> change \<Rightarrow> string \<Rightarrow> event" where
  "event_of_change rx c eid =
     change_event (rx_git_head rx) (change_metadata (rx_live rx) (rx_fold rx) (rx_last rx) c) c eid"

lemma refresh_events_Cons:
  "refresh_events rx (c # cs) seen =
     (if skip_change (rx_last rx) c then refresh_events rx cs seen
      else event_of_change rx c (refresh_eid seen c) # refresh_events rx cs (refresh_eid seen c # seen))"
  by (simp add: uniqueRefreshEID_def refresh_eid_def event_of_change_def Let_def)

declare refresh_events.simps(2) [simp del]
declare refresh_events_Cons [simp]

lemma refresh_eid_not_Nil [simp]: "refresh_eid seen c \<noteq> []"
  using first_free_eid_prefix[of seen "deriveRefreshEID (chg_key c) (change_before c) (change_after c)" 1]
  by (auto simp: deriveRefreshEID_def refresh_eid_def)

lemma refresh_eid_fresh [simp]: "refresh_eid seen c \<notin> set seen"
  by (simp add: refresh_eid_def first_free_eid_fresh)

lemma change_type_string_kinds:
  "change_type_string t = ''added'' \<or> change_type_string t = ''modified'' \<or> change_type_string t = ''removed''"
  "change_type_string t = ''removed'' \<longleftrightarrow> t = Removed"
  by (cases t; simp add: change_type_string_def)+

lemma event_of_change_fields [simp]:
  "ev_eid (event_of_change rx c eid) = eid" "ev_node (event_of_change rx c eid) = chg_key c"
  "ev_before (event_of_change rx c eid) = change_before c" "ev_after (event_of_change rx c eid) = change_after c"
  "ev_node_type (event_of_change rx c eid) = chg_node_type c"
  by (simp_all add: event_of_change_def change_event_def)

lemma event_of_change_line:
  assumes "eid \<noteq> []"
  shows "change_line (chg_type c = Removed) eid (chg_key c) (event_of_change rx c eid)"
proof -
  let ?md = "change_metadata (rx_live rx) (rx_fold rx) (rx_last rx) c"
  have "event_of_change rx c eid =
      blank_event\<lparr>ev_event := change_type_string (chg_type c), ev_eid := eid, ev_node := chg_key c,
        ev_name := fst ?md, ev_node_type := chg_node_type c, ev_module := chg_module c,
        ev_before := change_before c, ev_after := change_after c, ev_git_head := rx_git_head rx,
        ev_proposal := [], ev_path := snd ?md\<rparr>"
    by (simp add: event_of_change_def change_event_def blank_event_def)
  then show ?thesis
    using change_line_blank[OF change_type_string_kinds(1) assms, of "chg_type c"]
    by (simp only: change_type_string_kinds(2))
qed

lemma refresh_events_nodes:
  "map ev_node (refresh_events rx changes seen) = map chg_key (filter (\<lambda>c. \<not> skip_change (rx_last rx) c) changes)"
  by (induction changes arbitrary: seen) auto

lemma refresh_events_eids:
  "distinct (map ev_eid (refresh_events rx changes seen)) \<and> eids (refresh_events rx changes seen) \<inter> set seen = {}"
proof (induction changes arbitrary: seen)
  case (Cons c cs)
  show ?case
    using Cons.IH[of seen] Cons.IH[of "refresh_eid seen c # seen"] by (auto simp: eids_def)
qed simp

definition records_change :: "refresh_context \<Rightarrow> change \<Rightarrow> event \<Rightarrow> bool" where
  "records_change rx c ev \<longleftrightarrow> \<not> skip_change (rx_last rx) c \<and>
     change_line (chg_type c = Removed) (ev_eid ev) (chg_key c) ev \<and>
     ev_before ev = change_before c \<and> ev_after ev = change_after c \<and> ev_node_type ev = chg_node_type c"

lemma event_of_change_records:
  "\<not> skip_change (rx_last rx) c \<Longrightarrow> eid \<noteq> [] \<Longrightarrow> records_change rx c (event_of_change rx c eid)"
  by (simp add: records_change_def event_of_change_line)

lemma refresh_events_lines:
  "\<forall>ev \<in> set (refresh_events rx changes seen). \<exists>c \<in> set changes. records_change rx c ev"
proof (induction changes arbitrary: seen)
  case (Cons c cs)
  show ?case using Cons.IH by (auto intro: event_of_change_records)
qed simp

lemma seen_eids_known: "set (seen_eids existing) = known_eids existing"
  by (auto simp: seen_eids_def known_eids_def)

lemma Refresh_saved:
  assumes "Refresh_Apply schema_ok inp ps = (Inr s, ps')" and "rfs_saved s"
  obtains live where "buildLiveIndex (rfi_project inp) (rfi_specs inp) = Inr live"
    and "Append schema_ok (ps_journal ps)
          (refresh_batch live (rfi_git_head inp) (jnl_events (ps_journal ps)) (Diff (rfi_tree inp) (Some (rfi_loaded inp)))) =
         Inr (ps_journal ps')"
    and "ps_snapshot ps' = Some (EncodeSnapshot (rfi_tree inp) (rfi_now inp))"
    and "rfs_events s = length (refresh_batch live (rfi_git_head inp) (jnl_events (ps_journal ps))
          (Diff (rfi_tree inp) (Some (rfi_loaded inp)))) - 1"
    and "refused_keys Added (rfi_profile inp) (Diff (rfi_tree inp) (Some (rfi_loaded inp))) = []"
    and "refused_keys Removed (rfi_profile inp) (Diff (rfi_tree inp) (Some (rfi_loaded inp))) = []"
    and "rfi_ops inp = []" and "rfi_receipts inp = []"
  using assms by (auto simp: Refresh_Apply_def Let_def split: if_splits sum.splits option.splits)

definition context_of :: "refresh_inputs \<Rightarrow> event list \<Rightarrow> (string \<rightharpoonup> live_metadata) \<Rightarrow> refresh_context" where
  "context_of inp existing live =
     \<lparr>rx_live = live, rx_fold = journal_fold existing, rx_last = last_change existing, rx_git_head = rfi_git_head inp\<rparr>"

lemma refresh_batch_shape:
  "refresh_batch live (rfi_git_head inp) existing changes =
     (let evs = refresh_events (context_of inp existing live) changes (seen_eids existing)
      in evs @ [refresh_line (rfi_git_head inp) (map ev_eid evs)])"
  by (simp add: refresh_batch_def context_of_def refresh_line_def Let_def)

lemma records_wire: "records_change rx c ev \<Longrightarrow> wire ev"
  by (simp add: records_change_def change_line_def)

lemma Refresh_journal:
  assumes "Refresh_Apply schema_ok inp ps = (Inr s, ps')" and "rfs_saved s"
  defines "existing \<equiv> jnl_events (ps_journal ps)" and "changes \<equiv> Diff (rfi_tree inp) (Some (rfi_loaded inp))"
  obtains live where
    "jnl_events (ps_journal ps') = grown existing (jnl_lines (ps_journal ps))
       (refresh_batch live (rfi_git_head inp) existing changes)"
    and "ps_snapshot ps' = Some (EncodeSnapshot (rfi_tree inp) (rfi_now inp))"
    and "rfs_events s = length (refresh_events (context_of inp existing live) changes (seen_eids existing))"
proof -
  obtain live where ap: "Append schema_ok (ps_journal ps) (refresh_batch live (rfi_git_head inp) existing changes) = Inr (ps_journal ps')"
    and snap: "ps_snapshot ps' = Some (EncodeSnapshot (rfi_tree inp) (rfi_now inp))"
    and n: "rfs_events s = length (refresh_batch live (rfi_git_head inp) existing changes) - 1"
    unfolding existing_def changes_def by (rule Refresh_saved[OF assms(1,2)]) blast
  have "\<forall>ev \<in> set (refresh_batch live (rfi_git_head inp) existing changes). wire ev"
    using refresh_events_lines[of "context_of inp existing live" changes "seen_eids existing"]
    by (auto simp: refresh_batch_shape Let_def dest: records_wire)
  then have "jnl_events (ps_journal ps') = grown existing (jnl_lines (ps_journal ps)) (refresh_batch live (rfi_git_head inp) existing changes)"
    using Append_Inr(1)[OF ap] by (simp add: wire_encoded grown_def existing_def)
  then show ?thesis using that snap n by (simp add: refresh_batch_shape Let_def)
qed

text \<open>
  C10: a refresh that saves writes exactly the drift: one event per change that is neither an
  envelope edit nor already the journal's last word on its node, in the order of the diff, each
  with an eid no line of the journal has and no two alike, closed by a receipt that lists them;
  the snapshot becomes the live tree.
\<close>

theorem Refresh_writes_drift:
  assumes "Refresh_Apply schema_ok inp ps = (Inr s, ps')" and "rfs_saved s"
  shows "\<exists>evs. jnl_events (ps_journal ps') = jnl_events (ps_journal ps) @
      number_lines (jnl_lines (ps_journal ps)) (evs @ [refresh_line (rfi_git_head inp) (map ev_eid evs)]) \<and>
    map ev_node evs = map chg_key (filter (\<lambda>c. \<not> skip_change (last_change (jnl_events (ps_journal ps))) c)
      (Diff (rfi_tree inp) (Some (rfi_loaded inp)))) \<and>
    distinct (map ev_eid evs) \<and> eids evs \<inter> known_eids (jnl_events (ps_journal ps)) = {} \<and>
    rfs_events s = length evs \<and> ps_snapshot ps' = Some (EncodeSnapshot (rfi_tree inp) (rfi_now inp))"
proof -
  let ?E = "jnl_events (ps_journal ps)" and ?changes = "Diff (rfi_tree inp) (Some (rfi_loaded inp))"
  obtain live where J: "jnl_events (ps_journal ps') = grown ?E (jnl_lines (ps_journal ps)) (refresh_batch live (rfi_git_head inp) ?E ?changes)"
    and snap: "ps_snapshot ps' = Some (EncodeSnapshot (rfi_tree inp) (rfi_now inp))"
    and n: "rfs_events s = length (refresh_events (context_of inp ?E live) ?changes (seen_eids ?E))"
    by (rule Refresh_journal[OF assms])
  let ?evs = "refresh_events (context_of inp ?E live) ?changes (seen_eids ?E)"
  have "map ev_node ?evs = map chg_key (filter (\<lambda>c. \<not> skip_change (last_change ?E) c) ?changes)"
    by (simp add: refresh_events_nodes context_of_def)
  moreover have "distinct (map ev_eid ?evs)" "eids ?evs \<inter> known_eids ?E = {}"
    using refresh_events_eids[of "context_of inp ?E live" ?changes "seen_eids ?E"] by (simp_all add: seen_eids_known)
  ultimately show ?thesis
    using J snap n by (intro exI[of _ ?evs]) (simp add: grown_def refresh_batch_shape Let_def)
qed

text \<open>
  C11: refreshing converges: once a refresh has saved, loading the snapshot it wrote gives a tree
  against which the same live tree has no drift, and refreshing again changes nothing.
\<close>

theorem Refresh_converges:
  assumes "Refresh_Apply schema_ok inp ps = (Inr s, ps')" and "rfs_saved s"
    and "distinct (tree_keys (rfi_tree inp))" and "nd_key (rfi_tree inp) \<noteq> []" and "node_depth (rfi_tree inp) \<le> fuel"
  shows "\<exists>snap t. ps_snapshot ps' = Some snap \<and> rebuildTree fuel snap = Some (Inr t) \<and>
    Refresh_Apply schema_ok' (inp\<lparr>rfi_loaded := t\<rparr>) ps' =
      (Inr \<lparr>rfs_events = 0, rfs_saved = False, rfs_status = StatusComplete\<rparr>, ps')"
proof -
  let ?E = "jnl_events (ps_journal ps)" and ?changes = "Diff (rfi_tree inp) (Some (rfi_loaded inp))"
  obtain live where J: "jnl_events (ps_journal ps') = grown ?E (jnl_lines (ps_journal ps)) (refresh_batch live (rfi_git_head inp) ?E ?changes)"
    and snap: "ps_snapshot ps' = Some (EncodeSnapshot (rfi_tree inp) (rfi_now inp))"
    by (rule Refresh_journal[OF assms(1,2)])
  have "rfi_ops inp = []" "rfi_receipts inp = []" by (rule Refresh_saved[OF assms(1,2)], simp)+
  moreover have "jnl_events (ps_journal ps') \<noteq> []"
    unfolding J by (simp add: grown_def refresh_batch_shape Let_def number_lines_append)
  moreover note snapshot_reload[OF assms(3-5), of "rfi_now inp"]
  ultimately show ?thesis
    using snap by (intro exI[of _ "EncodeSnapshot (rfi_tree inp) (rfi_now inp)"] exI[of _ "persisted (rfi_tree inp)"])
      (simp add: Refresh_Apply_def Let_def)
qed

text \<open>
  C12: a refresh changes the journal or the snapshot only when every added and every removed leaf is
  absorbable in its direction, which no module and no envelope leaf ever is. A success that changes
  anything replaces the snapshot by the live tree. A failure leaves both as they were, with one exception:
  when the snapshot cannot be written and the journal cannot be restored either, the command reports so,
  the snapshot is the old one and the journal keeps the lines that were appended.
\<close>

theorem Refresh_all_or_nothing:
  assumes "Refresh_Apply schema_ok inp ps = (r, ps')" and "ps' \<noteq> ps"
  shows "((\<exists>s. r = Inr s \<and> rfs_saved s) \<and> ps_snapshot ps' = Some (EncodeSnapshot (rfi_tree inp) (rfi_now inp)) \<or>
      r = Inl RefreshRollbackFailed \<and> \<not> rfi_write_ok inp \<and> \<not> rfi_restore_ok inp \<and> ps_snapshot ps' = ps_snapshot ps \<and>
      (\<exists>lines. jnl_events (ps_journal ps') = jnl_events (ps_journal ps) @ lines)) \<and>
    (\<forall>c \<in> set (Diff (rfi_tree inp) (Some (rfi_loaded inp))). chg_type c \<noteq> Modified \<longrightarrow>
       isAbsorbable (chg_node_type c) (chg_type c) (rfi_profile inp) \<and> chg_node_type c \<notin> {''meta'', ''module''})"
proof -
  let ?changes = "Diff (rfi_tree inp) (Some (rfi_loaded inp))"
  have gates: "refused_keys Added (rfi_profile inp) ?changes = []" "refused_keys Removed (rfi_profile inp) ?changes = []"
    using assms by (auto simp: Refresh_Apply_def Let_def split: if_splits sum.splits option.splits)
  have absorbable: "isAbsorbable (chg_node_type c) (chg_type c) (rfi_profile inp)"
    if "c \<in> set ?changes" "chg_type c \<noteq> Modified" for c
    using gates that by (cases "chg_type c") (auto simp: refused_keys_def filter_empty_conv)
  have "(\<exists>s. r = Inr s \<and> rfs_saved s) \<and> ps_snapshot ps' = Some (EncodeSnapshot (rfi_tree inp) (rfi_now inp)) \<or>
      r = Inl RefreshRollbackFailed \<and> \<not> rfi_write_ok inp \<and> \<not> rfi_restore_ok inp \<and> ps_snapshot ps' = ps_snapshot ps \<and>
      (\<exists>live. Append schema_ok (ps_journal ps)
         (refresh_batch live (rfi_git_head inp) (jnl_events (ps_journal ps)) ?changes) = Inr (ps_journal ps'))"
    using assms by (auto simp: Refresh_Apply_def Let_def split: if_splits sum.splits option.splits)
  moreover have "\<exists>lines. jnl_events j' = jnl_events j @ lines" if "Append schema_ok j batch = Inr j'" for j j' batch
    using that by (auto simp: Append_def split: if_splits option.splits)
  ultimately show ?thesis using absorbable by (blast dest: isAbsorbable_types)
qed

subsection \<open>What a refresh does to the pairings\<close>

lemma grow_change:
  assumes "closed J" and "is_change_event c" and "ev_eid c \<notin> eids J"
  shows "closed (J @ [c])" and "linkage_of (J @ [c]) = after_change c (linkage_of J)"
proof -
  have new: "new_eids J [c]" using assms(3) by (simp add: new_eids_def)
  show "closed (J @ [c])"
    by (rule closed_append[OF assms(1) new])
      (use assms(2) in \<open>auto simp: needs_referent_def is_task_bearing_def is_change_event_def\<close>)
  show "linkage_of (J @ [c]) = after_change c (linkage_of J)"
    using step_change[OF assms(1,3,2)] by (simp add: linkage_append[OF assms(1) new])
qed

lemma grow_changes:
  assumes "closed J" and "\<forall>ev \<in> set evs. is_change_event ev" and "distinct (map ev_eid evs)"
    and "eids evs \<inter> eids J = {}"
  shows "closed (J @ number_lines n evs) \<and>
    linkage_of (J @ number_lines n evs) = fold after_change evs (linkage_of J)"
  using assms
proof (induction evs arbitrary: J n)
  case (Cons ev evs)
  let ?ev = "ev\<lparr>ev_line := Suc n\<rparr>"
  note g = grow_change[OF Cons.prems(1), of ?ev]
  have "closed ((J @ [?ev]) @ number_lines (Suc n) evs) \<and>
      linkage_of ((J @ [?ev]) @ number_lines (Suc n) evs) = fold after_change evs (linkage_of (J @ [?ev]))"
    using Cons.prems g by (intro Cons.IH) (auto simp: eids_def)
  moreover have "linkage_of (J @ [?ev]) = after_change ev (linkage_of J)"
    using g Cons.prems by (simp add: after_change_def)
  ultimately show ?case by simp
qed simp

lemma fold_after_change:
  "fold after_change evs L k =
     (if \<exists>ev \<in> set evs. ev_event ev = ''removed'' \<and> ev_node ev = k then Some ([], True) else L k)"
  by (induction evs arbitrary: L) (auto simp: after_change_def)

lemma refresh_events_removed:
  "(\<exists>ev \<in> set (refresh_events rx changes seen). ev_event ev = ''removed'' \<and> ev_node ev = k) \<longleftrightarrow>
     (\<exists>c \<in> set changes. chg_type c = Removed \<and> \<not> skip_change (rx_last rx) c \<and> chg_key c = k)"
proof (induction changes arbitrary: seen)
  case (Cons c cs)
  have "ev_event (event_of_change rx c eid) = ''removed'' \<longleftrightarrow> chg_type c = Removed" for eid
    by (simp add: event_of_change_def change_event_def change_type_string_kinds(2))
  then show ?case using Cons.IH by auto
qed simp

lemma Refresh_linkage:
  assumes "closed (jnl_events (ps_journal ps))"
    and "Refresh_Apply schema_ok inp ps = (Inr s, ps')" and "rfs_saved s"
  shows "closed (jnl_events (ps_journal ps')) \<and>
    linkage_of (jnl_events (ps_journal ps')) = (\<lambda>k.
      if \<exists>c \<in> set (Diff (rfi_tree inp) (Some (rfi_loaded inp))).
           chg_type c = Removed \<and> \<not> skip_change (last_change (jnl_events (ps_journal ps))) c \<and> chg_key c = k
      then Some ([], True) else linkage_of (jnl_events (ps_journal ps)) k)"
proof -
  let ?E = "jnl_events (ps_journal ps)" and ?changes = "Diff (rfi_tree inp) (Some (rfi_loaded inp))"
  let ?n = "jnl_lines (ps_journal ps)"
  obtain live where J: "jnl_events (ps_journal ps') = grown ?E ?n (refresh_batch live (rfi_git_head inp) ?E ?changes)"
    by (rule Refresh_journal[OF assms(2,3)])
  let ?rx = "context_of inp ?E live"
  let ?evs = "refresh_events ?rx ?changes (seen_eids ?E)"
  let ?r = "refresh_line (rfi_git_head inp) (map ev_eid ?evs)"
  have lines: "\<forall>ev \<in> set ?evs. is_change_event ev \<and> ev_eid ev \<noteq> []"
    using refresh_events_lines[of ?rx ?changes "seen_eids ?E"]
    by (auto simp: records_change_def change_line_def wire_def is_referent_def)
  have eids: "distinct (map ev_eid ?evs)" "eids ?evs \<inter> known_eids ?E = {}"
    using refresh_events_eids[of ?rx ?changes "seen_eids ?E"] by (simp_all add: seen_eids_known)
  then have "eids ?evs \<inter> eids ?E = {}" using lines by (auto simp: known_eids_eids eids_def)
  then have G: "closed (?E @ number_lines ?n ?evs)"
      "linkage_of (?E @ number_lines ?n ?evs) = fold after_change ?evs (linkage_of ?E)"
    using grow_changes[OF assms(1) _ eids(1)] lines by simp_all
  have J': "jnl_events (ps_journal ps') = (?E @ number_lines ?n ?evs) @ number_lines (?n + length ?evs) [?r]"
    by (simp add: J grown_def refresh_batch_shape Let_def number_lines_append)
  have new: "new_eids (?E @ number_lines ?n ?evs) (number_lines (?n + length ?evs) [?r])"
    by (simp add: new_eids_def)
  have "closed (jnl_events (ps_journal ps'))"
    unfolding J' by (rule closed_append[OF G(1) new]) (simp add: needs_referent_def)
  moreover have "linkage_of (jnl_events (ps_journal ps')) = fold after_change ?evs (linkage_of ?E)"
    unfolding J' G(2)[symmetric] by (rule linkage_silent[OF G(1) new]) simp
  ultimately show ?thesis
    by (simp add: fun_eq_iff fold_after_change refresh_events_removed context_of_def)
qed

lemma number_lines_event: "ev \<in> set (number_lines n evs) \<Longrightarrow> \<exists>e \<in> set evs. ev_event e = ev_event ev"
  by (induction evs arbitrary: n) auto

text \<open>
  C14: a refresh leaves the tasks alone. On a closed journal a refresh that saves appends events of the
  drift and its own receipt and no line of a task's life, keeps the journal closed, and keeps the pairing of
  every node and every proposal, except for the nodes of the diff it records as removed.
\<close>

theorem Refresh_pairings:
  assumes "closed (jnl_events (ps_journal ps))"
    and "Refresh_Apply schema_ok inp ps = (Inr s, ps')" and "rfs_saved s"
  shows "closed (jnl_events (ps_journal ps')) \<and>
    (\<exists>lines. jnl_events (ps_journal ps') = jnl_events (ps_journal ps) @ lines \<and>
       (\<forall>ev \<in> set lines. ev_event ev \<in> {''added'', ''modified'', ''removed'', ''refresh''})) \<and>
    (\<forall>k. (\<nexists>c. c \<in> set (Diff (rfi_tree inp) (Some (rfi_loaded inp))) \<and> chg_type c = Removed \<and>
          \<not> skip_change (last_change (jnl_events (ps_journal ps))) c \<and> chg_key c = k) \<longrightarrow>
       linkage_of (jnl_events (ps_journal ps')) k = linkage_of (jnl_events (ps_journal ps)) k)"
proof -
  let ?E = "jnl_events (ps_journal ps)" and ?changes = "Diff (rfi_tree inp) (Some (rfi_loaded inp))"
  let ?n = "jnl_lines (ps_journal ps)"
  obtain live where J: "jnl_events (ps_journal ps') = grown ?E ?n (refresh_batch live (rfi_git_head inp) ?E ?changes)"
    by (rule Refresh_journal[OF assms(2,3)])
  let ?rx = "context_of inp ?E live"
  have evs: "ev_event ev \<in> {''added'', ''modified'', ''removed''}" if "ev \<in> set (refresh_events ?rx ?changes (seen_eids ?E))" for ev
    using refresh_events_lines[of ?rx ?changes "seen_eids ?E"] that
    by (auto simp: records_change_def change_line_def is_change_event_def)
  have "ev_event ev \<in> {''added'', ''modified'', ''removed'', ''refresh''}"
    if ev: "ev \<in> set (number_lines ?n (refresh_batch live (rfi_git_head inp) ?E ?changes))" for ev
  proof -
    obtain e where "e \<in> set (refresh_batch live (rfi_git_head inp) ?E ?changes)" "ev_event e = ev_event ev"
      using number_lines_event[OF ev] by (elim bexE)
    then show ?thesis using evs[of e] by (auto simp: refresh_batch_shape Let_def refresh_line_def)
  qed
  then show ?thesis using J Refresh_linkage[OF assms] unfolding grown_def by auto
qed

subsection \<open>A sample refresh\<close>

definition sample_tree :: "string \<Rightarrow> (string \<times> string) list \<Rightarrow> node" where
  "sample_tree h ls = Node ''project'' h ''project'' [] [] (map (\<lambda>(k, h). Node k h ''leaf'' ''component'' ''m'' [] []) ls) []"

definition sample_state :: project_state where
  "sample_state = \<lparr>ps_journal =
       \<lparr>jnl_events = [blank_event\<lparr>ev_event := ''added'', ev_eid := ''old:op-1'', ev_node := ''n1'', ev_line := 1\<rparr>,
                      receipt_event ''task_created'' ''t0'' ''old:op-1''\<lparr>ev_line := 2\<rparr>], jnl_lines = 2\<rparr>,
     ps_snapshot = None\<rparr>"

definition sample_refresh :: refresh_inputs where
  "sample_refresh =
     \<lparr>rfi_ops = [], rfi_receipts = [], rfi_git_head = ''abc'', rfi_profile = DefaultProfile,
      rfi_project = \<lparr>prj_name = [], prj_description = [], prj_version = [], prj_requirements = [], prj_modules = [],
        prj_sections = [], prj_spec_version = None\<rparr>,
      rfi_specs = Map.empty, rfi_tree = sample_tree ''r2'' [(''n2'', ''h2'')],
      rfi_loaded = sample_tree ''r1'' [(''n1'', ''h1'')], rfi_now = ''now'', rfi_append_ok = True, rfi_write_ok = True, rfi_restore_ok = True\<rparr>"

lemma sample_refresh_run:
  "fst (Refresh_Apply (\<lambda>_. True) sample_refresh sample_state) =
     Inr \<lparr>rfs_events = 2, rfs_saved = True, rfs_status = StatusComplete\<rparr>"
  by code_simp

lemma sample_refreshed:
  obtains ps' where "Refresh_Apply (\<lambda>_. True) sample_refresh sample_state =
    (Inr \<lparr>rfs_events = 2, rfs_saved = True, rfs_status = StatusComplete\<rparr>, ps')"
  using sample_refresh_run by (metis prod.collapse)

theorem Refresh_writes_drift_witness:
  "\<exists>ps'. snd (Refresh_Apply (\<lambda>_. True) sample_refresh sample_state) = ps' \<and>
     ps_snapshot ps' = Some (EncodeSnapshot (rfi_tree sample_refresh) ''now'')"
proof -
  obtain ps' where r: "Refresh_Apply (\<lambda>_. True) sample_refresh sample_state =
    (Inr \<lparr>rfs_events = 2, rfs_saved = True, rfs_status = StatusComplete\<rparr>, ps')" by (rule sample_refreshed)
  have now: "rfi_now sample_refresh = ''now''" by (simp add: sample_refresh_def)
  show ?thesis using Refresh_writes_drift[OF r] r now by auto
qed

theorem Refresh_converges_witness:
  "\<exists>t ps'. fst (Refresh_Apply (\<lambda>_. True) (sample_refresh\<lparr>rfi_loaded := t\<rparr>) ps') =
     Inr \<lparr>rfs_events = 0, rfs_saved = False, rfs_status = StatusComplete\<rparr>"
proof -
  obtain ps' where r: "Refresh_Apply (\<lambda>_. True) sample_refresh sample_state =
    (Inr \<lparr>rfs_events = 2, rfs_saved = True, rfs_status = StatusComplete\<rparr>, ps')" by (rule sample_refreshed)
  have t: "distinct (tree_keys (rfi_tree sample_refresh))" "nd_key (rfi_tree sample_refresh) \<noteq> []"
    "node_depth (rfi_tree sample_refresh) \<le> 2" by code_simp+
  have "rfs_saved \<lparr>rfs_events = 2, rfs_saved = True, rfs_status = StatusComplete\<rparr>" by simp
  from Refresh_converges[OF r this t, of "\<lambda>_. True"] obtain x where
    "Refresh_Apply (\<lambda>_. True) (sample_refresh\<lparr>rfi_loaded := x\<rparr>) ps' =
      (Inr \<lparr>rfs_events = 0, rfs_saved = False, rfs_status = StatusComplete\<rparr>, ps')" by (elim exE conjE)
  then have "fst (Refresh_Apply (\<lambda>_. True) (sample_refresh\<lparr>rfi_loaded := x\<rparr>) ps') =
      Inr \<lparr>rfs_events = 0, rfs_saved = False, rfs_status = StatusComplete\<rparr>" by (simp only: fst_conv)
  then show ?thesis by (intro exI)
qed

theorem Refresh_all_or_nothing_witness:
  "\<exists>ps'. snd (Refresh_Apply (\<lambda>_. True) sample_refresh sample_state) = ps' \<and>
     (\<exists>s. fst (Refresh_Apply (\<lambda>_. True) sample_refresh sample_state) = Inr s \<and> rfs_saved s)"
proof -
  obtain ps' where r: "Refresh_Apply (\<lambda>_. True) sample_refresh sample_state =
    (Inr \<lparr>rfs_events = 2, rfs_saved = True, rfs_status = StatusComplete\<rparr>, ps')" by (rule sample_refreshed)
  have "ps_snapshot (snd (Refresh_Apply (\<lambda>_. True) sample_refresh sample_state)) \<noteq> None" by code_simp
  then have "ps' \<noteq> sample_state" using r by (auto simp: sample_state_def)
  from Refresh_all_or_nothing[OF r this] show ?thesis using r by auto
qed

theorem Refresh_pairings_witness:
  "\<exists>ps'. snd (Refresh_Apply (\<lambda>_. True) sample_refresh sample_state) = ps' \<and> closed (jnl_events (ps_journal ps'))"
proof -
  obtain ps' where r: "Refresh_Apply (\<lambda>_. True) sample_refresh sample_state =
    (Inr \<lparr>rfs_events = 2, rfs_saved = True, rfs_status = StatusComplete\<rparr>, ps')" by (rule sample_refreshed)
  have c: "closed (jnl_events (ps_journal sample_state))" by code_simp
  show ?thesis using Refresh_pairings[OF c r] r by auto
qed

text \<open>
  The node of the sample that is removed has a live pairing. The refresh goes through all the same, and the
  fold then gives the node's entry as removed, without its task.
\<close>

lemma refresh_drops_live_pairing:
  "linkage_of (jnl_events (ps_journal sample_state)) ''n1'' = Some (''t0'', False) \<and>
   (\<exists>ps'. Refresh_Apply (\<lambda>_. True) sample_refresh sample_state =
       (Inr \<lparr>rfs_events = 2, rfs_saved = True, rfs_status = StatusComplete\<rparr>, ps') \<and>
     linkage_of (jnl_events (ps_journal ps')) ''n1'' = Some ([], True))"
proof -
  obtain ps' where r: "Refresh_Apply (\<lambda>_. True) sample_refresh sample_state =
    (Inr \<lparr>rfs_events = 2, rfs_saved = True, rfs_status = StatusComplete\<rparr>, ps')" by (rule sample_refreshed)
  have "linkage_of (jnl_events (ps_journal sample_state)) ''n1'' = Some (''t0'', False)" by code_simp
  moreover have "linkage_of (jnl_events (ps_journal (snd (Refresh_Apply (\<lambda>_. True) sample_refresh sample_state)))) ''n1'' =
      Some ([], True)" by code_simp
  ultimately show ?thesis using r by auto
qed

end
