(* ===== verification/Validator_Cycles.thy ===== *)
theory Validator_Cycles
  imports Prelude
begin

text \<open>
  \<open>detectStringCycles\<close> (\<open>validator/dag_checker.go\<close>): the depth first search with three colours that
  every graph check of the validator runs. Nodes are the identity hashes a file declares; an edge
  may point to a hash that no node has, which is a node without edges.

  The search is a recursive closure over shared maps, here a state that is threaded through; the
  walk back along the parents may in principle run forever, so both are partial functions whose
  value is \<open>None\<close> when they do not return. That they return is the first part of the theorem.
\<close>

subsection \<open>The search\<close>

datatype color = White | Gray | Black

type_synonym adjacency = "(string \<times> string list) list"

definition neighbors :: "adjacency \<Rightarrow> string \<Rightarrow> string list" where
  "neighbors adj node = (case map_of adj node of Some ts \<Rightarrow> ts | None \<Rightarrow> [])"

record dfs_state =
  dfs_color :: "string \<Rightarrow> color"
  dfs_parent :: "string \<Rightarrow> string"
  dfs_cycles :: "string list list"

text \<open>The walk \<open>for n := node; n != neighbor; n = parent[n] { path = append(path, n) }\<close>.\<close>

partial_function (option) climb :: "(string \<Rightarrow> string) \<Rightarrow> string \<Rightarrow> string \<Rightarrow> string list option" where
  "climb parent n target =
     (if n = target then Some []
      else Option.bind (climb parent (parent n) target) (\<lambda>path. Some (n # path)))"

declare climb.simps [code]

definition cycle_path :: "(string \<Rightarrow> string) \<Rightarrow> string \<Rightarrow> string \<Rightarrow> string list option" where
  "cycle_path parent node neighbor =
     Option.bind (climb parent node neighbor) (\<lambda>path. Some (rev (path @ [neighbor]) @ [neighbor]))"

text \<open>
  \<open>visit adj node todo st\<close> is what is left of the call \<open>dfs(node)\<close> when the neighbours \<open>todo\<close> have
  not been looked at yet.
\<close>

partial_function (option) visit :: "adjacency \<Rightarrow> string \<Rightarrow> string list \<Rightarrow> dfs_state \<Rightarrow> dfs_state option" where
  "visit adj node todo st =
     (case todo of
        [] \<Rightarrow> Some (st\<lparr>dfs_color := (dfs_color st)(node := Black)\<rparr>)
      | neighbor # rest \<Rightarrow>
          (case dfs_color st neighbor of
             White \<Rightarrow>
               Option.bind (visit adj neighbor (neighbors adj neighbor)
                   (st\<lparr>dfs_parent := (dfs_parent st)(neighbor := node),
                       dfs_color := (dfs_color st)(neighbor := Gray)\<rparr>))
                 (\<lambda>st'. visit adj node rest st')
           | Gray \<Rightarrow>
               Option.bind (cycle_path (dfs_parent st) node neighbor)
                 (\<lambda>path. visit adj node rest (st\<lparr>dfs_cycles := dfs_cycles st @ [path]\<rparr>))
           | Black \<Rightarrow> visit adj node rest st))"

declare visit.simps [code]

definition dfs :: "adjacency \<Rightarrow> string \<Rightarrow> dfs_state \<Rightarrow> dfs_state option" where
  "dfs adj node st =
     visit adj node (neighbors adj node) (st\<lparr>dfs_color := (dfs_color st)(node := Gray)\<rparr>)"

fun dfs_all :: "adjacency \<Rightarrow> string list \<Rightarrow> dfs_state \<Rightarrow> dfs_state option" where
  "dfs_all adj [] st = Some st"
| "dfs_all adj (k # ks) st =
     (if dfs_color st k = White then Option.bind (dfs adj k st) (dfs_all adj ks)
      else dfs_all adj ks st)"

definition detectStringCycles :: "adjacency \<Rightarrow> string list list option" where
  "detectStringCycles adj =
     map_option dfs_cycles
       (dfs_all adj (sort (map fst adj))
          \<lparr>dfs_color = (\<lambda>_. White), dfs_parent = (\<lambda>_. []), dfs_cycles = []\<rparr>)"

lemma visit_simps [simp]:
  "visit adj node [] st = Some (st\<lparr>dfs_color := (dfs_color st)(node := Black)\<rparr>)"
  "dfs_color st nb = White \<Longrightarrow> visit adj node (nb # rest) st =
     Option.bind (visit adj nb (neighbors adj nb)
         (st\<lparr>dfs_parent := (dfs_parent st)(nb := node), dfs_color := (dfs_color st)(nb := Gray)\<rparr>))
       (\<lambda>st'. visit adj node rest st')"
  "dfs_color st nb = Gray \<Longrightarrow> visit adj node (nb # rest) st =
     Option.bind (cycle_path (dfs_parent st) node nb)
       (\<lambda>path. visit adj node rest (st\<lparr>dfs_cycles := dfs_cycles st @ [path]\<rparr>))"
  "dfs_color st nb = Black \<Longrightarrow> visit adj node (nb # rest) st = visit adj node rest st"
  by (subst visit.simps; simp)+

lemma neighbors_mem: "v \<in> set (neighbors adj u) \<Longrightarrow> \<exists>ts. (u, ts) \<in> set adj \<and> v \<in> set ts"
  by (cases "map_of adj u") (auto simp: neighbors_def dest: map_of_SomeD)

subsection \<open>The specification: edges and cycles\<close>

definition adj_edges :: "adjacency \<Rightarrow> (string \<times> string) set" where
  "adj_edges adj = {(u, v). v \<in> set (neighbors adj u)}"

definition is_cycle :: "adjacency \<Rightarrow> string list \<Rightarrow> bool" where
  "is_cycle adj c \<longleftrightarrow> 2 \<le> length c \<and> hd c = last c \<and> distinct (tl c) \<and>
     successively (\<lambda>u v. v \<in> set (neighbors adj u)) c"

lemma successively_trancl:
  "successively (\<lambda>u v. (u, v) \<in> r) (x # xs) \<Longrightarrow> xs \<noteq> [] \<Longrightarrow> (x, last xs) \<in> r\<^sup>+"
proof (induction xs arbitrary: x)
  case (Cons y ys)
  then show ?case by (cases ys) (auto intro: trancl_into_trancl2)
qed simp

lemma is_cycle_not_acyclic:
  assumes "is_cycle adj c"
  shows "\<not> acyclic (adj_edges adj)"
proof -
  obtain x xs where c: "c = x # xs" "xs \<noteq> []"
    using assms by (cases c; cases "tl c") (auto simp: is_cycle_def)
  have "successively (\<lambda>u v. (u, v) \<in> adj_edges adj) c"
    using assms by (simp add: is_cycle_def adj_edges_def)
  then have "(x, last xs) \<in> (adj_edges adj)\<^sup>+"
    using c successively_trancl[of "adj_edges adj" x xs] by simp
  then show ?thesis using assms c by (auto simp: is_cycle_def acyclic_def)
qed

subsection \<open>The stack of open calls\<close>

text \<open>
  The grey nodes are the nodes of the open calls, innermost first. Each was entered from the next
  one, which is its parent and has an edge to it.
\<close>

abbreviation entered :: "adjacency \<Rightarrow> (string \<Rightarrow> string) \<Rightarrow> string list \<Rightarrow> bool" where
  "entered adj parent \<equiv> successively (\<lambda>x y. parent x = y \<and> x \<in> set (neighbors adj y))"

lemma climb_stack:
  assumes "entered adj parent (x # s)" and "t \<in> set (x # s)"
  shows "climb parent x t = Some (takeWhile (\<lambda>y. y \<noteq> t) (x # s))"
  using assms
proof (induction s arbitrary: x)
  case Nil
  then show ?case by (subst climb.simps) simp
next
  case (Cons y s)
  then show ?case by (subst climb.simps) auto
qed

lemma entered_upd:
  "z \<notin> set xs \<Longrightarrow> entered adj (parent(z := w)) xs = entered adj parent xs"
  by (rule successively_cong) auto

lemma takeWhile_up_to: "t \<in> set xs \<Longrightarrow> \<exists>ys. xs = takeWhile (\<lambda>y. y \<noteq> t) xs @ t # ys"
  by (induction xs) auto

lemma cycle_of_stack:
  assumes ent: "entered adj parent (x # s)" and dist: "distinct (x # s)" and t: "t \<in> set (x # s)"
    and edge: "t \<in> set (neighbors adj x)"
  shows "\<exists>path. cycle_path parent x t = Some path \<and> is_cycle adj path"
proof -
  define p where "p = takeWhile (\<lambda>y. y \<noteq> t) (x # s)"
  obtain ys where split: "x # s = (p @ [t]) @ ys"
    using takeWhile_up_to[OF t] by (auto simp: p_def)
  have "entered adj parent (p @ [t])" using ent unfolding split by (simp only: successively_append_iff)
  then have "successively (\<lambda>u v. v \<in> set (neighbors adj u)) (rev (p @ [t]))"
    unfolding successively_rev by (rule successively_mono) simp
  moreover have "last (rev (p @ [t])) = x" using split by (cases p) auto
  ultimately have "successively (\<lambda>u v. v \<in> set (neighbors adj u)) (rev (p @ [t]) @ [t])"
    using edge unfolding successively_append_iff by simp
  moreover have "distinct (rev p @ [t])" using dist unfolding split by auto
  moreover have "hd (rev (p @ [t]) @ [t]) = t" by simp
  ultimately have "is_cycle adj (rev (p @ [t]) @ [t])" by (simp add: is_cycle_def)
  then show ?thesis using climb_stack[OF ent t] by (simp add: cycle_path_def p_def)
qed

subsection \<open>The invariant of the search\<close>

definition black_edges :: "adjacency \<Rightarrow> dfs_state \<Rightarrow> (string \<times> string) set" where
  "black_edges adj st = {(u, v) \<in> adj_edges adj. dfs_color st u = Black}"

definition black_closed :: "adjacency \<Rightarrow> dfs_state \<Rightarrow> bool" where
  "black_closed adj st \<longleftrightarrow>
     (\<forall>u v. dfs_color st u = Black \<and> v \<in> set (neighbors adj u) \<longrightarrow> dfs_color st v = Black) \<and>
     acyclic (black_edges adj st)"

definition dfs_inv :: "adjacency \<Rightarrow> string list \<Rightarrow> dfs_state \<Rightarrow> bool" where
  "dfs_inv adj stack st \<longleftrightarrow>
     {x. dfs_color st x = Gray} = set stack \<and> distinct stack \<and> entered adj (dfs_parent st) stack \<and>
     (\<forall>c \<in> set (dfs_cycles st). is_cycle adj c) \<and>
     (dfs_cycles st = [] \<longrightarrow> black_closed adj st)"

lemma dfs_inv_gray: "dfs_inv adj stack st \<Longrightarrow> dfs_color st x = Gray \<longleftrightarrow> x \<in> set stack"
  unfolding dfs_inv_def by blast

text \<open>What a call may change: white nodes get a colour, black nodes stay black, cycles are added.\<close>

definition dfs_progress :: "dfs_state \<Rightarrow> dfs_state \<Rightarrow> bool" where
  "dfs_progress st st' \<longleftrightarrow>
     (\<forall>x. dfs_color st' x = White \<longrightarrow> dfs_color st x = White) \<and>
     (\<forall>x. dfs_color st x = Black \<longrightarrow> dfs_color st' x = Black) \<and>
     (\<exists>cs. dfs_cycles st' = dfs_cycles st @ cs)"

lemma dfs_progress_trans: "dfs_progress a b \<Longrightarrow> dfs_progress b c \<Longrightarrow> dfs_progress a c"
  unfolding dfs_progress_def by (metis append.assoc)

lemma dfs_progress_Nil: "dfs_progress a b \<Longrightarrow> dfs_cycles b = [] \<Longrightarrow> dfs_cycles a = []"
  by (auto simp: dfs_progress_def)

lemma dfs_progress_Black: "dfs_progress a b \<Longrightarrow> dfs_color a x = Black \<Longrightarrow> dfs_color b x = Black"
  by (simp add: dfs_progress_def)

lemma black_edges_unchanged:
  "(\<And>x. dfs_color st' x = Black \<longleftrightarrow> dfs_color st x = Black) \<Longrightarrow> black_edges adj st' = black_edges adj st"
  by (auto simp: black_edges_def)

lemma black_closed_unchanged:
  "(\<And>x. dfs_color st' x = Black \<longleftrightarrow> dfs_color st x = Black) \<Longrightarrow> black_closed adj st' = black_closed adj st"
  by (simp add: black_closed_def black_edges_unchanged[of st' st])

lemma dfs_inv_push:
  assumes inv: "dfs_inv adj (node # s) st" and white: "dfs_color st nb = White"
    and edge: "nb \<in> set (neighbors adj node)"
  shows "dfs_inv adj (nb # node # s)
           (st\<lparr>dfs_parent := (dfs_parent st)(nb := node), dfs_color := (dfs_color st)(nb := Gray)\<rparr>)"
    (is "dfs_inv adj _ ?st")
proof -
  have gray: "{x. dfs_color st x = Gray} = set (node # s)" using inv unfolding dfs_inv_def by blast
  have fresh: "nb \<notin> set (node # s)" using dfs_inv_gray[OF inv, of nb] white by simp
  have "black_closed adj ?st = black_closed adj st" by (rule black_closed_unchanged) (simp add: white)
  moreover have "{x. dfs_color ?st x = Gray} = set (nb # node # s)" using gray by auto
  moreover have "entered adj (dfs_parent ?st) (nb # node # s)"
    using inv edge entered_upd[where adj = adj and parent = "dfs_parent st" and w = node, OF fresh] by (simp add: dfs_inv_def)
  ultimately show ?thesis using inv fresh unfolding dfs_inv_def by simp
qed

lemma dfs_inv_start:
  assumes inv: "dfs_inv adj [] st" and white: "dfs_color st k = White"
  shows "dfs_inv adj [k] (st\<lparr>dfs_color := (dfs_color st)(k := Gray)\<rparr>)" (is "dfs_inv adj _ ?st")
proof -
  have "black_closed adj ?st = black_closed adj st" by (rule black_closed_unchanged) (simp add: white)
  moreover have "{x. dfs_color ?st x = Gray} = {k}" using inv by (auto simp: dfs_inv_def)
  ultimately show ?thesis using inv by (simp add: dfs_inv_def)
qed

lemma acyclic_extend:
  assumes "acyclic r" and "\<And>u v. (u, v) \<in> r \<Longrightarrow> u \<noteq> n \<and> v \<noteq> n" and "n \<notin> vs"
  shows "acyclic (r \<union> {n} \<times> vs)"
proof -
  have out: "(u, v) \<in> (r \<union> {n} \<times> vs)\<^sup>+ \<Longrightarrow> v \<noteq> n \<and> (u = n \<or> (u, v) \<in> r\<^sup>+)" for u v
    by (induction rule: trancl_induct) (use assms(2,3) in \<open>auto intro: trancl_into_trancl\<close>)
  then show ?thesis using assms(1) unfolding acyclic_def by blast
qed

lemma black_closed_finish:
  assumes bc: "black_closed adj st" and gray: "dfs_color st node \<noteq> Black"
    and succ: "\<And>v. v \<in> set (neighbors adj node) \<Longrightarrow> dfs_color st v = Black"
  shows "black_closed adj (st\<lparr>dfs_color := (dfs_color st)(node := Black)\<rparr>)" (is "black_closed adj ?st")
proof -
  have closed: "dfs_color st v = Black" if "(u, v) \<in> black_edges adj st" for u v
    using bc that by (auto simp: black_closed_def black_edges_def adj_edges_def)
  have "black_edges adj ?st = black_edges adj st \<union> {node} \<times> set (neighbors adj node)"
    by (auto simp: black_edges_def adj_edges_def split: if_splits)
  moreover have "acyclic (black_edges adj st \<union> {node} \<times> set (neighbors adj node))"
  proof (rule acyclic_extend)
    show "acyclic (black_edges adj st)" using bc by (simp add: black_closed_def)
    show "u \<noteq> node \<and> v \<noteq> node" if "(u, v) \<in> black_edges adj st" for u v
      using that closed[OF that] gray by (auto simp: black_edges_def)
    show "node \<notin> set (neighbors adj node)" using succ gray by auto
  qed
  moreover have "dfs_color ?st v = Black" if "dfs_color ?st u = Black" "v \<in> set (neighbors adj u)" for u v
    using that succ bc by (cases "u = node") (auto simp: black_closed_def)
  ultimately show ?thesis unfolding black_closed_def by metis
qed

lemma dfs_inv_finish:
  assumes inv: "dfs_inv adj (node # s) st"
    and succ: "dfs_cycles st = [] \<Longrightarrow> \<forall>v \<in> set (neighbors adj node). dfs_color st v = Black"
  shows "dfs_inv adj s (st\<lparr>dfs_color := (dfs_color st)(node := Black)\<rparr>)" (is "dfs_inv adj s ?st")
proof -
  have gray: "{x. dfs_color st x = Gray} = set (node # s)" and dist: "distinct (node # s)"
    using inv unfolding dfs_inv_def by blast+
  have n: "dfs_color st node \<noteq> Black" using dfs_inv_gray[OF inv, of node] by simp
  have "black_closed adj ?st" if "dfs_cycles st = []"
    using inv succ[OF that] n that by (intro black_closed_finish) (simp_all add: dfs_inv_def)
  moreover have "{x. dfs_color ?st x = Gray} = set s" using gray dist by auto
  moreover have "entered adj (dfs_parent ?st) s" using inv by (cases s) (simp_all add: dfs_inv_def)
  ultimately show ?thesis using inv unfolding dfs_inv_def by simp
qed

lemma dfs_inv_cycle:
  "dfs_inv adj stack st \<Longrightarrow> is_cycle adj path \<Longrightarrow>
   dfs_inv adj stack (st\<lparr>dfs_cycles := dfs_cycles st @ [path]\<rparr>)"
  by (auto simp: dfs_inv_def)

subsection \<open>The search returns\<close>

definition adj_nodes :: "adjacency \<Rightarrow> string set" where
  "adj_nodes adj = set (map fst adj) \<union> (\<Union>ts \<in> set (map snd adj). set ts)"

definition white_nodes :: "adjacency \<Rightarrow> dfs_state \<Rightarrow> string set" where
  "white_nodes adj st = {x \<in> adj_nodes adj. dfs_color st x = White}"

lemma finite_white_nodes [simp]: "finite (white_nodes adj st)"
  by (simp add: white_nodes_def adj_nodes_def)

lemma neighbors_in_nodes: "v \<in> set (neighbors adj u) \<Longrightarrow> v \<in> adj_nodes adj"
  using neighbors_mem[of v adj u] by (force simp: adj_nodes_def)

lemma white_nodes_progress: "dfs_progress st st' \<Longrightarrow> white_nodes adj st' \<subseteq> white_nodes adj st"
  by (auto simp: dfs_progress_def white_nodes_def)

definition visit_ok :: "adjacency \<Rightarrow> string \<Rightarrow> string list \<Rightarrow> string list \<Rightarrow> dfs_state \<Rightarrow> bool" where
  "visit_ok adj node s todo st \<longleftrightarrow>
     (\<exists>st'. visit adj node todo st = Some st' \<and> dfs_inv adj s st' \<and> dfs_color st' node = Black \<and>
        dfs_progress st st')"

lemma visit_returns:
  assumes "dfs_inv adj (node # s) st" and "set todo \<subseteq> set (neighbors adj node)"
    and "dfs_cycles st = [] \<Longrightarrow> \<forall>v \<in> set (neighbors adj node) - set todo. dfs_color st v = Black"
  shows "visit_ok adj node s todo st"
  using assms
proof (induction "(card (white_nodes adj st), length todo)" arbitrary: node s todo st
    rule: wf_induct_rule[OF wf_lex_prod[OF wf_less_than wf_less_than]])
  case less: (1 todo st node s)
  show ?case
  proof (cases todo)
    case Nil
    then have "dfs_inv adj s (st\<lparr>dfs_color := (dfs_color st)(node := Black)\<rparr>)"
      using less.prems by (intro dfs_inv_finish) auto
    then show ?thesis using Nil by (simp add: visit_ok_def dfs_progress_def)
  next
    case (Cons nb rest)
    have nb: "nb \<in> set (neighbors adj node)" and rest: "set rest \<subseteq> set (neighbors adj node)"
      using less.prems(2) Cons by auto
    show ?thesis
    proof (cases "dfs_color st nb")
      case White
      let ?st = "st\<lparr>dfs_parent := (dfs_parent st)(nb := node), dfs_color := (dfs_color st)(nb := Gray)\<rparr>"
      have sub: "white_nodes adj ?st \<subset> white_nodes adj st"
        using White neighbors_in_nodes[OF nb] by (auto simp: white_nodes_def)
      have pr: "dfs_progress st ?st" using White by (simp add: dfs_progress_def)
      have "visit_ok adj nb (node # s) (neighbors adj nb) ?st"
        using psubset_card_mono[OF finite_white_nodes sub] dfs_inv_push[OF less.prems(1) White nb]
        by (intro less.hyps) simp_all
      then obtain st' where st': "visit adj nb (neighbors adj nb) ?st = Some st'" "dfs_inv adj (node # s) st'"
        "dfs_color st' nb = Black" "dfs_progress ?st st'"
        unfolding visit_ok_def by blast
      have prog: "dfs_progress st st'" using pr st'(4) by (rule dfs_progress_trans)
      have "white_nodes adj st' \<subset> white_nodes adj st" using white_nodes_progress[OF st'(4)] sub by blast
      then have smaller: "card (white_nodes adj st') < card (white_nodes adj st)"
        by (rule psubset_card_mono[OF finite_white_nodes])
      have "visit_ok adj node s rest st'"
      proof (rule less.hyps)
        show "((card (white_nodes adj st'), length rest), (card (white_nodes adj st), length todo)) \<in>
            less_than <*lex*> less_than" using smaller by simp
        show "\<forall>v \<in> set (neighbors adj node) - set rest. dfs_color st' v = Black" if "dfs_cycles st' = []"
          using less.prems(3)[OF dfs_progress_Nil[OF prog that]] Cons st'(3) dfs_progress_Black[OF prog] by auto
      qed (use st'(2) rest in auto)
      then show ?thesis using White Cons st'(1) prog
        by (auto simp: visit_ok_def intro: dfs_progress_trans)
    next
      case Gray
      then have "nb \<in> set (node # s)" using less.prems(1) unfolding dfs_inv_def by blast
      then obtain path where path: "cycle_path (dfs_parent st) node nb = Some path" "is_cycle adj path"
        using cycle_of_stack[where adj = adj and parent = "dfs_parent st" and x = node and s = s and t = nb] less.prems(1) nb unfolding dfs_inv_def by blast
      let ?st = "st\<lparr>dfs_cycles := dfs_cycles st @ [path]\<rparr>"
      have pr: "dfs_progress st ?st" by (simp add: dfs_progress_def)
      have "visit_ok adj node s rest ?st"
        using dfs_inv_cycle[OF less.prems(1) path(2)] rest Cons
        by (intro less.hyps) (simp_all add: white_nodes_def)
      then show ?thesis using Gray Cons path(1) dfs_progress_trans[OF pr] by (auto simp: visit_ok_def)
    next
      case Black
      have "visit_ok adj node s rest st"
        using less.prems(1,3) rest Cons Black by (intro less.hyps) auto
      then show ?thesis using Black Cons by (simp add: visit_ok_def)
    qed
  qed
qed

lemma dfs_all_returns:
  assumes "dfs_inv adj [] st"
  shows "\<exists>st'. dfs_all adj ks st = Some st' \<and> dfs_inv adj [] st' \<and> dfs_progress st st' \<and>
     (\<forall>k \<in> set ks. dfs_color st' k = Black)"
  using assms
proof (induction ks arbitrary: st)
  case Nil
  then show ?case by (simp add: dfs_progress_def)
next
  case (Cons k ks)
  show ?case
  proof (cases "dfs_color st k = White")
    case True
    let ?st = "st\<lparr>dfs_color := (dfs_color st)(k := Gray)\<rparr>"
    have pr: "dfs_progress st ?st" using True by (simp add: dfs_progress_def)
    have "visit_ok adj k [] (neighbors adj k) ?st"
      using dfs_inv_start[OF Cons.prems True] by (intro visit_returns) auto
    then obtain st' where st': "dfs adj k st = Some st'" "dfs_inv adj [] st'" "dfs_color st' k = Black"
      "dfs_progress st st'"
      unfolding visit_ok_def dfs_def using dfs_progress_trans[OF pr] by blast
    obtain st'' where "dfs_all adj ks st' = Some st''" "dfs_inv adj [] st''" "dfs_progress st' st''"
      "\<forall>k \<in> set ks. dfs_color st'' k = Black"
      using Cons.IH[OF st'(2)] by blast
    then show ?thesis
      using True st' dfs_progress_Black[of st' st'' k] dfs_progress_trans[of st st' st''] by simp
  next
    case False
    then have "dfs_color st k = Black" using Cons.prems by (cases "dfs_color st k") (auto simp: dfs_inv_def)
    then show ?thesis using Cons.IH[OF Cons.prems] False dfs_progress_Black by fastforce
  qed
qed

lemma detectStringCycles_spec:
  obtains cs where "detectStringCycles adj = Some cs" and "cs = [] \<longleftrightarrow> acyclic (adj_edges adj)"
    and "\<forall>c \<in> set cs. is_cycle adj c"
proof -
  let ?st = "\<lparr>dfs_color = (\<lambda>_. White), dfs_parent = (\<lambda>_. []), dfs_cycles = []\<rparr>"
  have "dfs_inv adj [] ?st" by (simp add: dfs_inv_def black_closed_def black_edges_def acyclic_def)
  then obtain st where st: "dfs_all adj (sort (map fst adj)) ?st = Some st" "dfs_inv adj [] st"
    "\<forall>k \<in> set (map fst adj). dfs_color st k = Black"
    using dfs_all_returns[of adj ?st "sort (map fst adj)"] by auto
  have cyc: "\<forall>c \<in> set (dfs_cycles st). is_cycle adj c" using st(2) by (simp add: dfs_inv_def)
  have src: "u \<in> set (map fst adj)" if "v \<in> set (neighbors adj u)" for u v
    using neighbors_mem[OF that] by force
  have "black_edges adj st = adj_edges adj" using st(3) src by (auto simp: black_edges_def adj_edges_def)
  then have "acyclic (adj_edges adj)" if "dfs_cycles st = []"
    using st(2) that by (simp add: dfs_inv_def black_closed_def)
  moreover have "\<not> acyclic (adj_edges adj)" if "dfs_cycles st \<noteq> []"
    using cyc is_cycle_not_acyclic that by (cases "dfs_cycles st") auto
  ultimately show ?thesis using that[of "dfs_cycles st"] st(1) cyc by (auto simp: detectStringCycles_def)
qed

text \<open>
  C30: the cycle search always returns, although neither its recursion nor its walk back to the
  start of a cycle has a bound of its own; it reports no cycle exactly when the graph is acyclic; and every
  path it reports is a cycle of the graph, closed, simple and along edges.
\<close>

theorem detectStringCycles_exact:
  "\<exists>cs. detectStringCycles adj = Some cs \<and> (cs = [] \<longleftrightarrow> acyclic (adj_edges adj)) \<and>
     list_all (is_cycle adj) cs"
  by (rule detectStringCycles_spec[of adj]) (auto simp: list_all_iff)

end
