(* ===== verification/Validator_Spec.thy ===== *)
theory Validator_Spec
  imports Profile Validator_Cycles
begin

text \<open>
  What the checkers of package \<open>validator\<close> share: the error and note records
  (\<open>validator/validator.go\<close>), the specification directory they read, the loader \<open>loadSpec\<close>
  (\<open>validator/dag_checker.go\<close>), and the raw view of an array whose node type only the profile
  declares (\<open>validator/id_validator.go\<close>).

  The directory is a record of the contents of its files. Reading and syntactic decoding are the
  standard library's, so a file is either a failure of one of the two or its content: the value
  that \<open>json.Unmarshal\<close> puts into the Go struct (the typed view), and the JSON value itself (the raw
  view), on which decoding into \<open>map[string]json.RawMessage\<close> and its parts is modelled below.
\<close>

subsection \<open>Errors\<close>

text \<open>A message is a value: its constructor stands for the format string, its arguments for the operands.\<close>

datatype message =
    FileError string
  | CycleFound string "string list"
  | DuplicateID string
  | DuplicateAPIName string "string list"
  | NameReducesToNothing string string
  | NameNotItsTokenization string string string
  | NameTooLong string string nat
  | MissingTarget string string string
  | MissingPriority string
  | PriorityOutOfRange string int
  | MissingPreqID string
  | NotDerivedID string string string string
  | NameCaseDiffers string string
  | NameConflict string string
  | NameNotLowercase string
  | NotCovered string string string string
  | NotImplemented string string string string string
  | NoTestCoverage string string string string
  | MissingRequired "string list"
  | SchemaProblem string
  | LinkUnterminated string
  | LinkNotHash string string
  | LinkNoDisplay string string
  | LinkToModule string
  | LinkUnresolved string
  | LinksUnresolvable string
  | LeafUnreadable string
  | ContentDotDot string
  | ContentAbsolute string
  | ContentMissing string
  | ContentInaccessible string string
  | SectionFieldMissing nat string
  | DuplicateSectionID string nat
  | DuplicateSectionName string nat
  | SectionWithoutModule string "string option"
  | SectionSchemaMissing string string
  | SectionSchemaUnusable string string string
  | SectionContent string string string
  | SectionContentInvalid string string string
  | OtherFinding string

record validation_error =
  ve_check :: string
  ve_severity :: string
  ve_path :: string
  ve_message :: message

record validation_note =
  vn_type :: string
  vn_message :: message
  vn_related :: "string list"

definition verror :: "string \<Rightarrow> string \<Rightarrow> message \<Rightarrow> validation_error" where
  "verror chk path msg =
     \<lparr>ve_check = chk, ve_severity = ''error'', ve_path = path, ve_message = msg\<rparr>"

subsection \<open>Raw entries\<close>

text \<open>A repeated key of a JSON object keeps its last value when it is decoded into a map.\<close>

definition raw_field :: "raw_entry \<Rightarrow> string \<Rightarrow> json option" where
  "raw_field e f = map_of (rev e) f"

text \<open>
  \<open>str\<close> and \<open>strSlice\<close> ignore the decoder's error: a value of another kind leaves the result empty,
  an element of another kind leaves its own slot empty.
\<close>

definition json_string :: "json \<Rightarrow> string" where
  "json_string j = (case j of JString s \<Rightarrow> s | _ \<Rightarrow> [])"

definition raw_str :: "raw_entry \<Rightarrow> string \<Rightarrow> string" where
  "raw_str e f = (case raw_field e f of None \<Rightarrow> [] | Some v \<Rightarrow> json_string v)"

definition strSlice :: "raw_entry \<Rightarrow> string \<Rightarrow> string list" where
  "strSlice e f =
     (case raw_field e f of
        None \<Rightarrow> []
      | Some v \<Rightarrow> (case v of JArray vs \<Rightarrow> map json_string vs | _ \<Rightarrow> []))"

definition edgeTargets :: "raw_entry \<Rightarrow> string \<Rightarrow> string list" where
  "edgeTargets e f = (let s = raw_str e f in if s \<noteq> [] then [s] else strSlice e f)"

datatype file_error = ReadFailed string | ParseFailed string

text \<open>Decoding of one array element into a map: an object, or \<open>null\<close>, which is the empty map.\<close>

definition decode_entry :: "json \<Rightarrow> (file_error, raw_entry) result" where
  "decode_entry j =
     (case j of JObject kvs \<Rightarrow> Inr kvs | JNull \<Rightarrow> Inr [] | _ \<Rightarrow> Inl (ParseFailed ''type mismatch''))"

definition rawArrayEntries :: "json \<Rightarrow> string \<Rightarrow> (file_error, raw_entry list) result" where
  "rawArrayEntries doc pluralKey =
     bind_result (decode_entry doc) (\<lambda>top.
       case raw_field top pluralKey of
         None \<Rightarrow> Inr []
       | Some arr \<Rightarrow>
           (case arr of
              JArray es \<Rightarrow> collect decode_entry es
            | JNull \<Rightarrow> Inr []
            | _ \<Rightarrow> Inl (ParseFailed ''type mismatch'')))"

definition entriesIDSet :: "raw_entry list \<Rightarrow> string set" where
  "entriesIDSet es = (\<lambda>e. raw_str e ''id'') ` set es"

subsection \<open>The specification directory\<close>

text \<open>
  A module's file is addressed by the path the project gives for it. \<open>sf_profile\<close> is the outcome of
  \<open>ResolveProfileFS\<close>, which \<open>Profile\<close> models.
\<close>

record spec_files =
  sf_project :: "(file_error, project) result"
  sf_module :: "string \<Rightarrow> (file_error, module_spec) result"
  sf_project_doc :: "(file_error, json) result"
  sf_module_doc :: "string \<Rightarrow> (file_error, json) result"
  sf_profile :: "(string, profile) result"

definition rawModuleEntries :: "spec_files \<Rightarrow> string \<Rightarrow> string \<Rightarrow> (file_error, raw_entry list) result" where
  "rawModuleEntries fsys modPath pluralKey =
     bind_result (sf_module_doc fsys modPath) (\<lambda>doc. rawArrayEntries doc pluralKey)"

definition rawProjectEntries :: "spec_files \<Rightarrow> string \<Rightarrow> (file_error, raw_entry list) result" where
  "rawProjectEntries fsys pluralKey =
     bind_result (sf_project_doc fsys) (\<lambda>doc. rawArrayEntries doc pluralKey)"

definition file_message :: "file_error \<Rightarrow> message" where
  "file_message e =
     FileError (case e of ReadFailed s \<Rightarrow> ''read file: '' @ s | ParseFailed s \<Rightarrow> ''parse JSON: '' @ s)"

type_synonym modules_map = "(string \<times> module_spec) list"

text \<open>
  \<open>loadSpec\<close> reads every module and reports all that fail; only when none does the specification
  is returned. A module name that is declared twice keeps the module read last.
\<close>

fun load_modules :: "spec_files \<Rightarrow> string \<Rightarrow> module_decl list \<Rightarrow> modules_map \<Rightarrow> validation_error list
    \<Rightarrow> modules_map \<times> validation_error list" where
  "load_modules fsys chk [] modules errs = (modules, errs)"
| "load_modules fsys chk (m # ms) modules errs =
     (case sf_module fsys (mod_path m) of
        Inl e \<Rightarrow> load_modules fsys chk ms modules
                   (errs @ [verror chk (mod_path m @ ''/module.json'') (file_message e)])
      | Inr s \<Rightarrow> load_modules fsys chk ms (AList.update (mod_name m) s modules) errs)"

definition loadSpec :: "spec_files \<Rightarrow> string \<Rightarrow> (validation_error list, project \<times> modules_map) result" where
  "loadSpec fsys chk =
     (case sf_project fsys of
        Inl e \<Rightarrow> Inl [verror chk ''project.json'' (file_message e)]
      | Inr prj \<Rightarrow>
          (case load_modules fsys chk (prj_modules prj) [] [] of
             (modules, errs) \<Rightarrow> if errs \<noteq> [] then Inl errs else Inr (prj, modules)))"

text \<open>The preamble every checker starts with: the specification, then the profile.\<close>

definition load_checked :: "spec_files \<Rightarrow> string
    \<Rightarrow> (validation_error list, project \<times> modules_map \<times> profile) result" where
  "load_checked fsys chk =
     bind_result (loadSpec fsys chk) (\<lambda>(prj, modules).
       case sf_profile fsys of
         Inl e \<Rightarrow> Inl [verror chk ''profile.json'' (FileError e)]
       | Inr p \<Rightarrow> Inr (prj, modules, p))"

definition module_names :: "modules_map \<Rightarrow> string list" where
  "module_names modules = sort (map fst modules)"

definition modulePathByName :: "project \<Rightarrow> string \<Rightarrow> string" where
  "modulePathByName prj modName =
     (case find (\<lambda>m. mod_name m = modName) (prj_modules prj) of
        Some m \<Rightarrow> mod_path m
      | None \<Rightarrow> modName)"

definition module_prefix :: "string \<Rightarrow> string" where
  "module_prefix modName = modName @ ''/module.json:''"

definition findModuleNodeType :: "profile \<Rightarrow> string \<Rightarrow> node_type option" where
  "findModuleNodeType p name =
     find (\<lambda>t. nt_name t = name \<and> nt_scope t = ''module'') (prf_node_types p)"

definition findProjectNodeType :: "profile \<Rightarrow> string \<Rightarrow> node_type option" where
  "findProjectNodeType p name =
     find (\<lambda>t. nt_name t = name \<and> nt_scope t = ''project'') (prf_node_types p)"

definition projectEdgeSourceKey :: "profile \<Rightarrow> string \<Rightarrow> string option" where
  "projectEdgeSourceKey p fromName = map_option nt_plural_key (findProjectNodeType p fromName)"

subsection \<open>What the loader returns\<close>

lemma load_modules_errs:
  "load_modules fsys chk ms modules errs = (modules', errs') \<Longrightarrow> errs' = [] \<longleftrightarrow>
     errs = [] \<and> (\<forall>m \<in> set ms. \<exists>s. sf_module fsys (mod_path m) = Inr s)"
  by (induction ms arbitrary: modules errs) (auto split: sum.splits)

lemma load_modules_Cons:
  assumes "load_modules fsys chk (m # ms) modules [] = (modules', [])"
  obtains s where "sf_module fsys (mod_path m) = Inr s"
    and "load_modules fsys chk ms (AList.update (mod_name m) s modules) [] = (modules', [])"
proof -
  have "\<exists>s. sf_module fsys (mod_path m) = Inr s" using load_modules_errs[OF assms] by auto
  then show ?thesis using assms that by auto
qed

lemma load_modules_keys:
  "load_modules fsys chk ms modules [] = (modules', []) \<Longrightarrow>
     set (map fst modules') = set (map fst modules) \<union> mod_name ` set ms"
proof (induction ms arbitrary: modules)
  case (Cons m ms)
  show ?case by (rule load_modules_Cons[OF Cons.prems]) (drule Cons.IH, auto simp: dom_update[unfolded dom_map_of_conv_image_fst])
qed simp

lemma load_modules_distinct:
  "load_modules fsys chk ms modules errs = (modules', errs') \<Longrightarrow> distinct (map fst modules) \<Longrightarrow>
     distinct (map fst modules')"
  by (induction ms arbitrary: modules errs) (auto split: sum.splits intro: distinct_update)

lemma load_modules_frame:
  "load_modules fsys chk ms modules [] = (modules', []) \<Longrightarrow> n \<notin> mod_name ` set ms \<Longrightarrow>
     map_of modules' n = map_of modules n"
proof (induction ms arbitrary: modules)
  case (Cons m ms)
  show ?case by (rule load_modules_Cons[OF Cons.prems(1)]) (drule Cons.IH, use Cons.prems(2) in auto)
qed simp

lemma load_modules_lookup:
  assumes "load_modules fsys chk ms modules [] = (modules', [])" and "distinct (map mod_name ms)"
    and "m \<in> set ms"
  shows "\<exists>s. sf_module fsys (mod_path m) = Inr s \<and> map_of modules' (mod_name m) = Some s"
  using assms
proof (induction ms arbitrary: modules)
  case (Cons x ms)
  obtain s where s: "sf_module fsys (mod_path x) = Inr s"
    and rest: "load_modules fsys chk ms (AList.update (mod_name x) s modules) [] = (modules', [])"
    by (rule load_modules_Cons[OF Cons.prems(1)])
  show ?case
  proof (cases "m = x")
    case True
    have "map_of modules' (mod_name x) = map_of (AList.update (mod_name x) s modules) (mod_name x)"
      using rest Cons.prems(2) by (intro load_modules_frame) auto
    then show ?thesis using True s by simp
  next
    case False
    then show ?thesis using Cons.IH[OF rest] Cons.prems by auto
  qed
qed simp

lemma loadSpec_Inr:
  "loadSpec fsys chk = Inr (prj, modules) \<longleftrightarrow>
     sf_project fsys = Inr prj \<and> load_modules fsys chk (prj_modules prj) [] [] = (modules, [])"
  by (auto simp: loadSpec_def split: sum.splits prod.splits if_splits)

lemma set_module_names:
  "loadSpec fsys chk = Inr (prj, modules) \<Longrightarrow>
     set (module_names modules) = mod_name ` set (prj_modules prj)"
  using load_modules_keys[of fsys chk "prj_modules prj" "[]" modules]
  by (simp add: loadSpec_Inr module_names_def)

text \<open>The loader's result does not depend on which checker calls it.\<close>

lemma load_modules_chk:
  "load_modules fsys chk ms modules [] = (modules', []) \<Longrightarrow>
     load_modules fsys chk' ms modules [] = (modules', [])"
proof (induction ms arbitrary: modules)
  case (Cons m ms)
  show ?case by (rule load_modules_Cons[OF Cons.prems]) (drule Cons.IH, simp)
qed simp

lemma loadSpec_chk: "loadSpec fsys chk = Inr r \<Longrightarrow> loadSpec fsys chk' = Inr r"
  by (cases r) (auto simp: loadSpec_Inr intro: load_modules_chk)

lemma load_checked_Inr:
  "load_checked fsys chk = Inr (prj, modules, p) \<longleftrightarrow>
     loadSpec fsys chk = Inr (prj, modules) \<and> sf_profile fsys = Inr p"
  by (cases "sf_profile fsys") (auto simp: load_checked_def loop_simps)

lemma load_checked_chk: "load_checked fsys chk = Inr r \<Longrightarrow> load_checked fsys chk' = Inr r"
  by (cases r) (auto simp: load_checked_Inr intro: loadSpec_chk)

lemma load_checked_Inl: "load_checked fsys chk = Inl errs \<Longrightarrow> errs \<noteq> []"
  by (cases "sf_profile fsys")
     (auto simp: load_checked_def loadSpec_def loop_simps split: sum.splits prod.splits if_splits)

subsection \<open>A sample specification\<close>

definition sample_spec :: module_spec where
  "sample_spec = \<lparr>ms_name = ''core'', ms_description = [],
     ms_requirements = [\<lparr>mrq_id = ''q1'', mrq_preq_id = ''p1'', mrq_type = ''functional'',
        mrq_title = ''load'', mrq_description = [], mrq_depends_on = []\<rparr>],
     ms_components = [\<lparr>cmp_id = ''c1'', cmp_name = ''loader'', cmp_description = [], cmp_content = [],
        cmp_implements = [''q1''], cmp_uses = []\<rparr>],
     ms_data_flows = [],
     ms_test_sections = [\<lparr>tst_id = ''t1'', tst_name = ''load test'', tst_content = [], tst_describes = [''c1'']\<rparr>],
     ms_apis = []\<rparr>"

definition sample_project :: project where
  "sample_project =
     \<lparr>prj_name = ''demo'', prj_description = [], prj_version = [],
      prj_requirements = [\<lparr>req_id = ''p1'', req_preq_id = [], req_type = ''functional'', req_title = ''load files'',
        req_description = [], req_priority = Some 1, req_depends_on = [], req_derivation = []\<rparr>],
      prj_modules = [\<lparr>mod_id = ''m1'', mod_name = ''core'', mod_path = ''core'', mod_description = [],
        mod_requires_module = []\<rparr>],
      prj_sections = [], prj_spec_version = None\<rparr>"

definition sample_files :: spec_files where
  "sample_files =
     \<lparr>sf_project = Inr sample_project,
      sf_module = (\<lambda>path. if path = ''core'' then Inr sample_spec else Inl (ReadFailed ''no such file'')),
      sf_project_doc = Inr (JObject []), sf_module_doc = (\<lambda>path. Inr (JObject [])),
      sf_profile = Inr DefaultProfile\<rparr>"

lemma sample_loads:
  "load_checked sample_files chk = Inr (sample_project, [(''core'', sample_spec)], DefaultProfile)"
  by (simp add: load_checked_Inr loadSpec_Inr sample_files_def sample_project_def)

end
