(* ===== verification/Validator_Names.thy ===== *)
theory Validator_Names
  imports Schema
begin

text \<open>
  Corpus tokens and declarable names (\<open>validator/removed_name_checker.go\<close>). A string is a list of
  bytes; the typographic quotes of the cut set are their UTF-8 encodings, so trimming strips byte
  sequences. On either side of a string the encodings are recognised exactly as Go's rune decoding
  recognises them.
\<close>

subsection \<open>Trimming\<close>

definition utf8 :: "nat list \<Rightarrow> string" where
  "utf8 = map char_of"

text \<open>The curly double and single quotes.\<close>

definition tokenTrimCutset :: "string list" where
  "tokenTrimCutset =
     map (\<lambda>c. [c]) (CHR 0x60 # CHR 0x22 # CHR 0x27 # ''*_()[],;:!?'') @
     [utf8 [226, 128, 156], utf8 [226, 128, 157], utf8 [226, 128, 152], utf8 [226, 128, 153]]"

lemma cutset_nonempty: "u \<in> set tokenTrimCutset \<Longrightarrow> u \<noteq> []"
  by (auto simp: tokenTrimCutset_def utf8_def)

function trim_left :: "string \<Rightarrow> string" where
  "trim_left s =
     (case find (\<lambda>u. prefix u s) tokenTrimCutset of
        None \<Rightarrow> s
      | Some u \<Rightarrow> trim_left (drop (length u) s))"
  by pat_completeness auto

termination
proof (relation "measure length")
  fix s u assume "find (\<lambda>u. prefix u s) tokenTrimCutset = Some u"
  then have "u \<noteq> []" "prefix u s" using find_Some_D cutset_nonempty by metis+
  then show "(drop (length u) s, s) \<in> measure length" by (auto simp: prefix_def)
qed simp

function trim_right :: "string \<Rightarrow> string" where
  "trim_right s =
     (case find (\<lambda>u. suffix u s) tokenTrimCutset of
        None \<Rightarrow> s
      | Some u \<Rightarrow> trim_right (take (length s - length u) s))"
  by pat_completeness auto

termination
proof (relation "measure length")
  fix s u assume "find (\<lambda>u. suffix u s) tokenTrimCutset = Some u"
  then have "u \<noteq> []" "suffix u s" using find_Some_D cutset_nonempty by metis+
  then show "(take (length s - length u) s, s) \<in> measure length" by (auto simp: suffix_def)
qed simp

declare trim_left.simps [simp del] trim_right.simps [simp del]

definition trim_dots :: "string \<Rightarrow> string" where
  "trim_dots s = rev (dropWhile (\<lambda>c. c = CHR ''.'') (rev s))"

definition trim_suffix :: "string \<Rightarrow> string \<Rightarrow> string" where
  "trim_suffix poss t =
     (if length t > length poss \<and> suffix poss t then take (length t - length poss) t else t)"

definition possessives :: "string list" where
  "possessives = [CHR 0x27 # ''s'', utf8 [226, 128, 153] @ ''s'']"

definition normalize_step :: "string \<Rightarrow> string" where
  "normalize_step s = fold trim_suffix possessives (trim_dots (trim_right (trim_left s)))"

text \<open>A step returns a factor of its argument, so the loop ends.\<close>

lemma sublist_take [simp]: "sublist (take n xs) xs"
  by (metis append_Nil append_take_drop_id sublist_def)

lemma sublist_drop [simp]: "sublist (drop n xs) xs"
  by (metis append.right_neutral append_take_drop_id sublist_def append.assoc)

lemma sublist_trim_left: "sublist (trim_left s) s"
proof (induction s rule: trim_left.induct)
  case (1 s)
  then show ?case
    by (subst trim_left.simps) (auto split: option.split intro: sublist_order.order_trans[OF _ sublist_drop])
qed

lemma sublist_trim_right: "sublist (trim_right s) s"
proof (induction s rule: trim_right.induct)
  case (1 s)
  then show ?case
    by (subst trim_right.simps) (auto split: option.split intro: sublist_order.order_trans[OF _ sublist_take])
qed

lemma sublist_trim_dots: "sublist (trim_dots s) s"
  unfolding trim_dots_def by (metis rev_rev_ident sublist_rev suffix_dropWhile suffix_imp_sublist)

lemma sublist_trim_suffix: "sublist (trim_suffix p s) s"
  by (simp add: trim_suffix_def)

lemma sublist_normalize_step: "sublist (normalize_step s) s"
proof -
  have "sublist (fold trim_suffix ps t) t" for ps t
    by (induction ps arbitrary: t) (auto intro: sublist_order.order_trans sublist_trim_suffix)
  then show ?thesis
    unfolding normalize_step_def
    by (meson sublist_order.order_trans sublist_trim_dots sublist_trim_right sublist_trim_left)
qed

function normalizeToken :: "string \<Rightarrow> string" where
  "normalizeToken s =
     (let t = normalize_step s in if t = s then t else normalizeToken t)"
  by pat_completeness auto

termination
proof (relation "measure length")
  fix s t assume "t = normalize_step s" "t \<noteq> s"
  moreover obtain a b where "s = a @ normalize_step s @ b"
    using sublist_normalize_step[of s] by (auto simp: sublist_def)
  ultimately have "s = a @ t @ b" "t \<noteq> s" by simp_all
  then have "length t < length s" by (cases "a = [] \<and> b = []") (auto simp: neq_Nil_conv)
  then show "(t, s) \<in> measure length" by simp
qed simp

declare normalizeToken.simps [simp del]

lemma normalizeToken_fixpoint: "normalize_step (normalizeToken s) = normalizeToken s"
proof (induction s rule: normalizeToken.induct)
  case (1 s)
  show ?case
  proof (cases "normalize_step s = s")
    case True
    then show ?thesis by (simp add: normalizeToken.simps[of s])
  next
    case False
    then have "normalizeToken s = normalizeToken (normalize_step s)"
      by (subst normalizeToken.simps) (simp add: Let_def)
    then show ?thesis using 1[OF refl False] by simp
  qed
qed

lemma normalizeToken_stable: "normalize_step s = s \<Longrightarrow> normalizeToken s = s"
  by (subst normalizeToken.simps) simp

lemma normalizeToken_idem [simp]: "normalizeToken (normalizeToken s) = normalizeToken s"
  by (subst normalizeToken.simps) (simp add: normalizeToken_fixpoint)

lemma sublist_normalizeToken: "sublist (normalizeToken s) s"
proof (induction s rule: normalizeToken.induct)
  case (1 s)
  then show ?case
    by (subst normalizeToken.simps)
       (auto simp: Let_def intro: sublist_order.order_trans[OF _ sublist_normalize_step])
qed

subsection \<open>Tokens\<close>

definition newline :: char where "newline = CHR 0x0A"

definition isSpaceByte :: "char \<Rightarrow> bool" where
  "isSpaceByte c \<longleftrightarrow> c \<in> {CHR '' '', CHR 0x09, newline, CHR 0x0D, CHR 0x0B, CHR 0x0C}"

record corpus_token =
  ct_text :: string
  ct_line :: nat

function tokenize_from :: "nat \<Rightarrow> string \<Rightarrow> corpus_token list" where
  "tokenize_from line [] = []"
| "tokenize_from line (c # cs) =
     (if c = newline then tokenize_from (Suc line) cs
      else if isSpaceByte c then tokenize_from line cs
      else
        let raw = takeWhile (\<lambda>d. \<not> isSpaceByte d) (c # cs);
            rest = dropWhile (\<lambda>d. \<not> isSpaceByte d) (c # cs);
            t = normalizeToken raw
        in (if t \<noteq> [] then [\<lparr>ct_text = t, ct_line = line\<rparr>] else []) @ tokenize_from line rest)"
  by pat_completeness auto

termination
  by (relation "measure (\<lambda>(line, s). length s)") (auto simp: le_imp_less_Suc length_dropWhile_le)

definition tokenizeCorpus :: "string \<Rightarrow> corpus_token list" where
  "tokenizeCorpus src = tokenize_from 1 src"

definition nameTokens :: "string \<Rightarrow> string list" where
  "nameTokens name = map ct_text (tokenizeCorpus name)"

definition maxNameWords :: nat where "maxNameWords = 6"

definition declarableName :: "string \<Rightarrow> string \<times> bool" where
  "declarableName name =
     (let toks = nameTokens name; phrase = join_strings '' '' toks
      in (phrase, 0 < length toks \<and> length toks \<le> maxNameWords \<and> phrase = name))"

subsection \<open>Tokens of a text\<close>

definition is_token :: "string \<Rightarrow> bool" where
  "is_token t \<longleftrightarrow> t \<noteq> [] \<and> normalizeToken t = t \<and> list_all (\<lambda>c. \<not> isSpaceByte c) t"

lemma tokens_are_tokens:
  "k \<in> set (tokenize_from line s) \<Longrightarrow> is_token (ct_text k)"
proof (induction line s rule: tokenize_from.induct)
  case (2 line c cs)
  have "list_all (\<lambda>d. \<not> isSpaceByte d) (normalizeToken (takeWhile (\<lambda>d. \<not> isSpaceByte d) (c # cs)))"
    using set_mono_sublist[OF sublist_normalizeToken[of "takeWhile (\<lambda>d. \<not> isSpaceByte d) (c # cs)"]]
    by (auto simp: list_all_iff dest: set_takeWhileD)
  then show ?case using 2 by (auto simp: Let_def is_token_def split: if_splits)
qed simp

lemma nameTokens_are_tokens: "t \<in> set (nameTokens name) \<Longrightarrow> is_token t"
  by (auto simp: nameTokens_def tokenizeCorpus_def tokens_are_tokens)

text \<open>A word followed by a space or by nothing is one token; so a text built of tokens yields them.\<close>

lemma tokenize_word:
  assumes "is_token t" and "rest = [] \<or> isSpaceByte (hd rest)"
  shows "tokenize_from line (t @ rest) = \<lparr>ct_text = t, ct_line = line\<rparr> # tokenize_from line rest"
proof -
  obtain c cs where t: "t = c # cs" using assms(1) by (cases t) (auto simp: is_token_def)
  have nsp: "\<forall>d \<in> set t. \<not> isSpaceByte d" using assms(1) by (simp add: is_token_def list_all_iff)
  have tw: "takeWhile (\<lambda>d. \<not> isSpaceByte d) (t @ rest) = t"
    using nsp assms(2) by (cases rest) (simp_all add: takeWhile_append)
  have dw: "dropWhile (\<lambda>d. \<not> isSpaceByte d) (t @ rest) = rest"
    using nsp assms(2) by (cases rest) (simp_all add: dropWhile_append)
  have c: "\<not> isSpaceByte c" "c \<noteq> newline" using nsp t by (auto simp: isSpaceByte_def)
  have "normalizeToken t = t" using assms(1) by (simp add: is_token_def)
  then show ?thesis using tw dw c t by (simp add: Let_def)
qed

lemma tokenize_join:
  assumes "list_all is_token ts" and "rest = [] \<or> isSpaceByte (hd rest)"
  shows "tokenize_from line (join_strings '' '' ts @ rest) =
    map (\<lambda>t. \<lparr>ct_text = t, ct_line = line\<rparr>) ts @ tokenize_from line rest"
  using assms(1)
proof (induction ts rule: induct_list012)
  case (2 t)
  then show ?case using tokenize_word[of t rest] assms(2) by simp
next
  case (3 t u ts)
  have sp: "isSpaceByte (CHR '' '')" "CHR '' '' \<noteq> newline" by (simp_all add: isSpaceByte_def newline_def)
  have "tokenize_from line (t @ CHR '' '' # join_strings '' '' (u # ts) @ rest) =
      \<lparr>ct_text = t, ct_line = line\<rparr> # tokenize_from line (CHR '' '' # join_strings '' '' (u # ts) @ rest)"
    using 3 sp by (intro tokenize_word) simp_all
  then show ?case using 3 sp by simp
qed simp

lemma nameTokens_join: "list_all is_token ts \<Longrightarrow> nameTokens (join_strings '' '' ts) = ts"
  using tokenize_join[of ts "[]" 1] by (simp add: nameTokens_def tokenizeCorpus_def comp_def)

text \<open>
  The names a declaration may use are exactly the phrases the corpus scan can build: one to six
  corpus tokens joined by single spaces.
\<close>

lemma declarableName_iff:
  "snd (declarableName name) \<longleftrightarrow>
     (\<exists>ts. name = join_strings '' '' ts \<and> list_all is_token ts \<and> ts \<noteq> [] \<and> length ts \<le> maxNameWords)"
proof
  assume "snd (declarableName name)"
  then have "name = join_strings '' '' (nameTokens name) \<and> list_all is_token (nameTokens name) \<and>
      nameTokens name \<noteq> [] \<and> length (nameTokens name) \<le> maxNameWords"
    using nameTokens_are_tokens by (auto simp: declarableName_def Let_def list_all_iff)
  then show "\<exists>ts. name = join_strings '' '' ts \<and> list_all is_token ts \<and> ts \<noteq> [] \<and> length ts \<le> maxNameWords"
    by blast
next
  assume "\<exists>ts. name = join_strings '' '' ts \<and> list_all is_token ts \<and> ts \<noteq> [] \<and> length ts \<le> maxNameWords"
  then show "snd (declarableName name)" by (auto simp: declarableName_def Let_def nameTokens_join)
qed

end
