(* ===== verification/Validator_Ids.thy ===== *)
theory Validator_Ids
  imports Validator_Spec Validator_Names
begin

text \<open>
  Identity checks: uniqueness and recoverability of names, then the resolution of every reference
  (\<open>validator/id_validator.go\<close>); the derivation of ids from names
  (\<open>validator/id_derivation_checker.go\<close>); the agreement of module names
  (\<open>validator/name_consistency.go\<close>).

  \<open>checkDuplicateIDs\<close> ranges over a Go map; the model reports the ids in the order of their first
  occurrence, one of the orders Go may choose, and the theorems do not speak of the order.
\<close>

subsection \<open>Node types and their arrays\<close>

definition builtinModuleTypeNames :: "string list" where
  "builtinModuleTypeNames = [''requirement'', ''component'', ''data_flow'', ''test_section'', ''api'']"

definition builtinEdgeCoverage :: "(string \<times> string list) list" where
  "builtinEdgeCoverage =
     [(''implements'', [''component'']), (''uses'', [''component'', ''data_flow'']),
      (''describes'', [''test_section'']), (''provided_by'', [''api'']),
      (''depends_on'', [''requirement'']), (''requires_module'', [''module'']),
      (''preq_id'', [''requirement''])]"

definition extraModuleNodeTypes :: "profile \<Rightarrow> node_type list" where
  "extraModuleNodeTypes p =
     filter (\<lambda>t. nt_scope t = ''module'' \<and> nt_name t \<notin> set builtinModuleTypeNames) (prf_node_types p)"

definition extraProjectNodeTypes :: "profile \<Rightarrow> node_type list" where
  "extraProjectNodeTypes p =
     filter (\<lambda>t. nt_scope t = ''project'' \<and> nt_name t \<noteq> ''requirement'') (prf_node_types p)"

definition moduleScopedNodeTypes :: "profile \<Rightarrow> node_type list" where
  "moduleScopedNodeTypes p = filter (\<lambda>t. nt_scope t = ''module'') (prf_node_types p)"

definition nameDeclarableNodeTypes :: "profile \<Rightarrow> node_type list" where
  "nameDeclarableNodeTypes p =
     filter (\<lambda>t. nt_scope t = ''module'' \<and> nt_name_declarable t) (prf_node_types p)"

record named_entry =
  ne_id :: string
  ne_name :: string

definition named :: "('a \<Rightarrow> string) \<Rightarrow> ('a \<Rightarrow> string) \<Rightarrow> 'a list \<Rightarrow> named_entry list" where
  "named i n xs = map (\<lambda>x. \<lparr>ne_id = i x, ne_name = n x\<rparr>) xs"

definition moduleTypedEntries :: "module_spec \<Rightarrow> string \<Rightarrow> named_entry list option" where
  "moduleTypedEntries m typeName =
     (if typeName = ''requirement'' then Some (named mrq_id mrq_title (ms_requirements m))
      else if typeName = ''component'' then Some (named cmp_id cmp_name (ms_components m))
      else if typeName = ''data_flow'' then Some (named dfl_id dfl_name (ms_data_flows m))
      else if typeName = ''test_section'' then Some (named tst_id tst_name (ms_test_sections m))
      else if typeName = ''api'' then Some (named api_id api_name (ms_apis m))
      else None)"

definition namedEntriesFromRaw :: "raw_entry list \<Rightarrow> named_entry list" where
  "namedEntriesFromRaw es = named (\<lambda>e. raw_str e ''id'') (\<lambda>e. raw_str e ''name'') es"

text \<open>The entries of a node type of a module, typed or raw; a raw array that cannot be read is skipped.\<close>

definition module_entries :: "spec_files \<Rightarrow> string \<Rightarrow> module_spec \<Rightarrow> node_type \<Rightarrow> named_entry list" where
  "module_entries fsys modPath m nt =
     (case moduleTypedEntries m (nt_name nt) of
        Some es \<Rightarrow> es
      | None \<Rightarrow>
          (case rawModuleEntries fsys modPath (nt_plural_key nt) of
             Inl e \<Rightarrow> []
           | Inr raw \<Rightarrow> namedEntriesFromRaw raw))"

subsection \<open>Uniqueness\<close>

definition checkDuplicateIDs :: "string \<Rightarrow> string list \<Rightarrow> validation_error list" where
  "checkDuplicateIDs path ids =
     map (\<lambda>i. verror ''id'' path (DuplicateID i)) (filter (\<lambda>i. 1 < count_list ids i) (dedup ids))"

definition checkProjectUniqueness :: "project \<Rightarrow> validation_error list" where
  "checkProjectUniqueness prj =
     checkDuplicateIDs ''project.json:/requirements'' (map req_id (prj_requirements prj))
   @ checkDuplicateIDs ''project.json:/modules'' (map mod_id (prj_modules prj))
   @ checkDuplicateIDs ''project.json:/sections'' (map sec_id (prj_sections prj))"

definition checkModuleUniqueness :: "string \<Rightarrow> module_spec \<Rightarrow> validation_error list" where
  "checkModuleUniqueness modName m =
     checkDuplicateIDs (module_prefix modName @ ''/requirements'') (map mrq_id (ms_requirements m))
   @ checkDuplicateIDs (module_prefix modName @ ''/components'') (map cmp_id (ms_components m))
   @ checkDuplicateIDs (module_prefix modName @ ''/data_flows'') (map dfl_id (ms_data_flows m))
   @ checkDuplicateIDs (module_prefix modName @ ''/test_sections'') (map tst_id (ms_test_sections m))
   @ checkDuplicateIDs (module_prefix modName @ ''/apis'') (map api_id (ms_apis m))"

definition raw_duplicates :: "string \<Rightarrow> (file_error, raw_entry list) result \<Rightarrow> validation_error list" where
  "raw_duplicates path entries =
     (case entries of
        Inl e \<Rightarrow> []
      | Inr es \<Rightarrow> checkDuplicateIDs path (map (\<lambda>e. raw_str e ''id'') es))"

definition checkExtraModuleUniqueness :: "spec_files \<Rightarrow> string list \<Rightarrow> project \<Rightarrow> node_type list
    \<Rightarrow> validation_error list" where
  "checkExtraModuleUniqueness fsys modNames prj extraTypes =
     concat (map (\<lambda>modName.
       concat (map (\<lambda>nt.
         raw_duplicates (module_prefix modName @ ''/'' @ nt_plural_key nt)
           (rawModuleEntries fsys (modulePathByName prj modName) (nt_plural_key nt))) extraTypes)) modNames)"

definition checkExtraProjectUniqueness :: "spec_files \<Rightarrow> node_type list \<Rightarrow> validation_error list" where
  "checkExtraProjectUniqueness fsys extraTypes =
     concat (map (\<lambda>nt.
       raw_duplicates (''project.json:/'' @ nt_plural_key nt) (rawProjectEntries fsys (nt_plural_key nt)))
       extraTypes)"

text \<open>Each API name with the modules that declare it, one mention per declaration, in order.\<close>

definition api_declarers :: "string list \<Rightarrow> modules_map \<Rightarrow> (string \<times> string) list" where
  "api_declarers modNames modules =
     concat (map (\<lambda>modName.
       case map_of modules modName of
         None \<Rightarrow> []
       | Some m \<Rightarrow> map (\<lambda>a. (api_name a, modName)) (ms_apis m)) modNames)"

definition checkAPINameUniqueness :: "string list \<Rightarrow> modules_map \<Rightarrow> validation_error list" where
  "checkAPINameUniqueness modNames modules =
     (let decls = api_declarers modNames modules
      in concat (map (\<lambda>name.
           let mods = map snd (filter (\<lambda>d. fst d = name) decls)
           in if length mods < 2 then []
              else [verror ''id'' (hd mods @ ''/module.json:/apis'') (DuplicateAPIName name mods)])
         (dedup (map fst decls))))"

subsection \<open>Names that can be recovered\<close>

definition nameShapeError :: "string \<Rightarrow> string \<Rightarrow> string \<Rightarrow> string \<Rightarrow> string \<Rightarrow> validation_error list" where
  "nameShapeError pre array nodeType name i =
     (case declarableName name of
        (phrase, ok) \<Rightarrow>
          if ok then []
          else
            let wordcount = length (nameTokens name);
                fail = (\<lambda>msg. [verror ''id'' (pre @ ''/'' @ array @ ''/'' @ i) msg])
            in if wordcount = 0 then fail (NameReducesToNothing nodeType name)
               else if phrase \<noteq> name then fail (NameNotItsTokenization nodeType name phrase)
               else fail (NameTooLong nodeType name wordcount))"

definition checkNameRecoverability :: "spec_files \<Rightarrow> string list \<Rightarrow> modules_map \<Rightarrow> project \<Rightarrow> profile
    \<Rightarrow> validation_error list" where
  "checkNameRecoverability fsys modNames modules prj p =
     concat (map (\<lambda>modName.
       case map_of modules modName of
         None \<Rightarrow> []
       | Some m \<Rightarrow>
           concat (map (\<lambda>nt.
             concat (map (\<lambda>e. nameShapeError (module_prefix modName) (nt_plural_key nt) (nt_name nt)
                                (ne_name e) (ne_id e))
               (module_entries fsys (modulePathByName prj modName) m nt)))
             (nameDeclarableNodeTypes p))) modNames)"

subsection \<open>References\<close>

definition missing_targets :: "string \<Rightarrow> string \<Rightarrow> string \<Rightarrow> string set \<Rightarrow> string list \<Rightarrow> validation_error list" where
  "missing_targets path kind to known ids =
     map (\<lambda>i. verror ''id'' path (MissingTarget kind to i)) (filter (\<lambda>i. i \<notin> known) ids)"

definition checkProjectRefs :: "project \<Rightarrow> validation_error list" where
  "checkProjectRefs prj =
     concat (map (\<lambda>r. missing_targets (''project.json:/requirements/'' @ req_id r) ''depends_on''
                         ''requirement'' (req_id ` set (prj_requirements prj)) (req_depends_on r))
              (prj_requirements prj))
   @ concat (map (\<lambda>m. missing_targets (''project.json:/modules/'' @ mod_id m) ''requires_module''
                         ''module'' (mod_id ` set (prj_modules prj)) (mod_requires_module m))
              (prj_modules prj))"

definition checkProjectPriority :: "project \<Rightarrow> validation_error list" where
  "checkProjectPriority prj =
     concat (map (\<lambda>r.
       let path = ''project.json:/requirements/'' @ req_id r in
       case req_priority r of
         None \<Rightarrow> [verror ''id'' path (MissingPriority (req_id r))]
       | Some n \<Rightarrow> if n < 0 \<or> n > 4 then [verror ''id'' path (PriorityOutOfRange (req_id r) n)] else [])
     (prj_requirements prj))"

definition checkModuleRefs :: "string \<Rightarrow> module_spec \<Rightarrow> project \<Rightarrow> validation_error list" where
  "checkModuleRefs modName m prj =
     (let reqSet = mrq_id ` set (ms_requirements m);
          compSet = cmp_id ` set (ms_components m);
          projReqSet = req_id ` set (prj_requirements prj);
          pre = module_prefix modName
      in concat (map (\<lambda>c.
             missing_targets (pre @ ''/components/'' @ cmp_id c) ''implements'' ''requirement'' reqSet (cmp_implements c)
           @ missing_targets (pre @ ''/components/'' @ cmp_id c) ''uses'' ''component'' compSet (cmp_uses c))
           (ms_components m))
       @ concat (map (\<lambda>f. missing_targets (pre @ ''/data_flows/'' @ dfl_id f) ''uses'' ''component''
             compSet (dfl_uses f)) (ms_data_flows m))
       @ concat (map (\<lambda>a. missing_targets (pre @ ''/apis/'' @ api_id a) ''provided_by'' ''component''
             compSet (api_provided_by a)) (ms_apis m))
       @ concat (map (\<lambda>t. missing_targets (pre @ ''/test_sections/'' @ tst_id t) ''describes'' ''component''
             compSet (tst_describes t)) (ms_test_sections m))
       @ concat (map (\<lambda>r.
             missing_targets (pre @ ''/requirements/'' @ mrq_id r) ''depends_on'' ''requirement'' reqSet (mrq_depends_on r)
           @ (if mrq_preq_id r = []
              then [verror ''id'' (pre @ ''/requirements/'' @ mrq_id r) (MissingPreqID (mrq_id r))]
              else missing_targets (pre @ ''/requirements/'' @ mrq_id r) ''preq_id'' ''project requirement''
                     projReqSet [mrq_preq_id r]))
           (ms_requirements m)))"

subsection \<open>Edges only the profile declares\<close>

definition moduleTypeIDSet :: "module_spec \<Rightarrow> string \<Rightarrow> string set option" where
  "moduleTypeIDSet m typeName =
     map_option (\<lambda>es. ne_id ` set es) (moduleTypedEntries m typeName)"

definition projectTypeIDSet :: "project \<Rightarrow> string \<Rightarrow> string set option" where
  "projectTypeIDSet prj typeName =
     (if typeName = ''requirement'' then Some (req_id ` set (prj_requirements prj))
      else if typeName = ''module'' then Some (mod_id ` set (prj_modules prj))
      else None)"

definition no_array :: file_error where
  "no_array = ReadFailed ''no array declared for node type''"

definition ids_of :: "(file_error, raw_entry list) result \<Rightarrow> (file_error, string set) result" where
  "ids_of r = bind_result r (\<lambda>es. Inr (entriesIDSet es))"

definition projectTargetSet :: "spec_files \<Rightarrow> project \<Rightarrow> profile \<Rightarrow> string
    \<Rightarrow> (file_error, string set) result \<Rightarrow> (file_error, string set) result" where
  "projectTargetSet fsys prj p typeName otherwise =
     (case projectTypeIDSet prj typeName of
        Some s \<Rightarrow> Inr s
      | None \<Rightarrow>
          (case findProjectNodeType p typeName of
             Some nt \<Rightarrow> ids_of (rawProjectEntries fsys (nt_plural_key nt))
           | None \<Rightarrow> otherwise))"

definition edgeTargetSet :: "spec_files \<Rightarrow> string \<Rightarrow> module_spec \<Rightarrow> project \<Rightarrow> profile \<Rightarrow> string
    \<Rightarrow> (file_error, string set) result" where
  "edgeTargetSet fsys modPath m prj p typeName =
     (case moduleTypeIDSet m typeName of
        Some s \<Rightarrow> Inr s
      | None \<Rightarrow>
          (case findModuleNodeType p typeName of
             Some nt \<Rightarrow> ids_of (rawModuleEntries fsys modPath (nt_plural_key nt))
           | None \<Rightarrow> projectTargetSet fsys prj p typeName (Inl no_array)))"

definition module_type_ids :: "spec_files \<Rightarrow> project \<Rightarrow> modules_map \<Rightarrow> node_type option \<Rightarrow> string \<Rightarrow> string
    \<Rightarrow> (file_error, string set) result" where
  "module_type_ids fsys prj modules generic typeName modName =
     (case map_of modules modName of
        None \<Rightarrow> Inr {}
      | Some m \<Rightarrow>
          (case moduleTypeIDSet m typeName of
             Some s \<Rightarrow> Inr s
           | None \<Rightarrow>
               (case generic of
                  Some nt \<Rightarrow> ids_of (rawModuleEntries fsys (modulePathByName prj modName) (nt_plural_key nt))
                | None \<Rightarrow> Inr {})))"

definition moduleUnionTypeIDSet :: "spec_files \<Rightarrow> string list \<Rightarrow> project \<Rightarrow> modules_map \<Rightarrow> profile \<Rightarrow> string
    \<Rightarrow> (file_error, string set) result" where
  "moduleUnionTypeIDSet fsys modNames prj modules p typeName =
     (let generic = findModuleNodeType p typeName
      in if generic = None \<and> typeName \<notin> set builtinModuleTypeNames then Inl no_array
         else bind_result (collect (module_type_ids fsys prj modules generic typeName) modNames)
                (\<lambda>sets. Inr (\<Union>(set sets))))"

definition projectEdgeTargetSet :: "spec_files \<Rightarrow> string list \<Rightarrow> project \<Rightarrow> modules_map \<Rightarrow> profile \<Rightarrow> string
    \<Rightarrow> (file_error, string set) result" where
  "projectEdgeTargetSet fsys modNames prj modules p typeName =
     projectTargetSet fsys prj p typeName (moduleUnionTypeIDSet fsys modNames prj modules p typeName)"

text \<open>The loop over the target types: a type whose set fails contributes nothing.\<close>

definition union_targets :: "(string \<Rightarrow> (file_error, string set) result) \<Rightarrow> string list \<Rightarrow> string set" where
  "union_targets target to =
     \<Union>(set (map (\<lambda>toName. case target toName of Inl e \<Rightarrow> {} | Inr s \<Rightarrow> s) to))"

definition checkEdgeSources :: "string \<Rightarrow> string \<Rightarrow> string \<Rightarrow> string list \<Rightarrow> raw_entry list \<Rightarrow> string set
    \<Rightarrow> validation_error list" where
  "checkEdgeSources pre pluralKey edgeKind to sources targets =
     concat (map (\<lambda>src.
       missing_targets (pre @ ''/'' @ pluralKey @ ''/'' @ raw_str src ''id'') edgeKind
         (join_strings ''/'' to) targets (strSlice src edgeKind)) sources)"

definition extraEdgeKinds :: "profile \<Rightarrow> edge list" where
  "extraEdgeKinds p =
     List.map_filter (\<lambda>e.
       let covered = (case map_of builtinEdgeCoverage (edg_kind e) of Some c \<Rightarrow> c | None \<Rightarrow> []);
           froms = filter (\<lambda>f. f \<notin> set covered) (edg_from e)
       in if froms = [] then None else Some (e\<lparr>edg_from := froms\<rparr>)) (prf_edges p)"

definition edge_source_errors :: "string \<Rightarrow> string \<Rightarrow> edge \<Rightarrow> (file_error, raw_entry list) result \<Rightarrow> string set
    \<Rightarrow> validation_error list" where
  "edge_source_errors pre pluralKey e sources targets =
     (case sources of
        Inl err \<Rightarrow> []
      | Inr es \<Rightarrow> if es = [] then []
                  else checkEdgeSources pre pluralKey (edg_kind e) (edg_to e) es targets)"

definition checkExtraModuleEdges :: "spec_files \<Rightarrow> string list \<Rightarrow> project \<Rightarrow> modules_map \<Rightarrow> profile
    \<Rightarrow> validation_error list" where
  "checkExtraModuleEdges fsys modNames prj modules p =
     concat (map (\<lambda>modName.
       case map_of modules modName of
         None \<Rightarrow> []
       | Some m \<Rightarrow>
           let modPath = modulePathByName prj modName in
           concat (map (\<lambda>e.
             concat (map (\<lambda>fromName.
               case findModuleNodeType p fromName of
                 None \<Rightarrow> []
               | Some nt \<Rightarrow>
                   edge_source_errors (module_prefix modName) (nt_plural_key nt) e
                     (rawModuleEntries fsys modPath (nt_plural_key nt))
                     (union_targets (edgeTargetSet fsys modPath m prj p) (edg_to e)))
             (edg_from e))) (extraEdgeKinds p))) modNames)"

definition checkExtraProjectEdges :: "spec_files \<Rightarrow> string list \<Rightarrow> project \<Rightarrow> modules_map \<Rightarrow> profile
    \<Rightarrow> validation_error list" where
  "checkExtraProjectEdges fsys modNames prj modules p =
     concat (map (\<lambda>e.
       concat (map (\<lambda>fromName.
         case projectEdgeSourceKey p fromName of
           None \<Rightarrow> []
         | Some key \<Rightarrow>
             edge_source_errors ''project.json:'' key e (rawProjectEntries fsys key)
               (union_targets (projectEdgeTargetSet fsys modNames prj modules p) (edg_to e)))
       (edg_from e))) (extraEdgeKinds p))"

subsection \<open>The check\<close>

definition over_modules :: "modules_map \<Rightarrow> (string \<Rightarrow> module_spec \<Rightarrow> validation_error list) \<Rightarrow> validation_error list" where
  "over_modules modules chk =
     concat (map (\<lambda>n. case map_of modules n of None \<Rightarrow> [] | Some m \<Rightarrow> chk n m) (module_names modules))"

definition id_uniqueness :: "spec_files \<Rightarrow> project \<Rightarrow> modules_map \<Rightarrow> profile \<Rightarrow> validation_error list" where
  "id_uniqueness fsys prj modules p =
     (let modNames = module_names modules
      in checkProjectUniqueness prj
       @ over_modules modules checkModuleUniqueness
       @ checkExtraModuleUniqueness fsys modNames prj (extraModuleNodeTypes p)
       @ checkExtraProjectUniqueness fsys (extraProjectNodeTypes p)
       @ checkAPINameUniqueness modNames modules
       @ checkNameRecoverability fsys modNames modules prj p)"

definition id_references :: "spec_files \<Rightarrow> project \<Rightarrow> modules_map \<Rightarrow> profile \<Rightarrow> validation_error list" where
  "id_references fsys prj modules p =
     (let modNames = module_names modules
      in checkProjectRefs prj @ checkProjectPriority prj
       @ over_modules modules (\<lambda>n m. checkModuleRefs n m prj)
       @ checkExtraModuleEdges fsys modNames prj modules p
       @ checkExtraProjectEdges fsys modNames prj modules p)"

definition CheckIDsFS :: "spec_files \<Rightarrow> validation_error list" where
  "CheckIDsFS fsys =
     (case load_checked fsys ''id'' of
        Inl errs \<Rightarrow> errs
      | Inr (prj, modules, p) \<Rightarrow>
          let result = id_uniqueness fsys prj modules p
          in if result \<noteq> [] then result else id_references fsys prj modules p)"

subsection \<open>Derived ids and module names\<close>

definition derivedIDError :: "string \<Rightarrow> string \<Rightarrow> string \<Rightarrow> string \<Rightarrow> string \<Rightarrow> string \<Rightarrow> validation_error list" where
  "derivedIDError pre array modName nodeType name i =
     (let want = IdentityHash [modName, nodeType, name]
      in if i = want then []
         else [verror ''id_derivation'' (pre @ ''/'' @ array @ ''/'' @ i) (NotDerivedID nodeType name i want)])"

definition CheckIDDerivationFS :: "spec_files \<Rightarrow> validation_error list" where
  "CheckIDDerivationFS fsys =
     (case load_checked fsys ''id_derivation'' of
        Inl errs \<Rightarrow> errs
      | Inr (prj, modules, p) \<Rightarrow>
          concat (map (\<lambda>d.
            case map_of modules (mod_name d) of
              None \<Rightarrow> []
            | Some m \<Rightarrow>
                concat (map (\<lambda>nt.
                  concat (map (\<lambda>e. derivedIDError (module_prefix (mod_name d)) (nt_plural_key nt) (mod_name d)
                                     (nt_name nt) (ne_name e) (ne_id e))
                    (module_entries fsys (mod_path d) m nt)))
                  (moduleScopedNodeTypes p))) (prj_modules prj)))"

text \<open>
  The case mapping of the standard library, Unicode's, is a parameter: \<open>toLower\<close> is
  \<open>strings.ToLower\<close> and \<open>equalFold\<close> is \<open>strings.EqualFold\<close>.
\<close>

definition checkModuleName :: "(string \<Rightarrow> string) \<Rightarrow> (string \<Rightarrow> string \<Rightarrow> bool) \<Rightarrow> module_decl \<Rightarrow> module_spec
    \<Rightarrow> validation_error list" where
  "checkModuleName toLower equalFold d m =
     (let projName = mod_name d; modName = ms_name m; path = mod_path d @ ''/module.json''
      in if projName \<noteq> modName then
           (if equalFold projName modName
            then [verror ''name_consistency'' path (NameCaseDiffers projName modName)]
            else [verror ''name_consistency'' path (NameConflict projName modName)])
         else if projName \<noteq> toLower projName then [verror ''name_consistency'' path (NameNotLowercase projName)]
         else [])"

definition CheckNameConsistencyFS :: "(string \<Rightarrow> string) \<Rightarrow> (string \<Rightarrow> string \<Rightarrow> bool) \<Rightarrow> spec_files
    \<Rightarrow> validation_error list" where
  "CheckNameConsistencyFS toLower equalFold fsys =
     (case loadSpec fsys ''name_consistency'' of
        Inl errs \<Rightarrow> errs
      | Inr (prj, modules) \<Rightarrow>
          concat (map (\<lambda>d. case map_of modules (mod_name d) of
                             None \<Rightarrow> []
                           | Some m \<Rightarrow> checkModuleName toLower equalFold d m)
            (prj_modules prj)))"

subsection \<open>What an accepted specification satisfies\<close>

named_theorems id_simps \<open>when a part of the id check reports nothing\<close>

lemma distinct_count_le: "distinct xs \<longleftrightarrow> (\<forall>x \<in> set xs. count_list xs x \<le> 1)"
proof (induction xs)
  case (Cons x xs)
  have "count_list xs x = 0 \<longleftrightarrow> x \<notin> set xs" by (rule count_list_0_iff)
  then show ?case using Cons by auto
qed simp

lemma concat_map_Nil [id_simps]: "concat (map f xs) = [] \<longleftrightarrow> (\<forall>x \<in> set xs. f x = [])"
  by auto

lemma checkDuplicateIDs_Nil [id_simps]: "checkDuplicateIDs path ids = [] \<longleftrightarrow> distinct ids"
  by (simp add: checkDuplicateIDs_def filter_empty_conv not_less distinct_count_le)

lemma missing_targets_Nil [id_simps]: "missing_targets path kind to known ids = [] \<longleftrightarrow> set ids \<subseteq> known"
  by (auto simp: missing_targets_def filter_empty_conv)

lemma nameShapeError_Nil [id_simps]: "nameShapeError pre array nodeType name i = [] \<longleftrightarrow> snd (declarableName name)"
  by (simp add: nameShapeError_def Let_def split: prod.splits)

definition recoverable :: "string \<Rightarrow> bool" where
  "recoverable name \<longleftrightarrow>
     (\<exists>ts. name = join_strings '' '' ts \<and> list_all is_token ts \<and> ts \<noteq> [] \<and> length ts \<le> maxNameWords)"

lemma declarable_recoverable [id_simps]: "snd (declarableName name) \<longleftrightarrow> recoverable name"
  by (simp add: declarableName_iff recoverable_def)

definition project_distinct :: "project \<Rightarrow> bool" where
  "project_distinct prj \<longleftrightarrow> distinct (map req_id (prj_requirements prj)) \<and>
     distinct (map mod_id (prj_modules prj)) \<and> distinct (map sec_id (prj_sections prj))"

definition module_distinct :: "module_spec \<Rightarrow> bool" where
  "module_distinct m \<longleftrightarrow> distinct (map mrq_id (ms_requirements m)) \<and>
     distinct (map cmp_id (ms_components m)) \<and> distinct (map dfl_id (ms_data_flows m)) \<and>
     distinct (map tst_id (ms_test_sections m)) \<and> distinct (map api_id (ms_apis m))"

definition raw_distinct :: "(file_error, raw_entry list) result \<Rightarrow> bool" where
  "raw_distinct r \<longleftrightarrow> (\<forall>es. r = Inr es \<longrightarrow> distinct (map (\<lambda>e. raw_str e ''id'') es))"

definition ids_distinct :: "spec_files \<Rightarrow> project \<Rightarrow> modules_map \<Rightarrow> profile \<Rightarrow> bool" where
  "ids_distinct fsys prj modules p \<longleftrightarrow>
     project_distinct prj \<and> (\<forall>(n, m) \<in> set modules. module_distinct m) \<and>
     (\<forall>n \<in> fst ` set modules. \<forall>nt \<in> set (extraModuleNodeTypes p).
        raw_distinct (rawModuleEntries fsys (modulePathByName prj n) (nt_plural_key nt))) \<and>
     (\<forall>nt \<in> set (extraProjectNodeTypes p). raw_distinct (rawProjectEntries fsys (nt_plural_key nt))) \<and>
     distinct (map fst (api_declarers (module_names modules) modules))"

definition names_recoverable :: "spec_files \<Rightarrow> project \<Rightarrow> modules_map \<Rightarrow> profile \<Rightarrow> bool" where
  "names_recoverable fsys prj modules p \<longleftrightarrow>
     (\<forall>(n, m) \<in> set modules. \<forall>nt \<in> set (nameDeclarableNodeTypes p).
        \<forall>e \<in> set (module_entries fsys (modulePathByName prj n) m nt). recoverable (ne_name e))"

definition project_typed :: "project \<Rightarrow> bool" where
  "project_typed prj \<longleftrightarrow>
     (\<forall>r \<in> set (prj_requirements prj). set (req_depends_on r) \<subseteq> req_id ` set (prj_requirements prj) \<and>
        (\<exists>n. req_priority r = Some n \<and> 0 \<le> n \<and> n \<le> 4)) \<and>
     (\<forall>m \<in> set (prj_modules prj). set (mod_requires_module m) \<subseteq> mod_id ` set (prj_modules prj))"

definition module_typed :: "project \<Rightarrow> module_spec \<Rightarrow> bool" where
  "module_typed prj m \<longleftrightarrow>
     (let reqs = mrq_id ` set (ms_requirements m); comps = cmp_id ` set (ms_components m) in
     (\<forall>c \<in> set (ms_components m). set (cmp_implements c) \<subseteq> reqs \<and> set (cmp_uses c) \<subseteq> comps) \<and>
     (\<forall>f \<in> set (ms_data_flows m). set (dfl_uses f) \<subseteq> comps) \<and>
     (\<forall>a \<in> set (ms_apis m). set (api_provided_by a) \<subseteq> comps) \<and>
     (\<forall>t \<in> set (ms_test_sections m). set (tst_describes t) \<subseteq> comps) \<and>
     (\<forall>r \<in> set (ms_requirements m). set (mrq_depends_on r) \<subseteq> reqs \<and> mrq_preq_id r \<noteq> [] \<and>
        mrq_preq_id r \<in> req_id ` set (prj_requirements prj)))"

definition sources_typed :: "edge \<Rightarrow> (file_error, raw_entry list) result \<Rightarrow> string set \<Rightarrow> bool" where
  "sources_typed e sources targets \<longleftrightarrow>
     (\<forall>es. sources = Inr es \<longrightarrow> (\<forall>src \<in> set es. set (strSlice src (edg_kind e)) \<subseteq> targets))"

definition extras_typed :: "spec_files \<Rightarrow> project \<Rightarrow> modules_map \<Rightarrow> profile \<Rightarrow> bool" where
  "extras_typed fsys prj modules p \<longleftrightarrow>
     (\<forall>(n, m) \<in> set modules. \<forall>e \<in> set (extraEdgeKinds p). \<forall>f \<in> set (edg_from e). \<forall>nt.
        findModuleNodeType p f = Some nt \<longrightarrow>
          sources_typed e (rawModuleEntries fsys (modulePathByName prj n) (nt_plural_key nt))
            (union_targets (edgeTargetSet fsys (modulePathByName prj n) m prj p) (edg_to e))) \<and>
     (\<forall>e \<in> set (extraEdgeKinds p). \<forall>f \<in> set (edg_from e). \<forall>key.
        projectEdgeSourceKey p f = Some key \<longrightarrow>
          sources_typed e (rawProjectEntries fsys key)
            (union_targets (projectEdgeTargetSet fsys (module_names modules) prj modules p) (edg_to e)))"

lemma checkProjectUniqueness_Nil [id_simps]: "checkProjectUniqueness prj = [] \<longleftrightarrow> project_distinct prj"
  by (simp add: checkProjectUniqueness_def project_distinct_def id_simps)

lemma checkModuleUniqueness_Nil [id_simps]: "checkModuleUniqueness n m = [] \<longleftrightarrow> module_distinct m"
  by (simp add: checkModuleUniqueness_def module_distinct_def id_simps)

lemma raw_duplicates_Nil [id_simps]: "raw_duplicates path r = [] \<longleftrightarrow> raw_distinct r"
  by (cases r) (simp_all add: raw_duplicates_def raw_distinct_def id_simps)

lemma set_module_names_keys: "set (module_names modules) = fst ` set modules"
  by (simp add: module_names_def)

lemma over_modules_Nil:
  assumes "distinct (map fst modules)"
  shows "over_modules modules chk = [] \<longleftrightarrow> (\<forall>(n, m) \<in> set modules. chk n m = [])"
  using assms by (force simp: over_modules_def set_module_names_keys)

lemma length_filter_key_less_2:
  "(\<forall>k \<in> fst ` set ds. length (filter (\<lambda>d. fst d = k) ds) < 2) \<longleftrightarrow> distinct (map fst ds)"
proof -
  have len: "length (filter (\<lambda>d. fst d = k) ds) = count_list (map fst ds) k" for k
    by (induction ds) auto
  show ?thesis unfolding distinct_count_le len by (simp add: less_Suc_eq_le numeral_2_eq_2)
qed

lemma checkAPINameUniqueness_Nil [id_simps]:
  "checkAPINameUniqueness ns modules = [] \<longleftrightarrow> distinct (map fst (api_declarers ns modules))"
  unfolding checkAPINameUniqueness_def Let_def length_filter_key_less_2[symmetric] by auto

lemma checkNameRecoverability_Nil:
  assumes "distinct (map fst modules)"
  shows "checkNameRecoverability fsys (module_names modules) modules prj p = [] \<longleftrightarrow>
    names_recoverable fsys prj modules p"
proof -
  have "checkNameRecoverability fsys (module_names modules) modules prj p =
      over_modules modules (\<lambda>n m. concat (map (\<lambda>nt.
             concat (map (\<lambda>e. nameShapeError (module_prefix n) (nt_plural_key nt) (nt_name nt)
                                (ne_name e) (ne_id e))
               (module_entries fsys (modulePathByName prj n) m nt))) (nameDeclarableNodeTypes p)))"
    unfolding checkNameRecoverability_def over_modules_def ..
  then show ?thesis
    using over_modules_Nil[OF assms] by (auto simp: names_recoverable_def id_simps)
qed

lemma id_uniqueness_Nil:
  assumes "distinct (map fst modules)"
  shows "id_uniqueness fsys prj modules p = [] \<longleftrightarrow>
    ids_distinct fsys prj modules p \<and> names_recoverable fsys prj modules p"
  unfolding id_uniqueness_def Let_def append_is_Nil_conv checkNameRecoverability_Nil[OF assms]
    over_modules_Nil[OF assms] ids_distinct_def
  by (auto simp: id_simps checkExtraModuleUniqueness_def checkExtraProjectUniqueness_def set_module_names_keys)

lemma checkProjectRefs_Nil:
  "checkProjectRefs prj = [] \<and> checkProjectPriority prj = [] \<longleftrightarrow> project_typed prj"
proof -
  have "checkProjectPriority prj = [] \<longleftrightarrow>
      (\<forall>r \<in> set (prj_requirements prj). \<exists>n. req_priority r = Some n \<and> 0 \<le> n \<and> n \<le> 4)"
    unfolding checkProjectPriority_def Let_def concat_map_Nil
  proof (intro ball_cong refl)
    fix x :: requirement
    show "((case req_priority x of
             None \<Rightarrow> [verror ''id'' (''project.json:/requirements/'' @ req_id x) (MissingPriority (req_id x))]
           | Some n \<Rightarrow> if n < 0 \<or> 4 < n
               then [verror ''id'' (''project.json:/requirements/'' @ req_id x) (PriorityOutOfRange (req_id x) n)]
               else []) = []) = (\<exists>n. req_priority x = Some n \<and> 0 \<le> n \<and> n \<le> 4)"
      by (cases "req_priority x") auto
  qed
  then show ?thesis by (auto simp: checkProjectRefs_def project_typed_def id_simps)
qed

lemma checkModuleRefs_Nil [id_simps]: "checkModuleRefs n m prj = [] \<longleftrightarrow> module_typed prj m"
proof -
  have preq: "(if mrq_preq_id r = [] then [verror ''id'' path msg]
      else missing_targets path kind to known [mrq_preq_id r]) = [] \<longleftrightarrow>
      mrq_preq_id r \<noteq> [] \<and> mrq_preq_id r \<in> known" for r :: module_requirement and path msg kind to known
    by (simp add: id_simps)
  show ?thesis
    unfolding checkModuleRefs_def module_typed_def Let_def append_is_Nil_conv concat_map_Nil
      missing_targets_Nil preq ..
qed

lemma edge_source_errors_Nil [id_simps]:
  "edge_source_errors pre key e sources targets = [] \<longleftrightarrow> sources_typed e sources targets"
  by (auto simp: edge_source_errors_def sources_typed_def checkEdgeSources_def id_simps split: sum.splits)

lemma checkExtraModuleEdges_Nil:
  assumes "distinct (map fst modules)"
  shows "checkExtraModuleEdges fsys (module_names modules) prj modules p = [] \<longleftrightarrow>
    (\<forall>(n, m) \<in> set modules. \<forall>e \<in> set (extraEdgeKinds p). \<forall>f \<in> set (edg_from e). \<forall>nt.
        findModuleNodeType p f = Some nt \<longrightarrow>
          sources_typed e (rawModuleEntries fsys (modulePathByName prj n) (nt_plural_key nt))
            (union_targets (edgeTargetSet fsys (modulePathByName prj n) m prj p) (edg_to e)))"
proof -
  have eq: "checkExtraModuleEdges fsys (module_names modules) prj modules p =
      over_modules modules (\<lambda>n m. concat (map (\<lambda>e.
             concat (map (\<lambda>fromName.
               case findModuleNodeType p fromName of
                 None \<Rightarrow> []
               | Some nt \<Rightarrow>
                   edge_source_errors (module_prefix n) (nt_plural_key nt) e
                     (rawModuleEntries fsys (modulePathByName prj n) (nt_plural_key nt))
                     (union_targets (edgeTargetSet fsys (modulePathByName prj n) m prj p) (edg_to e)))
             (edg_from e))) (extraEdgeKinds p)))"
    unfolding checkExtraModuleEdges_def over_modules_def Let_def ..
  then show ?thesis
    unfolding eq over_modules_Nil[OF assms] by (fastforce simp: id_simps split: option.splits)
qed

lemma id_references_Nil:
  assumes "distinct (map fst modules)"
  shows "id_references fsys prj modules p = [] \<longleftrightarrow>
    project_typed prj \<and> (\<forall>(n, m) \<in> set modules. module_typed prj m) \<and> extras_typed fsys prj modules p"
proof -
  have "checkExtraProjectEdges fsys (module_names modules) prj modules p = [] \<longleftrightarrow>
     (\<forall>e \<in> set (extraEdgeKinds p). \<forall>f \<in> set (edg_from e). \<forall>key.
        projectEdgeSourceKey p f = Some key \<longrightarrow>
          sources_typed e (rawProjectEntries fsys key)
            (union_targets (projectEdgeTargetSet fsys (module_names modules) prj modules p) (edg_to e)))"
    unfolding checkExtraProjectEdges_def by (fastforce simp: id_simps split: option.splits)
  then show ?thesis
    unfolding id_references_def Let_def append_is_Nil_conv checkExtraModuleEdges_Nil[OF assms]
      over_modules_Nil[OF assms] extras_typed_def checkModuleRefs_Nil
    using checkProjectRefs_Nil[of prj] by blast
qed

lemma load_checked_distinct: "load_checked fsys chk = Inr (prj, modules, p) \<Longrightarrow> distinct (map fst modules)"
  by (auto simp: load_checked_Inr loadSpec_Inr intro: load_modules_distinct)

text \<open>
  C31: the id check accepts a specification exactly when its files load, every array has
  distinct ids and API names are globally distinct, every name that a later removal must be able to
  find is one to six corpus tokens joined by single spaces, and every reference, typed or declared by the profile, points to a node
  of a type its edge admits, with the priorities in range.
\<close>

theorem CheckIDs_exact:
  "CheckIDsFS fsys = [] \<longleftrightarrow>
    (\<exists>prj modules p. load_checked fsys ''id'' = Inr (prj, modules, p) \<and>
       ids_distinct fsys prj modules p \<and> names_recoverable fsys prj modules p \<and>
       project_typed prj \<and> (\<forall>(n, m) \<in> set modules. module_typed prj m) \<and> extras_typed fsys prj modules p)"
proof (cases "load_checked fsys ''id''")
  case (Inl errs)
  then show ?thesis using load_checked_Inl[OF Inl] by (simp add: CheckIDsFS_def)
next
  case (Inr r)
  obtain prj modules p where r: "r = (prj, modules, p)" by (cases r)
  note d = load_checked_distinct[OF Inr[unfolded r]]
  show ?thesis
    using id_uniqueness_Nil[OF d, of fsys prj p] id_references_Nil[OF d, of fsys prj p]
    by (auto simp: CheckIDsFS_def Inr r Let_def)
qed

lemma sample_extras:
  "extraEdgeKinds DefaultProfile = []" "extraModuleNodeTypes DefaultProfile = []"
  "extraProjectNodeTypes DefaultProfile = []"
  by code_simp+

lemma sample_tokens: "list_all is_token [''load'', ''loader'', ''test'']"
proof -
  have "list_all (\<lambda>t. normalize_step t = t \<and> t \<noteq> [] \<and> list_all (\<lambda>c. \<not> isSpaceByte c) t) [''load'', ''loader'', ''test'']"
    by code_simp
  then show ?thesis by (auto simp: list_all_iff is_token_def normalizeToken_stable)
qed

lemma recoverable_word: "is_token t \<Longrightarrow> recoverable t"
  by (auto simp: recoverable_def maxNameWords_def intro!: exI[of _ "[t]"])

lemma sample_names: "recoverable ''load''" "recoverable ''loader''" "recoverable ''load test''"
proof -
  show "recoverable ''load''" "recoverable ''loader''" using sample_tokens by (simp_all add: recoverable_word)
  show "recoverable ''load test''"
    using sample_tokens by (auto simp: recoverable_def maxNameWords_def intro!: exI[of _ "[''load'', ''test'']"])
qed

lemma sample_ids:
  "ids_distinct sample_files sample_project [(''core'', sample_spec)] DefaultProfile"
  "names_recoverable sample_files sample_project [(''core'', sample_spec)] DefaultProfile"
  "project_typed sample_project" "module_typed sample_project sample_spec"
  "extras_typed sample_files sample_project [(''core'', sample_spec)] DefaultProfile"
proof -
  show "ids_distinct sample_files sample_project [(''core'', sample_spec)] DefaultProfile"
    by (simp add: ids_distinct_def sample_extras project_distinct_def module_distinct_def sample_project_def
        sample_spec_def api_declarers_def module_names_def)
  have "list_all (\<lambda>nt. nt_name nt \<in> set builtinModuleTypeNames) (nameDeclarableNodeTypes DefaultProfile)"
    by code_simp
  then have "nt_name nt \<in> set builtinModuleTypeNames" if "nt \<in> set (nameDeclarableNodeTypes DefaultProfile)" for nt
    using that by (simp add: list_all_iff)
  then show "names_recoverable sample_files sample_project [(''core'', sample_spec)] DefaultProfile"
    using sample_names
    by (fastforce simp: names_recoverable_def module_entries_def moduleTypedEntries_def builtinModuleTypeNames_def
        named_def sample_spec_def)
  show "project_typed sample_project" "module_typed sample_project sample_spec"
    by (simp_all add: project_typed_def module_typed_def sample_project_def sample_spec_def)
  show "extras_typed sample_files sample_project [(''core'', sample_spec)] DefaultProfile"
    by (simp add: extras_typed_def sample_extras)
qed

theorem CheckIDs_exact_witness: "CheckIDsFS sample_files = []"
  unfolding CheckIDs_exact using sample_ids sample_loads by fastforce

lemma derivedIDError_Nil [id_simps]:
  "derivedIDError pre array modName nodeType name i = [] \<longleftrightarrow> i = IdentityHash [modName, nodeType, name]"
  by (simp add: derivedIDError_def Let_def)

lemma CheckIDDerivation_Nil:
  "CheckIDDerivationFS fsys = [] \<longleftrightarrow>
    (\<exists>prj modules p. load_checked fsys ''id_derivation'' = Inr (prj, modules, p) \<and>
       (\<forall>d \<in> set (prj_modules prj). \<forall>m. map_of modules (mod_name d) = Some m \<longrightarrow>
          (\<forall>nt \<in> set (moduleScopedNodeTypes p). \<forall>e \<in> set (module_entries fsys (mod_path d) m nt).
             ne_id e = IdentityHash [mod_name d, nt_name nt, ne_name e])))"
proof (cases "load_checked fsys ''id_derivation''")
  case (Inl errs)
  then show ?thesis using load_checked_Inl[OF Inl] by (simp add: CheckIDDerivationFS_def)
next
  case (Inr r)
  then show ?thesis
    by (cases r) (fastforce simp: CheckIDDerivationFS_def id_simps split: option.splits)
qed

end
