(* ===== verification/Validator_Coverage.thy ===== *)
theory Validator_Coverage
  imports Validator_Ids
begin

text \<open>
  Coverage: every project requirement is derived into a module requirement, every module requirement
  is implemented by a component (\<open>validator/requirement_coverage_checker.go\<close>), and every component
  has a test section (\<open>validator/test_coverage_checker.go\<close>); the types and edges are those of the
  profile's coverage chains.
\<close>

subsection \<open>Chains\<close>

definition completenessTriggerType :: "profile \<Rightarrow> string \<Rightarrow> node_type option" where
  "completenessTriggerType p scope =
     find (\<lambda>t. nt_scope t = scope \<and> nt_completeness_trigger t) (prf_node_types p)"

definition findCoverageChain :: "profile \<Rightarrow> string \<Rightarrow> string \<Rightarrow> coverage_chain option" where
  "findCoverageChain p coveredType coveredScope =
     find (\<lambda>c. cch_covered_type c = coveredType \<and> cch_covered_scope c = coveredScope) (prf_coverage_chains p)"

definition projectDerivationChain :: "profile \<Rightarrow> coverage_chain option" where
  "projectDerivationChain p =
     Option.bind (completenessTriggerType p ''project'') (\<lambda>t. findCoverageChain p (nt_name t) ''project'')"

definition moduleImplementationChain :: "profile \<Rightarrow> coverage_chain option" where
  "moduleImplementationChain p =
     Option.bind (completenessTriggerType p ''module'') (\<lambda>t. findCoverageChain p (nt_name t) ''module'')"

definition testCoverageChain :: "profile \<Rightarrow> coverage_chain option" where
  "testCoverageChain p = find (\<lambda>c. cch_covering_type c = ''test_section'') (prf_coverage_chains p)"

subsection \<open>Covered entries\<close>

record coverage_node =
  cn_id :: string
  cn_title :: string
  cn_derivation :: string

definition entryTitle :: "raw_entry \<Rightarrow> string" where
  "entryTitle e = (if raw_str e ''name'' \<noteq> [] then raw_str e ''name'' else raw_str e ''title'')"

definition projectCoveredEntries :: "spec_files \<Rightarrow> profile \<Rightarrow> project \<Rightarrow> coverage_chain
    \<Rightarrow> (file_error, coverage_node list) result" where
  "projectCoveredEntries fsys p prj chain =
     (if cch_covered_type chain = ''requirement'' then
        Inr (map (\<lambda>r. \<lparr>cn_id = req_id r, cn_title = req_title r, cn_derivation = req_derivation r\<rparr>)
               (prj_requirements prj))
      else case findProjectNodeType p (cch_covered_type chain) of
             None \<Rightarrow> Inr []
           | Some nt \<Rightarrow>
               bind_result (rawProjectEntries fsys (nt_plural_key nt)) (\<lambda>es.
                 Inr (map (\<lambda>e. \<lparr>cn_id = raw_str e ''id'', cn_title = entryTitle e,
                                 cn_derivation = raw_str e ''derivation''\<rparr>) es)))"

definition moduleCoveredEntries :: "spec_files \<Rightarrow> string \<Rightarrow> module_spec \<Rightarrow> profile \<Rightarrow> coverage_chain
    \<Rightarrow> (file_error, coverage_node list) result" where
  "moduleCoveredEntries fsys modPath m p chain =
     (if cch_covered_type chain = ''requirement'' then
        Inr (map (\<lambda>r. \<lparr>cn_id = mrq_id r, cn_title = mrq_title r, cn_derivation = []\<rparr>) (ms_requirements m))
      else case findModuleNodeType p (cch_covered_type chain) of
             None \<Rightarrow> Inr []
           | Some nt \<Rightarrow>
               bind_result (rawModuleEntries fsys modPath (nt_plural_key nt)) (\<lambda>es.
                 Inr (map (\<lambda>e. \<lparr>cn_id = raw_str e ''id'', cn_title = entryTitle e, cn_derivation = []\<rparr>) es)))"

definition coveringEdgeTargets :: "spec_files \<Rightarrow> string \<Rightarrow> module_spec \<Rightarrow> profile \<Rightarrow> coverage_chain
    \<Rightarrow> (file_error, string list) result" where
  "coveringEdgeTargets fsys modPath m p chain =
     (if cch_covering_type chain = ''component'' \<and> cch_edge chain = ''implements'' then
        Inr (concat (map cmp_implements (ms_components m)))
      else if cch_covering_type chain = ''requirement'' \<and> cch_edge chain = ''preq_id'' then
        Inr (filter (\<lambda>i. i \<noteq> []) (map mrq_preq_id (ms_requirements m)))
      else case findModuleNodeType p (cch_covering_type chain) of
             None \<Rightarrow> Inr []
           | Some nt \<Rightarrow>
               bind_result (rawModuleEntries fsys modPath (nt_plural_key nt)) (\<lambda>es.
                 Inr (concat (map (\<lambda>e. edgeTargets e (cch_edge chain)) es))))"

subsection \<open>Requirement coverage\<close>

definition coverageLabel :: "string \<Rightarrow> string \<Rightarrow> string" where
  "coverageLabel scope typeName = (if scope = [] then typeName else scope @ '' '' @ typeName)"

text \<open>The targets of all modules; a module whose entries cannot be read adds none.\<close>

definition derived_targets :: "spec_files \<Rightarrow> profile \<Rightarrow> project \<Rightarrow> modules_map \<Rightarrow> coverage_chain \<Rightarrow> string set" where
  "derived_targets fsys p prj modules chain =
     \<Union>(set (map (\<lambda>(modName, m).
         case coveringEdgeTargets fsys (modulePathByName prj modName) m p chain of
           Inl e \<Rightarrow> {} | Inr ids \<Rightarrow> set ids) modules))"

definition underived_report :: "coverage_chain \<Rightarrow> coverage_node \<Rightarrow> validation_error list \<times> validation_note list" where
  "underived_report chain r =
     (let coveredLabel = coverageLabel (cch_covered_scope chain) (cch_covered_type chain);
          coveringLabel = coverageLabel (cch_covering_scope chain) (cch_covering_type chain);
          msg = NotCovered coveredLabel (cn_id r) (cn_title r) coveringLabel
      in if cn_derivation r = ''pending''
         then ([], [\<lparr>vn_type = ''pending_derivation'', vn_message = msg, vn_related = [cn_id r]\<rparr>])
         else ([verror ''requirement_coverage'' ''project.json'' msg], []))"

definition checkProjectRequirementCoverage :: "spec_files \<Rightarrow> profile \<Rightarrow> project \<Rightarrow> modules_map \<Rightarrow> coverage_chain
    \<Rightarrow> validation_error list \<times> validation_note list" where
  "checkProjectRequirementCoverage fsys p prj modules chain =
     (case projectCoveredEntries fsys p prj chain of
        Inl e \<Rightarrow> ([verror ''requirement_coverage'' ''project.json'' (file_message e)], [])
      | Inr covered \<Rightarrow>
          let derived = derived_targets fsys p prj modules chain;
              reports = map (underived_report chain) (filter (\<lambda>r. cn_id r \<notin> derived) covered)
          in (concat (map fst reports), concat (map snd reports)))"

definition detectUncoveredRequirements :: "spec_files \<Rightarrow> string \<Rightarrow> string \<Rightarrow> module_spec \<Rightarrow> profile
    \<Rightarrow> coverage_chain \<Rightarrow> validation_error list" where
  "detectUncoveredRequirements fsys modPath modName m p chain =
     (let path = modName @ ''/module.json'' in
      case moduleCoveredEntries fsys modPath m p chain of
        Inl e \<Rightarrow> [verror ''requirement_coverage'' path (file_message e)]
      | Inr covered \<Rightarrow>
          (case coveringEdgeTargets fsys modPath m p chain of
             Inl e \<Rightarrow> [verror ''requirement_coverage'' path (file_message e)]
           | Inr targets \<Rightarrow>
               map (\<lambda>r. verror ''requirement_coverage'' path
                      (NotImplemented modName (cch_covered_type chain) (cn_id r) (cn_title r) (cch_covering_type chain)))
                 (filter (\<lambda>r. cn_id r \<notin> set targets) covered)))"

definition CheckRequirementCoverageFS :: "spec_files \<Rightarrow> validation_error list \<times> validation_note list" where
  "CheckRequirementCoverageFS fsys =
     (case load_checked fsys ''requirement_coverage'' of
        Inl errs \<Rightarrow> (errs, [])
      | Inr (prj, modules, p) \<Rightarrow>
          let (errs, notes) = (case projectDerivationChain p of
                None \<Rightarrow> ([], [])
              | Some chain \<Rightarrow> checkProjectRequirementCoverage fsys p prj modules chain);
              modErrs = (case moduleImplementationChain p of
                None \<Rightarrow> []
              | Some chain \<Rightarrow> over_modules modules (\<lambda>n m.
                  detectUncoveredRequirements fsys (modulePathByName prj n) n m p chain))
          in (errs @ modErrs, notes))"

subsection \<open>Test coverage\<close>

definition coveredTypePluralKey :: "profile \<Rightarrow> string \<Rightarrow> string" where
  "coveredTypePluralKey p coveredType =
     (case findModuleNodeType p coveredType of Some nt \<Rightarrow> nt_plural_key nt | None \<Rightarrow> ''components'')"

definition coveredComponentEntries :: "spec_files \<Rightarrow> string \<Rightarrow> module_spec \<Rightarrow> profile \<Rightarrow> coverage_chain
    \<Rightarrow> (file_error, named_entry list) result" where
  "coveredComponentEntries fsys modPath m p chain =
     (case moduleTypedEntries m (cch_covered_type chain) of
        Some es \<Rightarrow> Inr es
      | None \<Rightarrow>
          (case findModuleNodeType p (cch_covered_type chain) of
             None \<Rightarrow> Inr []
           | Some nt \<Rightarrow> bind_result (rawModuleEntries fsys modPath (nt_plural_key nt)) (\<lambda>es.
                          Inr (namedEntriesFromRaw es))))"

definition testSectionEdgeTargets :: "spec_files \<Rightarrow> string \<Rightarrow> module_spec \<Rightarrow> profile \<Rightarrow> coverage_chain
    \<Rightarrow> (file_error, string set) result" where
  "testSectionEdgeTargets fsys modPath m p chain =
     (if cch_edge chain = ''describes'' then
        Inr (\<Union>(set (map (\<lambda>t. set (tst_describes t)) (ms_test_sections m))))
      else case findModuleNodeType p (cch_covering_type chain) of
             None \<Rightarrow> Inr {}
           | Some nt \<Rightarrow> bind_result (rawModuleEntries fsys modPath (nt_plural_key nt)) (\<lambda>es.
                          Inr (\<Union>(set (map (\<lambda>e. set (edgeTargets e (cch_edge chain))) es)))))"

definition detectUncoveredComponents :: "spec_files \<Rightarrow> string \<Rightarrow> string \<Rightarrow> module_spec \<Rightarrow> profile
    \<Rightarrow> coverage_chain \<Rightarrow> validation_error list" where
  "detectUncoveredComponents fsys modPath modName m p chain =
     (let path = modName @ ''/module.json'' in
      case coveredComponentEntries fsys modPath m p chain of
        Inl e \<Rightarrow> [verror ''test_coverage'' path (file_message e)]
      | Inr covered \<Rightarrow>
          (case testSectionEdgeTargets fsys modPath m p chain of
             Inl e \<Rightarrow> [verror ''test_coverage'' path (file_message e)]
           | Inr coveredIDs \<Rightarrow>
               let pluralKey = coveredTypePluralKey p (cch_covered_type chain) in
               map (\<lambda>c. verror ''test_coverage''
                      (modName @ ''/module.json:/'' @ pluralKey @ ''/'' @ ne_id c)
                      (NoTestCoverage (cch_covered_type chain) (ne_name c) (ne_id c) (cch_covering_type chain)))
                 (filter (\<lambda>c. ne_id c \<notin> coveredIDs) covered)))"

definition CheckTestCoverageFS :: "spec_files \<Rightarrow> validation_error list" where
  "CheckTestCoverageFS fsys =
     (case load_checked fsys ''test_coverage'' of
        Inl errs \<Rightarrow> errs
      | Inr (prj, modules, p) \<Rightarrow>
          (case testCoverageChain p of
             None \<Rightarrow> []
           | Some chain \<Rightarrow> over_modules modules (\<lambda>n m.
               detectUncoveredComponents fsys (modulePathByName prj n) n m p chain)))"

subsection \<open>What an accepted specification covers\<close>

lemma underived_report_error:
  "fst (underived_report chain r) = [] \<longleftrightarrow> cn_derivation r = ''pending''"
  by (simp add: underived_report_def Let_def)

lemma project_coverage_Nil:
  "fst (checkProjectRequirementCoverage fsys p prj modules chain) = [] \<longleftrightarrow>
     (\<exists>covered. projectCoveredEntries fsys p prj chain = Inr covered \<and>
        (\<forall>r \<in> set covered. cn_id r \<in> derived_targets fsys p prj modules chain \<or> cn_derivation r = ''pending''))"
  by (cases "projectCoveredEntries fsys p prj chain")
     (auto simp: checkProjectRequirementCoverage_def Let_def underived_report_error)

lemma requirement_coverage_Nil:
  "detectUncoveredRequirements fsys modPath n m p chain = [] \<longleftrightarrow>
     (\<exists>covered targets. moduleCoveredEntries fsys modPath m p chain = Inr covered \<and>
        coveringEdgeTargets fsys modPath m p chain = Inr targets \<and>
        (\<forall>r \<in> set covered. cn_id r \<in> set targets))"
  by (cases "moduleCoveredEntries fsys modPath m p chain";
      cases "coveringEdgeTargets fsys modPath m p chain")
     (auto simp: detectUncoveredRequirements_def Let_def filter_empty_conv)

lemma test_coverage_Nil:
  "detectUncoveredComponents fsys modPath n m p chain = [] \<longleftrightarrow>
     (\<exists>covered targets. coveredComponentEntries fsys modPath m p chain = Inr covered \<and>
        testSectionEdgeTargets fsys modPath m p chain = Inr targets \<and>
        (\<forall>c \<in> set covered. ne_id c \<in> targets))"
  by (cases "coveredComponentEntries fsys modPath m p chain";
      cases "testSectionEdgeTargets fsys modPath m p chain")
     (auto simp: detectUncoveredComponents_def Let_def filter_empty_conv)

subsection \<open>Traceability under the default profile\<close>

definition derivation_chain :: coverage_chain where
  "derivation_chain =
     \<lparr>cch_covered_type = ''requirement'', cch_covered_scope = ''project'', cch_edge = ''preq_id'',
      cch_covering_type = ''requirement'', cch_covering_scope = ''module''\<rparr>"

definition implementation_chain :: coverage_chain where
  "implementation_chain =
     \<lparr>cch_covered_type = ''requirement'', cch_covered_scope = ''module'', cch_edge = ''implements'',
      cch_covering_type = ''component'', cch_covering_scope = []\<rparr>"

definition test_chain :: coverage_chain where
  "test_chain =
     \<lparr>cch_covered_type = ''component'', cch_covered_scope = [], cch_edge = ''describes'',
      cch_covering_type = ''test_section'', cch_covering_scope = []\<rparr>"

lemmas chain_defs = derivation_chain_def implementation_chain_def test_chain_def

lemma default_chains:
  "projectDerivationChain DefaultProfile = Some derivation_chain"
  "moduleImplementationChain DefaultProfile = Some implementation_chain"
  "testCoverageChain DefaultProfile = Some test_chain"
  by code_simp+

definition derived :: "modules_map \<Rightarrow> requirement \<Rightarrow> bool" where
  "derived modules r \<longleftrightarrow>
     req_id r \<noteq> [] \<and> (\<exists>(n, m) \<in> set modules. \<exists>q \<in> set (ms_requirements m). mrq_preq_id q = req_id r)"

definition implemented :: "module_spec \<Rightarrow> module_requirement \<Rightarrow> bool" where
  "implemented m q \<longleftrightarrow> (\<exists>c \<in> set (ms_components m). mrq_id q \<in> set (cmp_implements c))"

definition tested :: "module_spec \<Rightarrow> component \<Rightarrow> bool" where
  "tested m c \<longleftrightarrow> (\<exists>t \<in> set (ms_test_sections m). cmp_id c \<in> set (tst_describes t))"

lemma derived_targets_default:
  "derived_targets fsys p prj modules derivation_chain =
     {i. i \<noteq> [] \<and> (\<exists>(n, m) \<in> set modules. \<exists>q \<in> set (ms_requirements m). mrq_preq_id q = i)}"
  by (force simp: derived_targets_def coveringEdgeTargets_def chain_defs)

lemma project_coverage_default:
  "fst (checkProjectRequirementCoverage fsys p prj modules derivation_chain) = [] \<longleftrightarrow>
     (\<forall>r \<in> set (prj_requirements prj). derived modules r \<or> req_derivation r = ''pending'')"
  unfolding project_coverage_Nil derived_targets_default
  by (auto simp: projectCoveredEntries_def chain_defs derived_def)

lemma requirement_coverage_default:
  "detectUncoveredRequirements fsys modPath n m p implementation_chain = [] \<longleftrightarrow>
     (\<forall>q \<in> set (ms_requirements m). implemented m q)"
  unfolding requirement_coverage_Nil
  by (auto simp: moduleCoveredEntries_def coveringEdgeTargets_def chain_defs implemented_def)

lemma test_coverage_default:
  "detectUncoveredComponents fsys modPath n m p test_chain = [] \<longleftrightarrow>
     (\<forall>c \<in> set (ms_components m). tested m c)"
  unfolding test_coverage_Nil
  by (auto simp: coveredComponentEntries_def testSectionEdgeTargets_def chain_defs tested_def
      moduleTypedEntries_def named_def)

text \<open>
  C32: under the default profile the two coverage checks together accept a specification that loads exactly when
  every project requirement is derived into a module requirement or declared pending, every
  module requirement is implemented by a component of its module, and every component is described
  by a test section of its module.
\<close>

theorem coverage_traceability:
  assumes "load_checked fsys ''requirement_coverage'' = Inr (prj, modules, DefaultProfile)"
  shows "fst (CheckRequirementCoverageFS fsys) @ CheckTestCoverageFS fsys = [] \<longleftrightarrow>
    (\<forall>r \<in> set (prj_requirements prj). derived modules r \<or> req_derivation r = ''pending'') \<and>
    (\<forall>(n, m) \<in> set modules. (\<forall>q \<in> set (ms_requirements m). implemented m q) \<and>
                             (\<forall>c \<in> set (ms_components m). tested m c))"
proof -
  note d = load_checked_distinct[OF assms]
  have "fst (CheckRequirementCoverageFS fsys) = [] \<longleftrightarrow>
      fst (checkProjectRequirementCoverage fsys DefaultProfile prj modules derivation_chain) = [] \<and>
      over_modules modules (\<lambda>n m. detectUncoveredRequirements fsys (modulePathByName prj n) n m
        DefaultProfile implementation_chain) = []"
    by (simp add: CheckRequirementCoverageFS_def assms default_chains split: prod.split)
  moreover have "CheckTestCoverageFS fsys = [] \<longleftrightarrow> over_modules modules (\<lambda>n m.
      detectUncoveredComponents fsys (modulePathByName prj n) n m DefaultProfile test_chain) = []"
    using load_checked_chk[OF assms, of "''test_coverage''"] by (simp add: CheckTestCoverageFS_def default_chains)
  ultimately show ?thesis
    unfolding append_is_Nil_conv over_modules_Nil[OF d] project_coverage_default
      requirement_coverage_default test_coverage_default split_def by blast
qed

theorem coverage_traceability_witness:
  "fst (CheckRequirementCoverageFS sample_files) @ CheckTestCoverageFS sample_files = []"
  unfolding coverage_traceability[OF sample_loads]
  by (simp add: sample_project_def sample_spec_def derived_def implemented_def tested_def)

end
