(* ===== verification/Validator_Removed.thy ===== *)
theory Validator_Removed
  imports Merkle_Diff Validator_Ids Decimal
begin

text \<open>
  The removed-name check (\<open>validator/removed_name_checker.go\<close>): the corpus is searched for the
  declared names of the nodes a diff reports as removed. A removed node is known by its identity
  hash only, so every phrase of one to six corpus tokens is hashed under the node's module and type
  and compared with the removed key; a hit inside a mention of a live node is suppressed.

  The corpus is the list of the files below the spec directory in walk order, each with the path's
  components and the outcome of reading it. The decoding of the name fields of a module's arrays and of the
  journal's lines is a parameter. The index of target groups is keyed by module and type; the code joins
  them by a NUL byte, which no name contains.
\<close>

subsection \<open>Targets\<close>

record target_group =
  tg_module :: string
  tg_node_type :: string
  tg_keys :: "string list"

text \<open>The groups in order of first appearance, each with its keys.\<close>

fun add_target :: "classified_change \<Rightarrow> target_group list \<Rightarrow> target_group list" where
  "add_target c [] = [\<lparr>tg_module = cc_module c, tg_node_type = cc_node_type c, tg_keys = [cc_key c]\<rparr>]"
| "add_target c (g # gs) =
     (if tg_module g = cc_module c \<and> tg_node_type g = cc_node_type c
      then g\<lparr>tg_keys := List.insert (cc_key c) (tg_keys g)\<rparr> # gs
      else g # add_target c gs)"

definition is_target :: "node_type list \<Rightarrow> classified_change \<Rightarrow> bool" where
  "is_target declarable c \<longleftrightarrow>
     cc_type c = Removed \<and> cc_node_type c \<in> nt_name ` set declarable \<and> cc_module c \<noteq> []"

definition removedNameTargets :: "classified_change list \<Rightarrow> node_type list \<Rightarrow> target_group list" where
  "removedNameTargets changes declarable = fold add_target (filter (is_target declarable) changes) []"

subsection \<open>The corpus\<close>

record corpus_file =
  cf_path :: "string list"
  cf_data :: "(string, string) result"

definition hidden :: "string \<Rightarrow> bool" where
  "hidden name \<longleftrightarrow> prefix ''.'' name"

definition in_corpus :: "string list \<Rightarrow> bool" where
  "in_corpus path =
     (let dirs = butlast path; name = last path
      in \<not> list_ex hidden dirs \<and> (dirs = [] \<or> hd dirs \<noteq> ''proposals'') \<and> \<not> hidden name \<and>
         (suffix ''.md'' name \<or> suffix ''.json'' name))"

definition rel_path :: "corpus_file \<Rightarrow> string" where
  "rel_path f = join_strings ''/'' (cf_path f)"

datatype removed_error =
    RemovedLoad message
  | RemovedLive string
  | RemovedCorpus string string

text \<open>The files the walk visits, read in order; the first that cannot be read ends it.\<close>

definition walkCorpus :: "corpus_file list \<Rightarrow> (removed_error, (string \<times> string) list) result" where
  "walkCorpus files =
     collect (\<lambda>f. case cf_data f of
                    Inl e \<Rightarrow> Inl (RemovedCorpus (rel_path f) e)
                  | Inr d \<Rightarrow> Inr (rel_path f, d))
       (filter (\<lambda>f. in_corpus (cf_path f)) files)"

text \<open>The phrase of \<open>n\<close> tokens from position \<open>i\<close>, and the lengths the inner loop tries there.\<close>

definition phrase_at :: "corpus_token list \<Rightarrow> nat \<Rightarrow> nat \<Rightarrow> string" where
  "phrase_at tokens i n = join_strings '' '' (map ct_text (take n (drop i tokens)))"

definition phrase_lengths :: "corpus_token list \<Rightarrow> nat \<Rightarrow> nat list" where
  "phrase_lengths tokens i = filter (\<lambda>n. i + n \<le> length tokens) [1..<maxNameWords + 1]"

subsection \<open>Names of modules that are gone\<close>

record removed_event =
  re_event :: string
  re_node :: string
  re_name :: string
  re_node_type :: string
  re_module :: string

record journal_names =
  jn_modules :: "string \<rightharpoonup> string"
  jn_nodes :: "string \<rightharpoonup> removed_event"

definition index_removed :: "removed_event \<Rightarrow> journal_names \<Rightarrow> journal_names" where
  "index_removed ev idx =
     (if re_event ev \<noteq> ''removed'' then idx
      else
        let idx' = idx\<lparr>jn_nodes := (jn_nodes idx)(re_node ev \<mapsto> ev)\<rparr>
        in if re_module ev \<noteq> []
           then idx'\<lparr>jn_modules := (jn_modules idx')(IdentityHash [''module'', re_module ev] \<mapsto> re_module ev)\<rparr>
           else idx')"

text \<open>An absent journal and one with a line that does not decode both index nothing.\<close>

definition loadJournalNames :: "removed_event list option \<Rightarrow> journal_names option" where
  "loadJournalNames lines =
     map_option (\<lambda>evs. fold index_removed evs \<lparr>jn_modules = Map.empty, jn_nodes = Map.empty\<rparr>) lines"

definition moduleName :: "journal_names option \<Rightarrow> target_group \<Rightarrow> string option" where
  "moduleName j g =
     (case j of
        None \<Rightarrow> None
      | Some idx \<Rightarrow>
          (case jn_modules idx (tg_module g) of
             Some name \<Rightarrow> Some name
           | None \<Rightarrow>
               Option.bind
                 (find (\<lambda>key. case jn_nodes idx key of
                           None \<Rightarrow> False
                         | Some ev \<Rightarrow> re_module ev \<noteq> [] \<and>
                             IdentityHash [re_module ev, re_node_type ev, re_name ev] = key)
                   (sorted_set (tg_keys g)))
                 (\<lambda>key. map_option re_module (jn_nodes idx key))))"

definition note_name :: "string set \<Rightarrow> string \<Rightarrow> (string \<rightharpoonup> string) \<Rightarrow> (string \<rightharpoonup> string)" where
  "note_name wanted phrase names =
     (let h = IdentityHash [''module'', phrase]
      in if h \<in> wanted \<and> names h = None then names(h \<mapsto> phrase) else names)"

definition file_phrases :: "string \<Rightarrow> string list" where
  "file_phrases src =
     (let tokens = tokenizeCorpus src
      in concat (map (\<lambda>i. map (phrase_at tokens i) (phrase_lengths tokens i)) [0..<length tokens]))"

text \<open>A file is skipped once every wanted name is known.\<close>

definition recover_in_file :: "string set \<Rightarrow> string \<times> string \<Rightarrow> (string \<rightharpoonup> string) \<Rightarrow> (string \<rightharpoonup> string)" where
  "recover_in_file wanted f names =
     (if wanted \<subseteq> dom names then names else fold (note_name wanted) (file_phrases (snd f)) names)"

definition recoverModuleNames :: "(string \<times> string) list \<Rightarrow> target_group list \<Rightarrow> (string \<rightharpoonup> string)" where
  "recoverModuleNames corpus orphans =
     fold (recover_in_file (tg_module ` set orphans)) corpus Map.empty"

subsection \<open>The scan\<close>

record live_node =
  ln_module :: string
  ln_node_type :: string

record corpus_hit =
  ch_start :: nat
  ch_words :: nat
  ch_line :: nat
  ch_name :: string
  ch_group :: target_group
  ch_key :: string

record surviving_name =
  sv_key :: string
  sv_name :: string
  sv_node_type :: string
  sv_module :: string
  sv_sites :: "string list"

record suppressed_hits =
  sh_name :: string
  sh_node_type :: string
  sh_module :: string
  sh_count :: nat
  sh_coverers :: "(string \<times> string \<times> string) list"

record corpus_scan =
  sc_found :: "(string \<times> surviving_name) list"
  sc_suppressed :: "(string \<times> suppressed_hits) list"

definition live_spans :: "(string \<Rightarrow> live_node list) \<Rightarrow> corpus_token list \<Rightarrow> nat \<Rightarrow> (nat \<times> string) list" where
  "live_spans live tokens i =
     (if i < length tokens
      then map (\<lambda>n. (n, phrase_at tokens i n))
             (filter (\<lambda>n. live (phrase_at tokens i n) \<noteq> []) (phrase_lengths tokens i))
      else [])"

definition hit_for :: "corpus_token list \<Rightarrow> nat \<Rightarrow> nat \<Rightarrow> target_group \<Rightarrow> corpus_hit" where
  "hit_for tokens i n g =
     (let phrase = phrase_at tokens i n
      in \<lparr>ch_start = i, ch_words = n, ch_line = ct_line (tokens ! i), ch_name = phrase, ch_group = g,
          ch_key = IdentityHash [tg_module g, tg_node_type g, phrase]\<rparr>)"

definition hits_at :: "target_group list \<Rightarrow> corpus_token list \<Rightarrow> nat \<Rightarrow> corpus_hit list" where
  "hits_at groups tokens i =
     concat (map (\<lambda>n. filter (\<lambda>h. ch_key h \<in> set (tg_keys (ch_group h))) (map (hit_for tokens i n) groups))
       (phrase_lengths tokens i))"

definition corpus_hits :: "target_group list \<Rightarrow> corpus_token list \<Rightarrow> corpus_hit list" where
  "corpus_hits groups tokens = concat (map (hits_at groups tokens) [0..<length tokens])"

definition covers :: "corpus_hit \<Rightarrow> nat \<Rightarrow> nat \<Rightarrow> bool" where
  "covers h j n \<longleftrightarrow> ch_words h \<le> n \<and> ch_start h + ch_words h \<le> j + n"

definition coveringLiveName :: "corpus_hit \<Rightarrow> (nat \<Rightarrow> (nat \<times> string) list) \<Rightarrow> string option" where
  "coveringLiveName h spans =
     map_option (\<lambda>(j, n, name). name)
       (find (\<lambda>(j, n, name). covers h j n)
         (concat (map (\<lambda>j. map (\<lambda>(n, name). (j, n, name)) (spans j))
           [(ch_start h + 1) - maxNameWords..<ch_start h + 1])))"

definition recordSuppressed :: "(string \<Rightarrow> live_node list) \<Rightarrow> corpus_hit \<Rightarrow> string \<Rightarrow> corpus_scan \<Rightarrow> corpus_scan" where
  "recordSuppressed live h cover s =
     (let hits = (case map_of (sc_suppressed s) (ch_key h) of
                   Some hits \<Rightarrow> hits
                 | None \<Rightarrow> \<lparr>sh_name = ch_name h, sh_node_type = tg_node_type (ch_group h),
                            sh_module = tg_module (ch_group h), sh_count = 0, sh_coverers = []\<rparr>);
          hits' = hits\<lparr>sh_count := Suc (sh_count hits),
                     sh_coverers := sh_coverers hits @ map (\<lambda>owner. (ln_node_type owner, cover, ln_module owner)) (live cover)\<rparr>
      in s\<lparr>sc_suppressed := AList.update (ch_key h) hits' (sc_suppressed s)\<rparr>)"

definition record_found :: "string \<Rightarrow> corpus_hit \<Rightarrow> corpus_scan \<Rightarrow> corpus_scan" where
  "record_found rel h s =
     (let sn = (case map_of (sc_found s) (ch_key h) of
                  Some sn \<Rightarrow> sn
                | None \<Rightarrow> \<lparr>sv_key = ch_key h, sv_name = ch_name h, sv_node_type = tg_node_type (ch_group h),
                           sv_module = tg_module (ch_group h), sv_sites = []\<rparr>);
          sn' = sn\<lparr>sv_sites := sv_sites sn @ [rel @ '':'' @ decimal (ch_line h)]\<rparr>
      in s\<lparr>sc_found := AList.update (ch_key h) sn' (sc_found s)\<rparr>)"

definition scan_hit :: "(string \<Rightarrow> live_node list) \<Rightarrow> string \<Rightarrow> corpus_token list \<Rightarrow> corpus_hit \<Rightarrow> corpus_scan \<Rightarrow> corpus_scan" where
  "scan_hit live rel tokens h s =
     (case coveringLiveName h (live_spans live tokens) of
        Some cover \<Rightarrow> recordSuppressed live h cover s
      | None \<Rightarrow> record_found rel h s)"

definition scanFile :: "target_group list \<Rightarrow> (string \<Rightarrow> live_node list) \<Rightarrow> string \<times> string \<Rightarrow> corpus_scan \<Rightarrow> corpus_scan" where
  "scanFile groups live f s =
     (case f of (rel, src) \<Rightarrow>
        let tokens = tokenizeCorpus src
        in if tokens = [] then s else fold (scan_hit live rel tokens) (corpus_hits groups tokens) s)"

definition scan_corpus :: "target_group list \<Rightarrow> (string \<Rightarrow> live_node list) \<Rightarrow> (string \<times> string) list \<Rightarrow> corpus_scan" where
  "scan_corpus groups live corpus = fold (scanFile groups live) corpus \<lparr>sc_found = [], sc_suppressed = []\<rparr>"

definition survivors :: "corpus_scan \<Rightarrow> surviving_name list" where
  "survivors s =
     sort_key sv_key (map (\<lambda>(k, sn). sn\<lparr>sv_sites := sorted_set (sv_sites sn)\<rparr>) (sc_found s))"

subsection \<open>The report\<close>

text \<open>The text of a note is a parameter, a function of the operands of its format string.\<close>

datatype note_body =
    UnverifiableModule nat string string "string list"
  | SuppressedByLiveName string string string nat "string list" nat
  | CoveredBy string string string

record removed_note =
  rn_kind :: string
  rn_message :: string
  rn_keys :: "string list"

definition unverifiableModuleNote :: "(note_body \<Rightarrow> string) \<Rightarrow> target_group \<Rightarrow> removed_note" where
  "unverifiableModuleNote fmt g =
     (let keys = sorted_set (tg_keys g)
      in \<lparr>rn_kind = ''unverifiable_module'',
          rn_message = fmt (UnverifiableModule (length keys) (tg_node_type g) (tg_module g) keys), rn_keys = keys\<rparr>)"

definition suppressionNotes :: "(note_body \<Rightarrow> string) \<Rightarrow> corpus_scan \<Rightarrow> removed_note list" where
  "suppressionNotes fmt s =
     map (\<lambda>(k, hits).
        let reported = (case map_of (sc_found s) k of None \<Rightarrow> 0 | Some sn \<Rightarrow> length (sorted_set (sv_sites sn)))
        in \<lparr>rn_kind = ''suppressed_by_live_name'',
            rn_message = fmt (SuppressedByLiveName (sh_node_type hits) (sh_name hits) k (sh_count hits)
                               (sorted_set (map (\<lambda>(t, n, m). fmt (CoveredBy t n m)) (sh_coverers hits))) reported),
            rn_keys = [k]\<rparr>)
       (sort_key fst (sc_suppressed s))"

record removed_report =
  rr_survivors :: "surviving_name list"
  rr_notes :: "removed_note list"

record removed_inputs =
  rmi_files :: spec_files
  rmi_names :: "string \<Rightarrow> string \<Rightarrow> (string, string list) result"
  rmi_corpus :: "corpus_file list"
  rmi_journal :: "removed_event list option"

text \<open>The live names of one module, from every array of a name-declarable type.\<close>

definition liveDeclarableNames :: "removed_inputs \<Rightarrow> string \<Rightarrow> node_type list
    \<Rightarrow> (removed_error, (string \<times> string) list) result" where
  "liveDeclarableNames inp modPath declarable =
     bind_result (collect (\<lambda>nt.
         case rmi_names inp modPath (nt_plural_key nt) of
           Inl e \<Rightarrow> Inl (RemovedLive e)
         | Inr names \<Rightarrow> Inr (map (\<lambda>n. (n, nt_name nt)) names)) declarable)
       (\<lambda>entries. Inr (concat entries))"

definition live_of_module :: "removed_inputs \<Rightarrow> node_type list \<Rightarrow> module_decl
    \<Rightarrow> (removed_error, (string \<times> live_node) list) result" where
  "live_of_module inp declarable m =
     bind_result (liveDeclarableNames inp (mod_path m) declarable) (\<lambda>entries.
       Inr (map (\<lambda>(name, nodeType). (name, \<lparr>ln_module = mod_name m, ln_node_type = nodeType\<rparr>)) entries))"

definition live_map :: "(string \<times> live_node) list \<Rightarrow> string \<Rightarrow> live_node list" where
  "live_map entries name = map snd (filter (\<lambda>e. fst e = name) entries)"

text \<open>The orphans whose module's name can be proved back, and a note for every other.\<close>

definition resolve_orphan :: "(note_body \<Rightarrow> string) \<Rightarrow> (string \<rightharpoonup> string) \<Rightarrow> journal_names option \<Rightarrow> target_group
    \<Rightarrow> removed_note + target_group" where
  "resolve_orphan fmt recovered journal g =
     (case recovered (tg_module g) of
        Some name \<Rightarrow> Inr (g\<lparr>tg_module := name\<rparr>)
      | None \<Rightarrow>
          (case moduleName journal g of
             Some name \<Rightarrow> Inr (g\<lparr>tg_module := name\<rparr>)
           | None \<Rightarrow> Inl (unverifiableModuleNote fmt g)))"

definition rights :: "('a + 'b) list \<Rightarrow> 'b list" where
  "rights xs = List.map_filter (\<lambda>x. case x of Inl a \<Rightarrow> None | Inr b \<Rightarrow> Some b) xs"

definition lefts :: "('a + 'b) list \<Rightarrow> 'a list" where
  "lefts xs = List.map_filter (\<lambda>x. case x of Inl a \<Rightarrow> Some a | Inr b \<Rightarrow> None) xs"

definition CheckRemovedNames :: "(note_body \<Rightarrow> string) \<Rightarrow> removed_inputs \<Rightarrow> classified_change list \<Rightarrow> profile
    \<Rightarrow> (removed_error, removed_report) result" where
  "CheckRemovedNames fmt inp changes p =
     (let declarable = nameDeclarableNodeTypes p; targets = removedNameTargets changes declarable
      in if targets = [] then Inr \<lparr>rr_survivors = [], rr_notes = []\<rparr>
         else case loadSpec (rmi_files inp) ''removed_name'' of
                Inl errs \<Rightarrow> Inl (RemovedLoad (ve_message (hd errs)))
              | Inr (prj, modules) \<Rightarrow>
                  bind_result (collect (live_of_module inp declarable) (prj_modules prj)) (\<lambda>lives.
                    let live = live_map (concat lives);
                        known = mod_name ` set (prj_modules prj);
                        orphans = filter (\<lambda>g. tg_module g \<notin> known) targets
                    in bind_result (if orphans = [] then Inr [] else walkCorpus (rmi_corpus inp)) (\<lambda>corpus.
                         let resolved = map (resolve_orphan fmt (recoverModuleNames corpus orphans)
                                               (loadJournalNames (rmi_journal inp))) orphans;
                             groups = filter (\<lambda>g. tg_module g \<in> known) targets @ rights resolved
                         in if groups = [] then Inr \<lparr>rr_survivors = [],
                              rr_notes = sort_key (\<lambda>n. (rn_kind n, rn_message n)) (lefts resolved)\<rparr>
                            else bind_result (walkCorpus (rmi_corpus inp)) (\<lambda>files.
                              let scan = scan_corpus groups live files
                              in Inr \<lparr>rr_survivors = survivors scan,
                                   rr_notes = sort_key (\<lambda>n. (rn_kind n, rn_message n))
                                                (lefts resolved @ suppressionNotes fmt scan)\<rparr>))))"

subsection \<open>What the scan finds\<close>

definition uncovered :: "(string \<Rightarrow> live_node list) \<Rightarrow> corpus_token list \<Rightarrow> corpus_hit \<Rightarrow> bool" where
  "uncovered live tokens h \<longleftrightarrow> coveringLiveName h (live_spans live tokens) = None"

definition site :: "string \<Rightarrow> corpus_hit \<Rightarrow> string" where
  "site rel h = rel @ '':'' @ decimal (ch_line h)"

definition sites_of :: "corpus_scan \<Rightarrow> string \<Rightarrow> string list" where
  "sites_of s k = (case map_of (sc_found s) k of None \<Rightarrow> [] | Some sn \<Rightarrow> sv_sites sn)"

definition found_ok :: "corpus_scan \<Rightarrow> bool" where
  "found_ok s \<longleftrightarrow> distinct (map fst (sc_found s)) \<and>
     (\<forall>(k, sn) \<in> set (sc_found s). sv_key sn = k \<and> sv_sites sn \<noteq> [] \<and>
        k = IdentityHash [sv_module sn, sv_node_type sn, sv_name sn])"

definition hit_ok :: "corpus_hit \<Rightarrow> bool" where
  "hit_ok h \<longleftrightarrow> ch_key h = IdentityHash [tg_module (ch_group h), tg_node_type (ch_group h), ch_name h]"

lemma recordSuppressed_found [simp]: "sc_found (recordSuppressed live h cover s) = sc_found s"
  by (simp add: recordSuppressed_def Let_def)

lemma scan_hit_sites:
  "sites_of (scan_hit live rel tokens h s) k =
     sites_of s k @ (if uncovered live tokens h \<and> ch_key h = k then [site rel h] else [])"
  by (auto simp: scan_hit_def uncovered_def sites_of_def record_found_def site_def Let_def split: option.splits)

lemma scan_hits_sites:
  "sites_of (fold (scan_hit live rel tokens) hs s) k =
     sites_of s k @ map (site rel) (filter (\<lambda>h. uncovered live tokens h \<and> ch_key h = k) hs)"
  by (induction hs arbitrary: s) (simp_all add: scan_hit_sites)

lemma found_ok_update:
  assumes "found_ok s" and "sv_key sn = k" and "sv_sites sn \<noteq> []"
    and "k = IdentityHash [sv_module sn, sv_node_type sn, sv_name sn]"
  shows "found_ok (s\<lparr>sc_found := AList.update k sn (sc_found s)\<rparr>)"
proof -
  have "set (AList.update k sn m) \<subseteq> insert (k, sn) (set m)" for m by (induction m) auto
  from this[of "sc_found s"]
  show ?thesis using assms by (auto simp: found_ok_def intro!: distinct_update)
qed

lemma found_ok_scan_hit: "found_ok s \<Longrightarrow> hit_ok h \<Longrightarrow> found_ok (scan_hit live rel tokens h s)"
proof -
  assume s: "found_ok s" and h: "hit_ok h"
  show ?thesis
  proof (cases "coveringLiveName h (live_spans live tokens)")
    case None
    have old: "sv_key sn = ch_key h \<and> ch_key h = IdentityHash [sv_module sn, sv_node_type sn, sv_name sn]"
      if "map_of (sc_found s) (ch_key h) = Some sn" for sn
      using s map_of_SomeD[OF that] by (auto simp: found_ok_def)
    then show ?thesis using None s h
      by (auto simp: scan_hit_def record_found_def Let_def hit_ok_def split: option.split intro!: found_ok_update)
  next
    case (Some c)
    then show ?thesis using s by (simp add: scan_hit_def found_ok_def)
  qed
qed

lemma hit_for_simps [simp]:
  "ch_start (hit_for tokens i n g) = i" "ch_words (hit_for tokens i n g) = n"
  "ch_line (hit_for tokens i n g) = ct_line (tokens ! i)" "ch_name (hit_for tokens i n g) = phrase_at tokens i n"
  "ch_group (hit_for tokens i n g) = g"
  "ch_key (hit_for tokens i n g) = IdentityHash [tg_module g, tg_node_type g, phrase_at tokens i n]"
  by (simp_all add: hit_for_def Let_def)

lemma corpus_hits_mem:
  "h \<in> set (corpus_hits groups tokens) \<longleftrightarrow>
     (\<exists>i n g. i < length tokens \<and> n \<in> set (phrase_lengths tokens i) \<and> g \<in> set groups \<and>
        ch_key h \<in> set (tg_keys g) \<and> h = hit_for tokens i n g)"
proof -
  have "h \<in> set (corpus_hits groups tokens) \<longleftrightarrow>
     (\<exists>i n g. i < length tokens \<and> n \<in> set (phrase_lengths tokens i) \<and> g \<in> set groups \<and>
        h = hit_for tokens i n g \<and> ch_key h \<in> set (tg_keys (ch_group h)))"
    by (simp add: corpus_hits_def hits_at_def image_iff Bex_def del: hit_for_simps) blast
  then show ?thesis by (metis hit_for_simps(5))
qed

lemma corpus_hits_ok: "h \<in> set (corpus_hits groups tokens) \<Longrightarrow> hit_ok h"
  by (auto simp: corpus_hits_mem hit_ok_def)

lemma found_ok_hits: "found_ok s \<Longrightarrow> list_all hit_ok hs \<Longrightarrow> found_ok (fold (scan_hit live rel tokens) hs s)"
  by (induction hs arbitrary: s) (simp_all add: found_ok_scan_hit)

lemma scanFile_found_ok: "found_ok s \<Longrightarrow> found_ok (scanFile groups live f s)"
  by (auto simp: scanFile_def Let_def list_all_iff corpus_hits_ok intro!: found_ok_hits split: prod.split)

lemma scanFile_sites:
  "sites_of (scanFile groups live (rel, src) s) k =
     sites_of s k @ map (site rel)
       (filter (\<lambda>h. uncovered live (tokenizeCorpus src) h \<and> ch_key h = k) (corpus_hits groups (tokenizeCorpus src)))"
  by (simp add: scanFile_def Let_def scan_hits_sites corpus_hits_def)

lemma scan_corpus_found_ok: "found_ok (scan_corpus groups live corpus)"
proof -
  have "found_ok s \<Longrightarrow> found_ok (fold (scanFile groups live) corpus s)" for s
    by (induction corpus arbitrary: s) (simp_all add: scanFile_found_ok)
  moreover have "found_ok \<lparr>sc_found = [], sc_suppressed = []\<rparr>" by (simp add: found_ok_def)
  ultimately show ?thesis by (simp add: scan_corpus_def)
qed

lemma scan_corpus_sites:
  "x \<in> set (sites_of (scan_corpus groups live corpus) k) \<longleftrightarrow>
     (\<exists>(rel, src) \<in> set corpus. \<exists>h \<in> set (corpus_hits groups (tokenizeCorpus src)).
        uncovered live (tokenizeCorpus src) h \<and> ch_key h = k \<and> x = site rel h)"
proof -
  have "x \<in> set (sites_of (fold (scanFile groups live) corpus s) k) \<longleftrightarrow> x \<in> set (sites_of s k) \<or>
     (\<exists>(rel, src) \<in> set corpus. \<exists>h \<in> set (corpus_hits groups (tokenizeCorpus src)).
        uncovered live (tokenizeCorpus src) h \<and> ch_key h = k \<and> x = site rel h)" for s
    by (induction corpus arbitrary: s) (auto simp: scanFile_sites)
  then show ?thesis by (simp add: scan_corpus_def sites_of_def)
qed

lemma survivors_mem:
  assumes "found_ok s"
  shows "(\<exists>sn \<in> set (survivors s). sv_key sn = k \<and> x \<in> set (sv_sites sn)) \<longleftrightarrow> x \<in> set (sites_of s k)"
proof
  assume "\<exists>sn \<in> set (survivors s). sv_key sn = k \<and> x \<in> set (sv_sites sn)"
  then obtain k' sn where sn: "(k', sn) \<in> set (sc_found s)" "sv_key sn = k" "x \<in> set (sv_sites sn)"
    by (auto simp: survivors_def)
  then have "k' = k" using assms by (auto simp: found_ok_def)
  then have "map_of (sc_found s) k = Some sn" using sn(1) assms by (simp add: found_ok_def)
  then show "x \<in> set (sites_of s k)" using sn(3) by (simp add: sites_of_def)
next
  assume "x \<in> set (sites_of s k)"
  then obtain sn where sn: "map_of (sc_found s) k = Some sn" "x \<in> set (sv_sites sn)"
    by (cases "map_of (sc_found s) k") (auto simp: sites_of_def)
  have mem: "(k, sn) \<in> set (sc_found s)" using map_of_SomeD[OF sn(1)] .
  then have "sv_key sn = k" using assms by (auto simp: found_ok_def)
  then show "\<exists>sn \<in> set (survivors s). sv_key sn = k \<and> x \<in> set (sv_sites sn)"
    using mem sn(2) by (auto simp: survivors_def intro!: bexI[of _ "(k, sn)"])
qed

lemma survivors_sound:
  assumes "found_ok s" and "sn \<in> set (survivors s)"
  shows "sv_key sn = IdentityHash [sv_module sn, sv_node_type sn, sv_name sn] \<and> sv_sites sn \<noteq> [] \<and>
    sorted (sv_sites sn) \<and> distinct (sv_sites sn)"
proof -
  obtain k sn' where sn': "(k, sn') \<in> set (sc_found s)" "sn = sn'\<lparr>sv_sites := sorted_set (sv_sites sn')\<rparr>"
    using assms(2) by (auto simp: survivors_def)
  have "sorted_set (sv_sites sn') \<noteq> []" if "sv_sites sn' \<noteq> []"
    using that by (metis set_empty set_sorted_set)
  then show ?thesis using sn' assms(1) by (auto simp: found_ok_def)
qed

subsection \<open>A mention in a text\<close>

lemma tokenize_append:
  "a = [] \<or> isSpaceByte (last a) \<Longrightarrow>
     tokenize_from line (a @ b) = tokenize_from line a @ tokenize_from (line + count_list a newline) b"
proof (induction line a rule: tokenize_from.induct)
  case (2 line c cs)
  have tl: "cs = [] \<or> isSpaceByte (last cs)" using "2.prems" by (cases cs) auto
  show ?case
  proof (cases "isSpaceByte c")
    case True
    then show ?thesis using 2 tl by (auto simp: newline_def)
  next
    case False
    let ?p = "\<lambda>d. \<not> isSpaceByte d"
    have sp: "isSpaceByte (last cs)" "cs \<noteq> []" using False "2.prems" by (cases cs; auto)+
    then have mem: "last (c # cs) \<in> set (c # cs)" "\<not> ?p (last (c # cs))" by simp_all
    have nl: "c \<noteq> newline" using False by (auto simp: isSpaceByte_def)
    have tw: "takeWhile ?p ((c # cs) @ b) = takeWhile ?p (c # cs)"
      by (rule takeWhile_append1[where x = "last (c # cs)"]) (rule mem)+
    have dw: "dropWhile ?p ((c # cs) @ b) = dropWhile ?p (c # cs) @ b"
      by (rule dropWhile_append1[where x = "last (c # cs)"]) (rule mem)+
    have cnt: "count_list (dropWhile ?p (c # cs)) newline = count_list (c # cs) newline"
    proof -
      have "count_list (takeWhile ?p (c # cs)) newline = 0"
        by (auto simp: count_list_0_iff isSpaceByte_def dest: set_takeWhileD)
      then show ?thesis by (metis add.left_neutral count_list_append takeWhile_dropWhile_id)
    qed
    have "dropWhile ?p (c # cs) = [] \<or> isSpaceByte (last (dropWhile ?p (c # cs)))"
      using dropWhile_last[of "last (c # cs)" "c # cs" ?p] mem by simp
    then have "tokenize_from line (dropWhile ?p (c # cs) @ b) =
        tokenize_from line (dropWhile ?p (c # cs)) @ tokenize_from (line + count_list (c # cs) newline) b"
      using "2.IH"(3)[OF nl False refl refl refl] cnt by simp
    then show ?thesis using False nl tw dw by (simp add: Let_def)
  qed
qed simp

subsection \<open>Every mention is found\<close>

lemma add_target_keeps:
  "g \<in> set gs \<Longrightarrow> \<exists>g' \<in> set (add_target c gs). tg_module g' = tg_module g \<and>
     tg_node_type g' = tg_node_type g \<and> set (tg_keys g) \<subseteq> set (tg_keys g')"
  by (induction gs) auto

lemma add_target_adds:
  "\<exists>g \<in> set (add_target c gs). tg_module g = cc_module c \<and> tg_node_type g = cc_node_type c \<and>
     cc_key c \<in> set (tg_keys g)"
  by (induction gs) auto

definition groups_hold :: "target_group list \<Rightarrow> classified_change \<Rightarrow> bool" where
  "groups_hold gs c \<longleftrightarrow> (\<exists>g \<in> set gs. tg_module g = cc_module c \<and> tg_node_type g = cc_node_type c \<and>
     cc_key c \<in> set (tg_keys g))"

lemma groups_hold_add: "groups_hold gs c \<Longrightarrow> groups_hold (add_target d gs) c"
  unfolding groups_hold_def using add_target_keeps by (metis subsetD)

lemma removedNameTargets_hold:
  assumes "c \<in> set changes" and "is_target declarable c"
  shows "groups_hold (removedNameTargets changes declarable) c"
proof -
  have keep: "groups_hold gs c \<Longrightarrow> groups_hold (fold add_target cs gs) c" for cs gs
    by (induction cs arbitrary: gs) (simp_all add: groups_hold_add)
  have "c \<in> set cs \<Longrightarrow> groups_hold (fold add_target cs gs) c" for cs gs
  proof (induction cs arbitrary: gs)
    case (Cons d cs)
    have "groups_hold (add_target c gs) c" using add_target_adds by (simp add: groups_hold_def)
    then show ?case using Cons keep by auto
  qed simp
  then show ?thesis using assms by (simp add: removedNameTargets_def)
qed

lemma walkCorpus_mem:
  assumes "walkCorpus files = Inr corpus" and "f \<in> set files" and "in_corpus (cf_path f)" and "cf_data f = Inr src"
  shows "(rel_path f, src) \<in> set corpus"
proof -
  have "f \<in> set (filter (\<lambda>f. in_corpus (cf_path f)) files)" using assms(2,3) by simp
  then obtain i where i: "i < length (filter (\<lambda>f. in_corpus (cf_path f)) files)"
    "filter (\<lambda>f. in_corpus (cf_path f)) files ! i = f"
    unfolding in_set_conv_nth by blast
  then show ?thesis
    using collect_nth[OF assms(1)[unfolded walkCorpus_def] i(1)] collect_length[OF assms(1)[unfolded walkCorpus_def]]
      assms(4) by (auto simp: in_set_conv_nth)
qed

text \<open>The names that are live: the entries of the name-declarable arrays of the modules.\<close>

definition live_name :: "removed_inputs \<Rightarrow> profile \<Rightarrow> project \<Rightarrow> string \<Rightarrow> bool" where
  "live_name inp p prj name \<longleftrightarrow>
     (\<exists>m \<in> set (prj_modules prj). \<exists>nt \<in> set (nameDeclarableNodeTypes p). \<exists>names.
        rmi_names inp (mod_path m) (nt_plural_key nt) = Inr names \<and> name \<in> set names)"

lemma live_map_Nil:
  assumes "collect (live_of_module inp (nameDeclarableNodeTypes p)) (prj_modules prj) = Inr lives"
    and "\<not> live_name inp p prj name"
  shows "live_map (concat lives) name = []"
proof (rule ccontr)
  assume "live_map (concat lives) name \<noteq> []"
  then obtain l owner where l: "l \<in> set lives" "(name, owner) \<in> set l"
    by (auto simp: live_map_def filter_empty_conv)
  obtain m where m: "m \<in> set (prj_modules prj)" "live_of_module inp (nameDeclarableNodeTypes p) m = Inr l"
    using collect_in_set[OF assms(1) l(1)] by blast
  then obtain entries nodeType where e: "liveDeclarableNames inp (mod_path m) (nameDeclarableNodeTypes p) = Inr entries"
    "(name, nodeType) \<in> set entries"
    using l(2) by (auto simp: live_of_module_def loop_simps)
  then obtain ess es where es: "collect (\<lambda>nt. case rmi_names inp (mod_path m) (nt_plural_key nt) of
        Inl e \<Rightarrow> Inl (RemovedLive e) | Inr names \<Rightarrow> Inr (map (\<lambda>n. (n, nt_name nt)) names))
      (nameDeclarableNodeTypes p) = Inr ess" "es \<in> set ess" "(name, nodeType) \<in> set es"
    by (auto simp: liveDeclarableNames_def loop_simps)
  obtain nt where "nt \<in> set (nameDeclarableNodeTypes p)"
    "(case rmi_names inp (mod_path m) (nt_plural_key nt) of
        Inl e \<Rightarrow> Inl (RemovedLive e) | Inr names \<Rightarrow> Inr (map (\<lambda>n. (n, nt_name nt)) names)) = Inr es"
    using collect_in_set[OF es(1,2)] by blast
  then show False using assms(2) m(1) es(3) by (auto simp: live_name_def split: sum.splits)
qed

lemma CheckRemovedNames_scan:
  assumes run: "CheckRemovedNames fmt inp changes p = Inr report"
    and load: "loadSpec (rmi_files inp) ''removed_name'' = Inr (prj, modules)"
    and c: "c \<in> set changes" "is_target (nameDeclarableNodeTypes p) c" "cc_module c \<in> mod_name ` set (prj_modules prj)"
  obtains lives groups corpus where
    "collect (live_of_module inp (nameDeclarableNodeTypes p)) (prj_modules prj) = Inr lives"
    and "groups_hold groups c" and "walkCorpus (rmi_corpus inp) = Inr corpus"
    and "rr_survivors report = survivors (scan_corpus groups (live_map (concat lives)) corpus)"
proof -
  let ?targets = "removedNameTargets changes (nameDeclarableNodeTypes p)"
  have hold: "groups_hold ?targets c" using c by (intro removedNameTargets_hold)
  then have "?targets \<noteq> []" by (auto simp: groups_hold_def)
  with run load obtain lives oc where lives:
    "collect (live_of_module inp (nameDeclarableNodeTypes p)) (prj_modules prj) = Inr lives"
    and rest: "(let resolved = map (resolve_orphan fmt (recoverModuleNames oc
                      (filter (\<lambda>g. tg_module g \<notin> mod_name ` set (prj_modules prj)) ?targets))
                      (loadJournalNames (rmi_journal inp)))
                      (filter (\<lambda>g. tg_module g \<notin> mod_name ` set (prj_modules prj)) ?targets);
                    groups = filter (\<lambda>g. tg_module g \<in> mod_name ` set (prj_modules prj)) ?targets @ rights resolved
                in if groups = [] then Inr \<lparr>rr_survivors = [],
                      rr_notes = sort_key (\<lambda>n. (rn_kind n, rn_message n)) (lefts resolved)\<rparr>
                   else bind_result (walkCorpus (rmi_corpus inp)) (\<lambda>files.
                      let scan = scan_corpus groups (live_map (concat lives)) files
                      in Inr \<lparr>rr_survivors = survivors scan,
                           rr_notes = sort_key (\<lambda>n. (rn_kind n, rn_message n))
                                        (lefts resolved @ suppressionNotes fmt scan)\<rparr>)) = Inr report"
    unfolding CheckRemovedNames_def Let_def by (auto simp: bind_result_Inr_iff)
  obtain g where g: "g \<in> set ?targets" "tg_module g = cc_module c" "tg_node_type g = cc_node_type c"
    "cc_key c \<in> set (tg_keys g)"
    using hold by (auto simp: groups_hold_def)
  define groups where "groups = filter (\<lambda>g. tg_module g \<in> mod_name ` set (prj_modules prj)) ?targets @
      rights (map (resolve_orphan fmt (recoverModuleNames oc
                      (filter (\<lambda>g. tg_module g \<notin> mod_name ` set (prj_modules prj)) ?targets))
                      (loadJournalNames (rmi_journal inp)))
                      (filter (\<lambda>g. tg_module g \<notin> mod_name ` set (prj_modules prj)) ?targets))"
  have "g \<in> set groups" using g c(3) by (simp add: groups_def)
  then have gh: "groups_hold groups c" "groups \<noteq> []" using g by (auto simp: groups_hold_def)
  then obtain corpus where "walkCorpus (rmi_corpus inp) = Inr corpus"
    "rr_survivors report = survivors (scan_corpus groups (live_map (concat lives)) corpus)"
    using rest unfolding Let_def groups_def[symmetric] by (auto simp: bind_result_Inr_iff)
  then show ?thesis using that lives gh(1) by blast
qed

lemma join_strings_append:
  "xs \<noteq> [] \<Longrightarrow> ys \<noteq> [] \<Longrightarrow> join_strings sep (xs @ ys) = join_strings sep xs @ sep @ join_strings sep ys"
proof (induction xs rule: induct_list012)
  case (2 x)
  then show ?case by (cases ys) auto
qed auto

lemma sublist_join_strings: "sublist (join_strings sep ws) (join_strings sep (a @ ws @ b))"
proof (cases "ws = []")
  case False
  have "\<exists>post. join_strings sep (ws @ b) = join_strings sep ws @ post"
    using join_strings_append[OF False, of b] by (cases "b = []") auto
  moreover have "\<exists>pre. join_strings sep (a @ ws @ b) = pre @ join_strings sep (ws @ b)"
    using join_strings_append[of a "ws @ b"] False by (cases "a = []") auto
  ultimately obtain pre post where "join_strings sep (a @ ws @ b) = pre @ join_strings sep ws @ post" by metis
  then show ?thesis unfolding sublist_def by blast
qed simp

lemma sublist_phrase_at:
  assumes "j \<le> i" and "i + n \<le> j + m"
  shows "sublist (phrase_at tokens i n) (phrase_at tokens j m)"
proof -
  obtain d e where d: "i = j + d" "m = d + n + e"
    using assms by (metis le_Suc_ex add.assoc add_le_cancel_left)
  have "take m (drop j tokens) = take d (drop j tokens) @ take n (drop i tokens) @ take e (drop n (drop i tokens))"
    unfolding d by (simp add: take_add add.commute[of j d] add.assoc)
  then show ?thesis unfolding phrase_at_def by (simp add: sublist_join_strings)
qed

lemma uncovered_no_live:
  assumes "\<And>name. sublist (phrase_at tokens i n) name \<Longrightarrow> live name = []"
  shows "uncovered live tokens (hit_for tokens i n g)"
proof -
  have False if "j \<in> set [i + 1 - maxNameWords..<i + 1]" "(m, name) \<in> set (live_spans live tokens j)"
    "covers (hit_for tokens i n g) j m" for j m name
  proof -
    have "name = phrase_at tokens j m" "live name \<noteq> []"
      using that(2) by (auto simp: live_spans_def split: if_splits)
    moreover have "sublist (phrase_at tokens i n) (phrase_at tokens j m)"
      using that(1,3) by (intro sublist_phrase_at) (auto simp: covers_def)
    ultimately show False using assms by simp
  qed
  then show ?thesis
    unfolding uncovered_def coveringLiveName_def option.map_disc_iff find_None_iff by fastforce
qed

text \<open>
  C33: a mention of a removed node's name does not survive unseen. When a check succeeds, a removed
  node of a name-declarable type, of a module the project still declares, whose name passed the
  recoverability check, and is part of no live name, is reported for every file of the corpus in which
  the name stands between white space, with the file and line of the mention. Where the module was
  removed with the node the check may give no more than a note, and nothing is claimed.
\<close>

theorem removed_name_swept:
  assumes run: "CheckRemovedNames fmt inp changes p = Inr report"
    and load: "loadSpec (rmi_files inp) ''removed_name'' = Inr (prj, modules)"
    and change: "c \<in> set changes" "is_target (nameDeclarableNodeTypes p) c"
    and owner: "m \<in> set (prj_modules prj)" "cc_module c = mod_name m"
    and key: "cc_key c = IdentityHash [cc_module c, cc_node_type c, name]"
    and name: "recoverable name" "\<And>other. live_name inp p prj other \<Longrightarrow> \<not> sublist name other"
    and mention: "f \<in> set (rmi_corpus inp)" "in_corpus (cf_path f)" "cf_data f = Inr (a @ name @ b)"
    and delimited: "a = [] \<or> isSpaceByte (last a)" "b = [] \<or> isSpaceByte (hd b)"
  shows "\<exists>s \<in> set (rr_survivors report). sv_key s = cc_key c \<and>
    rel_path f @ '':'' @ decimal (1 + count_list a newline) \<in> set (sv_sites s)"
proof -
  obtain lives groups corpus where
    lives: "collect (live_of_module inp (nameDeclarableNodeTypes p)) (prj_modules prj) = Inr lives"
    and gh: "groups_hold groups c" and walk: "walkCorpus (rmi_corpus inp) = Inr corpus"
    and rep: "rr_survivors report = survivors (scan_corpus groups (live_map (concat lives)) corpus)"
    using CheckRemovedNames_scan[OF run load change] owner by auto
  obtain g where g: "g \<in> set groups" "tg_module g = cc_module c" "tg_node_type g = cc_node_type c"
    "cc_key c \<in> set (tg_keys g)"
    using gh by (auto simp: groups_hold_def)
  obtain ws where ws: "name = join_strings '' '' ws" "list_all is_token ws" "ws \<noteq> []" "length ws \<le> maxNameWords"
    using name(1) by (auto simp: recoverable_def)
  let ?src = "a @ name @ b" and ?l = "1 + count_list a newline"
  define i where "i = length (tokenize_from 1 a)"
  let ?n = "length ws"
  have toks: "tokenizeCorpus ?src = tokenize_from 1 a @ map (\<lambda>t. \<lparr>ct_text = t, ct_line = ?l\<rparr>) ws @
      tokenize_from ?l b"
    using tokenize_append[OF delimited(1)] tokenize_join[OF ws(2) delimited(2)]
    by (simp add: tokenizeCorpus_def ws(1))
  have phrase: "phrase_at (tokenizeCorpus ?src) i ?n = name"
    unfolding phrase_at_def toks i_def by (simp add: comp_def ws(1))
  have line: "ct_line (tokenizeCorpus ?src ! i) = ?l"
    unfolding toks i_def using ws(3) by (simp add: nth_append)
  have pos: "1 \<le> ?n" "?n < maxNameWords + 1" using ws(3,4) by (simp_all add: Suc_le_eq)
  have total: "length (tokenizeCorpus ?src) = i + ?n + length (tokenize_from ?l b)" by (simp add: toks i_def)
  have len: "?n \<in> set (phrase_lengths (tokenizeCorpus ?src) i)" "i < length (tokenizeCorpus ?src)"
    unfolding phrase_lengths_def set_filter set_upt total using pos ws(3) by simp_all
  have hit: "hit_for (tokenizeCorpus ?src) i ?n g \<in> set (corpus_hits groups (tokenizeCorpus ?src))"
  proof -
    have "ch_key (hit_for (tokenizeCorpus ?src) i ?n g) \<in> set (tg_keys g)" using g key by (simp add: phrase)
    then show ?thesis unfolding corpus_hits_mem using len g(1) by blast
  qed
  have "live_map (concat lives) other = []" if "sublist name other" for other
    using live_map_Nil[OF lives] name(2) that by blast
  then have "uncovered (live_map (concat lives)) (tokenizeCorpus ?src) (hit_for (tokenizeCorpus ?src) i ?n g)"
    by (intro uncovered_no_live) (simp add: phrase)
  moreover have "(rel_path f, ?src) \<in> set corpus" by (rule walkCorpus_mem[OF walk mention])
  moreover have "site (rel_path f) (hit_for (tokenizeCorpus ?src) i ?n g) = rel_path f @ '':'' @ decimal ?l"
    by (simp add: site_def line)
  moreover have "ch_key (hit_for (tokenizeCorpus ?src) i ?n g) = cc_key c" using g(2,3) key by (simp add: phrase)
  ultimately have "rel_path f @ '':'' @ decimal ?l \<in>
      set (sites_of (scan_corpus groups (live_map (concat lives)) corpus) (cc_key c))"
    unfolding scan_corpus_sites using hit by force
  then show ?thesis using survivors_mem[OF scan_corpus_found_ok] rep by metis
qed

text \<open>Every survivor that is reported is proved by its hash and has at least one site.\<close>

lemma removed_names_sound:
  assumes "CheckRemovedNames fmt inp changes p = Inr report" and "s \<in> set (rr_survivors report)"
  shows "sv_key s = IdentityHash [sv_module s, sv_node_type s, sv_name s] \<and> sv_sites s \<noteq> []"
proof -
  show ?thesis
  proof (cases "rr_survivors report = []")
    case False
    have "\<exists>groups live files. rr_survivors report = survivors (scan_corpus groups live files)"
      using assms(1) False unfolding CheckRemovedNames_def Let_def
      by (fastforce elim!: bind_result_InrE split: if_splits sum.splits prod.splits)
    then show ?thesis using assms(2) survivors_sound[OF scan_corpus_found_ok] by metis
  qed (use assms(2) in simp)
qed

subsection \<open>A sample sweep\<close>

definition sample_removed :: classified_change where
  "sample_removed =
     \<lparr>cc_change = \<lparr>chg_key = IdentityHash [''core'', ''component'', ''loader''], chg_type = Removed,
        chg_node_type = ''component'', chg_module = ''m1'', chg_old_hash = ''h'', chg_new_hash = []\<rparr>,
      cc_impact = ArchImpl, cc_module = ''core''\<rparr>"

definition sample_sweep :: removed_inputs where
  "sample_sweep =
     \<lparr>rmi_files = sample_files, rmi_names = (\<lambda>path key. Inr [''writer'']),
      rmi_corpus = [\<lparr>cf_path = [''core'', ''arch.md''], cf_data = Inr ([newline] @ ''loader'' @ '' runs'')\<rparr>],
      rmi_journal = None\<rparr>"

theorem removed_name_swept_witness:
  "\<exists>report. CheckRemovedNames (\<lambda>_. []) sample_sweep [sample_removed] DefaultProfile = Inr report \<and>
     (\<exists>s \<in> set (rr_survivors report). ''core/arch.md:2'' \<in> set (sv_sites s))"
proof -
  have decl: "list_ex (\<lambda>nt. nt_name nt = ''component'') (nameDeclarableNodeTypes DefaultProfile)" by code_simp
  have tgt: "is_target (nameDeclarableNodeTypes DefaultProfile) sample_removed"
    using decl unfolding is_target_def sample_removed_def list_ex_iff by (force intro: rev_image_eqI)
  obtain report where rep: "CheckRemovedNames (\<lambda>_. []) sample_sweep [sample_removed] DefaultProfile = Inr report"
  proof -
    have live: "collect (live_of_module sample_sweep (nameDeclarableNodeTypes DefaultProfile)) (prj_modules sample_project) =
      Inr (map (\<lambda>m. concat (map (\<lambda>nt. [(''writer'', \<lparr>ln_module = mod_name m, ln_node_type = nt_name nt\<rparr>)])
        (nameDeclarableNodeTypes DefaultProfile))) (prj_modules sample_project))"
      by (intro collect_all_Inr) (simp add: live_of_module_def liveDeclarableNames_def sample_sweep_def
          collect_all_Inr[where g = "\<lambda>nt. [(''writer'', nt_name nt)]"] map_concat comp_def)
    have tg: "removedNameTargets [sample_removed] (nameDeclarableNodeTypes DefaultProfile) =
        [\<lparr>tg_module = ''core'', tg_node_type = ''component'', tg_keys = [cc_key sample_removed]\<rparr>]"
      using tgt by (simp add: removedNameTargets_def sample_removed_def)
    have walk: "walkCorpus (rmi_corpus sample_sweep) = Inr [(''core/arch.md'', [newline] @ ''loader'' @ '' runs'')]"
      by (simp add: walkCorpus_def sample_sweep_def in_corpus_def hidden_def rel_path_def Let_def suffix_def)
    have load: "loadSpec (rmi_files sample_sweep) ''removed_name'' = Inr (sample_project, [(''core'', sample_spec)])"
      using sample_loads by (simp add: load_checked_Inr sample_sweep_def)
    show ?thesis
      using that unfolding CheckRemovedNames_def Let_def tg load
      by (simp add: live) (simp add: sample_project_def walk)
  qed
  moreover have "\<exists>s \<in> set (rr_survivors report). sv_key s = cc_key sample_removed \<and>
      rel_path (hd (rmi_corpus sample_sweep)) @ '':'' @ decimal (1 + count_list [newline] newline) \<in> set (sv_sites s)"
  proof (rule removed_name_swept[OF rep, where prj = sample_project and m = "hd (prj_modules sample_project)"
        and name = "''loader''" and b = "'' runs''"])
    show "loadSpec (rmi_files sample_sweep) ''removed_name'' = Inr (sample_project, [(''core'', sample_spec)])"
      using sample_loads by (simp add: load_checked_Inr sample_sweep_def)
    show "recoverable ''loader''" by (rule sample_names)
    fix other assume "live_name sample_sweep DefaultProfile sample_project other"
    then have "other = ''writer''" by (auto simp: live_name_def sample_sweep_def)
    moreover have "\<not> sublist ''loader'' ''writer''" by code_simp
    ultimately show "\<not> sublist ''loader'' other" by simp
  qed (use tgt in \<open>simp_all add: sample_removed_def sample_project_def sample_sweep_def in_corpus_def hidden_def
      isSpaceByte_def newline_def suffix_def\<close>)
  moreover have "rel_path (hd (rmi_corpus sample_sweep)) @ '':'' @ decimal (1 + count_list [newline] newline) = ''core/arch.md:2''"
    by code_simp
  ultimately show ?thesis by auto
qed

end
