(* ===== verification/Validator_Markdown.thy ===== *)
theory Validator_Markdown
  imports Validator_Names
begin

text \<open>
  The scanner that finds the links of a content leaf (\<open>validator/markdown_scanner.go\<close>): wiki links in
  the prose, bare hashes in \<open>dot\<close> fences, nothing in other fences. Texts are byte strings.
\<close>

subsection \<open>Strings\<close>

text \<open>\<open>strings.TrimSpace\<close>: the white space of Unicode, each character by its UTF-8 bytes.\<close>

definition space_units :: "string list" where
  "space_units =
     map (\<lambda>c. [c]) [CHR 0x20, CHR 0x09, CHR 0x0A, CHR 0x0B, CHR 0x0C, CHR 0x0D] @
     [[CHR 0xC2, CHR 0x85], [CHR 0xC2, CHR 0xA0], [CHR 0xE1, CHR 0x9A, CHR 0x80]] @
     map (\<lambda>c. [CHR 0xE2, CHR 0x80, c])
       [CHR 0x80, CHR 0x81, CHR 0x82, CHR 0x83, CHR 0x84, CHR 0x85, CHR 0x86, CHR 0x87, CHR 0x88, CHR 0x89, CHR 0x8A,
        CHR 0xA8, CHR 0xA9, CHR 0xAF] @
     [[CHR 0xE2, CHR 0x81, CHR 0x9F], [CHR 0xE3, CHR 0x80, CHR 0x80]]"

lemma space_units_nonempty: "u \<in> set space_units \<Longrightarrow> u \<noteq> []"
  by (auto simp: space_units_def)

function trim_space_left :: "string \<Rightarrow> string" where
  "trim_space_left s =
     (case find (\<lambda>u. prefix u s) space_units of
        None \<Rightarrow> s
      | Some u \<Rightarrow> trim_space_left (drop (length u) s))"
  by pat_completeness auto

termination
proof (relation "measure length")
  fix s u assume "find (\<lambda>u. prefix u s) space_units = Some u"
  then have "u \<noteq> []" "prefix u s" using find_Some_D space_units_nonempty by metis+
  then show "(drop (length u) s, s) \<in> measure length" by (auto simp: prefix_def)
qed simp

function trim_space_right :: "string \<Rightarrow> string" where
  "trim_space_right s =
     (case find (\<lambda>u. suffix u s) space_units of
        None \<Rightarrow> s
      | Some u \<Rightarrow> trim_space_right (take (length s - length u) s))"
  by pat_completeness auto

termination
proof (relation "measure length")
  fix s u assume "find (\<lambda>u. suffix u s) space_units = Some u"
  then have "u \<noteq> []" "suffix u s" using find_Some_D space_units_nonempty by metis+
  then show "(take (length s - length u) s, s) \<in> measure length" by (auto simp: suffix_def)
qed simp

declare trim_space_left.simps [simp del] trim_space_right.simps [simp del]

definition TrimSpace :: "string \<Rightarrow> string" where
  "TrimSpace s = trim_space_right (trim_space_left s)"

text \<open>\<open>strings.Index\<close>.\<close>

fun find_sub :: "string \<Rightarrow> string \<Rightarrow> nat option" where
  "find_sub pat [] = (if pat = [] then Some 0 else None)"
| "find_sub pat (c # cs) = (if prefix pat (c # cs) then Some 0 else map_option Suc (find_sub pat cs))"

text \<open>\<open>strings.Split(s, "\n")\<close>.\<close>

fun split_on :: "char \<Rightarrow> string \<Rightarrow> string \<Rightarrow> string list" where
  "split_on d acc [] = [rev acc]"
| "split_on d acc (c # cs) = (if c = d then rev acc # split_on d [] cs else split_on d (c # acc) cs)"

definition text_lines :: "string \<Rightarrow> string list" where
  "text_lines s = split_on (CHR 0x0A) [] s"

definition isWordByte :: "char \<Rightarrow> bool" where
  "isWordByte c \<longleftrightarrow> c = CHR ''_'' \<or> (CHR ''0'' \<le> c \<and> c \<le> CHR ''9'') \<or>
     (CHR ''a'' \<le> c \<and> c \<le> CHR ''z'') \<or> (CHR ''A'' \<le> c \<and> c \<le> CHR ''Z'')"

definition hash_byte :: "char \<Rightarrow> bool" where
  "hash_byte c \<longleftrightarrow> (CHR ''0'' \<le> c \<and> c \<le> CHR ''9'') \<or> (CHR ''a'' \<le> c \<and> c \<le> CHR ''f'')"

definition isIdentityHash :: "string \<Rightarrow> bool" where
  "isIdentityHash s \<longleftrightarrow> length s = 12 \<and> list_all hash_byte s"

subsection \<open>Link references\<close>

datatype link_kind = KindWiki | KindDotNode | KindUnterminated

record link_ref =
  lr_kind :: link_kind
  lr_line :: nat
  lr_raw :: string
  lr_target :: string
  lr_display :: string
  lr_has_display :: bool

text \<open>Runes are counted by their first bytes.\<close>

fun take_runes :: "nat \<Rightarrow> string \<Rightarrow> string" where
  "take_runes n [] = []"
| "take_runes n (c # cs) =
     (if of_char c div 64 = (2 :: nat) then c # take_runes n cs
      else if n = 0 then [] else c # take_runes (n - 1) cs)"

definition truncateForMessage :: "string \<Rightarrow> nat \<Rightarrow> string" where
  "truncateForMessage s n = (if take_runes n s = s then s else take_runes n s @ utf8 [226, 128, 166])"

type_synonym pending_link = "nat \<times> string"

definition unterminated :: "pending_link \<Rightarrow> link_ref" where
  "unterminated p =
     \<lparr>lr_kind = KindUnterminated, lr_line = fst p, lr_raw = ''[['' @ truncateForMessage (snd p) 48,
      lr_target = [], lr_display = [], lr_has_display = False\<rparr>"

definition wikiRef :: "nat \<Rightarrow> string \<Rightarrow> link_ref" where
  "wikiRef lineNo inner =
     (let target = takeWhile (\<lambda>c. c \<noteq> CHR ''|'') inner; rest = dropWhile (\<lambda>c. c \<noteq> CHR ''|'') inner
      in \<lparr>lr_kind = KindWiki, lr_line = lineNo, lr_raw = ''[['' @ inner @ '']]'',
          lr_target = TrimSpace target, lr_display = TrimSpace (tl rest), lr_has_display = (rest \<noteq> [])\<rparr>)"

subsection \<open>Fences\<close>

definition fenceMarker :: "string \<Rightarrow> (char \<times> nat \<times> string) option" where
  "fenceMarker line =
     (let trimmed = dropWhile (\<lambda>c. c = CHR 0x20) line
      in if length line - length trimmed > 3 \<or> length trimmed < 3 then None
         else let c = hd trimmed in
           if c \<noteq> CHR 0x60 \<and> c \<noteq> CHR ''~'' then None
           else let n = length (takeWhile (\<lambda>d. d = c) trimmed) in
             if n < 3 then None
             else let rest = TrimSpace (drop n trimmed) in
               if c = CHR 0x60 \<and> CHR 0x60 \<in> set rest then None
               else Some (c, n, takeWhile (\<lambda>d. d \<noteq> CHR 0x20 \<and> d \<noteq> CHR 0x09) rest))"

text \<open>The open fence, if any: its character, length and info word. A marker opens or closes one.\<close>

type_synonym fence = "(char \<times> nat \<times> string) option"

definition fence_step :: "fence \<Rightarrow> char \<times> nat \<times> string \<Rightarrow> fence" where
  "fence_step cur marker =
     (case cur of
        None \<Rightarrow> Some marker
      | Some (fc, fl, fi) \<Rightarrow>
          (case marker of (c, n, info) \<Rightarrow> if c = fc \<and> n \<ge> fl \<and> info = [] then None else cur))"

subsection \<open>One line\<close>

lemma find_sub_bound: "find_sub pat s = Some i \<Longrightarrow> i + length pat \<le> length s \<and> prefix pat (drop i s)"
proof (induction pat s arbitrary: i rule: find_sub.induct)
  case (2 pat c cs)
  then show ?case by (cases "prefix pat (c # cs)") (auto dest: prefix_length_le)
qed (auto split: if_splits)

function wiki_loop :: "nat \<Rightarrow> string \<Rightarrow> link_ref list \<times> pending_link option" where
  "wiki_loop lineNo s =
     (case find_sub ''[['' s of
        None \<Rightarrow> ([], None)
      | Some i \<Rightarrow>
          (case find_sub '']]'' (drop (i + 2) s) of
             None \<Rightarrow> ([], Some (lineNo, drop (i + 2) s))
           | Some j \<Rightarrow>
               (case wiki_loop lineNo (drop (i + 2 + j + 2) s) of
                  (refs, p) \<Rightarrow> (wikiRef lineNo (take j (drop (i + 2) s)) # refs, p))))"
  by pat_completeness auto

termination
proof (relation "measure (length \<circ> snd)")
  fix lineNo s i j assume "find_sub ''[['' s = Some i"
  then have "i + 2 \<le> length s" using find_sub_bound by fastforce
  then show "((lineNo, drop (i + 2 + j + 2) s), lineNo, s) \<in> measure (length \<circ> snd)" by simp
qed simp

declare wiki_loop.simps [simp del]

definition scanWikiLinks :: "string \<Rightarrow> nat \<Rightarrow> pending_link option \<Rightarrow> link_ref list \<times> pending_link option" where
  "scanWikiLinks line lineNo pending =
     (case pending of
        None \<Rightarrow> wiki_loop lineNo line
      | Some p \<Rightarrow>
          let closeAt = find_sub '']]'' line; openAt = find_sub ''[['' line
          in if (case openAt of
                   None \<Rightarrow> False
                 | Some o' \<Rightarrow> (case closeAt of None \<Rightarrow> True | Some c \<Rightarrow> o' < c)) then
               (case wiki_loop lineNo (drop (case openAt of Some o' \<Rightarrow> o' | None \<Rightarrow> 0) line) of
                  (refs, p') \<Rightarrow> (unterminated p # refs, p'))
             else
               (case closeAt of
                  None \<Rightarrow> ([], Some (fst p, snd p @ '' '' @ TrimSpace line))
                | Some c \<Rightarrow>
                    (case wiki_loop lineNo (drop (c + 2) line) of
                       (refs, p') \<Rightarrow>
                         (wikiRef (fst p) (snd p @ '' '' @
                            dropWhile (\<lambda>d. d = CHR 0x20 \<or> d = CHR 0x09) (take c line)) # refs, p'))))"

text \<open>The matches of \<open>[0-9a-f]{12}\<close>, leftmost and not overlapping; \<open>prev\<close> is the byte before.\<close>

function bare_hashes :: "char option \<Rightarrow> string \<Rightarrow> string list" where
  "bare_hashes prev s =
     (if length s < 12 then []
      else if list_all hash_byte (take 12 s) then
        (if (case prev of Some c \<Rightarrow> isWordByte c | None \<Rightarrow> False) \<or>
            (drop 12 s \<noteq> [] \<and> isWordByte (hd (drop 12 s))) then []
         else [take 12 s]) @ bare_hashes (Some (s ! 11)) (drop 12 s)
      else bare_hashes (Some (hd s)) (tl s))"
  by pat_completeness auto

termination by (relation "measure (length \<circ> snd)") (auto simp: not_less)

declare bare_hashes.simps [simp del]

definition scanBareHashes :: "string \<Rightarrow> nat \<Rightarrow> link_ref list" where
  "scanBareHashes line lineNo =
     map (\<lambda>token. \<lparr>lr_kind = KindDotNode, lr_line = lineNo, lr_raw = token, lr_target = token,
                   lr_display = [], lr_has_display = False\<rparr>) (bare_hashes None line)"

subsection \<open>The scan\<close>

record scan_state =
  sc_fence :: fence
  sc_pending :: "pending_link option"
  sc_refs :: "link_ref list"

definition closePending :: "scan_state \<Rightarrow> scan_state" where
  "closePending st =
     (case sc_pending st of
        None \<Rightarrow> st
      | Some p \<Rightarrow> st\<lparr>sc_refs := sc_refs st @ [unterminated p], sc_pending := None\<rparr>)"

definition scan_line :: "nat \<times> string \<Rightarrow> scan_state \<Rightarrow> scan_state" where
  "scan_line nl st =
     (case nl of (lineNo, line) \<Rightarrow>
        (case fenceMarker line of
           Some marker \<Rightarrow>
             let st' = closePending st in st'\<lparr>sc_fence := fence_step (sc_fence st') marker\<rparr>
         | None \<Rightarrow>
             (case sc_fence st of
                Some (c, n, info) \<Rightarrow>
                  if info = ''dot'' then st\<lparr>sc_refs := sc_refs st @ scanBareHashes line lineNo\<rparr> else st
              | None \<Rightarrow>
                  if TrimSpace line = [] then closePending st
                  else (case scanWikiLinks line lineNo (sc_pending st) of
                          (found, p) \<Rightarrow> st\<lparr>sc_refs := sc_refs st @ found, sc_pending := p\<rparr>))))"

definition scan_start :: scan_state where
  "scan_start = \<lparr>sc_fence = None, sc_pending = None, sc_refs = []\<rparr>"

definition scanLinks :: "string \<Rightarrow> link_ref list" where
  "scanLinks src = sc_refs (closePending (fold scan_line (enumerate 1 (text_lines src)) scan_start))"

subsection \<open>Scanning inverts writing\<close>

lemma find_sub_app:
  assumes "find_sub pat (t @ pat) = Some (length t)" and "pat \<noteq> []"
  shows "find_sub pat (t @ pat @ rest) = Some (length t)"
  using assms(1)
proof (induction t)
  case Nil
  obtain c cs where "pat = c # cs" using assms(2) by (cases pat) auto
  then show ?case by simp
next
  case (Cons c t)
  have no: "\<not> prefix pat (c # t @ pat)" using Cons.prems by (auto split: if_splits)
  then have "\<not> prefix pat (c # t @ pat @ rest)"
    using prefix_append[of pat "c # t @ pat" rest] by (auto simp: prefix_def append_eq_append_conv2)
  moreover have "find_sub pat (t @ pat) = Some (length t)" using Cons.prems no by (auto split: if_splits)
  ultimately show ?case using Cons.IH by simp
qed

text \<open>A line as text that alternates with links, and its last stretch of text.\<close>

definition link_line :: "(string \<times> string) list \<Rightarrow> string \<Rightarrow> string" where
  "link_line segs rest = concat (map (\<lambda>(t, i). t @ ''[['' @ i @ '']]'') segs) @ rest"

definition plain_until :: "string \<Rightarrow> string \<Rightarrow> bool" where
  "plain_until mark t \<longleftrightarrow> find_sub mark (t @ mark) = Some (length t)"

lemma wiki_loop_line:
  assumes "\<forall>(t, i) \<in> set segs. plain_until ''[['' t \<and> plain_until '']]'' i" and "find_sub ''[['' rest = None"
  shows "wiki_loop n (link_line segs rest) = (map (\<lambda>(t, i). wikiRef n i) segs, None)"
  using assms(1)
proof (induction segs)
  case Nil
  show ?case by (subst wiki_loop.simps) (simp add: link_line_def assms(2))
next
  case (Cons s segs)
  obtain t i where s: "s = (t, i)" by (cases s)
  let ?more = "link_line segs rest"
  have line: "link_line (s # segs) rest = t @ ''[['' @ (i @ '']]'' @ ?more)" by (simp add: link_line_def s)
  have o1: "find_sub ''[['' (t @ ''[['' @ (i @ '']]'' @ ?more)) = Some (length t)"
    using Cons.prems s by (intro find_sub_app) (auto simp: plain_until_def)
  have o2: "find_sub '']]'' (i @ '']]'' @ ?more) = Some (length i)"
    using Cons.prems s by (intro find_sub_app) (auto simp: plain_until_def)
  have d1: "drop (length t + 2) (t @ ''[['' @ (i @ '']]'' @ ?more)) = i @ '']]'' @ ?more" by simp
  have d2: "drop (length t + 2 + length i + 2) (t @ ''[['' @ (i @ '']]'' @ ?more)) = ?more" by (simp add: numeral_eq_Suc)
  show ?case
    unfolding line
    by (subst wiki_loop.simps) (simp only: o1 o2 d1 d2 option.case, use Cons s in simp)
qed

lemma fold_scan_prose:
  assumes "\<forall>l \<in> set ls. fenceMarker l = None \<and> (TrimSpace l = [] \<or>
      (\<exists>refs. \<forall>n. wiki_loop n l = (refs n, None)))"
    and "sc_fence st = None" and "sc_pending st = None"
  shows "fold scan_line (enumerate n ls) st =
    st\<lparr>sc_refs := sc_refs st @ concat (map (\<lambda>(k, l). if TrimSpace l = [] then [] else fst (wiki_loop k l)) (enumerate n ls))\<rparr>"
  using assms
proof (induction ls arbitrary: n st)
  case (Cons l ls)
  have step: "scan_line (n, l) st =
      st\<lparr>sc_refs := sc_refs st @ (if TrimSpace l = [] then [] else fst (wiki_loop n l))\<rparr>"
  proof (cases "TrimSpace l = []")
    case True
    then show ?thesis using Cons.prems by (cases st) (simp add: scan_line_def closePending_def)
  next
    case False
    then obtain refs where "wiki_loop n l = (refs n, None)" using Cons.prems(1) by auto
    then show ?thesis using False Cons.prems by (cases st) (simp add: scan_line_def scanWikiLinks_def)
  qed
  show ?case
    using Cons.IH[of "scan_line (n, l) st" "Suc n"] Cons.prems by (simp add: step)
qed simp

lemma scan_prose:
  assumes "\<forall>l \<in> set (text_lines src). fenceMarker l = None \<and> (TrimSpace l = [] \<or>
      (\<exists>refs. \<forall>n. wiki_loop n l = (refs n, None)))"
  shows "scanLinks src =
    concat (map (\<lambda>(k, l). if TrimSpace l = [] then [] else fst (wiki_loop k l)) (enumerate 1 (text_lines src)))"
  unfolding scanLinks_def
  by (subst fold_scan_prose[OF assms]) (simp_all add: scan_start_def closePending_def)

end
