(* ===== verification/Spec_Docs.thy ===== *)
theory Spec_Docs
  imports Validator_Spec Paths
begin

text \<open>
  A specification directory as its files, in memory and on disk (\<open>validator/memfs.go\<close>), and what
  \<open>encoding/json\<close> makes of a file: the dynamic value (\<open>map[string]any\<close>) the writing commands edit,
  and the Go structs of \<open>schema/schema.go\<close> the checkers read.

  A file that holds JSON is represented by its value, with the members of an object in the order of
  the text; a number stands for the \<open>float64\<close> it denotes, given by its shortest literal. The layout of
  the text (white space, escapes) is not represented. Any other file is its text.
\<close>

subsection \<open>Files\<close>

datatype file_content = Doc json | Text string

text \<open>\<open>MemFS\<close>, the map from slash-separated paths to contents.\<close>

type_synonym mem_fs = "(string \<times> file_content) list"

definition ReadFile :: "mem_fs \<Rightarrow> string \<Rightarrow> file_content option" where
  "ReadFile m p = map_of m p"

text \<open>A file that parses is never empty.\<close>

definition empty_file :: "file_content \<Rightarrow> bool" where
  "empty_file f \<longleftrightarrow> f = Text []"

definition file_json :: "mem_fs \<Rightarrow> string \<Rightarrow> (file_error, json) result" where
  "file_json m p =
     (case ReadFile m p of
        None \<Rightarrow> Inl (ReadFailed p)
      | Some (Text s) \<Rightarrow> Inl (ParseFailed p)
      | Some (Doc j) \<Rightarrow> Inr j)"

subsection \<open>Dynamic values\<close>

text \<open>
  A Go map is an association list in strictly ascending key order, so that two maps with the same
  entries are equal. Assignment and deletion keep that form.
\<close>

definition gput :: "string \<Rightarrow> 'a \<Rightarrow> (string \<times> 'a) list \<Rightarrow> (string \<times> 'a) list" where
  "gput k v m = sort_key fst (AList.update k v m)"

definition gdel :: "string \<Rightarrow> (string \<times> 'a) list \<Rightarrow> (string \<times> 'a) list" where
  "gdel k m = filter (\<lambda>e. fst e \<noteq> k) m"

definition go_map :: "(string \<times> 'a) list \<Rightarrow> bool" where
  "go_map m \<longleftrightarrow> sorted_wrt (<) (map fst m)"

text \<open>Decoding into a map: a repeated key keeps its last value.\<close>

definition map_entries :: "(string \<times> 'a) list \<Rightarrow> (string \<times> 'a) list" where
  "map_entries kvs = sort_key fst (fold (\<lambda>(k, v) m. AList.update k v m) kvs [])"

primrec go_value :: "json \<Rightarrow> json" where
  "go_value JNull = JNull"
| "go_value (JBool b) = JBool b"
| "go_value (JNumber n) = JNumber n"
| "go_value (JString s) = JString s"
| "go_value (JArray xs) = JArray (map go_value xs)"
| "go_value (JObject kvs) = JObject (map_entries (map (map_prod id go_value) kvs))"

primrec json_ok :: "json \<Rightarrow> bool" where
  "json_ok JNull \<longleftrightarrow> True"
| "json_ok (JBool b) \<longleftrightarrow> True"
| "json_ok (JNumber n) \<longleftrightarrow> True"
| "json_ok (JString s) \<longleftrightarrow> True"
| "json_ok (JArray xs) \<longleftrightarrow> list_all id (map json_ok xs)"
| "json_ok (JObject kvs) \<longleftrightarrow> go_map kvs \<and> list_all (\<lambda>e. snd e) (map (map_prod id json_ok) kvs)"

subsection \<open>Laws of maps\<close>

lemma strict_keys: "go_map m \<longleftrightarrow> sorted (map fst m) \<and> distinct (map fst m)"
  by (auto simp: go_map_def strict_sorted_iff)

lemma go_map_distinct: "go_map m \<Longrightarrow> distinct (map fst m)"
  by (simp add: strict_keys)

lemma go_map_eqI:
  assumes "go_map m" and "go_map m'" and "map_of m = map_of m'"
  shows "m = m'"
proof -
  have d: "distinct (map fst m)" "distinct (map fst m')" using assms by (simp_all add: strict_keys)
  have "set m = set m'" using map_of_inject_set[OF d] assms(3) by simp
  moreover have "inj_on fst (set m \<union> set m')" using d calculation by (simp add: distinct_map)
  ultimately show ?thesis
    using assms(1,2) by (intro map_sorted_distinct_set_unique[of fst]) (auto simp: strict_keys distinct_map)
qed

lemma map_of_sort_key: "distinct (map fst m) \<Longrightarrow> map_of (sort_key fst m) = map_of m"
proof -
  assume d: "distinct (map fst m)"
  have "mset (map fst (sort_key fst m)) = mset (map fst m)" by simp
  then have d': "distinct (map fst (sort_key fst m))" using d by (metis mset_eq_imp_distinct_iff)
  show ?thesis using map_of_inject_set[OF d' d] by simp
qed

lemma go_map_sort_key: "distinct (map fst m) \<Longrightarrow> go_map (sort_key fst m)"
  unfolding strict_keys by (metis mset_map mset_sort mset_eq_imp_distinct_iff sorted_sort_key)

lemma map_of_gput [simp]: "go_map m \<Longrightarrow> map_of (gput k v m) = (map_of m)(k \<mapsto> v)"
  by (simp add: gput_def map_of_sort_key distinct_update go_map_distinct)

lemma go_map_gput [simp]: "go_map m \<Longrightarrow> go_map (gput k v m)"
  by (simp add: gput_def go_map_sort_key distinct_update go_map_distinct)

lemma map_of_gdel [simp]: "map_of (gdel k m) = (map_of m)(k := None)"
  by (induction m) (auto simp: gdel_def)

lemma go_map_gdel [simp]: "go_map m \<Longrightarrow> go_map (gdel k m)"
  unfolding gdel_def go_map_def by (induction m) auto

lemma gput_gput: "go_map m \<Longrightarrow> gput k v (gput k w m) = gput k v m"
  by (rule go_map_eqI) auto

lemma gput_id: "go_map m \<Longrightarrow> map_of m k = Some v \<Longrightarrow> gput k v m = m"
  by (rule go_map_eqI) auto

lemma gdel_gput: "go_map m \<Longrightarrow> map_of m k = None \<Longrightarrow> gdel k (gput k v m) = m"
  by (rule go_map_eqI) auto

lemma gdel_id: "map_of m k = None \<Longrightarrow> gdel k m = m"
  by (induction m) (auto simp: gdel_def split: if_splits)

lemma fold_update_distinct: "distinct (map fst m) \<Longrightarrow> distinct (map fst (fold (\<lambda>(k, v) m. AList.update k v m) kvs m))"
  by (induction kvs arbitrary: m) (auto simp: distinct_update)

lemma go_map_entries [simp]: "go_map (map_entries kvs)"
  unfolding map_entries_def by (intro go_map_sort_key fold_update_distinct) simp

lemma map_of_entries: "map_of (map_entries kvs) = map_of (rev kvs)"
proof -
  have "map_of (fold (\<lambda>(k, v) m. AList.update k v m) kvs m) = map_of m ++ map_of (rev kvs)" for m
    by (induction kvs arbitrary: m) (auto simp: map_add_upd_left map_add_def fun_eq_iff split: option.split)
  from this[of "[]"] show ?thesis
    by (simp add: map_entries_def map_of_sort_key fold_update_distinct)
qed

lemma map_of_rev_distinct: "distinct (map fst kvs) \<Longrightarrow> map_of (rev kvs) = map_of kvs"
  by (metis distinct_map distinct_rev map_of_inject_set rev_map set_rev)

lemma map_entries_perm:
  assumes "go_map m" and "distinct (map fst kvs)" and "set kvs = set m"
  shows "map_entries kvs = m"
  using assms map_of_inject_set[OF assms(2) go_map_distinct[OF assms(1)]]
  by (intro go_map_eqI) (simp_all add: map_of_entries map_of_rev_distinct)

end
