(* ===== verification/Spec_Decode.thy ===== *)
theory Spec_Decode
  imports Spec_Docs
begin

text \<open>
  Decoding a JSON value into the structs of \<open>schema/schema.go\<close>, as \<open>encoding/json\<close> does it for their
  field tags, and the view of a directory the checkers of package \<open>validator\<close> read.

  A member is matched with a field by its name, ignoring case as the decoder does; of several matching
  members the last counts; \<open>null\<close> leaves a string or struct as it is and clears a slice or a pointer;
  any other mismatch of kinds makes the whole decoding fail.
\<close>

subsection \<open>Members\<close>

definition ascii_lower :: "char \<Rightarrow> char" where
  "ascii_lower c = (if CHR ''A'' \<le> c \<and> c \<le> CHR ''Z'' then char_of (of_char c + (32 :: nat)) else c)"

text \<open>Besides the ASCII letters, the long s and the Kelvin sign fold to ASCII letters.\<close>

fun fold_name :: "string \<Rightarrow> string" where
  "fold_name [] = []"
| "fold_name (c # cs) =
     (if c = CHR 0xC5 \<and> take 1 cs = [CHR 0xBF] then CHR ''s'' # fold_name (drop 1 cs)
      else if c = CHR 0xE2 \<and> take 2 cs = [CHR 0x84, CHR 0xAA] then CHR ''k'' # fold_name (drop 2 cs)
      else ascii_lower c # fold_name cs)"

definition members :: "raw_entry \<Rightarrow> string \<Rightarrow> json list" where
  "members kvs name = map snd (filter (\<lambda>e. fold_name (fst e) = fold_name name) kvs)"

fun decode_all :: "('a \<Rightarrow> json \<Rightarrow> (file_error, 'a) result) \<Rightarrow> 'a \<Rightarrow> json list \<Rightarrow> (file_error, 'a) result" where
  "decode_all dec old [] = Inr old"
| "decode_all dec old (v # vs) = bind_result (dec old v) (\<lambda>x. decode_all dec x vs)"

definition member :: "('a \<Rightarrow> json \<Rightarrow> (file_error, 'a) result) \<Rightarrow> raw_entry \<Rightarrow> string \<Rightarrow> 'a \<Rightarrow> (file_error, 'a) result" where
  "member dec kvs name old = decode_all dec old (members kvs name)"

subsection \<open>Kinds of values\<close>

definition mismatch :: file_error where
  "mismatch = ParseFailed ''type mismatch''"

definition dec_string :: "string \<Rightarrow> json \<Rightarrow> (file_error, string) result" where
  "dec_string old j = (case j of JNull \<Rightarrow> Inr old | JString s \<Rightarrow> Inr s | _ \<Rightarrow> Inl mismatch)"

definition digits :: "string \<Rightarrow> bool" where
  "digits s \<longleftrightarrow> s \<noteq> [] \<and> list_all (\<lambda>c. CHR ''0'' \<le> c \<and> c \<le> CHR ''9'') s"

definition digits_value :: "string \<Rightarrow> int" where
  "digits_value s = foldl (\<lambda>n c. 10 * n + (of_char c - 48)) 0 s"

text \<open>An \<open>int\<close> of 64 bits: no fraction, no exponent, in range.\<close>

definition int_literal :: "string \<Rightarrow> int option" where
  "int_literal s =
     (let (neg, ds) = (if s \<noteq> [] \<and> hd s = CHR ''-'' then (True, tl s) else (False, s));
          n = (if neg then - digits_value ds else digits_value ds)
      in if digits ds \<and> - (2 ^ 63) \<le> n \<and> n < 2 ^ 63 then Some n else None)"

definition dec_int :: "int option \<Rightarrow> json \<Rightarrow> (file_error, int option) result" where
  "dec_int old j =
     (case j of
        JNull \<Rightarrow> Inr None
      | JNumber n \<Rightarrow> (case int_literal n of Some i \<Rightarrow> Inr (Some i) | None \<Rightarrow> Inl mismatch)
      | _ \<Rightarrow> Inl mismatch)"

definition dec_list :: "('a \<Rightarrow> json \<Rightarrow> (file_error, 'a) result) \<Rightarrow> 'a \<Rightarrow> 'a list \<Rightarrow> json
    \<Rightarrow> (file_error, 'a list) result" where
  "dec_list dec zero old j =
     (case j of JNull \<Rightarrow> Inr [] | JArray js \<Rightarrow> collect (dec zero) js | _ \<Rightarrow> Inl mismatch)"

abbreviation dec_strings :: "string list \<Rightarrow> json \<Rightarrow> (file_error, string list) result" where
  "dec_strings \<equiv> dec_list dec_string []"

definition dec_struct :: "('a \<Rightarrow> raw_entry \<Rightarrow> (file_error, 'a) result) \<Rightarrow> 'a \<Rightarrow> json \<Rightarrow> (file_error, 'a) result" where
  "dec_struct fill old j = (case j of JNull \<Rightarrow> Inr old | JObject kvs \<Rightarrow> fill old kvs | _ \<Rightarrow> Inl mismatch)"

subsection \<open>The structs\<close>

definition fill_module_decl :: "module_decl \<Rightarrow> raw_entry \<Rightarrow> (file_error, module_decl) result" where
  "fill_module_decl m kvs =
     bind_result (member dec_string kvs ''id'' (mod_id m)) (\<lambda>i.
     bind_result (member dec_string kvs ''name'' (mod_name m)) (\<lambda>n.
     bind_result (member dec_string kvs ''path'' (mod_path m)) (\<lambda>p.
     bind_result (member dec_string kvs ''description'' (mod_description m)) (\<lambda>d.
     bind_result (member dec_strings kvs ''requires_module'' (mod_requires_module m)) (\<lambda>r.
       Inr \<lparr>mod_id = i, mod_name = n, mod_path = p, mod_description = d, mod_requires_module = r\<rparr>)))))"

definition fill_requirement :: "requirement \<Rightarrow> raw_entry \<Rightarrow> (file_error, requirement) result" where
  "fill_requirement r kvs =
     bind_result (member dec_string kvs ''id'' (req_id r)) (\<lambda>i.
     bind_result (member dec_string kvs ''preq_id'' (req_preq_id r)) (\<lambda>pq.
     bind_result (member dec_string kvs ''type'' (req_type r)) (\<lambda>ty.
     bind_result (member dec_string kvs ''name'' (req_title r)) (\<lambda>t.
     bind_result (member dec_string kvs ''description'' (req_description r)) (\<lambda>d.
     bind_result (member dec_int kvs ''priority'' (req_priority r)) (\<lambda>pr.
     bind_result (member dec_strings kvs ''depends_on'' (req_depends_on r)) (\<lambda>ds.
     bind_result (member dec_string kvs ''derivation'' (req_derivation r)) (\<lambda>dv.
       Inr \<lparr>req_id = i, req_preq_id = pq, req_type = ty, req_title = t, req_description = d,
            req_priority = pr, req_depends_on = ds, req_derivation = dv\<rparr>))))))))"

text \<open>\<open>Section\<close> has a decoder of its own: the envelope, from zero, and the entry as it is.\<close>

definition dec_section :: "section_decl \<Rightarrow> json \<Rightarrow> (file_error, section_decl) result" where
  "dec_section old =
     (\<lambda>j. dec_struct (\<lambda>s kvs.
        bind_result (member dec_string kvs ''id'' []) (\<lambda>i.
        bind_result (member dec_string kvs ''name'' []) (\<lambda>n.
        bind_result (member dec_string kvs ''type'' []) (\<lambda>t.
          Inr \<lparr>sec_id = i, sec_name = n, sec_type = t, sec_raw = j\<rparr>))))
        \<lparr>sec_id = [], sec_name = [], sec_type = [], sec_raw = JNull\<rparr> j)"

definition zero_module_decl :: module_decl where
  "zero_module_decl = \<lparr>mod_id = [], mod_name = [], mod_path = [], mod_description = [], mod_requires_module = []\<rparr>"

definition zero_requirement :: requirement where
  "zero_requirement = \<lparr>req_id = [], req_preq_id = [], req_type = [], req_title = [], req_description = [],
     req_priority = None, req_depends_on = [], req_derivation = []\<rparr>"

definition fill_project :: "project \<Rightarrow> raw_entry \<Rightarrow> (file_error, project) result" where
  "fill_project p kvs =
     bind_result (member dec_string kvs ''name'' (prj_name p)) (\<lambda>n.
     bind_result (member dec_string kvs ''description'' (prj_description p)) (\<lambda>d.
     bind_result (member dec_string kvs ''version'' (prj_version p)) (\<lambda>v.
     bind_result (member (dec_list (dec_struct fill_requirement) zero_requirement) kvs ''requirements'' (prj_requirements p)) (\<lambda>rs.
     bind_result (member (dec_list (dec_struct fill_module_decl) zero_module_decl) kvs ''modules'' (prj_modules p)) (\<lambda>ms.
     bind_result (member (dec_list dec_section \<lparr>sec_id = [], sec_name = [], sec_type = [], sec_raw = JNull\<rparr>)
                    kvs ''sections'' (prj_sections p)) (\<lambda>ss.
     bind_result (member dec_int kvs ''spec_version'' (prj_spec_version p)) (\<lambda>sv.
       Inr \<lparr>prj_name = n, prj_description = d, prj_version = v, prj_requirements = rs, prj_modules = ms,
            prj_sections = ss, prj_spec_version = sv\<rparr>)))))))"

definition zero_project :: project where
  "zero_project = \<lparr>prj_name = [], prj_description = [], prj_version = [], prj_requirements = [], prj_modules = [],
     prj_sections = [], prj_spec_version = None\<rparr>"

definition decode_project :: "json \<Rightarrow> (file_error, project) result" where
  "decode_project j = dec_struct fill_project zero_project j"

definition fill_module_requirement :: "module_requirement \<Rightarrow> raw_entry \<Rightarrow> (file_error, module_requirement) result" where
  "fill_module_requirement r kvs =
     bind_result (member dec_string kvs ''id'' (mrq_id r)) (\<lambda>i.
     bind_result (member dec_string kvs ''preq_id'' (mrq_preq_id r)) (\<lambda>pq.
     bind_result (member dec_string kvs ''type'' (mrq_type r)) (\<lambda>ty.
     bind_result (member dec_string kvs ''name'' (mrq_title r)) (\<lambda>t.
     bind_result (member dec_string kvs ''description'' (mrq_description r)) (\<lambda>d.
     bind_result (member dec_strings kvs ''depends_on'' (mrq_depends_on r)) (\<lambda>ds.
       Inr \<lparr>mrq_id = i, mrq_preq_id = pq, mrq_type = ty, mrq_title = t, mrq_description = d, mrq_depends_on = ds\<rparr>))))))"

definition fill_component :: "component \<Rightarrow> raw_entry \<Rightarrow> (file_error, component) result" where
  "fill_component c kvs =
     bind_result (member dec_string kvs ''id'' (cmp_id c)) (\<lambda>i.
     bind_result (member dec_string kvs ''name'' (cmp_name c)) (\<lambda>n.
     bind_result (member dec_string kvs ''description'' (cmp_description c)) (\<lambda>d.
     bind_result (member dec_string kvs ''content'' (cmp_content c)) (\<lambda>ct.
     bind_result (member dec_strings kvs ''implements'' (cmp_implements c)) (\<lambda>im.
     bind_result (member dec_strings kvs ''uses'' (cmp_uses c)) (\<lambda>us.
       Inr \<lparr>cmp_id = i, cmp_name = n, cmp_description = d, cmp_content = ct, cmp_implements = im, cmp_uses = us\<rparr>))))))"

definition fill_data_flow :: "data_flow \<Rightarrow> raw_entry \<Rightarrow> (file_error, data_flow) result" where
  "fill_data_flow f kvs =
     bind_result (member dec_string kvs ''id'' (dfl_id f)) (\<lambda>i.
     bind_result (member dec_string kvs ''name'' (dfl_name f)) (\<lambda>n.
     bind_result (member dec_string kvs ''description'' (dfl_description f)) (\<lambda>d.
     bind_result (member dec_string kvs ''content'' (dfl_content f)) (\<lambda>ct.
     bind_result (member dec_strings kvs ''uses'' (dfl_uses f)) (\<lambda>us.
       Inr \<lparr>dfl_id = i, dfl_name = n, dfl_description = d, dfl_content = ct, dfl_uses = us\<rparr>)))))"

definition fill_test_section :: "test_section \<Rightarrow> raw_entry \<Rightarrow> (file_error, test_section) result" where
  "fill_test_section t kvs =
     bind_result (member dec_string kvs ''id'' (tst_id t)) (\<lambda>i.
     bind_result (member dec_string kvs ''name'' (tst_name t)) (\<lambda>n.
     bind_result (member dec_string kvs ''content'' (tst_content t)) (\<lambda>ct.
     bind_result (member dec_strings kvs ''describes'' (tst_describes t)) (\<lambda>ds.
       Inr \<lparr>tst_id = i, tst_name = n, tst_content = ct, tst_describes = ds\<rparr>))))"

definition fill_api :: "api \<Rightarrow> raw_entry \<Rightarrow> (file_error, api) result" where
  "fill_api a kvs =
     bind_result (member dec_string kvs ''id'' (api_id a)) (\<lambda>i.
     bind_result (member dec_string kvs ''name'' (api_name a)) (\<lambda>n.
     bind_result (member dec_string kvs ''description'' (api_description a)) (\<lambda>d.
     bind_result (member dec_strings kvs ''provided_by'' (api_provided_by a)) (\<lambda>pb.
     bind_result (member dec_string kvs ''group'' (api_group a)) (\<lambda>g.
       Inr \<lparr>api_id = i, api_name = n, api_description = d, api_provided_by = pb, api_group = g\<rparr>)))))"

definition fill_module_spec :: "module_spec \<Rightarrow> raw_entry \<Rightarrow> (file_error, module_spec) result" where
  "fill_module_spec m kvs =
     bind_result (member dec_string kvs ''name'' (ms_name m)) (\<lambda>n.
     bind_result (member dec_string kvs ''description'' (ms_description m)) (\<lambda>d.
     bind_result (member (dec_list (dec_struct fill_module_requirement)
        \<lparr>mrq_id = [], mrq_preq_id = [], mrq_type = [], mrq_title = [], mrq_description = [], mrq_depends_on = []\<rparr>)
        kvs ''requirements'' (ms_requirements m)) (\<lambda>rs.
     bind_result (member (dec_list (dec_struct fill_component)
        \<lparr>cmp_id = [], cmp_name = [], cmp_description = [], cmp_content = [], cmp_implements = [], cmp_uses = []\<rparr>)
        kvs ''components'' (ms_components m)) (\<lambda>cs.
     bind_result (member (dec_list (dec_struct fill_data_flow)
        \<lparr>dfl_id = [], dfl_name = [], dfl_description = [], dfl_content = [], dfl_uses = []\<rparr>)
        kvs ''data_flows'' (ms_data_flows m)) (\<lambda>fs.
     bind_result (member (dec_list (dec_struct fill_test_section)
        \<lparr>tst_id = [], tst_name = [], tst_content = [], tst_describes = []\<rparr>)
        kvs ''test_sections'' (ms_test_sections m)) (\<lambda>ts.
     bind_result (member (dec_list (dec_struct fill_api)
        \<lparr>api_id = [], api_name = [], api_description = [], api_provided_by = [], api_group = []\<rparr>)
        kvs ''apis'' (ms_apis m)) (\<lambda>as.
       Inr \<lparr>ms_name = n, ms_description = d, ms_requirements = rs, ms_components = cs, ms_data_flows = fs,
            ms_test_sections = ts, ms_apis = as\<rparr>)))))))"

definition decode_module_spec :: "json \<Rightarrow> (file_error, module_spec) result" where
  "decode_module_spec j =
     dec_struct fill_module_spec
       \<lparr>ms_name = [], ms_description = [], ms_requirements = [], ms_components = [], ms_data_flows = [],
        ms_test_sections = [], ms_apis = []\<rparr> j"

subsection \<open>The view of the checkers\<close>

definition spec_view :: "(mem_fs \<Rightarrow> (string, profile) result) \<Rightarrow> mem_fs \<Rightarrow> spec_files" where
  "spec_view resolve m =
     \<lparr>sf_project = bind_result (file_json m ''project.json'') decode_project,
      sf_module = (\<lambda>path. bind_result (file_json m (filepath_Join [path, ''module.json''])) decode_module_spec),
      sf_project_doc = file_json m ''project.json'',
      sf_module_doc = (\<lambda>path. file_json m (filepath_Join [path, ''module.json''])),
      sf_profile = resolve m\<rparr>"

end
