(* ===== verification/Merkle_Build.thy ===== *)
theory Merkle_Build
  imports Merkle_Diff Spec_Decode
begin

text \<open>
  The tree of a specification directory (\<open>merkle/tree_builder.go\<close>): the leaves are the meta files
  and the entries the profile declares, hashed over their content file or over the fields the
  profile lists. \<open>layout\<close> is the text of a file that holds a JSON value.
\<close>

subsection \<open>Compact JSON\<close>

text \<open>
  \<open>json.Marshal\<close> of a dynamic value, with the encoder's escapes; strings are valid UTF-8.
\<close>

definition hex_digit :: "nat \<Rightarrow> char" where
  "hex_digit n = ''0123456789abcdef'' ! n"

definition json_escape :: "char \<Rightarrow> string" where
  "json_escape c =
     (if c = CHR 0x22 then [CHR 0x5C, CHR 0x22]
      else if c = CHR 0x5C then [CHR 0x5C, CHR 0x5C]
      else if c = CHR 0x08 then [CHR 0x5C, CHR ''b'']
      else if c = CHR 0x0C then [CHR 0x5C, CHR ''f'']
      else if c = CHR 0x0A then [CHR 0x5C, CHR ''n'']
      else if c = CHR 0x0D then [CHR 0x5C, CHR ''r'']
      else if c = CHR 0x09 then [CHR 0x5C, CHR ''t'']
      else if of_char c < (32 :: nat) \<or> c \<in> {CHR ''<'', CHR ''>'', CHR ''&''} then
        [CHR 0x5C] @ ''u00'' @ [hex_digit (of_char c div 16), hex_digit (of_char c mod 16)]
      else [c])"

text \<open>The line and paragraph separators U+2028 and U+2029, three bytes each, are escaped as well.\<close>

fun json_escapes :: "string \<Rightarrow> string" where
  "json_escapes [] = []"
| "json_escapes (c # cs) =
     (if c = CHR 0xE2 \<and> take 2 cs = [CHR 0x80, CHR 0xA8] then [CHR 0x5C] @ ''u2028'' @ json_escapes (drop 2 cs)
      else if c = CHR 0xE2 \<and> take 2 cs = [CHR 0x80, CHR 0xA9] then [CHR 0x5C] @ ''u2029'' @ json_escapes (drop 2 cs)
      else json_escape c @ json_escapes cs)"

definition json_quote :: "string \<Rightarrow> string" where
  "json_quote s = [CHR 0x22] @ json_escapes s @ [CHR 0x22]"

primrec json_marshal :: "json \<Rightarrow> string" where
  "json_marshal JNull = ''null''"
| "json_marshal (JBool b) = (if b then ''true'' else ''false'')"
| "json_marshal (JNumber n) = n"
| "json_marshal (JString s) = json_quote s"
| "json_marshal (JArray xs) = ''['' @ join_strings '','' (map json_marshal xs) @ '']''"
| "json_marshal (JObject kvs) =
     ''{'' @ join_strings '',''
       (map (\<lambda>(k, t). json_quote k @ '':'' @ t) (map (map_prod id json_marshal) kvs)) @ ''}''"

subsection \<open>Leaves\<close>

definition file_bytes :: "(json \<Rightarrow> string) \<Rightarrow> file_content \<Rightarrow> string" where
  "file_bytes layout f = (case f of Doc j \<Rightarrow> layout j | Text s \<Rightarrow> s)"

text \<open>The file is opened, not read through the fast path, so a path that is not valid is refused.\<close>

definition HashFileFS :: "(json \<Rightarrow> string) \<Rightarrow> mem_fs \<Rightarrow> string \<Rightarrow> (file_error, string) result" where
  "HashFileFS layout m name =
     (if \<not> ValidPath name then Inl (ReadFailed name)
      else case ReadFile m name of
             None \<Rightarrow> Inl (ReadFailed name)
           | Some f \<Rightarrow> Inr (HashBytes (file_bytes layout f)))"

definition leaf_node :: "string \<Rightarrow> string \<Rightarrow> string \<Rightarrow> string \<Rightarrow> node" where
  "leaf_node key hash nodeType module = Node key hash ''leaf'' nodeType module [] []"

definition hashLeaf :: "(json \<Rightarrow> string) \<Rightarrow> mem_fs \<Rightarrow> string \<Rightarrow> string \<Rightarrow> string \<Rightarrow> string
    \<Rightarrow> (file_error, node) result" where
  "hashLeaf layout m name key nodeType module =
     bind_result (HashFileFS layout m name) (\<lambda>h. Inr (leaf_node key h nodeType module))"

definition isZeroJSONValue :: "json \<Rightarrow> bool" where
  "isZeroJSONValue j =
     (case j of
        JNull \<Rightarrow> True
      | JString s \<Rightarrow> s = []
      | JArray xs \<Rightarrow> xs = []
      | JObject kvs \<Rightarrow> kvs = []
      | _ \<Rightarrow> False)"

definition hashed_part :: "raw_entry \<Rightarrow> string list \<Rightarrow> raw_entry" where
  "hashed_part entry allowlist =
     fold (\<lambda>name fields.
       case map_of entry name of
         None \<Rightarrow> fields
       | Some v \<Rightarrow> if isZeroJSONValue v then fields else gput name v fields) allowlist []"

definition hashFields :: "raw_entry \<Rightarrow> string list \<Rightarrow> string \<Rightarrow> string \<Rightarrow> string \<Rightarrow> node" where
  "hashFields entry allowlist key nodeType module =
     leaf_node key (HashBytes (json_marshal (JObject (hashed_part entry allowlist)))) nodeType module"

subsection \<open>Nodes of a type\<close>

definition readRawFields :: "mem_fs \<Rightarrow> string \<Rightarrow> (file_error, raw_entry) result" where
  "readRawFields m name = bind_result (file_json m name) decode_entry"

definition decode_any_map :: "json \<Rightarrow> (file_error, raw_entry) result" where
  "decode_any_map j =
     (case go_value j of JObject kvs \<Rightarrow> Inr kvs | JNull \<Rightarrow> Inr [] | _ \<Rightarrow> Inl mismatch)"

definition decode_entries :: "json \<Rightarrow> (file_error, raw_entry list) result" where
  "decode_entries j =
     (case j of JArray js \<Rightarrow> collect decode_any_map js | JNull \<Rightarrow> Inr [] | _ \<Rightarrow> Inl mismatch)"

definition str_field :: "raw_entry \<Rightarrow> string \<Rightarrow> string" where
  "str_field e f = (case map_of e f of Some v \<Rightarrow> json_string v | None \<Rightarrow> [])"

definition hashed_fields_of :: "profile \<Rightarrow> node_type \<Rightarrow> string list" where
  "hashed_fields_of p nt =
     (case map_of (prf_hashed_fields p) (scope_key (nt_scope nt) (nt_name nt)) of Some fs \<Rightarrow> fs | None \<Rightarrow> [])"

text \<open>One round of the loop: \<open>None\<close> is an entry it skips.\<close>

definition entry_node :: "(json \<Rightarrow> string) \<Rightarrow> mem_fs \<Rightarrow> node_type \<Rightarrow> string \<Rightarrow> string \<Rightarrow> profile \<Rightarrow> raw_entry
    \<Rightarrow> (file_error, node option) result" where
  "entry_node layout m nt baseDir moduleHash p entry =
     (let i = str_field entry ''id''
      in if nt_requires_content nt then
           let content = str_field entry ''content''
           in if content = [] then Inr None
              else bind_result (hashLeaf layout m (filepath_Join [baseDir, content]) i (nt_name nt) moduleHash)
                     (\<lambda>n. Inr (Some n))
         else Inr (Some (hashFields entry (hashed_fields_of p nt) i (nt_name nt) moduleHash)))"

definition buildTypeNodes :: "(json \<Rightarrow> string) \<Rightarrow> mem_fs \<Rightarrow> raw_entry \<Rightarrow> node_type \<Rightarrow> string \<Rightarrow> string \<Rightarrow> profile
    \<Rightarrow> (file_error, node list) result" where
  "buildTypeNodes layout m raw nt baseDir moduleHash p =
     (case raw_field raw (nt_plural_key nt) of
        None \<Rightarrow> Inr []
      | Some data \<Rightarrow>
          bind_result (decode_entries data) (\<lambda>entries.
            bind_result (collect (entry_node layout m nt baseDir moduleHash p) entries) (\<lambda>nodes.
              Inr (List.map_filter (\<lambda>n. n) nodes))))"

definition type_nodes :: "(json \<Rightarrow> string) \<Rightarrow> mem_fs \<Rightarrow> raw_entry \<Rightarrow> string \<Rightarrow> string \<Rightarrow> string \<Rightarrow> profile
    \<Rightarrow> (file_error, node list) result" where
  "type_nodes layout m raw scope baseDir moduleHash p =
     bind_result (collect (\<lambda>nt. buildTypeNodes layout m raw nt baseDir moduleHash p)
                    (filter (\<lambda>nt. nt_scope nt = scope) (prf_node_types p)))
       (\<lambda>nss. Inr (concat nss))"

subsection \<open>Modules and the root\<close>

definition buildModule :: "(json \<Rightarrow> string) \<Rightarrow> mem_fs \<Rightarrow> module_decl \<Rightarrow> profile \<Rightarrow> (file_error, node) result" where
  "buildModule layout m md p =
     (let modJSONPath = filepath_Join [mod_path md, ''module.json'']; moduleHash = mod_id md
      in bind_result (hashLeaf layout m modJSONPath (''meta/'' @ moduleHash) ''meta'' moduleHash) (\<lambda>modLeaf.
           bind_result (readRawFields m modJSONPath) (\<lambda>rawMod.
             bind_result (type_nodes layout m rawMod ''module'' (mod_path md) moduleHash p) (\<lambda>nodes.
               let children = sort_key nd_key (modLeaf # nodes)
               in Inr (Node moduleHash (HashChildren (collectHashes children)) ''module'' [] moduleHash
                         children (mod_name md))))))"

definition extractModules :: "raw_entry \<Rightarrow> (file_error, module_decl list) result" where
  "extractModules raw =
     (case raw_field raw ''modules'' of
        None \<Rightarrow> Inr []
      | Some data \<Rightarrow> dec_list (dec_struct fill_module_decl) zero_module_decl [] data)"

definition BuildTreeFS :: "(json \<Rightarrow> string) \<Rightarrow> (mem_fs \<Rightarrow> (string, profile) result) \<Rightarrow> mem_fs
    \<Rightarrow> (file_error, node) result" where
  "BuildTreeFS layout resolve m =
     (case resolve m of
        Inl e \<Rightarrow> Inl (ParseFailed e)
      | Inr p \<Rightarrow>
          bind_result (hashLeaf layout m ''project.json'' ''meta/project'' ''meta'' []) (\<lambda>projLeaf.
            bind_result (readRawFields m ''project.json'') (\<lambda>rawProj.
              bind_result (extractModules rawProj) (\<lambda>modules.
                bind_result (type_nodes layout m rawProj ''project'' [] [] p) (\<lambda>projNodes.
                  bind_result (collect (\<lambda>md. buildModule layout m md p) modules) (\<lambda>moduleNodes.
                    let children = sort_key nd_key (projLeaf # projNodes @ moduleNodes)
                    in Inr (Node ''project'' (HashChildren (collectHashes children)) ''project'' [] []
                              children [])))))))"

subsection \<open>The keys of the tree\<close>

text \<open>The entries of a document that are leaves: those of a profile type, with content where the type requires it.\<close>

definition leaf_entries :: "raw_entry \<Rightarrow> string \<Rightarrow> profile \<Rightarrow> raw_entry set" where
  "leaf_entries raw scope p =
     {e. \<exists>nt data entries. nt \<in> set (prf_node_types p) \<and> nt_scope nt = scope \<and>
           raw_field raw (nt_plural_key nt) = Some data \<and> decode_entries data = Inr entries \<and>
           e \<in> set entries \<and> (nt_requires_content nt \<longrightarrow> str_field e ''content'' \<noteq> [])}"

lemma collect_image: "collect f xs = Inr ys \<Longrightarrow> x \<in> set xs \<Longrightarrow> \<exists>y \<in> set ys. f x = Inr y"
  by (metis collect_length collect_nth in_set_conv_nth nth_mem)

lemma entry_node_Inr:
  assumes "entry_node layout m nt d mh p e = Inr r"
  shows "r = None \<and> nt_requires_content nt \<and> str_field e ''content'' = [] \<or>
    (\<exists>n. r = Some n \<and> nd_key n = str_field e ''id'' \<and> nd_type n = ''leaf'' \<and> nd_module n = mh \<and>
         nd_node_type n = nt_name nt \<and> (nt_requires_content nt \<longrightarrow> str_field e ''content'' \<noteq> []))"
  using assms
  by (auto simp: entry_node_def Let_def hashLeaf_def hashFields_def leaf_node_def loop_simps split: if_splits)

lemma buildTypeNodes_keys:
  assumes "buildTypeNodes layout m raw nt d mh p = Inr ns"
  shows "\<forall>n \<in> set ns. nd_type n = ''leaf'' \<and> nd_module n = mh \<and> nd_node_type n = nt_name nt"
    and "nd_key ` set ns =
      {str_field e ''id'' |e data entries. raw_field raw (nt_plural_key nt) = Some data \<and>
         decode_entries data = Inr entries \<and> e \<in> set entries \<and>
         (nt_requires_content nt \<longrightarrow> str_field e ''content'' \<noteq> [])}"
proof -
  have "(\<forall>n \<in> set ns. nd_type n = ''leaf'' \<and> nd_module n = mh \<and> nd_node_type n = nt_name nt) \<and>
    nd_key ` set ns =
      {str_field e ''id'' |e data entries. raw_field raw (nt_plural_key nt) = Some data \<and>
         decode_entries data = Inr entries \<and> e \<in> set entries \<and>
         (nt_requires_content nt \<longrightarrow> str_field e ''content'' \<noteq> [])}"
  proof (cases "raw_field raw (nt_plural_key nt)")
    case None
    then show ?thesis using assms by (simp add: buildTypeNodes_def)
  next
    case (Some data)
    then obtain entries rs where E: "decode_entries data = Inr entries"
      and C: "collect (entry_node layout m nt d mh p) entries = Inr rs" and ns: "ns = List.map_filter (\<lambda>n. n) rs"
      using assms by (auto simp: buildTypeNodes_def loop_simps)
    have rs: "\<exists>e \<in> set entries. entry_node layout m nt d mh p e = Inr r" if "r \<in> set rs" for r
      using collect_in_set[OF C that] .
    have es: "\<exists>r \<in> set rs. entry_node layout m nt d mh p e = Inr r" if "e \<in> set entries" for e
      using collect_image[OF C that] .
    have mem: "n \<in> set ns \<longleftrightarrow> Some n \<in> set rs" for n by (auto simp: ns set_map_filter_iff)
    show ?thesis
    proof (intro conjI ballI set_eqI iffI)
      fix n assume "n \<in> set ns"
      then show "nd_type n = ''leaf''" "nd_module n = mh" "nd_node_type n = nt_name nt"
        using rs entry_node_Inr unfolding mem by fastforce+
    next
      fix k assume "k \<in> nd_key ` set ns"
      then obtain n where n: "Some n \<in> set rs" "k = nd_key n" unfolding mem[symmetric] by blast
      then obtain e where "e \<in> set entries" "entry_node layout m nt d mh p e = Inr (Some n)" using rs by blast
      then show "k \<in> {str_field e ''id'' |e data entries. raw_field raw (nt_plural_key nt) = Some data \<and>
         decode_entries data = Inr entries \<and> e \<in> set entries \<and>
         (nt_requires_content nt \<longrightarrow> str_field e ''content'' \<noteq> [])}"
        using entry_node_Inr[of layout m nt d mh p e "Some n"] n(2) Some E by auto
    next
      fix k assume "k \<in> {str_field e ''id'' |e data entries. raw_field raw (nt_plural_key nt) = Some data \<and>
         decode_entries data = Inr entries \<and> e \<in> set entries \<and>
         (nt_requires_content nt \<longrightarrow> str_field e ''content'' \<noteq> [])}"
      then obtain e where e: "e \<in> set entries" "k = str_field e ''id''"
        "nt_requires_content nt \<longrightarrow> str_field e ''content'' \<noteq> []" using Some E by auto
      obtain r where r: "r \<in> set rs" "entry_node layout m nt d mh p e = Inr r" using es[OF e(1)] by blast
      then obtain n where "r = Some n" "nd_key n = k" using entry_node_Inr[OF r(2)] e by blast
      then show "k \<in> nd_key ` set ns" using r(1) mem by force
    qed
  qed
  then show "\<forall>n \<in> set ns. nd_type n = ''leaf'' \<and> nd_module n = mh \<and> nd_node_type n = nt_name nt"
    and "nd_key ` set ns =
      {str_field e ''id'' |e data entries. raw_field raw (nt_plural_key nt) = Some data \<and>
         decode_entries data = Inr entries \<and> e \<in> set entries \<and>
         (nt_requires_content nt \<longrightarrow> str_field e ''content'' \<noteq> [])}" by blast+
qed

lemma type_nodes_keys:
  assumes "type_nodes layout m raw scope d mh p = Inr ns"
  shows "\<forall>n \<in> set ns. nd_type n = ''leaf''"
    and "nd_key ` set ns = (\<lambda>e. str_field e ''id'') ` leaf_entries raw scope p"
proof -
  let ?nts = "filter (\<lambda>nt. nt_scope nt = scope) (prf_node_types p)"
  obtain nss where C: "collect (\<lambda>nt. buildTypeNodes layout m raw nt d mh p) ?nts = Inr nss"
    and ns: "ns = concat nss" using assms by (auto simp: type_nodes_def loop_simps)
  have fwd: "\<exists>nt \<in> set ?nts. buildTypeNodes layout m raw nt d mh p = Inr x" if "x \<in> set nss" for x
    using collect_in_set[OF C that] .
  have bwd: "\<exists>x \<in> set nss. buildTypeNodes layout m raw nt d mh p = Inr x" if "nt \<in> set ?nts" for nt
    using collect_image[OF C that] .
  show "\<forall>n \<in> set ns. nd_type n = ''leaf''" using fwd buildTypeNodes_keys(1) unfolding ns by fastforce
  show "nd_key ` set ns = (\<lambda>e. str_field e ''id'') ` leaf_entries raw scope p"
  proof (intro set_eqI iffI)
    fix k assume "k \<in> nd_key ` set ns"
    then obtain x where x: "x \<in> set nss" "k \<in> nd_key ` set x" unfolding ns by auto
    obtain nt where nt: "nt \<in> set ?nts" "buildTypeNodes layout m raw nt d mh p = Inr x" using fwd[OF x(1)] by blast
    then show "k \<in> (\<lambda>e. str_field e ''id'') ` leaf_entries raw scope p"
      using x(2) unfolding buildTypeNodes_keys(2)[OF nt(2)] leaf_entries_def by auto
  next
    fix k assume "k \<in> (\<lambda>e. str_field e ''id'') ` leaf_entries raw scope p"
    then obtain e nt data entries where e: "k = str_field e ''id''" "nt \<in> set ?nts"
      "raw_field raw (nt_plural_key nt) = Some data" "decode_entries data = Inr entries" "e \<in> set entries"
      "nt_requires_content nt \<longrightarrow> str_field e ''content'' \<noteq> []"
      unfolding leaf_entries_def by auto
    obtain x where x: "x \<in> set nss" "buildTypeNodes layout m raw nt d mh p = Inr x" using bwd[OF e(2)] by blast
    have "k \<in> nd_key ` set x" unfolding buildTypeNodes_keys(2)[OF x(2)] using e by blast
    then show "k \<in> nd_key ` set ns" using x(1) unfolding ns by auto
  qed
qed

end
