(* ===== verification/Validator_Links.thy ===== *)
theory Validator_Links
  imports Validator_Markdown Merkle_Build Decimal
begin

text \<open>
  The resolution of the links of the content leaves against the merkle tree
  (\<open>validator/link_resolver.go\<close>).
\<close>

subsection \<open>Link targets\<close>

text \<open>The two Go sets are filled by a walk of the tree: the leaves, and the modules.\<close>

fun collectLinkTargets :: "node \<Rightarrow> string set \<times> string set \<Rightarrow> string set \<times> string set" where
  "collectLinkTargets (Node k h t nt m cs mn) (leaves, modules) =
     (if t = ''leaf'' then (insert k leaves, modules)
      else fold collectLinkTargets cs (leaves, if t = ''module'' then insert k modules else modules))"

subsection \<open>One link\<close>

definition resolveLink :: "link_ref \<Rightarrow> string \<Rightarrow> string set \<Rightarrow> string set \<Rightarrow> validation_error option" where
  "resolveLink ref path leafKeys moduleKeys =
     (let fail = (\<lambda>msg. Some (verror ''link'' (path @ '':'' @ decimal (lr_line ref)) msg))
      in if lr_kind ref = KindUnterminated then fail (LinkUnterminated (lr_raw ref))
         else if lr_kind ref = KindWiki \<and> \<not> isIdentityHash (lr_target ref) then
           fail (LinkNotHash (lr_raw ref) (lr_target ref))
         else if lr_kind ref = KindWiki \<and> (\<not> lr_has_display ref \<or> lr_display ref = []) then
           fail (LinkNoDisplay (lr_raw ref) (lr_target ref))
         else if lr_target ref \<in> leafKeys then None
         else if lr_target ref \<in> moduleKeys then fail (LinkToModule (lr_target ref))
         else fail (LinkUnresolved (lr_target ref)))"

subsection \<open>The leaves of a module\<close>

definition module_contents :: "module_spec \<Rightarrow> string list" where
  "module_contents m =
     filter (\<lambda>c. c \<noteq> []) (map cmp_content (ms_components m) @ map dfl_content (ms_data_flows m) @
                           map tst_content (ms_test_sections m))"

definition checkModuleLinks :: "(json \<Rightarrow> string) \<Rightarrow> mem_fs \<Rightarrow> module_decl \<Rightarrow> module_spec \<Rightarrow> string set \<Rightarrow> string set
    \<Rightarrow> validation_error list" where
  "checkModuleLinks layout m md spec leafKeys moduleKeys =
     concat (map (\<lambda>content.
       let rel = filepath_Join [mod_path md, content]
       in case ReadFile m rel of
            None \<Rightarrow> [verror ''link'' rel (LeafUnreadable rel)]
          | Some f \<Rightarrow>
              List.map_filter (\<lambda>ref. resolveLink ref rel leafKeys moduleKeys)
                (scanLinks (file_bytes layout f)))
     (dedup (module_contents spec)))"

definition CheckLinksFS :: "(json \<Rightarrow> string) \<Rightarrow> (mem_fs \<Rightarrow> (string, profile) result) \<Rightarrow> mem_fs
    \<Rightarrow> validation_error list" where
  "CheckLinksFS layout resolve m =
     (case loadSpec (spec_view resolve m) ''link'' of
        Inl errs \<Rightarrow> errs
      | Inr (prj, modules) \<Rightarrow>
          (case BuildTreeFS layout resolve m of
             Inl e \<Rightarrow> [verror ''link'' ''project.json'' (LinksUnresolvable (case e of ReadFailed s \<Rightarrow> s | ParseFailed s \<Rightarrow> s))]
           | Inr tree \<Rightarrow>
               (case collectLinkTargets tree ({}, {}) of
                  (leafKeys, moduleKeys) \<Rightarrow>
                    concat (map (\<lambda>md.
                      case map_of modules (mod_name md) of
                        None \<Rightarrow> []
                      | Some spec \<Rightarrow> checkModuleLinks layout m md spec leafKeys moduleKeys)
                    (prj_modules prj)))))"

subsection \<open>What the walk collects\<close>

lemma collect_leaves:
  "\<forall>n \<in> set ns. nd_type n = ''leaf'' \<Longrightarrow>
     fold collectLinkTargets ns (leaves, modules) = (leaves \<union> nd_key ` set ns, modules)"
proof (induction ns arbitrary: leaves)
  case (Cons n ns)
  then show ?case by (cases n) auto
qed simp

text \<open>The leaves a directory declares.\<close>

definition declared_leaves :: "mem_fs \<Rightarrow> profile \<Rightarrow> string set" where
  "declared_leaves m p =
     {k. \<exists>raw. readRawFields m ''project.json'' = Inr raw \<and>
       (k = ''meta/project'' \<or> k \<in> (\<lambda>e. str_field e ''id'') ` leaf_entries raw ''project'' p \<or>
        (\<exists>ms md rawMod. extractModules raw = Inr ms \<and> md \<in> set ms \<and>
           readRawFields m (filepath_Join [mod_path md, ''module.json'']) = Inr rawMod \<and>
           (k = ''meta/'' @ mod_id md \<or> k \<in> (\<lambda>e. str_field e ''id'') ` leaf_entries rawMod ''module'' p)))}"

definition module_leaves :: "mem_fs \<Rightarrow> profile \<Rightarrow> module_decl \<Rightarrow> string set" where
  "module_leaves m p md =
     {k. \<exists>rawMod. readRawFields m (filepath_Join [mod_path md, ''module.json'']) = Inr rawMod \<and>
           (k = ''meta/'' @ mod_id md \<or> k \<in> (\<lambda>e. str_field e ''id'') ` leaf_entries rawMod ''module'' p)}"

lemma hashLeaf_Inr: "hashLeaf layout m f k nt mh = Inr n \<Longrightarrow> nd_type n = ''leaf'' \<and> nd_key n = k"
  by (auto simp: hashLeaf_def leaf_node_def loop_simps)

lemma buildModule_targets:
  assumes "buildModule layout m md p = Inr n"
  shows "fst (collectLinkTargets n (leaves, modules)) = leaves \<union> module_leaves m p md"
proof -
  let ?f = "filepath_Join [mod_path md, ''module.json'']"
  obtain l raw ns where l: "hashLeaf layout m ?f (''meta/'' @ mod_id md) ''meta'' (mod_id md) = Inr l"
    and raw: "readRawFields m ?f = Inr raw"
    and ns: "type_nodes layout m raw ''module'' (mod_path md) (mod_id md) p = Inr ns"
    and n: "n = Node (mod_id md) (HashChildren (collectHashes (sort_key nd_key (l # ns)))) ''module'' [] (mod_id md)
                  (sort_key nd_key (l # ns)) (mod_name md)"
    using assms by (auto simp: buildModule_def Let_def loop_simps)
  define cs where "cs = sort_key nd_key (l # ns)"
  have cs: "set cs = insert l (set ns)" by (simp add: cs_def set_insort_key)
  have leaf: "\<forall>x \<in> set cs. nd_type x = ''leaf''"
    using hashLeaf_Inr[OF l] type_nodes_keys(1)[OF ns] by (simp add: cs)
  have "nd_key ` set cs = module_leaves m p md"
    using hashLeaf_Inr[OF l] type_nodes_keys(2)[OF ns] raw unfolding cs by (auto simp: module_leaves_def)
  then show ?thesis unfolding n cs_def[symmetric] using collect_leaves[OF leaf] by simp
qed

lemma fold_targets:
  assumes "\<forall>n \<in> set ns. \<forall>leaves modules. fst (collectLinkTargets n (leaves, modules)) = leaves \<union> T n"
  shows "fst (fold collectLinkTargets ns (leaves, modules)) = leaves \<union> (\<Union>n \<in> set ns. T n)"
  using assms
proof (induction ns arbitrary: leaves modules)
  case (Cons n ns)
  obtain l' m' where s: "collectLinkTargets n (leaves, modules) = (l', m')" by (cases "collectLinkTargets n (leaves, modules)")
  have "l' = leaves \<union> T n" using Cons.prems s by (metis fst_conv list.set_intros(1))
  then show ?case using Cons.IH[of l' m'] Cons.prems s by auto
qed simp

lemma BuildTree_targets:
  assumes "BuildTreeFS layout resolve m = Inr t" and "resolve m = Inr p"
  shows "fst (collectLinkTargets t ({}, {})) = declared_leaves m p"
proof -
  obtain l raw ms ns mns where l: "hashLeaf layout m ''project.json'' ''meta/project'' ''meta'' [] = Inr l"
    and raw: "readRawFields m ''project.json'' = Inr raw" and ms: "extractModules raw = Inr ms"
    and ns: "type_nodes layout m raw ''project'' [] [] p = Inr ns"
    and mns: "collect (\<lambda>md. buildModule layout m md p) ms = Inr mns"
    and t: "nd_children t = sort_key nd_key (l # ns @ mns)" "nd_type t = ''project''"
    using assms by (auto simp: BuildTreeFS_def Let_def loop_simps)
  define T where "T n = fst (collectLinkTargets n ({}, {}))" for n
  have one: "fst (collectLinkTargets n (leaves, modules)) = leaves \<union> T n"
    if n: "n \<in> set (l # ns @ mns)" for n leaves modules
  proof -
    consider "nd_type n = ''leaf''" | "n \<in> set mns"
      using n hashLeaf_Inr[OF l] type_nodes_keys(1)[OF ns] by auto
    then show ?thesis
    proof cases
      case 1
      then show ?thesis by (cases n) (auto simp: T_def)
    next
      case 2
      then obtain md where "buildModule layout m md p = Inr n" using collect_in_set[OF mns] by blast
      then show ?thesis unfolding T_def by (simp add: buildModule_targets)
    qed
  qed
  have "fst (collectLinkTargets t ({}, {})) = (\<Union>n \<in> set (l # ns @ mns). T n)"
  proof (cases t)
    case (Node k h ty nt mm cs mn)
    then have cs: "cs = sort_key nd_key (l # ns @ mns)" "ty = ''project''" using t by simp_all
    have s: "set cs = set (l # ns @ mns)" unfolding cs by (simp only: set_sort)
    have "\<forall>n \<in> set cs. \<forall>leaves modules. fst (collectLinkTargets n (leaves, modules)) = leaves \<union> T n"
      unfolding s by (intro ballI allI one)
    from fold_targets[OF this, of "{}" "{}"]
    have "fst (fold collectLinkTargets cs ({}, {})) = (\<Union>n \<in> set cs. T n)" by simp
    then show ?thesis unfolding Node s using cs(2) by simp
  qed
  also have "\<dots> = declared_leaves m p"
  proof -
    have "T l = {''meta/project''}" using hashLeaf_Inr[OF l] by (cases l) (simp add: T_def)
    moreover have "T n = {nd_key n}" if "n \<in> set ns" for n
      using type_nodes_keys(1)[OF ns] that by (cases n) (auto simp: T_def)
    then have "(\<Union>n \<in> set ns. T n) = (\<lambda>e. str_field e ''id'') ` leaf_entries raw ''project'' p"
      using type_nodes_keys(2)[OF ns] by auto
    moreover have "(\<Union>n \<in> set mns. T n) = (\<Union>md \<in> set ms. module_leaves m p md)"
    proof -
      have "T n \<subseteq> (\<Union>md \<in> set ms. module_leaves m p md)" if n: "n \<in> set mns" for n
      proof -
        obtain md where "md \<in> set ms" "buildModule layout m md p = Inr n" using collect_in_set[OF mns n] by blast
        then show ?thesis using buildModule_targets[of layout m md p n "{}" "{}"] by (auto simp: T_def)
      qed
      moreover have "module_leaves m p md \<subseteq> (\<Union>n \<in> set mns. T n)" if md: "md \<in> set ms" for md
      proof -
        obtain n where "n \<in> set mns" "buildModule layout m md p = Inr n" using collect_image[OF mns md] by blast
        then show ?thesis using buildModule_targets[of layout m md p n "{}" "{}"] by (auto simp: T_def)
      qed
      ultimately show ?thesis by blast
    qed
    moreover have "declared_leaves m p = {''meta/project''} \<union> (\<lambda>e. str_field e ''id'') ` leaf_entries raw ''project'' p \<union>
        (\<Union>md \<in> set ms. module_leaves m p md)"
      using raw ms by (auto simp: declared_leaves_def module_leaves_def)
    ultimately show ?thesis by auto
  qed
  finally show ?thesis .
qed

subsection \<open>What the check accepts\<close>

definition good_link :: "string set \<Rightarrow> link_ref \<Rightarrow> bool" where
  "good_link leaves ref \<longleftrightarrow> lr_kind ref \<noteq> KindUnterminated \<and> lr_target ref \<in> leaves \<and>
     (lr_kind ref = KindWiki \<longrightarrow> isIdentityHash (lr_target ref) \<and> lr_has_display ref \<and> lr_display ref \<noteq> [])"

lemma resolveLink_None: "resolveLink ref path leaves mods = None \<longleftrightarrow> good_link leaves ref"
  by (cases "lr_kind ref") (auto simp: resolveLink_def good_link_def Let_def)

lemma map_filter_Nil_iff: "List.map_filter f xs = [] \<longleftrightarrow> (\<forall>x \<in> set xs. f x = None)"
  by (induction xs) (auto split: option.split)

definition links_ok :: "(json \<Rightarrow> string) \<Rightarrow> mem_fs \<Rightarrow> string set \<Rightarrow> module_decl \<Rightarrow> module_spec \<Rightarrow> bool" where
  "links_ok layout m leaves md spec \<longleftrightarrow>
     (\<forall>content \<in> set (module_contents spec).
        \<exists>f. ReadFile m (filepath_Join [mod_path md, content]) = Some f \<and>
            (\<forall>ref \<in> set (scanLinks (file_bytes layout f)). good_link leaves ref))"

lemma checkModuleLinks_Nil: "checkModuleLinks layout m md spec leaves mods = [] \<longleftrightarrow> links_ok layout m leaves md spec"
  unfolding checkModuleLinks_def links_ok_def Let_def concat_eq_Nil_conv
  by (auto simp: map_filter_Nil_iff resolveLink_None split: option.split)

text \<open>
  C37: the link check accepts a directory exactly when it loads, its tree can be built, and in every
  content leaf of a component, data flow or test section of a module each link the scanner finds is closed,
  has a display text, and points by identity hash to a leaf the project or one of its modules declares. These
  three kinds of node are all it reads: the content leaves of other types that a profile declares, and those
  of project scope, are not scanned, so a link in one of them is never refused.
\<close>

theorem CheckLinks_exact:
  "CheckLinksFS layout resolve m = [] \<longleftrightarrow>
    (\<exists>prj modules p tree. loadSpec (spec_view resolve m) ''link'' = Inr (prj, modules) \<and> resolve m = Inr p \<and>
       BuildTreeFS layout resolve m = Inr tree \<and>
       (\<forall>md \<in> set (prj_modules prj). \<forall>spec. map_of modules (mod_name md) = Some spec \<longrightarrow>
          links_ok layout m (declared_leaves m p) md spec))"
proof (cases "loadSpec (spec_view resolve m) ''link''")
  case (Inl errs)
  have "errs \<noteq> []" using Inl by (auto simp: loadSpec_def split: sum.splits prod.splits if_splits)
  then show ?thesis by (simp add: CheckLinksFS_def Inl)
next
  case (Inr r)
  obtain prj modules where r: "r = (prj, modules)" by (cases r)
  show ?thesis
  proof (cases "BuildTreeFS layout resolve m")
    case (Inl e)
    then show ?thesis by (simp add: CheckLinksFS_def Inr r)
  next
    case T: (Inr tree)
    obtain p where p: "resolve m = Inr p" using T by (cases "resolve m") (simp_all add: BuildTreeFS_def)
    obtain lk mk where t: "collectLinkTargets tree ({}, {}) = (lk, mk)" by (cases "collectLinkTargets tree ({}, {})")
    have lk: "lk = declared_leaves m p" using BuildTree_targets[OF T p] t by simp
    have "CheckLinksFS layout resolve m = [] \<longleftrightarrow>
        (\<forall>md \<in> set (prj_modules prj). \<forall>spec. map_of modules (mod_name md) = Some spec \<longrightarrow>
          checkModuleLinks layout m md spec lk mk = [])"
      by (auto simp: CheckLinksFS_def Inr r T t split: option.splits)
    then show ?thesis by (simp add: Inr r T p lk checkModuleLinks_Nil)
  qed
qed

subsection \<open>A sample directory\<close>

definition sample_component_type :: node_type where
  "sample_component_type =
     \<lparr>nt_name = ''component'', nt_plural_key = ''components'', nt_scope = ''module'', nt_requires_content = True,
      nt_completeness_trigger = False, nt_name_declarable = True,
      nt_fields = [\<lparr>fld_name = ''uses'', fld_kind = FieldKindReference, fld_required = False, fld_hashed = None,
         fld_enum = [], fld_minimum = None, fld_maximum = None, fld_targets = [''component''],
         fld_cardinality = ''many'', fld_cyclic = False, fld_description = []\<rparr>],
      nt_comment = [], nt_content_prefix = None, nt_leaf_sections = Some [''Role'']\<rparr>"

definition sample_profile :: profile where
  "sample_profile =
     \<lparr>prf_version = None, prf_node_types = [sample_component_type], prf_coverage_chains = [], prf_plan_relevant = [],
      prf_impact_levels = [], prf_absorbable = [], prf_edges = deriveEdges [sample_component_type],
      prf_hashed_fields = []\<rparr>"

definition sample_entry :: "string \<Rightarrow> string \<Rightarrow> json" where
  "sample_entry i n = JObject [(''id'', JString i), (''name'', JString n), (''content'', JString (n @ ''.md''))]"

definition sample_dir :: mem_fs where
  "sample_dir =
     [(''project.json'', Doc (JObject [(''name'', JString ''demo''),
         (''modules'', JArray [JObject [(''id'', JString ''m1''), (''name'', JString ''core''), (''path'', JString ''core'')]])])),
      (''core/module.json'', Doc (JObject [(''name'', JString ''core''),
         (''components'', JArray [sample_entry ''aaaaaaaaaaaa'' ''a'', sample_entry ''bbbbbbbbbbbb'' ''b''])])),
      (''core/a.md'', Text ''See [[bbbbbbbbbbbb|b]].''), (''core/b.md'', Text ''# b'')]"

definition sample_resolve :: "mem_fs \<Rightarrow> (string, profile) result" where
  "sample_resolve m = Inr sample_profile"

lemma sample_scanned:
  "list_all (\<lambda>r. lr_kind r = KindWiki \<and> lr_target r = ''bbbbbbbbbbbb'' \<and> lr_has_display r \<and> lr_display r = ''b'')
     (scanLinks ''See [[bbbbbbbbbbbb|b]].'')"
  "scanLinks ''# b'' = []" "isIdentityHash ''bbbbbbbbbbbb''"
  by code_simp+

definition sample_decl :: module_decl where
  "sample_decl = \<lparr>mod_id = ''m1'', mod_name = ''core'', mod_path = ''core'', mod_description = [], mod_requires_module = []\<rparr>"

definition sample_raw :: raw_entry where
  "sample_raw = [(''name'', JString ''core''),
     (''components'', JArray [sample_entry ''aaaaaaaaaaaa'' ''a'', sample_entry ''bbbbbbbbbbbb'' ''b''])]"

definition sample_project_raw :: raw_entry where
  "sample_project_raw = [(''name'', JString ''demo''),
     (''modules'', JArray [JObject [(''id'', JString ''m1''), (''name'', JString ''core''), (''path'', JString ''core'')]])]"

definition sample_map :: "string \<Rightarrow> string \<Rightarrow> raw_entry" where
  "sample_map i n = [(''content'', JString (n @ ''.md'')), (''id'', JString i), (''name'', JString n)]"

lemma sample_reads:
  "readRawFields sample_dir ''project.json'' = Inr sample_project_raw"
  "readRawFields sample_dir ''core/module.json'' = Inr sample_raw"
  "extractModules sample_project_raw = Inr [sample_decl]"
  "filepath_Join [''core'', ''module.json''] = ''core/module.json''"
  "filepath_Join [''core'', ''a.md''] = ''core/a.md''" "filepath_Join [''core'', ''b.md''] = ''core/b.md''"
  "raw_field sample_raw ''components'' =
     Some (JArray [sample_entry ''aaaaaaaaaaaa'' ''a'', sample_entry ''bbbbbbbbbbbb'' ''b''])"
  "decode_entries (JArray [sample_entry ''aaaaaaaaaaaa'' ''a'', sample_entry ''bbbbbbbbbbbb'' ''b'']) =
     Inr [sample_map ''aaaaaaaaaaaa'' ''a'', sample_map ''bbbbbbbbbbbb'' ''b'']"
  by code_simp+

lemma sample_types:
  "filter (\<lambda>nt. nt_scope nt = ''module'') (prf_node_types sample_profile) = [sample_component_type]"
  "filter (\<lambda>nt. nt_scope nt = ''project'') (prf_node_types sample_profile) = []"
  "sample_component_type \<in> set (prf_node_types sample_profile)"
  "nt_scope sample_component_type = ''module''" "nt_plural_key sample_component_type = ''components''"
  "nt_requires_content sample_component_type" "nt_name sample_component_type = ''component''"
  by (simp_all add: sample_profile_def sample_component_type_def)

lemma sample_map_fields [simp]:
  "str_field (sample_map i n) ''id'' = i" "str_field (sample_map i n) ''content'' = n @ ''.md''"
  by (simp_all add: sample_map_def str_field_def json_string_def)

lemma sample_tree: "\<exists>t. BuildTreeFS layout sample_resolve sample_dir = Inr t"
proof -
  have hl: "\<exists>n. hashLeaf layout sample_dir f k nt mh = Inr n" if "f \<in> fst ` set sample_dir" for f k nt mh
    using that by (auto simp: hashLeaf_def HashFileFS_def ValidPath_def ReadFile_def sample_dir_def)
  have fs: "''project.json'' \<in> fst ` set sample_dir" "''core/module.json'' \<in> fst ` set sample_dir"
    "''core/a.md'' \<in> fst ` set sample_dir" "''core/b.md'' \<in> fst ` set sample_dir"
    by (simp_all add: sample_dir_def)
  note hls = hl[OF fs(1), of "''meta/project''" "''meta''" "[]"] hl[OF fs(2), of "''meta/m1''" "''meta''" "''m1''"]
    hl[OF fs(3), of "''aaaaaaaaaaaa''" "''component''" "''m1''"] hl[OF fs(4), of "''bbbbbbbbbbbb''" "''component''" "''m1''"]
  obtain n1 n2 n3 n4 where leaves:
      "hashLeaf layout sample_dir ''project.json'' ''meta/project'' ''meta'' [] = Inr n1"
      "hashLeaf layout sample_dir ''core/module.json'' ''meta/m1'' ''meta'' ''m1'' = Inr n2"
      "hashLeaf layout sample_dir ''core/a.md'' ''aaaaaaaaaaaa'' ''component'' ''m1'' = Inr n3"
      "hashLeaf layout sample_dir ''core/b.md'' ''bbbbbbbbbbbb'' ''component'' ''m1'' = Inr n4"
    using hls by blast
  have "type_nodes layout sample_dir sample_raw ''module'' ''core'' ''m1'' sample_profile = Inr [n3, n4]"
    unfolding type_nodes_def sample_types
    by (simp add: buildTypeNodes_def sample_types sample_reads entry_node_def leaves)
  then have "\<exists>n. buildModule layout sample_dir sample_decl sample_profile = Inr n"
    by (simp add: buildModule_def sample_reads leaves Let_def sample_decl_def)
  moreover have "type_nodes layout sample_dir x ''project'' [] [] sample_profile = Inr []" for x
    unfolding type_nodes_def sample_types by simp
  ultimately show ?thesis
    by (auto simp: BuildTreeFS_def sample_resolve_def leaves sample_reads Let_def)
qed

definition sample_view :: "project \<times> modules_map" where
  "sample_view =
     (zero_project\<lparr>prj_name := ''demo'', prj_modules := [sample_decl]\<rparr>,
      [(''core'', \<lparr>ms_name = ''core'', ms_description = [], ms_requirements = [],
         ms_components = [\<lparr>cmp_id = ''aaaaaaaaaaaa'', cmp_name = ''a'', cmp_description = [], cmp_content = ''a.md'', cmp_implements = [], cmp_uses = []\<rparr>,
                          \<lparr>cmp_id = ''bbbbbbbbbbbb'', cmp_name = ''b'', cmp_description = [], cmp_content = ''b.md'', cmp_implements = [], cmp_uses = []\<rparr>],
         ms_data_flows = [], ms_test_sections = [], ms_apis = []\<rparr>)])"

lemma sample_view_loads: "loadSpec (spec_view sample_resolve sample_dir) chk = Inr sample_view"
  by (rule loadSpec_chk[of _ "''link''"]) code_simp

theorem CheckLinks_exact_witness: "CheckLinksFS (\<lambda>_. []) sample_resolve sample_dir = []"
proof -
  obtain t where t: "BuildTreeFS (\<lambda>_. []) sample_resolve sample_dir = Inr t" using sample_tree by blast
  have "sample_map ''bbbbbbbbbbbb'' ''b'' \<in> leaf_entries sample_raw ''module'' sample_profile"
    unfolding leaf_entries_def
    by (intro CollectI exI[of _ sample_component_type]) (simp add: sample_types sample_reads)
  then have "''bbbbbbbbbbbb'' \<in> (\<lambda>e. str_field e ''id'') ` leaf_entries sample_raw ''module'' sample_profile"
    by (rule rev_image_eqI) simp
  then have "''bbbbbbbbbbbb'' \<in> declared_leaves sample_dir sample_profile"
    unfolding declared_leaves_def
    by (simp add: sample_reads) (auto simp: sample_decl_def sample_reads)
  then have good: "good_link (declared_leaves sample_dir sample_profile) r"
    if "r \<in> set (scanLinks ''See [[bbbbbbbbbbbb|b]].'')" for r
    using sample_scanned(1,3) that by (auto simp: list_all_iff good_link_def)
  have "links_ok (\<lambda>_. []) sample_dir (declared_leaves sample_dir sample_profile) sample_decl (snd (hd (snd sample_view)))"
    using good by (auto simp: links_ok_def module_contents_def sample_view_def sample_decl_def sample_reads ReadFile_def
        sample_dir_def file_bytes_def sample_scanned(2))
  then show ?thesis
    unfolding CheckLinks_exact using t sample_view_loads[of "''link''"]
    by (auto simp: sample_view_def sample_resolve_def sample_decl_def)
qed

end
