(* ===== verification/Validator_Dag.thy ===== *)
theory Validator_Dag
  imports Validator_Spec
begin

text \<open>
  The graph checks (\<open>validator/dag_checker.go\<close>): the built-in edges between modules, requirements
  and components on the typed view of the files, and every other acyclic edge the profile declares
  on the raw view. The search returns an option (\<open>Validator_Cycles\<close>), and so do the checks.
\<close>

subsection \<open>Which edges are checked\<close>

definition builtinDAGEdgeCoverage :: "(string \<times> (string \<times> string) list) list" where
  "builtinDAGEdgeCoverage =
     [(''requires_module'', [(''module'', ''project'')]),
      (''depends_on'', [(''requirement'', ''module'')]),
      (''uses'', [(''component'', ''module'')])]"

definition edgeActive :: "profile \<Rightarrow> string \<Rightarrow> string \<Rightarrow> bool" where
  "edgeActive p kind fromType =
     (if kind = ''requires_module'' \<and> fromType = ''module'' then True
      else case find (\<lambda>e. edg_kind e = kind \<and> fromType \<in> set (edg_from e)) (prf_edges p) of
             Some e \<Rightarrow> \<not> CyclicForType e fromType
           | None \<Rightarrow> False)"

definition uncovered_sources :: "string \<Rightarrow> edge \<Rightarrow> string list" where
  "uncovered_sources scope e =
     filter (\<lambda>f. \<not> CyclicForType e f \<and>
         Option.bind (map_of builtinDAGEdgeCoverage (edg_kind e)) (\<lambda>cov. map_of cov f) \<noteq> Some scope)
       (edg_from e)"

definition extraCycleEdgesForScope :: "profile \<Rightarrow> string \<Rightarrow> edge list" where
  "extraCycleEdgesForScope p scope =
     List.map_filter (\<lambda>e.
       let froms = uncovered_sources scope e
       in if froms = [] then None else Some (e\<lparr>edg_from := froms\<rparr>)) (prf_edges p)"

subsection \<open>Reports\<close>

text \<open>Loops that concatenate the lists their body returns, when all of them return.\<close>

fun gather :: "('a \<Rightarrow> 'b list option) \<Rightarrow> 'a list \<Rightarrow> 'b list option" where
  "gather f [] = Some []"
| "gather f (x # xs) =
     Option.bind (f x) (\<lambda>ys. Option.bind (gather f xs) (\<lambda>zs. Some (ys @ zs)))"

definition label_of :: "(string \<times> string) list \<Rightarrow> string \<Rightarrow> string" where
  "label_of labels i = (case map_of labels i of Some n \<Rightarrow> n | None \<Rightarrow> [])"

definition reportCycles :: "string list list \<Rightarrow> (string \<times> string) list \<Rightarrow> string \<Rightarrow> string
    \<Rightarrow> validation_error list" where
  "reportCycles cycles labels edgeKind path =
     map (\<lambda>cycle. verror ''dag'' path (CycleFound edgeKind (map (label_of labels) cycle))) cycles"

definition cycle_errors :: "adjacency \<Rightarrow> (string \<times> string) list \<Rightarrow> string \<Rightarrow> string
    \<Rightarrow> validation_error list option" where
  "cycle_errors adj labels edgeKind path =
     map_option (\<lambda>cycles. reportCycles cycles labels edgeKind path) (detectStringCycles adj)"

text \<open>The maps \<open>adj[n.ID] = n.Targets\<close> and \<open>idToName[n.ID] = n.Name\<close>; a repeated id keeps its last node.\<close>

definition keyed :: "('a \<Rightarrow> string) \<Rightarrow> ('a \<Rightarrow> 'b) \<Rightarrow> 'a list \<Rightarrow> (string \<times> 'b) list" where
  "keyed key val xs = fold (\<lambda>x m. AList.update (key x) (val x) m) xs []"

definition checkModuleDAG :: "project \<Rightarrow> validation_error list option" where
  "checkModuleDAG prj =
     cycle_errors (keyed mod_id mod_requires_module (prj_modules prj))
       (keyed mod_id mod_name (prj_modules prj)) ''module dependency'' ''project.json:/modules''"

definition checkRequirementDAG :: "string \<Rightarrow> module_spec \<Rightarrow> validation_error list option" where
  "checkRequirementDAG modName m =
     cycle_errors (keyed mrq_id mrq_depends_on (ms_requirements m))
       (keyed mrq_id mrq_title (ms_requirements m)) ''requirement dependency''
       (modName @ ''/module.json:/requirements'')"

definition checkComponentDAG :: "string \<Rightarrow> module_spec \<Rightarrow> validation_error list option" where
  "checkComponentDAG modName m =
     cycle_errors (keyed cmp_id cmp_uses (ms_components m))
       (keyed cmp_id cmp_name (ms_components m)) ''component dependency''
       (modName @ ''/module.json:/components'')"

subsection \<open>Edges only the profile declares\<close>

definition entry_label :: "raw_entry \<Rightarrow> string" where
  "entry_label e =
     (if raw_str e ''name'' \<noteq> [] then raw_str e ''name''
      else if raw_str e ''title'' \<noteq> [] then raw_str e ''title''
      else raw_str e ''id'')"

definition genericCycleAdjacency :: "raw_entry list \<Rightarrow> string \<Rightarrow> adjacency \<times> (string \<times> string) list" where
  "genericCycleAdjacency entries edgeKind =
     (let ids = map (\<lambda>e. raw_str e ''id'') entries
      in (keyed (\<lambda>e. raw_str e ''id'') (\<lambda>e. filter (\<lambda>t. t \<in> set ids) (strSlice e edgeKind)) entries,
          keyed (\<lambda>e. raw_str e ''id'') entry_label entries))"

definition generic_errors :: "(file_error, raw_entry list) result \<Rightarrow> string \<Rightarrow> string
    \<Rightarrow> validation_error list option" where
  "generic_errors entries edgeKind path =
     (case entries of
        Inl e \<Rightarrow> Some []
      | Inr es \<Rightarrow>
          if es = [] then Some []
          else case genericCycleAdjacency es edgeKind of
                 (adj, labels) \<Rightarrow> cycle_errors adj labels edgeKind path)"

definition checkExtraModuleDAGEdges :: "spec_files \<Rightarrow> string list \<Rightarrow> project \<Rightarrow> profile
    \<Rightarrow> validation_error list option" where
  "checkExtraModuleDAGEdges fsys modNames prj p =
     gather (\<lambda>modName.
       let doc = sf_module_doc fsys (modulePathByName prj modName) in
       gather (\<lambda>e.
         gather (\<lambda>fromName.
           case findModuleNodeType p fromName of
             None \<Rightarrow> Some []
           | Some nt \<Rightarrow>
               generic_errors (bind_result doc (\<lambda>d. rawArrayEntries d (nt_plural_key nt))) (edg_kind e)
                 (modName @ ''/module.json:/'' @ nt_plural_key nt))
         (edg_from e))
       (extraCycleEdgesForScope p ''module''))
     modNames"

definition checkExtraProjectDAGEdges :: "spec_files \<Rightarrow> profile \<Rightarrow> validation_error list option" where
  "checkExtraProjectDAGEdges fsys p =
     (let doc = sf_project_doc fsys in
      gather (\<lambda>e.
        gather (\<lambda>fromName.
          case projectEdgeSourceKey p fromName of
            None \<Rightarrow> Some []
          | Some key \<Rightarrow>
              generic_errors (bind_result doc (\<lambda>d. rawArrayEntries d key)) (edg_kind e)
                (''project.json:/'' @ key))
        (edg_from e))
      (extraCycleEdgesForScope p ''project''))"

subsection \<open>The check\<close>

definition module_dag_errors :: "modules_map \<Rightarrow> profile \<Rightarrow> string \<Rightarrow> validation_error list option" where
  "module_dag_errors modules p modName =
     (case map_of modules modName of
        None \<Rightarrow> Some []
      | Some m \<Rightarrow>
          gather (\<lambda>(active, chk). if active then chk modName m else Some [])
            [(edgeActive p ''depends_on'' ''requirement'', checkRequirementDAG),
             (edgeActive p ''uses'' ''component'', checkComponentDAG)])"

definition CheckDAGFS :: "spec_files \<Rightarrow> validation_error list option" where
  "CheckDAGFS fsys =
     (case load_checked fsys ''dag'' of
        Inl errs \<Rightarrow> Some errs
      | Inr (prj, modules, p) \<Rightarrow>
          let modNames = module_names modules in
          gather (\<lambda>errs. errs)
            [if edgeActive p ''requires_module'' ''module'' then checkModuleDAG prj else Some [],
             gather (module_dag_errors modules p) modNames,
             checkExtraModuleDAGEdges fsys modNames prj p,
             checkExtraProjectDAGEdges fsys p])"

subsection \<open>What the check decides\<close>

lemma gather_Nil_iff:
  "gather f xs = Some [] \<longleftrightarrow> (\<forall>x \<in> set xs. f x = Some [])"
  by (induction xs) (auto simp: bind_eq_Some_conv)

lemma gather_total: "(\<And>x. x \<in> set xs \<Longrightarrow> \<exists>ys. f x = Some ys) \<Longrightarrow> \<exists>zs. gather f xs = Some zs"
proof (induction xs)
  case (Cons x xs)
  obtain ys zs where "f x = Some ys" "gather f xs = Some zs"
    using Cons.IH Cons.prems by (metis list.set_intros)
  then show ?case by simp
qed simp

lemma cycle_errors_total [simp]: "\<exists>errs. cycle_errors adj labels kind path = Some errs"
  by (rule detectStringCycles_spec[of adj]) (simp add: cycle_errors_def)

lemma cycle_errors_Nil: "cycle_errors adj labels kind path = Some [] \<longleftrightarrow> acyclic (adj_edges adj)"
  by (rule detectStringCycles_spec[of adj]) (auto simp: cycle_errors_def reportCycles_def)

lemma generic_errors_total [simp]: "\<exists>errs. generic_errors entries kind path = Some errs"
  by (auto simp: generic_errors_def split: sum.splits prod.splits)

lemma map_of_keyed_aux:
  "map_of (fold (\<lambda>x m. AList.update (key x) (val x) m) xs m) =
     fold (\<lambda>x m. m(key x \<mapsto> val x)) xs (map_of m)"
  by (induction xs arbitrary: m) simp_all

lemma map_of_keyed: "map_of (keyed key val xs) = fold (\<lambda>x m. m(key x \<mapsto> val x)) xs Map.empty"
  by (simp add: keyed_def map_of_keyed_aux)

lemma map_of_keyed_mem:
  "map_of (keyed key val xs) k = Some v \<Longrightarrow> \<exists>x \<in> set xs. key x = k \<and> val x = v"
proof -
  have "fold (\<lambda>x m. m(key x \<mapsto> val x)) xs m k = Some v \<Longrightarrow>
      m k = Some v \<or> (\<exists>x \<in> set xs. key x = k \<and> val x = v)" for m
    by (induction xs arbitrary: m) (fastforce split: if_splits)+
  then show "map_of (keyed key val xs) k = Some v \<Longrightarrow> \<exists>x \<in> set xs. key x = k \<and> val x = v"
    by (fastforce simp: map_of_keyed)
qed

lemma map_of_keyed_distinct:
  "distinct (map key xs) \<Longrightarrow> x \<in> set xs \<Longrightarrow> map_of (keyed key val xs) (key x) = Some (val x)"
  by (simp add: map_of_keyed fold_map_upd_distinct)

text \<open>With distinct ids the graph that is searched is the declared relation.\<close>

lemma adj_edges_keyed:
  assumes "distinct (map key xs)"
  shows "adj_edges (keyed key val xs) = {(key x, t) |x t. x \<in> set xs \<and> t \<in> set (val x)}"
proof -
  have "t \<in> set (neighbors (keyed key val xs) k) \<longleftrightarrow> (\<exists>x \<in> set xs. key x = k \<and> t \<in> set (val x))" for k t
  proof
    assume "t \<in> set (neighbors (keyed key val xs) k)"
    then obtain ts where "map_of (keyed key val xs) k = Some ts" "t \<in> set ts"
      by (cases "map_of (keyed key val xs) k") (auto simp: neighbors_def)
    then show "\<exists>x \<in> set xs. key x = k \<and> t \<in> set (val x)" using map_of_keyed_mem by fastforce
  next
    assume "\<exists>x \<in> set xs. key x = k \<and> t \<in> set (val x)"
    then obtain x where x: "x \<in> set xs" "key x = k" "t \<in> set (val x)" by blast
    show "t \<in> set (neighbors (keyed key val xs) k)"
      using map_of_keyed_distinct[OF assms x(1), of val] x(2,3) by (simp add: neighbors_def)
  qed
  then show ?thesis by (auto simp: adj_edges_def)
qed

lemma module_dag_errors_total: "\<exists>errs. module_dag_errors modules p n = Some errs"
proof (cases "map_of modules n")
  case (Some m)
  have "\<exists>errs. (case x of (active, chk) \<Rightarrow> if active then chk n m else Some []) = Some errs"
    if "x \<in> set [(edgeActive p ''depends_on'' ''requirement'', checkRequirementDAG),
             (edgeActive p ''uses'' ''component'', checkComponentDAG)]" for x
    using that by (auto simp: checkRequirementDAG_def checkComponentDAG_def)
  then show ?thesis unfolding module_dag_errors_def Some option.case by (rule gather_total)
qed (simp add: module_dag_errors_def)

lemma CheckDAGFS_total: "\<exists>errs. CheckDAGFS fsys = Some errs"
proof (cases "load_checked fsys ''dag''")
  case (Inr r)
  obtain prj modules p where r: "r = (prj, modules, p)" by (cases r)
  have "\<exists>errs. gather (module_dag_errors modules p) (module_names modules) = Some errs"
    by (intro gather_total module_dag_errors_total)
  moreover have "\<exists>errs. checkExtraModuleDAGEdges fsys (module_names modules) prj p = Some errs"
    unfolding checkExtraModuleDAGEdges_def Let_def by (intro gather_total) (auto split: option.split)
  moreover have "\<exists>errs. checkExtraProjectDAGEdges fsys p = Some errs"
    unfolding checkExtraProjectDAGEdges_def Let_def by (intro gather_total) (auto split: option.split)
  moreover have "\<exists>errs. checkModuleDAG prj = Some errs" by (simp add: checkModuleDAG_def)
  ultimately show ?thesis
    unfolding CheckDAGFS_def Inr r by (auto simp: Let_def simp del: gather.simps intro!: gather_total)
qed (simp add: CheckDAGFS_def)

text \<open>The graphs the profile puts under the check beyond the built-in ones, as raw entries and edge kind.\<close>

definition extra_graph :: "(file_error, raw_entry list) result \<Rightarrow> string \<Rightarrow> adjacency" where
  "extra_graph entries kind = (case entries of Inl e \<Rightarrow> [] | Inr es \<Rightarrow> fst (genericCycleAdjacency es kind))"

lemma acyclic_no_adj [simp]: "acyclic (adj_edges [])"
  by (simp add: adj_edges_def neighbors_def acyclic_def)

lemma generic_errors_Nil:
  "generic_errors entries kind path = Some [] \<longleftrightarrow> acyclic (adj_edges (extra_graph entries kind))"
  by (auto simp: generic_errors_def extra_graph_def cycle_errors_Nil genericCycleAdjacency_def
      keyed_def Let_def split: sum.splits)

definition dag_ok :: "spec_files \<Rightarrow> project \<Rightarrow> modules_map \<Rightarrow> profile \<Rightarrow> bool" where
  "dag_ok fsys prj modules p \<longleftrightarrow>
     acyclic (adj_edges (keyed mod_id mod_requires_module (prj_modules prj))) \<and>
     (\<forall>(n, m) \<in> set modules.
        (edgeActive p ''depends_on'' ''requirement'' \<longrightarrow>
           acyclic (adj_edges (keyed mrq_id mrq_depends_on (ms_requirements m)))) \<and>
        (edgeActive p ''uses'' ''component'' \<longrightarrow>
           acyclic (adj_edges (keyed cmp_id cmp_uses (ms_components m))))) \<and>
     (\<forall>e \<in> set (extraCycleEdgesForScope p ''module''). \<forall>f \<in> set (edg_from e). \<forall>n \<in> fst ` set modules.
        \<forall>nt. findModuleNodeType p f = Some nt \<longrightarrow>
          acyclic (adj_edges (extra_graph
            (rawModuleEntries fsys (modulePathByName prj n) (nt_plural_key nt)) (edg_kind e)))) \<and>
     (\<forall>e \<in> set (extraCycleEdgesForScope p ''project''). \<forall>f \<in> set (edg_from e).
        \<forall>key. projectEdgeSourceKey p f = Some key \<longrightarrow>
          acyclic (adj_edges (extra_graph (rawProjectEntries fsys key) (edg_kind e))))"

lemma CheckDAGFS_Nil:
  assumes "load_checked fsys ''dag'' = Inr (prj, modules, p)"
  shows "CheckDAGFS fsys = Some [] \<longleftrightarrow> dag_ok fsys prj modules p"
proof -
  have dist: "distinct (map fst modules)"
    using assms by (auto simp: load_checked_Inr loadSpec_Inr intro: load_modules_distinct)
  have names: "set (module_names modules) = fst ` set modules" by (simp add: module_names_def)
  have req: "edgeActive p ''requires_module'' ''module''" by (simp add: edgeActive_def)
  have mods: "gather (module_dag_errors modules p) (module_names modules) = Some [] \<longleftrightarrow>
    (\<forall>(n, m) \<in> set modules.
        (edgeActive p ''depends_on'' ''requirement'' \<longrightarrow>
           acyclic (adj_edges (keyed mrq_id mrq_depends_on (ms_requirements m)))) \<and>
        (edgeActive p ''uses'' ''component'' \<longrightarrow>
           acyclic (adj_edges (keyed cmp_id cmp_uses (ms_components m)))))"
    unfolding gather_Nil_iff names using dist
    by (force simp: module_dag_errors_def gather_Nil_iff checkRequirementDAG_def checkComponentDAG_def
        cycle_errors_Nil simp del: gather.simps)
  have extra: "checkExtraModuleDAGEdges fsys (module_names modules) prj p = Some [] \<longleftrightarrow>
    (\<forall>e \<in> set (extraCycleEdgesForScope p ''module''). \<forall>f \<in> set (edg_from e). \<forall>n \<in> fst ` set modules.
        \<forall>nt. findModuleNodeType p f = Some nt \<longrightarrow>
          acyclic (adj_edges (extra_graph
            (rawModuleEntries fsys (modulePathByName prj n) (nt_plural_key nt)) (edg_kind e))))"
    unfolding checkExtraModuleDAGEdges_def Let_def gather_Nil_iff names rawModuleEntries_def
    by (auto simp: generic_errors_Nil split: option.splits)
  have prjext: "checkExtraProjectDAGEdges fsys p = Some [] \<longleftrightarrow>
    (\<forall>e \<in> set (extraCycleEdgesForScope p ''project''). \<forall>f \<in> set (edg_from e).
        \<forall>key. projectEdgeSourceKey p f = Some key \<longrightarrow>
          acyclic (adj_edges (extra_graph (rawProjectEntries fsys key) (edg_kind e))))"
    unfolding checkExtraProjectDAGEdges_def Let_def gather_Nil_iff rawProjectEntries_def
    by (auto simp: generic_errors_Nil split: option.splits)
  have "CheckDAGFS fsys = Some [] \<longleftrightarrow>
    checkModuleDAG prj = Some [] \<and> gather (module_dag_errors modules p) (module_names modules) = Some [] \<and>
    checkExtraModuleDAGEdges fsys (module_names modules) prj p = Some [] \<and>
    checkExtraProjectDAGEdges fsys p = Some []"
    unfolding CheckDAGFS_def assms by (simp add: Let_def gather_Nil_iff req del: gather.simps)
  then show ?thesis unfolding mods extra prjext dag_ok_def checkModuleDAG_def cycle_errors_Nil .
qed

end
