(* ===== verification/Plan_Validated.thy ===== *)
theory Plan_Validated
  imports Validator_Dag Validator_Ids Plan_Command
begin

text \<open>
  What the planner may rely on when the specification has passed the validator
  (\<open>validator/dag_checker.go\<close> and \<open>validator/id_validator.go\<close> against \<open>plan/action_classifier.go\<close>,
  \<open>plan/sorter.go\<close> and \<open>plan/resolver.go\<close>): the dependencies the classifier computes are acyclic, so
  the sorter never refuses a plan for a cycle, and the priorities are in the tracker's range.
\<close>

subsection \<open>Graphs without cycles\<close>

definition module_ids :: "spec_graph \<Rightarrow> (string \<times> module_spec) set" where
  "module_ids g = {(i, me_spec e) |i e. moduleByID g i = Some e}"

definition graph_components :: "spec_graph \<Rightarrow> string set" where
  "graph_components g = (\<Union>(i, m) \<in> module_ids g. cmp_id ` set (ms_components m))"

definition graph_flows :: "spec_graph \<Rightarrow> string set" where
  "graph_flows g = (\<Union>(i, m) \<in> module_ids g. dfl_id ` set (ms_data_flows m))"

definition graph_tests :: "spec_graph \<Rightarrow> string set" where
  "graph_tests g = (\<Union>(i, m) \<in> module_ids g. tst_id ` set (ms_test_sections m))"

definition uses_edges :: "module_spec \<Rightarrow> (string \<times> string) set" where
  "uses_edges m = {(cmp_id c, u) |c u. c \<in> set (ms_components m) \<and> u \<in> set (cmp_uses c)}"

text \<open>The shape of a validated specification, as the spec graph holds it.\<close>

definition module_ok :: "module_spec \<Rightarrow> bool" where
  "module_ok m \<longleftrightarrow> acyclic (uses_edges m) \<and>
     (\<forall>c \<in> set (ms_components m). set (cmp_uses c) \<subseteq> cmp_id ` set (ms_components m)) \<and>
     (\<forall>t \<in> set (ms_test_sections m). set (tst_describes t) \<subseteq> cmp_id ` set (ms_components m))"

definition graph_ok :: "spec_graph \<Rightarrow> bool" where
  "graph_ok g \<longleftrightarrow>
     acyclic (requires_rel g) \<and>
     (\<forall>n e. moduleByName g n = Some e \<longrightarrow> moduleByID g (mod_id (me_module e)) = Some e) \<and>
     (\<forall>(i, m) \<in> module_ids g. module_ok m) \<and>
     (\<forall>(i, m) \<in> module_ids g. \<forall>(j, m') \<in> module_ids g. i \<noteq> j \<longrightarrow>
        cmp_id ` set (ms_components m) \<inter> cmp_id ` set (ms_components m') = {}) \<and>
     graph_components g \<inter> graph_flows g = {} \<and> graph_components g \<inter> graph_tests g = {} \<and>
     graph_flows g \<inter> graph_tests g = {}"

lemma graph_okD:
  assumes "graph_ok g" and "(i, m) \<in> module_ids g"
  shows "acyclic (uses_edges m)"
    and "c \<in> set (ms_components m) \<Longrightarrow> u \<in> set (cmp_uses c) \<Longrightarrow> u \<in> cmp_id ` set (ms_components m)"
    and "t \<in> set (ms_test_sections m) \<Longrightarrow> u \<in> set (tst_describes t) \<Longrightarrow> u \<in> cmp_id ` set (ms_components m)"
proof -
  have "module_ok m" using assms unfolding graph_ok_def by (elim conjE) (drule (1) bspec, simp)
  then show "acyclic (uses_edges m)"
    and "c \<in> set (ms_components m) \<Longrightarrow> u \<in> set (cmp_uses c) \<Longrightarrow> u \<in> cmp_id ` set (ms_components m)"
    and "t \<in> set (ms_test_sections m) \<Longrightarrow> u \<in> set (tst_describes t) \<Longrightarrow> u \<in> cmp_id ` set (ms_components m)"
    unfolding module_ok_def by blast+
qed

text \<open>The component dependencies: within a module along \<open>uses\<close>, across modules along \<open>requires_module\<close>.\<close>

definition component_dep :: "spec_graph \<Rightarrow> (string \<times> string) set" where
  "component_dep g =
     {(n, d). \<exists>i m. (i, m) \<in> module_ids g \<and> (n, d) \<in> uses_edges m} \<union>
     {(n, d). \<exists>i m j m'. (i, m) \<in> module_ids g \<and> (j, m') \<in> module_ids g \<and> (i, j) \<in> (requires_rel g)\<^sup>+ \<and>
        n \<in> cmp_id ` set (ms_components m) \<and> d \<in> cmp_id ` set (ms_components m')}"

definition owner :: "spec_graph \<Rightarrow> string \<Rightarrow> string \<Rightarrow> bool" where
  "owner g n i \<longleftrightarrow> (\<exists>m. (i, m) \<in> module_ids g \<and> n \<in> cmp_id ` set (ms_components m))"

lemma module_ids_fun: "(i, m) \<in> module_ids g \<Longrightarrow> (i, m') \<in> module_ids g \<Longrightarrow> m = m'"
  by (auto simp: module_ids_def)

lemma owner_unique: "graph_ok g \<Longrightarrow> owner g n i \<Longrightarrow> owner g n j \<Longrightarrow> i = j"
proof (rule ccontr)
  assume ok: "graph_ok g" and own: "owner g n i" "owner g n j" and ne: "i \<noteq> j"
  from own obtain m m' where m: "(i, m) \<in> module_ids g" "n \<in> cmp_id ` set (ms_components m)"
    and m': "(j, m') \<in> module_ids g" "n \<in> cmp_id ` set (ms_components m')"
    unfolding owner_def by (elim exE conjE)
  have all: "\<forall>(i, m) \<in> module_ids g. \<forall>(j, m') \<in> module_ids g. i \<noteq> j \<longrightarrow>
        cmp_id ` set (ms_components m) \<inter> cmp_id ` set (ms_components m') = {}"
    using ok unfolding graph_ok_def by (elim conjE)
  have "cmp_id ` set (ms_components m) \<inter> cmp_id ` set (ms_components m') = {}"
    using bspec[OF bspec[OF all m(1), unfolded case_prod_conv] m'(1), unfolded case_prod_conv] ne by (rule mp)
  then show False using m(2) m'(2) by (simp only: disjoint_iff)
qed

lemma graph_parts:
  assumes "(i, m) \<in> module_ids g"
  shows "c \<in> cmp_id ` set (ms_components m) \<Longrightarrow> c \<in> graph_components g"
    and "f \<in> set (ms_data_flows m) \<Longrightarrow> dfl_id f \<in> graph_flows g"
    and "t \<in> set (ms_test_sections m) \<Longrightarrow> tst_id t \<in> graph_tests g"
  unfolding graph_components_def graph_flows_def graph_tests_def
  by (rule UN_I[OF assms], simp)+

lemma component_dep_step:
  assumes ok: "graph_ok g" and step: "(n, d) \<in> component_dep g"
  shows "\<exists>i j. owner g n i \<and> owner g d j \<and>
    ((i, j) \<in> (requires_rel g)\<^sup>+ \<or> i = j \<and> (\<exists>m. (i, m) \<in> module_ids g \<and> (n, d) \<in> uses_edges m))"
proof -
  from step consider (uses) i m where "(i, m) \<in> module_ids g" "(n, d) \<in> uses_edges m"
    | (requires) i m j m' where "(i, m) \<in> module_ids g" "(j, m') \<in> module_ids g" "(i, j) \<in> (requires_rel g)\<^sup>+"
        "n \<in> cmp_id ` set (ms_components m)" "d \<in> cmp_id ` set (ms_components m')"
    unfolding component_dep_def by blast
  then show ?thesis
  proof cases
    case uses
    then obtain c where c: "c \<in> set (ms_components m)" "n = cmp_id c" "d \<in> set (cmp_uses c)"
      unfolding uses_edges_def by blast
    then have "d \<in> cmp_id ` set (ms_components m)" using graph_okD(2)[OF ok uses(1)] by blast
    then have "owner g n i" "owner g d i" using c uses(1) unfolding owner_def by blast+
    then show ?thesis using uses by blast
  next
    case requires
    then show ?thesis unfolding owner_def by blast
  qed
qed

lemma component_dep_path:
  assumes ok: "graph_ok g" and path: "(n, d) \<in> (component_dep g)\<^sup>+"
  shows "\<exists>i j. owner g n i \<and> owner g d j \<and>
    ((i, j) \<in> (requires_rel g)\<^sup>+ \<or> i = j \<and> (\<exists>m. (i, m) \<in> module_ids g \<and> (n, d) \<in> (uses_edges m)\<^sup>+))"
  using path
proof (induction rule: trancl_induct)
  case (base d)
  then show ?case using component_dep_step[OF ok] by (meson r_into_trancl')
next
  case (step d d')
  obtain i j where ij: "owner g n i" "owner g d j"
    "(i, j) \<in> (requires_rel g)\<^sup>+ \<or> i = j \<and> (\<exists>m. (i, m) \<in> module_ids g \<and> (n, d) \<in> (uses_edges m)\<^sup>+)"
    using step.IH by blast
  obtain j' k where jk: "owner g d j'" "owner g d' k"
    "(j', k) \<in> (requires_rel g)\<^sup>+ \<or> j' = k \<and> (\<exists>m. (j', m) \<in> module_ids g \<and> (d, d') \<in> uses_edges m)"
    using component_dep_step[OF ok step.hyps(2)] by blast
  have "j' = j" using owner_unique[OF ok jk(1) ij(2)] .
  then show ?case
    using ij jk module_ids_fun by (metis trancl.trancl_into_trancl trancl_trans)
qed

lemma component_dep_acyclic:
  assumes ok: "graph_ok g"
  shows "acyclic (component_dep g)"
proof -
  have False if cyc: "(n, n) \<in> (component_dep g)\<^sup>+" for n
  proof -
    obtain i j where ij: "owner g n i" "owner g n j"
      "(i, j) \<in> (requires_rel g)\<^sup>+ \<or> i = j \<and> (\<exists>m. (i, m) \<in> module_ids g \<and> (n, n) \<in> (uses_edges m)\<^sup>+)"
      using component_dep_path[OF ok cyc] by blast
    then have "i = j" using owner_unique[OF ok] by blast
    moreover have "acyclic (requires_rel g)" using ok by (simp add: graph_ok_def)
    moreover have "acyclic (uses_edges m)" if "(i, m) \<in> module_ids g" for m
      using graph_okD(1)[OF ok that] .
    ultimately show False using ij(3) unfolding acyclic_def by blast
  qed
  then show ?thesis by (auto simp: acyclic_def)
qed

text \<open>Flows before components before test sections.\<close>

lemma layered_acyclic:
  assumes "acyclic A" and "A \<subseteq> C \<times> C" and "C \<inter> F = {}" and "C \<inter> T = {}" and "F \<inter> T = {}"
  shows "acyclic (A \<union> F \<times> C \<union> C \<times> T)"
proof -
  let ?R = "A \<union> F \<times> C \<union> C \<times> T"
  have "(u, v) \<in> ?R\<^sup>+ \<Longrightarrow> u \<in> F \<union> C \<and> v \<in> C \<union> T \<and> (u \<in> C \<and> v \<in> C \<longrightarrow> (u, v) \<in> A\<^sup>+)" for u v
  proof (induction rule: trancl_induct)
    case (base v)
    then show ?case using assms(2-5) by auto
  next
    case (step v w)
    then show ?case using assms(2-5) by (auto intro: trancl_into_trancl)
  qed
  then show ?thesis using assms unfolding acyclic_def by blast
qed

subsection \<open>The dependencies of the classified actions\<close>

definition located :: "spec_graph \<Rightarrow> classified_change \<Rightarrow> bool" where
  "located g c \<longleftrightarrow> (cc_node_type c = ''component'' \<longrightarrow>
     (\<forall>e. moduleByName g (cc_module c) = Some e \<longrightarrow> cc_key c \<in> cmp_id ` set (ms_components (me_spec e))))"

lemma found_component: "findComponent m k = Some c \<Longrightarrow> c \<in> set (ms_components m) \<and> cmp_id c = k"
  by (auto simp: findComponent_def dest: find_Some_D)

lemma found_flow: "findDataFlow m k = Some f \<Longrightarrow> f \<in> set (ms_data_flows m) \<and> dfl_id f = k"
  by (auto simp: findDataFlow_def dest: find_Some_D)

lemma found_test: "findTestSection m k = Some t \<Longrightarrow> t \<in> set (ms_test_sections m) \<and> tst_id t = k"
  by (auto simp: findTestSection_def dest: find_Some_D)

lemma named_module:
  assumes "graph_ok g" and "moduleByName g n = Some e"
  shows "(mod_id (me_module e), me_spec e) \<in> module_ids g"
  using assms by (auto simp: graph_ok_def module_ids_def)

lemma component_deps:
  assumes ok: "graph_ok g" and loc: "located g c" and comp: "cc_node_type c = ''component''"
    and d: "d \<in> set (collectDeps (cc_module c) (cc_key c) g)"
  shows "(cc_key c, d) \<in> component_dep g"
proof -
  obtain e where e: "moduleByName g (cc_module c) = Some e"
    using d by (cases "moduleByName g (cc_module c)") (simp_all add: collectDeps_def)
  have byid: "moduleByID g (mod_id (me_module e)) = Some e" using ok e by (simp add: graph_ok_def)
  have key: "cc_key c \<in> cmp_id ` set (ms_components (me_spec e))" using loc comp e by (simp add: located_def)
  note mi = named_module[OF ok e]
  from d[unfolded set_collectDeps[OF e byid]]
  consider (uses) cm where "findComponent (me_spec e) (cc_key c) = Some cm" "d \<in> set (cmp_uses cm)"
    | (requires) cm j e' where "(mod_id (me_module e), j) \<in> (requires_rel g)\<^sup>+" "moduleByID g j = Some e'"
        "cm \<in> set (ms_components (me_spec e'))" "d = cmp_id cm"
    by (auto split: option.splits)
  then show ?thesis
  proof cases
    case uses
    then have "(cc_key c, d) \<in> uses_edges (me_spec e)"
      using found_component[OF uses(1)] unfolding uses_edges_def by (intro CollectI exI[of _ cm]) auto
    then show ?thesis using mi by (auto simp: component_dep_def)
  next
    case requires
    have "(j, me_spec e') \<in> module_ids g" using requires(2) by (auto simp: module_ids_def)
    then show ?thesis using mi key requires unfolding component_dep_def by blast
  qed
qed

lemma test_deps:
  assumes ok: "graph_ok g" and d: "d \<in> set (collectDescribes (cc_module c) (cc_key c) g)"
  shows "d \<in> graph_components g \<and> cc_key c \<in> graph_tests g"
proof -
  obtain e t where e: "moduleByName g (cc_module c) = Some e"
    and t: "findTestSection (me_spec e) (cc_key c) = Some t" "d \<in> set (tst_describes t)"
  proof (cases "moduleByName g (cc_module c)")
    case (Some e)
    then show thesis using d that
      by (cases "findTestSection (me_spec e) (cc_key c)") (auto simp: collectDescribes_def split: if_splits)
  qed (use d in \<open>simp add: collectDescribes_def\<close>)
  note mi = named_module[OF ok e] and ft = found_test[OF t(1)]
  have "set (tst_describes t) \<subseteq> cmp_id ` set (ms_components (me_spec e))" using graph_okD(3)[OF ok mi] ft by blast
  then have "d \<in> graph_components g" using graph_parts(1)[OF mi, of d] t(2) by (simp only: subset_iff)
  moreover have "cc_key c \<in> graph_tests g" using graph_parts(3)[OF mi, of t] ft by simp
  ultimately show ?thesis ..
qed

lemma add_flow_uses_mem:
  assumes "d \<in> set (add_flow_uses g c m k)" and "d \<notin> set (m k)"
  shows "\<exists>e f. moduleByName g (cc_module c) = Some e \<and> findDataFlow (me_spec e) (cc_key c) = Some f \<and> d = cc_key c"
proof -
  have inner: "d \<in> set (fold (\<lambda>i m. m(i := m i @ [x])) is m k) \<Longrightarrow> d \<in> set (m k) \<or> d = x" for x "is" m
    by (induction "is" arbitrary: m) (fastforce split: if_splits)+
  have df: "cc_node_type c = ''data_flow''"
    using assms by (cases "cc_node_type c = ''data_flow''") (simp_all add: add_flow_uses_def)
  obtain e where e: "moduleByName g (cc_module c) = Some e"
    using assms df by (cases "moduleByName g (cc_module c)") (simp_all add: add_flow_uses_def)
  obtain f where f: "findDataFlow (me_spec e) (cc_key c) = Some f"
    using assms df e by (cases "findDataFlow (me_spec e) (cc_key c)") (simp_all add: add_flow_uses_def)
  have "d = cc_key c" using assms df e f inner by (simp add: add_flow_uses_def) blast
  then show ?thesis using e f by simp
qed

lemma flow_uses_flows:
  assumes ok: "graph_ok g" and d: "d \<in> set (changedDataFlowUses ms us g k)"
  shows "d \<in> graph_flows g"
proof (rule ccontr)
  assume no: "d \<notin> graph_flows g"
  have one: "d \<in> set (m k)" if "d \<in> set (add_flow_uses g c m k)" for c m
  proof (rule ccontr)
    assume "d \<notin> set (m k)"
    then obtain e f where e: "moduleByName g (cc_module c) = Some e"
      and f: "findDataFlow (me_spec e) (cc_key c) = Some f" "d = cc_key c"
      using add_flow_uses_mem[OF \<open>d \<in> set (add_flow_uses g c m k)\<close>] by blast
    have "d \<in> graph_flows g" using graph_parts(2)[OF named_module[OF ok e], of f] found_flow[OF f(1)] f(2) by simp
    then show False using no by simp
  qed
  have "d \<in> set (m k)" if "d \<in> set (fold (\<lambda>x. add_flow_uses g (mt_change x)) xs m k)" for xs m
    using that by (induction xs arbitrary: m) (auto dest: one)
  moreover have "d \<in> set (m k)" if "d \<in> set (fold (\<lambda>x. add_flow_uses g (um_change x)) xs m k)" for xs m
    using that by (induction xs arbitrary: m) (auto dest: one)
  ultimately show False using d by (fastforce simp: changedDataFlowUses_def)
qed

lemma action_views [simp]:
  "act_deps (closeAction m n t i k ct) = []" "act_spec_hash (closeAction m n t i k ct) = []"
  "act_deps (cleanupAction rec t) = []" "act_spec_hash (cleanupAction rec t) = []"
  "act_deps (matchedCreateAction c g) = depsFor c g" "act_spec_node_id (matchedCreateAction c g) = cc_key c"
  "act_node_type (matchedCreateAction c g) = cc_node_type c"
  "act_deps (retargetAction c rec g) = depsFor c g" "act_spec_node_id (retargetAction c rec g) = cc_key c"
  "act_node_type (retargetAction c rec g) = cc_node_type c"
  by (simp_all add: closeAction_def cleanupAction_def matchedCreateAction_def retargetAction_def blank_action_def Let_def)

lemma classify_record_view:
  assumes "a \<in> set (fst (classify_record c g rec))"
  shows "act_deps a = [] \<and> act_spec_hash a = [] \<or>
    act_spec_node_id a = cc_key c \<and> act_node_type a = cc_node_type c \<and> act_deps a = depsFor c g"
  using assms unfolding classify_record_def by (simp split: if_splits)

lemma classifyMatch_view:
  assumes "a \<in> set (fst (classifyMatch m g))"
  shows "act_deps a = [] \<and> act_spec_hash a = [] \<or>
    act_spec_node_id a = cc_key (mt_change m) \<and> act_node_type a = cc_node_type (mt_change m) \<and>
    act_deps a = depsFor (mt_change m) g"
  using assms classify_record_view by (fastforce simp: classifyMatch_def Let_def)

lemma classifyOrphaned_view: "a \<in> set (fst (classifyOrphaned o')) \<Longrightarrow> act_deps a = [] \<and> act_spec_hash a = []"
  unfolding classifyOrphaned_def Let_def by (simp split: if_splits)

lemma classifyUnmatched_view:
  assumes "classifyUnmatched u g = Some a"
  shows "act_spec_node_id a = cc_key (um_change u) \<and> act_node_type a = cc_node_type (um_change u) \<and>
    act_deps a = depsFor (um_change u) g"
proof -
  have "\<not> cc_type (um_change u) = Removed" "gateAdmits (um_change u) g"
    using assms unfolding classifyUnmatched_def Let_def by (simp_all split: if_splits)
  then show ?thesis using assms unfolding classifyUnmatched_def Let_def by (auto simp: blank_action_def)
qed

lemma base_action_deps:
  assumes "a \<in> set (concat (map (\<lambda>m. fst (classifyMatch m g)) ms) @
              concat (map (\<lambda>o'. fst (classifyOrphaned o')) os) @ List.map_filter (\<lambda>u. classifyUnmatched u g) us)"
    and "act_deps a \<noteq> []"
  shows "\<exists>c \<in> mt_change ` set ms \<union> um_change ` set us. act_spec_node_id a = cc_key c \<and>
    act_node_type a = cc_node_type c \<and> act_deps a = depsFor c g"
proof -
  from assms(1) consider (m) m where "m \<in> set ms" "a \<in> set (fst (classifyMatch m g))"
    | (o) o' where "o' \<in> set os" "a \<in> set (fst (classifyOrphaned o'))"
    | (u) u where "u \<in> set us" "classifyUnmatched u g = Some a"
    by (auto simp: set_map_filter_iff)
  then show ?thesis
  proof cases
    case m
    then have "act_spec_node_id a = cc_key (mt_change m) \<and> act_node_type a = cc_node_type (mt_change m) \<and>
        act_deps a = depsFor (mt_change m) g"
      using assms(2) classifyMatch_view[OF m(2)] by simp
    then show ?thesis using m by blast
  next
    case o
    then show ?thesis using assms(2) classifyOrphaned_view[OF o(2)] by simp
  next
    case u
    then show ?thesis using classifyUnmatched_view[OF u(2)] by blast
  qed
qed

definition classified_edges :: "spec_graph \<Rightarrow> (string \<times> string) set" where
  "classified_edges g = (component_dep g)\<inverse> \<union> graph_flows g \<times> graph_components g \<union>
     graph_components g \<times> graph_tests g"

lemma classified_edges_acyclic:
  assumes "graph_ok g"
  shows "acyclic (classified_edges g)"
proof -
  have "owner g n i \<Longrightarrow> n \<in> graph_components g" for n i by (auto simp: owner_def graph_components_def)
  then have "component_dep g \<subseteq> graph_components g \<times> graph_components g"
    using component_dep_step[OF assms] by fastforce
  then show ?thesis
    unfolding classified_edges_def using assms component_dep_acyclic[OF assms]
    by (intro layered_acyclic) (auto simp: graph_ok_def acyclic_converse)
qed

lemma classified_component_key:
  assumes "a \<in> set (concat (map (\<lambda>m. fst (classifyMatch m g)) ms) @
              concat (map (\<lambda>o'. fst (classifyOrphaned o')) os) @ List.map_filter (\<lambda>u. classifyUnmatched u g) us)"
    and "act_node_type a = ''component''" and "act_spec_hash a \<noteq> []"
  shows "\<exists>c \<in> mt_change ` set ms \<union> um_change ` set us. act_spec_node_id a = cc_key c \<and> cc_node_type c = ''component''"
proof -
  from assms(1) consider (m) m where "m \<in> set ms" "a \<in> set (fst (classifyMatch m g))"
    | (o) o' where "o' \<in> set os" "a \<in> set (fst (classifyOrphaned o'))"
    | (u) u where "u \<in> set us" "classifyUnmatched u g = Some a"
    by (auto simp: set_map_filter_iff)
  then show ?thesis
  proof cases
    case m
    then have "act_spec_node_id a = cc_key (mt_change m) \<and> cc_node_type (mt_change m) = ''component''"
      using assms(2,3) classifyMatch_view[OF m(2)] by simp
    then show ?thesis using m by blast
  next
    case o
    then show ?thesis using assms(3) classifyOrphaned_view[OF o(2)] by simp
  next
    case u
    then have "act_spec_node_id a = cc_key (um_change u) \<and> cc_node_type (um_change u) = ''component''"
      using assms(2) classifyUnmatched_view[OF u(2)] by simp
    then show ?thesis using u by blast
  qed
qed

lemma classified_deps:
  assumes ok: "graph_ok g" and run: "ClassifyActions ms us os g = Inr as"
    and loc: "\<forall>c \<in> mt_change ` set ms \<union> um_change ` set us. located g c"
    and comps: "\<forall>c \<in> mt_change ` set ms \<union> um_change ` set us. cc_node_type c = ''component'' \<longrightarrow> cc_key c \<in> graph_components g"
    and a: "a \<in> set as" "d \<in> set (act_deps a)"
  shows "(d, act_spec_node_id a) \<in> classified_edges g"
proof -
  let ?base = "concat (map (\<lambda>m. fst (classifyMatch m g)) ms) @
     concat (map (\<lambda>o'. fst (classifyOrphaned o')) os) @ List.map_filter (\<lambda>u. classifyUnmatched u g) us"
  let ?fu = "changedDataFlowUses ms us g"
  have "as = sortActions (applyDataFlowAddOn ?base ?fu)"
    using run by (simp add: ClassifyActions_claimed split: if_splits)
  then have "set as = add_on ?fu ` set ?base"
    by (simp only: sortActions_def applyDataFlowAddOn_def set_sort set_map)
  then obtain b where b: "b \<in> set ?base" "a = add_on ?fu b" using a(1) by blast
  then consider (dep) "d \<in> set (act_deps b)"
    | (flow) "d \<in> set (?fu (act_spec_node_id b))" "act_node_type b = ''component''" "act_spec_hash b \<noteq> []"
    using a(2) by (auto simp: add_on_def Let_def split: if_splits)
  then show ?thesis
  proof cases
    case dep
    then obtain c where c: "c \<in> mt_change ` set ms \<union> um_change ` set us" "act_spec_node_id b = cc_key c"
      "act_deps b = depsFor c g"
      using base_action_deps[OF b(1)] by fastforce
    show ?thesis
    proof (cases "cc_node_type c = ''component''")
      case True
      then have "(cc_key c, d) \<in> component_dep g"
        using dep c loc component_deps[OF ok, of c d] by (simp add: depsFor_def)
      then show ?thesis using b(2) c(2) by (simp add: classified_edges_def)
    next
      case False
      then have "d \<in> set (collectDescribes (cc_module c) (cc_key c) g)"
        using dep c(3) by (auto simp: depsFor_def split: if_splits)
      then show ?thesis using test_deps[OF ok] b(2) c(2) by (simp add: classified_edges_def)
    qed
  next
    case flow
    have "d \<in> graph_flows g" using flow_uses_flows[OF ok flow(1)] .
    moreover have "act_spec_node_id b \<in> graph_components g"
      using classified_component_key[OF b(1) flow(2,3)] comps by auto
    ultimately show ?thesis using b(2) by (simp add: classified_edges_def)
  qed
qed

subsection \<open>The graph of a validated specification\<close>

definition spec_entry :: "(string \<rightharpoonup> module_spec) \<Rightarrow> module_decl \<Rightarrow> module_entry" where
  "spec_entry specs d =
     \<lparr>me_module = d, me_spec = (case specs (mod_id d) of Some s \<Rightarrow> s | None \<Rightarrow> blank_module_spec)\<rparr>"

text \<open>
  What the validator leaves to the identity hash: the ids of the nodes of different modules and of
  different kinds are different.
\<close>

definition ids_apart :: "modules_map \<Rightarrow> bool" where
  "ids_apart modules \<longleftrightarrow>
     (\<forall>(n, m) \<in> set modules. \<forall>(n', m') \<in> set modules.
        (n \<noteq> n' \<longrightarrow> cmp_id ` set (ms_components m) \<inter> cmp_id ` set (ms_components m') = {}) \<and>
        cmp_id ` set (ms_components m) \<inter> dfl_id ` set (ms_data_flows m') = {} \<and>
        cmp_id ` set (ms_components m) \<inter> tst_id ` set (ms_test_sections m') = {} \<and>
        dfl_id ` set (ms_data_flows m) \<inter> tst_id ` set (ms_test_sections m') = {})"

text \<open>A specification as the planner reads it after both checks have accepted it.\<close>

definition validated :: "spec_files \<Rightarrow> project \<Rightarrow> modules_map \<Rightarrow> profile \<Rightarrow> bool" where
  "validated fsys prj modules p \<longleftrightarrow>
     CheckDAGFS fsys = Some [] \<and> CheckIDsFS fsys = [] \<and>
     load_checked fsys ''id'' = Inr (prj, modules, p) \<and> distinct (map mod_name (prj_modules prj)) \<and>
     edgeActive p ''uses'' ''component'' \<and> ids_apart modules"

text \<open>
  \<open>loadPlanSpecGraph\<close> (\<open>cmd/spex/plan.go\<close>) reads the specification again for the planner. A module
  whose file does not exist is skipped; \<open>notExist\<close> is \<open>os.IsNotExist\<close>.
\<close>

fun load_specs :: "(string \<Rightarrow> bool) \<Rightarrow> spec_files \<Rightarrow> module_decl list \<Rightarrow> (string \<rightharpoonup> module_spec)
    \<Rightarrow> (file_error, string \<rightharpoonup> module_spec) result" where
  "load_specs notExist fsys [] specs = Inr specs"
| "load_specs notExist fsys (d # ds) specs =
     (case sf_module fsys (mod_path d) of
        Inl (ReadFailed e) \<Rightarrow>
          if notExist e then load_specs notExist fsys ds specs else Inl (ReadFailed e)
      | Inl (ParseFailed e) \<Rightarrow> Inl (ParseFailed e)
      | Inr ms \<Rightarrow> load_specs notExist fsys ds (specs(mod_id d \<mapsto> ms)))"

definition loadPlanSpecGraph :: "(string \<Rightarrow> bool) \<Rightarrow> spec_files \<Rightarrow> (file_error, spec_graph) result" where
  "loadPlanSpecGraph notExist fsys =
     bind_result (sf_project fsys) (\<lambda>prj.
       bind_result (load_specs notExist fsys (prj_modules prj) Map.empty) (\<lambda>specs.
         case sf_profile fsys of
           Inl e \<Rightarrow> Inl (ParseFailed e)
         | Inr p \<Rightarrow> Inr (WithProfile (NewSpecGraph prj specs) p)))"

lemma NewSpecGraph_keyed:
  "sg_by_id (WithProfile (NewSpecGraph prj specs) p) = keyed mod_id (spec_entry specs) (prj_modules prj)"
  "sg_by_name (WithProfile (NewSpecGraph prj specs) p) = map_of (keyed mod_name (spec_entry specs) (prj_modules prj))"
  by (simp_all add: WithProfile_def NewSpecGraph_def spec_entry_def map_of_keyed_aux keyed_def Let_def)

lemma requires_rel_keyed:
  assumes "distinct (map mod_id (prj_modules prj))"
  shows "requires_rel (WithProfile (NewSpecGraph prj specs) p) =
    adj_edges (keyed mod_id mod_requires_module (prj_modules prj))"
proof (intro set_eqI)
  fix x :: "string \<times> string"
  obtain i j where x: "x = (i, j)" by (cases x)
  let ?k = "keyed mod_id (spec_entry specs) (prj_modules prj)"
  have "j \<in> requires ?k i \<longleftrightarrow> (\<exists>d \<in> set (prj_modules prj). mod_id d = i \<and> j \<in> set (mod_requires_module d))"
  proof
    assume j: "j \<in> requires ?k i"
    then obtain e where e: "map_of ?k i = Some e" "j \<in> set (mod_requires_module (me_module e))"
      by (cases "map_of ?k i") (simp_all add: requires_def)
    then obtain d where "d \<in> set (prj_modules prj)" "mod_id d = i" "spec_entry specs d = e"
      using map_of_keyed_mem[OF e(1)] by blast
    then show "\<exists>d \<in> set (prj_modules prj). mod_id d = i \<and> j \<in> set (mod_requires_module d)"
      using e(2) by (intro bexI[of _ d]) (auto simp: spec_entry_def)
  next
    assume "\<exists>d \<in> set (prj_modules prj). mod_id d = i \<and> j \<in> set (mod_requires_module d)"
    then obtain d where d: "d \<in> set (prj_modules prj)" "mod_id d = i" "j \<in> set (mod_requires_module d)" by blast
    then show "j \<in> requires ?k i"
      using map_of_keyed_distinct[OF assms d(1), of "spec_entry specs"] by (simp add: requires_def spec_entry_def)
  qed
  then show "x \<in> requires_rel (WithProfile (NewSpecGraph prj specs) p) \<longleftrightarrow>
      x \<in> adj_edges (keyed mod_id mod_requires_module (prj_modules prj))"
    unfolding x requires_rel_def NewSpecGraph_keyed adj_edges_keyed[OF assms] by auto
qed

lemma validated_graph:
  assumes v: "validated fsys prj modules p"
  shows "distinct (map mod_id (prj_modules prj))" and "distinct (map mod_name (prj_modules prj))"
    and "project_typed prj"
    and "acyclic (adj_edges (keyed mod_id mod_requires_module (prj_modules prj)))"
    and "d \<in> set (prj_modules prj) \<Longrightarrow>
      \<exists>m. map_of modules (mod_name d) = Some m \<and> (mod_name d, m) \<in> set modules \<and> module_ok m"
proof -
  have l: "load_checked fsys c = Inr (prj, modules, p)" for c
    using v load_checked_chk unfolding validated_def by (elim conjE)
  note dist = load_checked_distinct[OF l]
  have "id_uniqueness fsys prj modules p = [] \<and> id_references fsys prj modules p = []"
    using v by (simp add: validated_def CheckIDsFS_def l Let_def split: if_splits)
  then have ids: "ids_distinct fsys prj modules p" and typed: "project_typed prj"
      "\<forall>(n, m) \<in> set modules. module_typed prj m"
    using id_uniqueness_Nil[OF dist] id_references_Nil[OF dist] by blast+
  have dag: "dag_ok fsys prj modules p" using v CheckDAGFS_Nil[OF l] by (simp add: validated_def)
  show "distinct (map mod_id (prj_modules prj))" using ids by (simp add: ids_distinct_def project_distinct_def)
  show "distinct (map mod_name (prj_modules prj))" using v by (simp add: validated_def)
  show "project_typed prj" by (rule typed(1))
  show "acyclic (adj_edges (keyed mod_id mod_requires_module (prj_modules prj)))"
    using dag unfolding dag_ok_def by (elim conjE)
  assume d: "d \<in> set (prj_modules prj)"
  have "load_modules fsys ''id'' (prj_modules prj) [] [] = (modules, [])"
    using l[of "''id''"] by (simp add: load_checked_Inr loadSpec_Inr)
  from load_modules_lookup[OF this _ d] v obtain m where m: "map_of modules (mod_name d) = Some m"
    by (auto simp: validated_def)
  then have mem: "(mod_name d, m) \<in> set modules" by (rule map_of_SomeD)
  have all: "\<forall>(n, m) \<in> set modules.
        (edgeActive p ''depends_on'' ''requirement'' \<longrightarrow>
           acyclic (adj_edges (keyed mrq_id mrq_depends_on (ms_requirements m)))) \<and>
        (edgeActive p ''uses'' ''component'' \<longrightarrow>
           acyclic (adj_edges (keyed cmp_id cmp_uses (ms_components m))))"
    using dag unfolding dag_ok_def by (elim conjE)
  have "acyclic (adj_edges (keyed cmp_id cmp_uses (ms_components m)))"
    using bspec[OF all mem] v by (simp add: validated_def)
  moreover have "\<forall>(n, m) \<in> set modules. module_distinct m" using ids by (simp add: ids_distinct_def)
  then have "distinct (map cmp_id (ms_components m))" using mem by (auto simp: module_distinct_def)
  ultimately have "acyclic (uses_edges m)" by (simp add: adj_edges_keyed uses_edges_def)
  moreover have "module_typed prj m" using typed(2) mem by auto
  ultimately have "module_ok m" by (simp add: module_ok_def module_typed_def Let_def)
  then show "\<exists>m. map_of modules (mod_name d) = Some m \<and> (mod_name d, m) \<in> set modules \<and> module_ok m"
    using m mem by blast
qed

definition specs_match :: "project \<Rightarrow> modules_map \<Rightarrow> (string \<rightharpoonup> module_spec) \<Rightarrow> bool" where
  "specs_match prj modules specs \<longleftrightarrow>
     (\<forall>d \<in> set (prj_modules prj). specs (mod_id d) = map_of modules (mod_name d))"

lemma keyed_lookup:
  "distinct (map key xs) \<Longrightarrow>
     map_of (keyed key val xs) k = Some v \<longleftrightarrow> (\<exists>x \<in> set xs. key x = k \<and> val x = v)"
  using map_of_keyed_mem[of key val xs k v] map_of_keyed_distinct[of key xs _ val] by force

lemma spec_entry_matched:
  "specs_match prj modules specs \<Longrightarrow> d \<in> set (prj_modules prj) \<Longrightarrow> map_of modules (mod_name d) = Some m \<Longrightarrow>
     spec_entry specs d = \<lparr>me_module = d, me_spec = m\<rparr>"
  by (simp add: spec_entry_def specs_match_def)

lemma by_id_entry:
  assumes v: "validated fsys prj modules p" and sp: "specs_match prj modules specs"
    and look: "moduleByID (WithProfile (NewSpecGraph prj specs) p) i = Some e"
  obtains d m where "d \<in> set (prj_modules prj)" and "mod_id d = i" and "e = \<lparr>me_module = d, me_spec = m\<rparr>"
    and "(mod_name d, m) \<in> set modules" and "module_ok m"
proof -
  obtain d where d: "d \<in> set (prj_modules prj)" "mod_id d = i" "spec_entry specs d = e"
    using look unfolding moduleByID_def NewSpecGraph_keyed keyed_lookup[OF validated_graph(1)[OF v]] by blast
  obtain m where m: "map_of modules (mod_name d) = Some m" "(mod_name d, m) \<in> set modules" "module_ok m"
    using validated_graph(5)[OF v d(1)] by blast
  show thesis using that[OF d(1,2) _ m(2,3)] spec_entry_matched[OF sp d(1) m(1)] d(3) by simp
qed

lemma by_name_by_id:
  assumes v: "validated fsys prj modules p"
    and look: "moduleByName (WithProfile (NewSpecGraph prj specs) p) n = Some e"
  shows "moduleByID (WithProfile (NewSpecGraph prj specs) p) (mod_id (me_module e)) = Some e"
proof -
  obtain d where d: "d \<in> set (prj_modules prj)" "spec_entry specs d = e"
    using look unfolding moduleByName_def NewSpecGraph_keyed keyed_lookup[OF validated_graph(2)[OF v]] by blast
  then have "mod_id (me_module e) = mod_id d" by (auto simp: spec_entry_def)
  then show ?thesis
    unfolding moduleByID_def NewSpecGraph_keyed keyed_lookup[OF validated_graph(1)[OF v]] using d by auto
qed

lemma ids_apartD:
  assumes "ids_apart modules" and "(n, m) \<in> set modules" and "(n', m') \<in> set modules"
  shows "n \<noteq> n' \<Longrightarrow> cmp_id ` set (ms_components m) \<inter> cmp_id ` set (ms_components m') = {}"
    and "cmp_id ` set (ms_components m) \<inter> dfl_id ` set (ms_data_flows m') = {}"
    and "cmp_id ` set (ms_components m) \<inter> tst_id ` set (ms_test_sections m') = {}"
    and "dfl_id ` set (ms_data_flows m) \<inter> tst_id ` set (ms_test_sections m') = {}"
  using bspec[OF bspec[OF assms(1)[unfolded ids_apart_def] assms(2), unfolded case_prod_conv] assms(3),
      unfolded case_prod_conv]
  by (elim conjE, simp)+

lemma UN_disjoint: "(\<And>x y. x \<in> A \<Longrightarrow> y \<in> B \<Longrightarrow> f x \<inter> h y = {}) \<Longrightarrow> (\<Union>x \<in> A. f x) \<inter> (\<Union>y \<in> B. h y) = {}"
  by blast

lemma validated_graph_ok:
  assumes v: "validated fsys prj modules p" and sp: "specs_match prj modules specs"
  shows "graph_ok (WithProfile (NewSpecGraph prj specs) p)"
  unfolding graph_ok_def
proof (intro conjI)
  let ?g = "WithProfile (NewSpecGraph prj specs) p"
  have apart: "ids_apart modules" using v by (simp add: validated_def)
  have mods: "\<exists>d \<in> set (prj_modules prj). mod_id d = i \<and> (mod_name d, m) \<in> set modules \<and> module_ok m"
    if i: "(i, m) \<in> module_ids ?g" for i m
  proof -
    obtain e where e: "moduleByID ?g i = Some e" "m = me_spec e" using i unfolding module_ids_def by blast
    show ?thesis by (rule by_id_entry[OF v sp e(1)]) (use e(2) in auto)
  qed
  show "acyclic (requires_rel ?g)"
    unfolding requires_rel_keyed[OF validated_graph(1)[OF v]] by (rule validated_graph(4)[OF v])
  show "\<forall>n e. moduleByName ?g n = Some e \<longrightarrow> moduleByID ?g (mod_id (me_module e)) = Some e"
    using by_name_by_id[OF v] by blast
  show "\<forall>(i, m) \<in> module_ids ?g. module_ok m" using mods by blast
  show "\<forall>(i, m) \<in> module_ids ?g. \<forall>(j, m') \<in> module_ids ?g. i \<noteq> j \<longrightarrow>
        cmp_id ` set (ms_components m) \<inter> cmp_id ` set (ms_components m') = {}"
  proof (intro ballI, clarify)
    fix i m j m' assume im: "(i, m) \<in> module_ids ?g" and jm: "(j, m') \<in> module_ids ?g" and ne: "i \<noteq> j"
    obtain d where d: "d \<in> set (prj_modules prj)" "mod_id d = i" "(mod_name d, m) \<in> set modules"
      using mods[OF im] by blast
    obtain d' where d': "d' \<in> set (prj_modules prj)" "mod_id d' = j" "(mod_name d', m') \<in> set modules"
      using mods[OF jm] by blast
    have "mod_name d \<noteq> mod_name d'"
      using validated_graph(2)[OF v] d(1,2) d'(1,2) ne by (auto simp: distinct_map inj_on_def)
    then show "cmp_id ` set (ms_components m) \<inter> cmp_id ` set (ms_components m') = {}"
      by (rule ids_apartD(1)[OF apart d(3) d'(3)])
  qed
  have mem: "\<exists>n. (n, snd x) \<in> set modules" if "x \<in> module_ids ?g" for x
    using mods[of "fst x" "snd x"] that by auto
  show "graph_components ?g \<inter> graph_flows ?g = {}"
    unfolding graph_components_def graph_flows_def case_prod_unfold
    by (rule UN_disjoint) (metis mem ids_apartD(2)[OF apart])
  show "graph_components ?g \<inter> graph_tests ?g = {}"
    unfolding graph_components_def graph_tests_def case_prod_unfold
    by (rule UN_disjoint) (metis mem ids_apartD(3)[OF apart])
  show "graph_flows ?g \<inter> graph_tests ?g = {}"
    unfolding graph_flows_def graph_tests_def case_prod_unfold
    by (rule UN_disjoint) (metis mem ids_apartD(4)[OF apart])
qed

lemma load_specs_all:
  assumes "\<forall>d \<in> set ds. \<exists>s. sf_module fsys (mod_path d) = Inr s"
  shows "load_specs notExist fsys ds specs =
    Inr (fold (\<lambda>d m. m(mod_id d \<mapsto> projr (sf_module fsys (mod_path d)))) ds specs)"
  using assms by (induction ds arbitrary: specs) auto

lemma validated_loads:
  assumes v: "validated fsys prj modules p"
  obtains specs where "loadPlanSpecGraph notExist fsys = Inr (WithProfile (NewSpecGraph prj specs) p)"
    and "specs_match prj modules specs"
proof -
  have l: "load_modules fsys ''id'' (prj_modules prj) [] [] = (modules, [])"
    and files: "sf_project fsys = Inr prj" "sf_profile fsys = Inr p"
    using v by (simp_all add: validated_def load_checked_Inr loadSpec_Inr)
  note look = load_modules_lookup[OF l validated_graph(2)[OF v]]
  define specs where "specs = fold (\<lambda>d m. m(mod_id d \<mapsto> projr (sf_module fsys (mod_path d)))) (prj_modules prj) Map.empty"
  have "load_specs notExist fsys (prj_modules prj) Map.empty = Inr specs"
    unfolding specs_def using look by (intro load_specs_all) blast
  then have "loadPlanSpecGraph notExist fsys = Inr (WithProfile (NewSpecGraph prj specs) p)"
    by (simp add: loadPlanSpecGraph_def files)
  moreover have "specs_match prj modules specs"
    unfolding specs_match_def specs_def
  proof
    fix d assume d: "d \<in> set (prj_modules prj)"
    show "fold (\<lambda>d m. m(mod_id d \<mapsto> projr (sf_module fsys (mod_path d)))) (prj_modules prj) Map.empty (mod_id d) =
        map_of modules (mod_name d)"
      using look[OF d] fold_map_upd_distinct[OF validated_graph(1)[OF v] d,
        where g = "\<lambda>d. projr (sf_module fsys (mod_path d))" and m = Map.empty] by fastforce
  qed
  ultimately show thesis by (rule that)
qed

subsection \<open>The sorter never refuses it\<close>

definition no_cycle :: "(plan_error, 'a) result \<Rightarrow> bool" where
  "no_cycle r \<longleftrightarrow> (\<forall>ids. r \<noteq> Inl (DependencyCycle ids))"

lemma no_cycle_Inr [simp]: "no_cycle (Inr a)" by (simp add: no_cycle_def)

lemma no_cycle_Inl [simp]: "no_cycle (Inl e) \<longleftrightarrow> (\<forall>ids. e \<noteq> DependencyCycle ids)" by (simp add: no_cycle_def)

lemma no_cycle_bind: "no_cycle r \<Longrightarrow> (\<And>a. r = Inr a \<Longrightarrow> no_cycle (f a)) \<Longrightarrow> no_cycle (bind_result r f)"
  by (cases r) (simp_all add: no_cycle_def)

lemma no_cycle_steps:
  "no_cycle (ResolveDeps deps batch lookup)" "no_cycle (ResolveEpicAction prop lookup reg)"
  "no_cycle (ResolveParent prop lookup reg batch)" "no_cycle (LabelFor gitHead removal a opID reg)"
  "no_cycle (layerFor a ix cl)" "no_cycle (ClassifyActions ms us os g)"
  by (induction deps batch lookup rule: ResolveDeps.induct)
     (auto simp: ResolveEpicAction_def ResolveParent_def LabelFor_def layerFor_def ClassifyActions_claimed
      split: option.split intro!: no_cycle_bind)

lemma no_cycle_composeDeps: "no_cycle (composeDeps a lookup batch opIndex edges tasks)"
  by (simp add: composeDeps_def Let_def no_cycle_bind no_cycle_steps)

lemma no_cycle_group_layers: "no_cycle (group_layers i as ix cl groups)"
  by (induction i as ix cl groups rule: group_layers.induct) (simp_all add: no_cycle_bind no_cycle_steps)

lemma no_cycle_layer_table: "no_cycle (layer_table ix cl as m)"
proof (induction as arbitrary: m)
  case (Cons a as)
  have "layerFor a ix cl = Inl e \<Longrightarrow> \<forall>ids. e \<noteq> DependencyCycle ids" for e
    using no_cycle_steps(5)[of a ix cl] by (simp add: no_cycle_def)
  then show ?case using Cons.IH by (auto split: sum.split)
qed simp

lemma no_cycle_createOp: "no_cycle (createOp b a opID label batch opIndex edges targets)"
  unfolding createOp_def by (auto intro!: no_cycle_bind no_cycle_steps no_cycle_composeDeps)

lemma no_cycle_create_ops: "no_cycle (create_ops b batch opIndex targets xs)"
  by (induction b batch opIndex targets xs rule: create_ops.induct)
     (simp_all add: no_cycle_bind no_cycle_steps no_cycle_createOp)

lemma no_cycle_retarget_ops: "no_cycle (retarget_ops b batch opIndex as)"
  by (induction b batch opIndex as rule: retarget_ops.induct)
     (simp_all add: no_cycle_bind no_cycle_steps no_cycle_composeDeps retargetOp_def)

lemma no_cycle_build_ops: "no_cycle (build_ops b ordered retargets obsoletes)"
  unfolding build_ops_def Let_def layerEdgesFor_def
  by (auto intro!: no_cycle_bind no_cycle_create_ops no_cycle_retarget_ops no_cycle_group_layers split: prod.split)

lemma no_cycle_Sort:
  assumes ids: "distinct (in_layer as)" and acyc: "acyclic (dep_edges as)"
  shows "no_cycle (Sort as rel)"
proof -
  have "no_cycle (sort_layers as lo ls)" for lo ls
  proof -
    have "\<forall>l \<in> set ls. acyclic {(d, i) \<in> dep_edges as. layer_of lo d = l \<and> layer_of lo i = l}"
      by (auto intro: acyclic_subset[OF acyc])
    from sort_layers_total[OF ids this] show ?thesis by auto
  qed
  moreover have "checkNoForwardLayerDeps as lo = Some e \<Longrightarrow> no_cycle (Inl e)" for lo e
    by (auto simp: checkNoForwardLayerDeps_def Let_def split: if_splits)
  ultimately show ?thesis
    unfolding Sort_def case_prod_unfold
    by (intro no_cycle_bind no_cycle_layer_table) (simp split: option.split)
qed

definition diff_located :: "spec_graph \<Rightarrow> classified_change list \<Rightarrow> bool" where
  "diff_located g changes \<longleftrightarrow>
     (\<forall>c \<in> set changes. cc_type c \<noteq> Removed \<and> cc_node_type c = ''component'' \<longrightarrow>
        (\<exists>e. moduleByName g (cc_module c) = Some e \<and> cc_key c \<in> cmp_id ` set (ms_components (me_spec e))))"

lemma classified_acyclic:
  assumes ok: "graph_ok g" and loc: "diff_located g changes"
    and M: "MatchNodes changes ps = (ms, us, os)" and C: "ClassifyActions ms us os g = Inr as"
  shows "\<forall>a \<in> set as. \<forall>d \<in> set (act_deps a). (d, act_spec_node_id a) \<in> classified_edges g"
proof -
  note L = MatchNodes_lists[OF M]
  have kept: "c \<in> set changes \<and> kept_change c" if "c \<in> mt_change ` set ms \<union> um_change ` set us" for c
    using that arg_cong[OF conjunct1[OF L], of set]
      arg_cong[OF conjunct1[OF conjunct2[OF conjunct2[OF L]]], of set] by auto
  have at: "\<exists>e. moduleByName g (cc_module c) = Some e \<and> cc_key c \<in> cmp_id ` set (ms_components (me_spec e))"
    if "c \<in> mt_change ` set ms \<union> um_change ` set us" "cc_node_type c = ''component''" for c
    using kept[OF that(1)] that(2) loc by (simp add: diff_located_def kept_change_def)
  have "\<forall>c \<in> mt_change ` set ms \<union> um_change ` set us. located g c" using at by (fastforce simp: located_def)
  moreover have "\<forall>c \<in> mt_change ` set ms \<union> um_change ` set us. cc_node_type c = ''component'' \<longrightarrow> cc_key c \<in> graph_components g"
    using at graph_parts(1)[OF named_module[OF ok]] by blast
  ultimately show ?thesis by (intro ballI) (rule classified_deps[OF ok C])
qed

lemma build_no_cycle:
  assumes ok: "graph_ok (bl_graph b)"
    and ids: "distinct (map act_spec_node_id actions)" "bl_proposal b \<notin> act_spec_node_id ` set actions"
    and deps: "\<forall>a \<in> set actions. \<forall>d \<in> set (act_deps a). (d, act_spec_node_id a) \<in> classified_edges (bl_graph b)"
  shows "no_cycle (Build b actions)"
  unfolding Build_def Let_def
proof (intro no_cycle_bind no_cycle_steps no_cycle_build_ops no_cycle_Inr no_cycle_Sort)
  let ?creates = "filter (\<lambda>a. act_type a = ActionCreate) actions"
  fix epic assume epic: "ResolveEpicAction (bl_proposal b) (bl_lookup b) (bl_registration b) = Inr epic"
  then have e: "act_spec_node_id e = bl_proposal b \<and> act_deps e = []" if "epic = Some e" for e
    using that by (auto simp: ResolveEpicAction_def blank_action_def split: option.splits if_splits)
  have "distinct (map act_spec_node_id ?creates)" using ids(1) by (rule distinct_map_filter)
  then show "distinct (in_layer (with_epic epic ?creates))"
    using e ids(2) by (cases epic) (auto simp: with_epic_def in_layer_def)
  have "dep_edges (with_epic epic ?creates) \<subseteq> classified_edges (bl_graph b)"
    using e deps by (cases epic) (auto simp: with_epic_def dep_edges_def)
  then show "acyclic (dep_edges (with_epic epic ?creates))"
    using classified_edges_acyclic[OF ok] by (rule acyclic_subset[rotated])
qed

lemma plan_changes_no_cycle:
  assumes ok: "graph_ok (pin_graph inp)" and loc: "diff_located (pin_graph inp) changes"
    and keys: "distinct (map cc_key changes)" "pin_proposal inp \<notin> cc_key ` set changes"
  shows "no_cycle (plan_changes inp absorbed changes)"
proof -
  let ?ps = "planPairingsForMatching (journal_fold (pin_events inp)) (task_statuses (pin_tasks inp))"
  obtain ms us os where M: "MatchNodes changes ?ps = (ms, us, os)" by (cases "MatchNodes changes ?ps")
  have "no_cycle (Build (plan_builder inp absorbed) actions)" if C: "ClassifyActions ms us os (pin_graph inp) = Inr actions" for actions
  proof (rule build_no_cycle)
    have b: "bl_graph (plan_builder inp absorbed) = pin_graph inp" "bl_proposal (plan_builder inp absorbed) = pin_proposal inp"
      by (simp_all add: plan_builder_def Let_def)
    note P = plan_classified[OF keys(1) M C]
    show "graph_ok (bl_graph (plan_builder inp absorbed))" using ok by (simp only: b)
    show "distinct (map act_spec_node_id actions)" by (rule P(1))
    show "bl_proposal (plan_builder inp absorbed) \<notin> act_spec_node_id ` set actions"
      using P(2) keys(2) unfolding b by blast
    show "\<forall>a \<in> set actions. \<forall>d \<in> set (act_deps a). (d, act_spec_node_id a) \<in> classified_edges (bl_graph (plan_builder inp absorbed))"
      unfolding b by (rule classified_acyclic[OF ok loc M C])
  qed
  then show ?thesis unfolding plan_changes_def Let_def M prod.case by (intro no_cycle_bind no_cycle_steps)
qed

lemma refuse_Inl: "refuse r = Inl e \<longleftrightarrow> (\<exists>e'. r = Inl e' \<and> e = PlanRefused e')"
  by (cases r) (auto simp: refuse_def)

text \<open>
  C6: a plan is never refused for a dependency cycle, whatever the journal and the task states, when it is
  computed from a specification that passes the DAG check and the id check and in which, besides, no two modules
  have one name (which no check asks for), the profile has \<open>uses\<close> as an edge of components that may not be cyclic,
  and no id is shared by nodes of different modules or different kinds (identity hashes do not collide). The
  diff has no node twice and none of the epic's kind, does not name the proposal, and its changed components are
  components of the modules it gives for them.
\<close>

theorem validated_plan_acyclic:
  assumes "CheckDAGFS fsys = Some []" and "CheckIDsFS fsys = []" and "load_checked fsys ''id'' = Inr (prj, modules, p)"
    and "distinct (map mod_name (prj_modules prj))" and "edgeActive p ''uses'' ''component''" and "ids_apart modules"
    and "loadPlanSpecGraph notExist fsys = Inr (pin_graph inp)"
    and "plan_inputs_ok inp" and "diff_located (pin_graph inp) (pin_changes inp)"
  shows "runPlanE inp \<noteq> Inl (PlanRefused (DependencyCycle ids))"
proof
  assume run: "runPlanE inp = Inl (PlanRefused (DependencyCycle ids))"
  have v: "validated fsys prj modules p" using assms(1-6) by (simp add: validated_def)
  have ok: "graph_ok (pin_graph inp)"
    by (rule validated_loads[OF v, of notExist]) (use validated_graph_ok[OF v] assms(7) in simp)
  have absorb: "applyAbsorb es cs \<noteq> Inl (PlanRefused e)" for es cs e
  proof -
    have "absorb_entries es m \<noteq> Inl (PlanRefused e)" for m
      by (induction es) (auto simp: bind_result_Inl_iff split: option.split)
    then show ?thesis by (simp add: applyAbsorb_def Let_def bind_result_Inl_iff)
  qed
  obtain absorbed changes where P: "plan_changes inp absorbed changes = Inl (DependencyCycle ids)"
    and src: "(pin_absorb inp = None \<and> absorbed = [] \<and> changes = pin_changes inp) \<or>
         (\<exists>es. pin_absorb inp = Some es \<and> applyAbsorb es (pin_changes inp) = Inr (absorbed, changes))"
    using run absorb
    by (cases "pin_absorb inp") (auto simp: runPlanE_def refuse_Inl bind_result_Inl_iff split: if_splits)
  note R = remaining_changes[OF src assms(8)]
  have "diff_located (pin_graph inp) changes" using assms(9) R(2) unfolding diff_located_def by blast
  moreover have "pin_proposal inp \<notin> cc_key ` set changes" using assms(8) R(2) by (auto simp: plan_inputs_ok_def)
  ultimately have "no_cycle (plan_changes inp absorbed changes)" using plan_changes_no_cycle[OF ok _ R(1)] by blast
  then show False using P by (simp add: no_cycle_def)
qed

subsection \<open>Priorities\<close>

definition in_range :: "int \<Rightarrow> bool" where
  "in_range n \<longleftrightarrow> 0 \<le> n \<and> n \<le> 4"

definition priorities_ok :: "spec_graph \<Rightarrow> bool" where
  "priorities_ok g \<longleftrightarrow> (\<forall>i r n. projectRequirement g i = Some r \<longrightarrow> req_priority r = Some n \<longrightarrow> in_range n)"

lemma in_range_consts [simp]: "in_range 0" "in_range FallbackPriority"
  by (simp_all add: in_range_def FallbackPriority_def)

lemma best_priority_range:
  assumes "priorities_ok g" and "best = -1 \<or> in_range best"
  shows "best_priority g m r best = -1 \<or> in_range (best_priority g m r best)"
  using assms unfolding best_priority_def priorities_ok_def by (auto split: option.split)

lemma ResolvePriority_range:
  assumes "priorities_ok g"
  shows "in_range (ResolvePriority n k g)"
proof -
  have "best = -1 \<or> in_range best \<Longrightarrow>
      fold (best_priority g m) rs best = -1 \<or> in_range (fold (best_priority g m) rs best)" for m rs best
    by (induction rs arbitrary: best) (use best_priority_range[OF assms] in auto)
  then show ?thesis by (auto simp: ResolvePriority_def Let_def split: option.split)
qed

lemma createOp_priority:
  assumes "priorities_ok (bl_graph b)" and "createOp b a i label batch opIndex edges targets = Inr x"
  shows "in_range (op_priority x)"
  using assms ResolvePriority_range[OF assms(1)]
  by (auto simp: createOp_def bind_result_Inr_iff split: if_splits)

lemma create_ops_priority:
  "priorities_ok (bl_graph b) \<Longrightarrow> create_ops b batch opIndex targets as = Inr xs \<Longrightarrow> x \<in> set xs \<Longrightarrow>
     in_range (op_priority x)"
proof (induction b batch opIndex targets as arbitrary: xs rule: create_ops.induct)
  case (2 b batch opIndex targets a opID edges rest)
  then show ?case using createOp_priority by (auto simp: bind_result_Inr_iff)
qed simp

lemma retarget_ops_priority:
  "retarget_ops b batch opIndex as = Inr xs \<Longrightarrow> x \<in> set xs \<Longrightarrow> op_priority x = 0"
  by (induction b batch opIndex as arbitrary: xs rule: retarget_ops.induct)
     (auto simp: bind_result_Inr_iff retargetOp_def blank_op_def)

lemma Build_priority:
  assumes "priorities_ok (bl_graph b)" and "Build b actions = Inr cs" and "x \<in> set (cs_ops cs)"
  shows "in_range (op_priority x)"
  using assms(2,3) create_ops_priority[OF assms(1)] retarget_ops_priority
  by (auto simp: Build_def build_ops_def Let_def bind_result_Inr_iff closeOp_def blank_op_def)

lemma checked_priorities:
  assumes "CheckIDsFS fsys = []" and "loadPlanSpecGraph notExist fsys = Inr g"
  shows "priorities_ok g"
proof -
  obtain prj modules p where l: "load_checked fsys ''id'' = Inr (prj, modules, p)"
    using assms(1) load_checked_Inl by (cases "load_checked fsys ''id''") (auto simp: CheckIDsFS_def)
  have "id_references fsys prj modules p = []" using assms(1) by (simp add: CheckIDsFS_def l Let_def split: if_splits)
  then have typed: "project_typed prj" using id_references_Nil[OF load_checked_distinct[OF l]] by blast
  have "sf_project fsys = Inr prj" "sf_profile fsys = Inr p" using l by (simp_all add: load_checked_Inr loadSpec_Inr)
  then obtain specs where g: "g = WithProfile (NewSpecGraph prj specs) p"
    using assms(2) by (auto simp: loadPlanSpecGraph_def bind_result_Inr_iff)
  have "r \<in> set (prj_requirements prj)" if "projectRequirement g i = Some r" for i r
    using that by (auto simp: g projectRequirement_def WithProfile_def NewSpecGraph_def Let_def
        fold_map_upd[where g = "\<lambda>r. r"] dest!: map_of_SomeD)
  then show ?thesis using typed by (force simp: priorities_ok_def project_typed_def in_range_def)
qed

text \<open>
  C34: the priorities of a changeset that is planned from a specification the id check accepts lie
  in the range the task adapters know, 0 to 4.
\<close>

theorem planned_priorities_in_range:
  assumes "CheckIDsFS fsys = []" and "loadPlanSpecGraph notExist fsys = Inr (pin_graph inp)"
    and "runPlanE inp = Inr cs" and "x \<in> set (cs_ops cs)"
  shows "0 \<le> op_priority x \<and> op_priority x \<le> 4"
proof -
  have ok: "priorities_ok (pin_graph inp)" by (rule checked_priorities[OF assms(1,2)])
  obtain absorbed changes where "plan_changes inp absorbed changes = Inr cs" by (rule runPlanE_Inr[OF assms(3)])
  then obtain actions where "Build (plan_builder inp absorbed) actions = Inr cs"
    by (auto simp: plan_changes_def Let_def bind_result_Inr_iff split: prod.splits)
  then have "in_range (op_priority x)"
    using ok assms(4) by (intro Build_priority) (auto simp: plan_builder_def Let_def)
  then show ?thesis by (simp add: in_range_def)
qed

subsection \<open>A sample run\<close>

lemma sample_validated: "validated sample_files sample_project [(''core'', sample_spec)] DefaultProfile"
proof -
  have "extra_graph (rawModuleEntries sample_files path key) kind = []"
    "extra_graph (rawProjectEntries sample_files key) kind = []" for path key kind
    by (simp_all add: extra_graph_def rawModuleEntries_def rawProjectEntries_def sample_files_def rawArrayEntries_def
        decode_entry_def raw_field_def genericCycleAdjacency_def keyed_def)
  then have "dag_ok sample_files sample_project [(''core'', sample_spec)] DefaultProfile"
    using acyclic_no_adj by (simp add: dag_ok_def sample_project_def sample_spec_def adj_edges_keyed acyclic_def)
  then have "CheckDAGFS sample_files = Some []" using CheckDAGFS_Nil[OF sample_loads] by simp
  moreover have "CheckIDsFS sample_files = []"
    using sample_ids id_uniqueness_Nil[OF load_checked_distinct[OF sample_loads]]
      id_references_Nil[OF load_checked_distinct[OF sample_loads]]
    by (simp add: CheckIDsFS_def sample_loads Let_def)
  moreover have "edgeActive DefaultProfile ''uses'' ''component''" by code_simp
  moreover have "ids_apart [(''core'', sample_spec)]" by (simp add: ids_apart_def sample_spec_def)
  ultimately show ?thesis
    using sample_loads by (simp add: validated_def sample_project_def)
qed

definition validated_inputs :: plan_inputs where
  "validated_inputs = sample_inputs
     \<lparr>pin_graph := projr (loadPlanSpecGraph (\<lambda>_. True) sample_files),
      pin_changes := [sample_change ''c1'' Modified], pin_absorb := None\<rparr>"

lemma validated_graph_inputs: "loadPlanSpecGraph (\<lambda>_. True) sample_files = Inr (pin_graph validated_inputs)"
  by (simp add: validated_inputs_def loadPlanSpecGraph_def sample_files_def sample_project_def)

theorem validated_plan_acyclic_witness: "runPlanE validated_inputs \<noteq> Inl (PlanRefused (DependencyCycle [''c1'']))"
proof (rule validated_plan_acyclic[OF _ _ _ _ _ _ validated_graph_inputs])
  show "CheckDAGFS sample_files = Some []" "CheckIDsFS sample_files = []"
    "load_checked sample_files ''id'' = Inr (sample_project, [(''core'', sample_spec)], DefaultProfile)"
    "distinct (map mod_name (prj_modules sample_project))" "edgeActive DefaultProfile ''uses'' ''component''"
    "ids_apart [(''core'', sample_spec)]"
    using sample_validated by (simp_all add: validated_def)
  have g: "loadPlanSpecGraph (\<lambda>_. True) sample_files = Inr (WithProfile (NewSpecGraph sample_project [''m1'' \<mapsto> sample_spec]) DefaultProfile)"
    by (simp add: loadPlanSpecGraph_def sample_files_def sample_project_def)
  show "plan_inputs_ok validated_inputs" by code_simp
  show "diff_located (pin_graph validated_inputs) (pin_changes validated_inputs)"
    by (simp add: validated_inputs_def g diff_located_def sample_change_def sample_spec_def sample_project_def
        moduleByName_def WithProfile_def NewSpecGraph_def)
qed

theorem planned_priorities_in_range_witness:
  "\<exists>cs. runPlanE validated_inputs = Inr cs \<and> op_priority (cs_ops cs ! 1) \<le> 4"
proof -
  have "map_sum (\<lambda>_. ()) (\<lambda>cs. length (cs_ops cs)) (runPlanE validated_inputs) = Inr 2" by code_simp
  then obtain cs where cs: "runPlanE validated_inputs = Inr cs" "length (cs_ops cs) = 2"
    by (cases "runPlanE validated_inputs") auto
  then have "cs_ops cs ! 1 \<in> set (cs_ops cs)" by simp
  moreover have "CheckIDsFS sample_files = []" using sample_validated by (simp add: validated_def)
  ultimately show ?thesis using planned_priorities_in_range[OF _ validated_graph_inputs cs(1)] cs(1) by blast
qed

end
