(* ===== verification/Author_Canonical.thy ===== *)
theory Author_Canonical
  imports Spec_Decode
begin

text \<open>
  The canonical layout of \<open>project.json\<close> and \<open>module.json\<close> (\<open>author/canonical_json.go\<close>): which order
  the members of the document and of the entries of its arrays are written in. What a nested map
  writes is the encoder's ascending key order, which is the order maps are represented in.
\<close>

subsection \<open>Key orders\<close>

definition projectDocOrder :: "string list" where
  "projectDocOrder =
     [''name'', ''description'', ''version'', ''requirements'', ''modules'', ''sections'', ''spec_version'']"

definition moduleDocOrder :: "string list" where
  "moduleDocOrder =
     [''name'', ''description'', ''requirements'', ''components'', ''data_flows'', ''test_sections'', ''apis'']"

definition projectFrameArrayOrders :: "(string \<times> string list) list" where
  "projectFrameArrayOrders =
     [(''modules'', [''id'', ''name'', ''path'', ''description'', ''requires_module'']),
      (''sections'', [''id'', ''name'', ''type''])]"

definition orderedKeys :: "(string \<times> 'a) list \<Rightarrow> string list \<Rightarrow> string list" where
  "orderedKeys m order =
     (let keys = filter (\<lambda>k. k \<in> fst ` set m) order
      in keys @ sort (filter (\<lambda>k. k \<notin> set keys) (map fst m)))"

definition profileFieldOrder :: "profile option \<Rightarrow> string \<Rightarrow> string \<Rightarrow> string list option" where
  "profileFieldOrder p scope pluralKey =
     (case p of
        None \<Rightarrow> None
      | Some p \<Rightarrow>
          map_option (\<lambda>nt.
            [''id'', ''name'', ''description''] @ (if nt_requires_content nt then [''content''] else []) @
            map fld_name (nt_fields nt))
          (find (\<lambda>nt. nt_plural_key nt = pluralKey \<and> nt_scope nt = scope) (prf_node_types p)))"

subsection \<open>Documents\<close>

text \<open>\<open>orderedFields\<close>: the keys in order, each with its value; a key without one would print \<open>null\<close>.\<close>

definition ordered_fields :: "string list \<Rightarrow> (string \<times> json) list \<Rightarrow> json" where
  "ordered_fields keys vals =
     JObject (map (\<lambda>k. (k, case map_of vals k of Some v \<Rightarrow> v | None \<Rightarrow> JNull)) keys)"

definition orderArray :: "json list \<Rightarrow> string list \<Rightarrow> json list" where
  "orderArray arr order =
     map (\<lambda>item. case item of
                   JObject entry \<Rightarrow> ordered_fields (orderedKeys entry order) entry
                 | _ \<Rightarrow> item) arr"

definition array_order :: "profile option \<Rightarrow> string \<Rightarrow> string \<Rightarrow> string list" where
  "array_order p docKey k =
     (let scope = (if docKey = ''project.json'' then ''project'' else ''module'');
          frame = (if docKey = ''project.json'' then projectFrameArrayOrders else [])
      in case profileFieldOrder p scope k of
           Some order \<Rightarrow> order
         | None \<Rightarrow> (case map_of frame k of Some order \<Rightarrow> order | None \<Rightarrow> []))"

definition canonical_value :: "profile option \<Rightarrow> string \<Rightarrow> string \<Rightarrow> json \<Rightarrow> json" where
  "canonical_value p docKey k v =
     (case v of JArray arr \<Rightarrow> JArray (orderArray arr (array_order p docKey k)) | _ \<Rightarrow> v)"

definition canonicalizeDoc :: "raw_entry \<Rightarrow> string \<Rightarrow> profile option \<Rightarrow> json" where
  "canonicalizeDoc doc docKey p =
     (let topOrder = (if docKey = ''project.json'' then projectDocOrder else moduleDocOrder)
      in ordered_fields (orderedKeys doc topOrder)
           (map (\<lambda>(k, v). (k, canonical_value p docKey k v)) doc))"

subsection \<open>Decoding for an edit\<close>

text \<open>
  \<open>decodeDoc\<close>. A document that is \<open>null\<close> decodes into a nil map: every read of it finds nothing,
  an assignment to it panics. A number becomes a \<open>float64\<close> in Go and keeps its literal here, which is the same
  for the literals a \<open>float64\<close> prints back, the integers below two to the 53 in plain decimal among them: every
  number the program writes is one. Other literals of a hand-written document change in a rewrite of the program.
\<close>

type_synonym go_doc = "raw_entry option"

definition decodeDoc :: "mem_fs \<Rightarrow> string \<Rightarrow> (file_error, go_doc) result" where
  "decodeDoc m key =
     bind_result (file_json m key) (\<lambda>j.
       case go_value j of
         JObject kvs \<Rightarrow> Inr (Some kvs)
       | JNull \<Rightarrow> Inr None
       | _ \<Rightarrow> Inl mismatch)"

definition doc_entries :: "go_doc \<Rightarrow> raw_entry" where
  "doc_entries d = (case d of Some kvs \<Rightarrow> kvs | None \<Rightarrow> [])"

subsection \<open>A canonical document decodes to what was written\<close>

lemma go_value_ok: "json_ok (go_value j)"
proof (induction j)
  case (JObject kvs)
  have "json_ok v" if "(k, v) \<in> set (map_entries (map (map_prod id go_value) kvs))" for k v
  proof -
    have "map_of (map_entries (map (map_prod id go_value) kvs)) k = Some v"
      by (rule map_of_is_SomeI[OF go_map_distinct[OF go_map_entries] that])
    then have "(k, v) \<in> set (map (map_prod id go_value) kvs)" by (auto simp: map_of_entries dest: map_of_SomeD)
    then show ?thesis using JObject by (auto simp: snds.simps)
  qed
  then show ?case by (auto simp: list_all_iff)
qed (auto simp: list_all_iff)

lemma go_value_id: "json_ok j \<Longrightarrow> go_value j = j"
proof (induction j)
  case (JArray xs)
  then show ?case by (auto simp: list_all_iff intro: map_idI)
next
  case (JObject kvs)
  have "map (map_prod id go_value) kvs = kvs"
    using JObject by (intro map_idI) (auto simp: list_all_iff snds.simps)
  moreover have "map_entries kvs = kvs"
    using JObject.prems by (intro map_entries_perm) (auto simp: go_map_distinct)
  ultimately show ?case by simp
qed simp_all

lemma decodeDoc_ok: "decodeDoc m key = Inr (Some doc) \<Longrightarrow> json_ok (JObject doc)"
proof -
  assume "decodeDoc m key = Inr (Some doc)"
  then obtain j where "(case go_value j of JObject kvs \<Rightarrow> Inr (Some kvs) | JNull \<Rightarrow> Inr None | _ \<Rightarrow> Inl mismatch) = Inr (Some doc)"
    unfolding decodeDoc_def by (rule bind_result_InrE)
  then have "go_value j = JObject doc" by (cases "go_value j") simp_all
  then show ?thesis using go_value_ok[of j] by (simp only:)
qed

lemma set_orderedKeys: "set (orderedKeys m order) = fst ` set m"
  by (auto simp: orderedKeys_def Let_def)

lemma map_of_keys: "map_of (rev (map (\<lambda>k. (k, f k)) ks)) k = (if k \<in> set ks then Some (f k) else None)"
  by (induction ks) (auto simp: map_add_def split: option.split)

lemma ordered_fields_value:
  assumes "go_map m" and "set keys = fst ` set m"
    and "\<And>k v. map_of m k = Some v \<Longrightarrow> \<exists>w. map_of vals k = Some w \<and> go_value w = v"
  shows "go_value (ordered_fields keys vals) = JObject m"
proof -
  let ?f = "\<lambda>k. go_value (case map_of vals k of Some v \<Rightarrow> v | None \<Rightarrow> JNull)"
  have "map (map_prod id go_value) (map (\<lambda>k. (k, case map_of vals k of Some v \<Rightarrow> v | None \<Rightarrow> JNull)) keys)
      = map (\<lambda>k. (k, ?f k)) keys" by simp
  moreover have "map_entries (map (\<lambda>k. (k, ?f k)) keys) = m"
  proof (rule go_map_eqI)
    show "map_of (map_entries (map (\<lambda>k. (k, ?f k)) keys)) = map_of m"
    proof
      fix k
      show "map_of (map_entries (map (\<lambda>k. (k, ?f k)) keys)) k = map_of m k"
      proof (cases "map_of m k")
        case None
        then have "k \<notin> set keys" unfolding assms(2) by (simp add: map_of_eq_None_iff)
        then show ?thesis unfolding None by (simp add: map_of_entries map_of_keys)
      next
        case (Some v)
        then have "k \<in> set keys" unfolding assms(2) by (force dest: map_of_SomeD)
        moreover obtain w where "map_of vals k = Some w" "go_value w = v" using assms(3)[OF Some] by blast
        ultimately show ?thesis using Some by (simp add: map_of_entries map_of_keys)
      qed
    qed
  qed (simp_all add: assms(1))
  ultimately show ?thesis unfolding ordered_fields_def by (simp only: go_value.simps)
qed

lemma orderArray_value: "list_all json_ok arr \<Longrightarrow> map go_value (orderArray arr order) = arr"
proof (induction arr)
  case (Cons x xs)
  have "go_value (case x of JObject entry \<Rightarrow> ordered_fields (orderedKeys entry order) entry | _ \<Rightarrow> x) = x"
  proof (cases x)
    case (JObject entry)
    have ok: "go_map entry" "\<And>k v. map_of entry k = Some v \<Longrightarrow> json_ok v"
      using Cons.prems JObject by (auto simp: list_all_iff dest!: map_of_SomeD)
    have "go_value (ordered_fields (orderedKeys entry order) entry) = JObject entry"
      using ok by (intro ordered_fields_value) (auto simp: set_orderedKeys go_value_id)
    then show ?thesis using JObject by simp
  qed (use Cons.prems in \<open>auto simp: go_value_id list_all_iff intro!: map_idI\<close>)
  then show ?case using Cons by (simp add: orderArray_def)
qed (simp add: orderArray_def)

lemma canonical_value_decodes:
  assumes "json_ok v"
  shows "go_value (canonical_value p key k v) = v"
proof (cases v)
  case (JArray arr)
  then have "list_all json_ok arr" using assms by (simp add: list_all_iff)
  then show ?thesis using JArray by (simp add: canonical_value_def orderArray_value)
qed (use go_value_id[OF assms] in \<open>simp_all add: canonical_value_def\<close>)

lemma map_of_mapped: "map_of (map (\<lambda>(k, v). (k, f k v)) m) k = map_option (f k) (map_of m k)"
  by (induction m) auto

lemma canonicalizeDoc_decodes:
  assumes "json_ok (JObject doc)"
  shows "go_value (canonicalizeDoc doc key p) = JObject doc"
  unfolding canonicalizeDoc_def Let_def
proof (rule ordered_fields_value)
  show "go_map doc" using assms by simp
  show "set (orderedKeys doc (if key = ''project.json'' then projectDocOrder else moduleDocOrder)) = fst ` set doc"
    by (rule set_orderedKeys)
  fix k v assume v: "map_of doc k = Some v"
  then have "json_ok v" using assms by (auto simp: list_all_iff dest!: map_of_SomeD)
  then show "\<exists>w. map_of (map (\<lambda>(k, v). (k, canonical_value p key k v)) doc) k = Some w \<and> go_value w = v"
    using v by (simp add: map_of_mapped canonical_value_decodes)
qed

text \<open>
  C35: writing a document in canonical form and decoding it again is the identity: the layout loses
  no member, entry or value, whatever the profile, and so a decoded document is written back the same
  way every time.
\<close>

theorem canonical_roundtrip:
  assumes "decodeDoc m key = Inr (Some doc)"
  shows "decodeDoc (AList.update key' (Doc (canonicalizeDoc doc key' p)) m') key' = Inr (Some doc)"
  using canonicalizeDoc_decodes[OF decodeDoc_ok[OF assms], of key' p]
  by (simp add: decodeDoc_def file_json_def ReadFile_def)

text \<open>The layout is a function of the map alone: Go's iteration order does not show in it.\<close>

lemma orderedKeys_perm:
  assumes "distinct (map fst m)" and "distinct (map fst m')" and "map_of m = map_of m'"
  shows "orderedKeys m order = orderedKeys m' order"
proof -
  have s: "set m = set m'" using map_of_inject_set[OF assms(1,2)] assms(3) by simp
  have "sort (filter P (map fst m)) = sort (filter P (map fst m'))" for P
  proof (rule sorted_distinct_set_unique)
    show "set (sort (filter P (map fst m))) = set (sort (filter P (map fst m')))" using s by auto
  qed (use assms(1,2) in \<open>simp_all add: distinct_filter\<close>)
  then show ?thesis unfolding orderedKeys_def Let_def s by simp
qed

lemma canonicalizeDoc_perm:
  assumes "distinct (map fst m)" and "distinct (map fst m')" and "map_of m = map_of m'"
  shows "canonicalizeDoc m key p = canonicalizeDoc m' key p"
  unfolding canonicalizeDoc_def Let_def orderedKeys_perm[OF assms] ordered_fields_def
  by (simp add: map_of_mapped assms(3))

definition sample_module_doc :: json where
  "sample_module_doc =
     JObject [(''components'', JArray [JObject [(''uses'', JArray [JString ''b'']), (''zeta'', JNumber ''1''), (''id'', JString ''a'')]]),
              (''name'', JString ''core'')]"

theorem canonical_roundtrip_witness:
  "decodeDoc [(''core/module.json'', Doc sample_module_doc)] ''core/module.json'' =
     decodeDoc (AList.update ''x'' (Doc (canonicalizeDoc
        [(''components'', JArray [JObject [(''id'', JString ''a''), (''uses'', JArray [JString ''b'']), (''zeta'', JNumber ''1'')]]),
         (''name'', JString ''core'')] ''x'' None)) []) ''x''"
proof -
  have d: "decodeDoc [(''core/module.json'', Doc sample_module_doc)] ''core/module.json'' = Inr (Some
     [(''components'', JArray [JObject [(''id'', JString ''a''), (''uses'', JArray [JString ''b'']), (''zeta'', JNumber ''1'')]]),
      (''name'', JString ''core'')])" by code_simp
  show ?thesis unfolding d by (rule canonical_roundtrip[OF d, symmetric])
qed

end
