(* ===== verification/Merkle_Completeness.thy ===== *)
theory Merkle_Completeness
  imports Merkle_Build
begin

text \<open>
  The completeness check of a diff (\<open>merkle/completeness_checker.go\<close>): a changed requirement owes a
  change of the content leaf of every component that implements it, a changed module file owes one
  of every component of the module.
\<close>

subsection \<open>Findings\<close>

text \<open>The messages, with the values they name; \<open>Finding\<close> carries the message of a checker.\<close>

datatype diff_message =
    ModifiedUnchanged string string string
  | AddedNotImplemented string string
  | AddedUnchanged string string string
  | StillImplements string string string
  | NoDerivation string
  | ProjectChangedUnchanged string string string
  | StillDerives string string string
  | MetaUnchanged string string
  | Finding message

record diff_error =
  de_type :: string
  de_message :: diff_message
  de_path :: string
  de_related :: "string list"

definition incomplete :: "diff_message \<Rightarrow> string \<Rightarrow> string list \<Rightarrow> diff_error" where
  "incomplete msg path related =
     \<lparr>de_type = ''incomplete_change'', de_message = msg, de_path = path, de_related = related\<rparr>"

definition requirementLabel :: "string \<Rightarrow> string \<Rightarrow> string" where
  "requirementLabel title hash = (if title \<noteq> [] then [CHR 0x27] @ title @ [CHR 0x27] else hash)"

subsection \<open>Requirements and their components\<close>

definition implementsReq :: "component \<Rightarrow> string \<Rightarrow> bool" where
  "implementsReq c reqHash \<longleftrightarrow> reqHash \<in> set (cmp_implements c)"

definition findImplementors :: "module_spec \<Rightarrow> string \<Rightarrow> component list" where
  "findImplementors modSpec reqHash = filter (\<lambda>c. implementsReq c reqHash) (ms_components modSpec)"

definition findRequirementTitle :: "module_spec \<Rightarrow> string \<Rightarrow> string" where
  "findRequirementTitle modSpec reqHash =
     (case find (\<lambda>r. mrq_id r = reqHash) (ms_requirements modSpec) of
        Some r \<Rightarrow> mrq_title r
      | None \<Rightarrow> reqHash)"

text \<open>The components, of a list, whose content leaf did not change, each as a finding.\<close>

definition unchanged :: "(component \<Rightarrow> diff_message) \<Rightarrow> string \<Rightarrow> string set \<Rightarrow> component list \<Rightarrow> diff_error list" where
  "unchanged msg path changedPaths cs =
     map (\<lambda>c. incomplete (msg c) path [cmp_id c]) (filter (\<lambda>c. cmp_id c \<notin> changedPaths) cs)"

definition checkModifiedRequirement :: "string \<Rightarrow> module_spec \<Rightarrow> string set \<Rightarrow> diff_error list" where
  "checkModifiedRequirement reqHash modSpec changedPaths =
     (let label = requirementLabel (findRequirementTitle modSpec reqHash) reqHash
      in unchanged (\<lambda>c. ModifiedUnchanged label (ms_name modSpec) (cmp_name c)) reqHash changedPaths
           (findImplementors modSpec reqHash))"

definition checkAddedRequirement :: "string \<Rightarrow> module_spec \<Rightarrow> string set \<Rightarrow> diff_error list" where
  "checkAddedRequirement reqHash modSpec changedPaths =
     (let label = requirementLabel (findRequirementTitle modSpec reqHash) reqHash;
          implementors = findImplementors modSpec reqHash
      in if implementors = [] then [incomplete (AddedNotImplemented label (ms_name modSpec)) reqHash []]
         else unchanged (\<lambda>c. AddedUnchanged label (ms_name modSpec) (cmp_name c)) reqHash changedPaths implementors)"

definition checkRemovedRequirement :: "string \<Rightarrow> module_spec \<Rightarrow> diff_error list" where
  "checkRemovedRequirement reqHash modSpec =
     map (\<lambda>c. incomplete (StillImplements (cmp_name c) reqHash (ms_name modSpec)) reqHash [cmp_id c])
       (findImplementors modSpec reqHash)"

record derived_requirement =
  dr_module_hash :: string
  dr_req_hash :: string
  dr_mod_spec :: module_spec

definition findDerivedModuleRequirements :: "string \<Rightarrow> project \<Rightarrow> (string \<Rightarrow> module_spec option)
    \<Rightarrow> derived_requirement list" where
  "findDerivedModuleRequirements projReqHash prj loadModule =
     concat (map (\<lambda>m.
       case loadModule (mod_id m) of
         None \<Rightarrow> []
       | Some modSpec \<Rightarrow>
           map (\<lambda>r. \<lparr>dr_module_hash = mod_id m, dr_req_hash = mrq_id r, dr_mod_spec = modSpec\<rparr>)
             (filter (\<lambda>r. mrq_preq_id r = projReqHash) (ms_requirements modSpec)))
     (prj_modules prj))"

definition checkProjectRequirementModifiedOrAdded :: "string \<Rightarrow> string \<Rightarrow> project
    \<Rightarrow> (string \<Rightarrow> module_spec option) \<Rightarrow> string set \<Rightarrow> diff_error list" where
  "checkProjectRequirementModifiedOrAdded projReqHash projReqTitle prj loadModule changedPaths =
     (let label = requirementLabel projReqTitle projReqHash;
          derived = findDerivedModuleRequirements projReqHash prj loadModule
      in if derived = [] then [incomplete (NoDerivation label) projReqHash []]
         else concat (map (\<lambda>dr.
                unchanged (\<lambda>c. ProjectChangedUnchanged label (cmp_name c) (ms_name (dr_mod_spec dr))) projReqHash
                  changedPaths (findImplementors (dr_mod_spec dr) (dr_req_hash dr))) derived))"

definition checkProjectRequirementRemoved :: "string \<Rightarrow> string \<Rightarrow> project
    \<Rightarrow> (string \<Rightarrow> module_spec option) \<Rightarrow> diff_error list" where
  "checkProjectRequirementRemoved projReqHash projReqTitle prj loadModule =
     (let label = requirementLabel projReqTitle projReqHash
      in map (\<lambda>dr. incomplete (StillDerives (dr_req_hash dr) (ms_name (dr_mod_spec dr)) label) projReqHash
                     [dr_req_hash dr])
           (findDerivedModuleRequirements projReqHash prj loadModule))"

subsection \<open>The check\<close>

record completeness_triggers =
  tr_project :: "string set"
  tr_module :: "string set"

definition completenessTriggerTypes :: "profile \<Rightarrow> completeness_triggers" where
  "completenessTriggerTypes p =
     (let types = filter nt_completeness_trigger (prf_node_types p)
      in \<lparr>tr_project = nt_name ` set (filter (\<lambda>t. nt_scope t = ''project'') types),
          tr_module = nt_name ` set (filter (\<lambda>t. nt_scope t = ''module'') types)\<rparr>)"

definition readProject :: "mem_fs \<Rightarrow> (file_error, project) result" where
  "readProject m = bind_result (file_json m ''project.json'') decode_project"

definition readModuleSpec :: "mem_fs \<Rightarrow> string \<Rightarrow> (file_error, module_spec) result" where
  "readModuleSpec m name = bind_result (file_json m name) decode_module_spec"

text \<open>
  \<open>loadModule\<close> caches each module it has read; the directory does not change under it, so the cache
  is left out.
\<close>

definition load_module :: "mem_fs \<Rightarrow> project \<Rightarrow> string \<Rightarrow> module_spec option" where
  "load_module m prj moduleHash =
     (case map_of (rev (map (\<lambda>d. (mod_id d, d)) (prj_modules prj))) moduleHash of
        None \<Rightarrow> None
      | Some d \<Rightarrow>
          (case readModuleSpec m (filepath_Join [mod_path d, ''module.json'']) of
             Inl e \<Rightarrow> None
           | Inr spec \<Rightarrow> Some spec))"

definition requirement_title :: "project \<Rightarrow> string \<Rightarrow> string" where
  "requirement_title prj key =
     (case map_of (rev (map (\<lambda>r. (req_id r, req_title r)) (prj_requirements prj))) key of
        Some t \<Rightarrow> t
      | None \<Rightarrow> [])"

definition is_module_req :: "profile \<Rightarrow> classified_change \<Rightarrow> bool" where
  "is_module_req p c \<longleftrightarrow> cc_node_type c \<in> tr_module (completenessTriggerTypes p) \<and> chg_module (cc_change c) \<noteq> []"

definition is_project_req :: "profile \<Rightarrow> classified_change \<Rightarrow> bool" where
  "is_project_req p c \<longleftrightarrow>
     cc_node_type c \<in> tr_project (completenessTriggerTypes p) \<and> chg_module (cc_change c) = []"

definition is_meta :: "profile \<Rightarrow> classified_change \<Rightarrow> bool" where
  "is_meta p c \<longleftrightarrow> \<not> is_module_req p c \<and> cc_node_type c = ''meta'' \<and> chg_module (cc_change c) \<noteq> []"

definition module_req_findings :: "(string \<Rightarrow> module_spec option) \<Rightarrow> string set \<Rightarrow> classified_change \<Rightarrow> diff_error list" where
  "module_req_findings loadModule changedPaths c =
     (case loadModule (chg_module (cc_change c)) of
        None \<Rightarrow> []
      | Some modSpec \<Rightarrow>
          (case cc_type c of
             Modified \<Rightarrow> checkModifiedRequirement (cc_key c) modSpec changedPaths
           | Added \<Rightarrow> checkAddedRequirement (cc_key c) modSpec changedPaths
           | Removed \<Rightarrow> checkRemovedRequirement (cc_key c) modSpec))"

definition project_req_findings :: "project \<Rightarrow> (string \<Rightarrow> module_spec option) \<Rightarrow> string set \<Rightarrow> classified_change
    \<Rightarrow> diff_error list" where
  "project_req_findings prj loadModule changedPaths c =
     (let reqTitle = requirement_title prj (cc_key c)
      in case cc_type c of
           Removed \<Rightarrow> checkProjectRequirementRemoved (cc_key c) reqTitle prj loadModule
         | _ \<Rightarrow> checkProjectRequirementModifiedOrAdded (cc_key c) reqTitle prj loadModule changedPaths)"

definition meta_findings :: "(string \<Rightarrow> module_spec option) \<Rightarrow> string set \<Rightarrow> string \<Rightarrow> diff_error list" where
  "meta_findings loadModule changedPaths modHash =
     (case loadModule modHash of
        None \<Rightarrow> []
      | Some modSpec \<Rightarrow>
          unchanged (\<lambda>c. MetaUnchanged (ms_name modSpec) (cmp_name c)) (''meta/'' @ modHash) changedPaths
            (ms_components modSpec))"

text \<open>The changed module files are visited in Go's map order; here, in the order of their changes.\<close>

definition CheckCompletenessFS :: "classified_change list \<Rightarrow> mem_fs \<Rightarrow> profile \<Rightarrow> diff_error list" where
  "CheckCompletenessFS changes m p =
     (let changedPaths = cc_key ` set changes;
          moduleReqChanges = filter (is_module_req p) changes;
          projectReqChanges = filter (is_project_req p) changes;
          metaModules = dedup (map (\<lambda>c. chg_module (cc_change c)) (filter (is_meta p) changes));
          reqModules = (\<lambda>c. chg_module (cc_change c)) ` set moduleReqChanges
      in if moduleReqChanges = [] \<and> projectReqChanges = [] \<and> metaModules = [] then []
         else case readProject m of
                Inl e \<Rightarrow> []
              | Inr prj \<Rightarrow>
                  let loadModule = load_module m prj
                  in concat (map (module_req_findings loadModule changedPaths) moduleReqChanges) @
                     concat (map (project_req_findings prj loadModule changedPaths) projectReqChanges) @
                     concat (map (meta_findings loadModule changedPaths)
                       (filter (\<lambda>h. h \<notin> reqModules) metaModules)))"

end
