(* ===== verification/Completeness_Rules.thy ===== *)
theory Completeness_Rules
  imports Merkle_Completeness
begin

text \<open>
  What the completeness check demands, stated without it: which component leaves a changed requirement or
  module file obliges to change, and which references a removed requirement must not leave behind.
\<close>

subsection \<open>Obligations\<close>

text \<open>Every component of a module that implements a requirement has a changed leaf.\<close>

definition implementors_moved :: "module_spec \<Rightarrow> string \<Rightarrow> string set \<Rightarrow> bool" where
  "implementors_moved spec r moved \<longleftrightarrow> (\<forall>c \<in> set (ms_components spec). r \<in> set (cmp_implements c) \<longrightarrow> cmp_id c \<in> moved)"

definition implemented_in :: "module_spec \<Rightarrow> string \<Rightarrow> bool" where
  "implemented_in spec r \<longleftrightarrow> (\<exists>c \<in> set (ms_components spec). r \<in> set (cmp_implements c))"

definition module_req_met :: "(string \<Rightarrow> module_spec option) \<Rightarrow> string set \<Rightarrow> classified_change \<Rightarrow> bool" where
  "module_req_met load moved c \<longleftrightarrow>
     (\<forall>spec. load (chg_module (cc_change c)) = Some spec \<longrightarrow>
        (case cc_type c of
           Modified \<Rightarrow> implementors_moved spec (cc_key c) moved
         | Added \<Rightarrow> implemented_in spec (cc_key c) \<and> implementors_moved spec (cc_key c) moved
         | Removed \<Rightarrow> \<not> implemented_in spec (cc_key c)))"

text \<open>A module requirement that derives from a project requirement, with its module.\<close>

definition derives :: "project \<Rightarrow> (string \<Rightarrow> module_spec option) \<Rightarrow> string \<Rightarrow> module_spec \<Rightarrow> string \<Rightarrow> bool" where
  "derives prj load q spec r \<longleftrightarrow>
     (\<exists>d \<in> set (prj_modules prj). load (mod_id d) = Some spec \<and>
        (\<exists>mr \<in> set (ms_requirements spec). mrq_preq_id mr = q \<and> mrq_id mr = r))"

definition project_req_met :: "project \<Rightarrow> (string \<Rightarrow> module_spec option) \<Rightarrow> string set \<Rightarrow> classified_change \<Rightarrow> bool" where
  "project_req_met prj load moved c \<longleftrightarrow>
     (if cc_type c = Removed then (\<nexists>spec r. derives prj load (cc_key c) spec r)
      else (\<exists>spec r. derives prj load (cc_key c) spec r) \<and>
           (\<forall>spec r. derives prj load (cc_key c) spec r \<longrightarrow> implementors_moved spec r moved))"

definition meta_met :: "(string \<Rightarrow> module_spec option) \<Rightarrow> string set \<Rightarrow> string \<Rightarrow> bool" where
  "meta_met load moved h \<longleftrightarrow> (\<forall>spec. load h = Some spec \<longrightarrow> (\<forall>c \<in> set (ms_components spec). cmp_id c \<in> moved))"

subsection \<open>Each rule is exact\<close>

named_theorems rule_simps \<open>when a completeness rule is silent\<close>

lemma unchanged_Nil [rule_simps]: "unchanged msg path moved cs = [] \<longleftrightarrow> (\<forall>c \<in> set cs. cmp_id c \<in> moved)"
  by (auto simp: unchanged_def filter_empty_conv)

lemma set_findImplementors [rule_simps]:
  "c \<in> set (findImplementors spec r) \<longleftrightarrow> c \<in> set (ms_components spec) \<and> r \<in> set (cmp_implements c)"
  by (auto simp: findImplementors_def implementsReq_def)

lemma findImplementors_Nil [rule_simps]: "findImplementors spec r = [] \<longleftrightarrow> \<not> implemented_in spec r"
  by (auto simp: findImplementors_def implementsReq_def implemented_in_def filter_empty_conv)

lemma implementors_Nil [rule_simps]: "(\<forall>c \<in> set (findImplementors spec r). cmp_id c \<in> moved) \<longleftrightarrow> implementors_moved spec r moved"
  by (auto simp: rule_simps implementors_moved_def)

lemma module_req_findings_Nil: "module_req_findings load moved c = [] \<longleftrightarrow> module_req_met load moved c"
  by (auto simp: module_req_findings_def module_req_met_def checkModifiedRequirement_def checkAddedRequirement_def
      checkRemovedRequirement_def Let_def unchanged_Nil implementors_Nil findImplementors_Nil split: option.split change_type.split)

lemma set_derived:
  "dr \<in> set (findDerivedModuleRequirements q prj load) \<longrightarrow> derives prj load q (dr_mod_spec dr) (dr_req_hash dr)"
  by (auto simp: findDerivedModuleRequirements_def derives_def split: option.splits)

lemma derived_set:
  assumes "derives prj load q spec r"
  shows "\<exists>dr \<in> set (findDerivedModuleRequirements q prj load). dr_mod_spec dr = spec \<and> dr_req_hash dr = r"
proof -
  obtain d mr where d: "d \<in> set (prj_modules prj)" "load (mod_id d) = Some spec"
      and mr: "mr \<in> set (ms_requirements spec)" "mrq_preq_id mr = q" "mrq_id mr = r"
    using assms by (auto simp: derives_def)
  have "\<lparr>dr_module_hash = mod_id d, dr_req_hash = r, dr_mod_spec = spec\<rparr> \<in> set (findDerivedModuleRequirements q prj load)"
    unfolding findDerivedModuleRequirements_def set_concat set_map
    by (intro UnionI[OF imageI[OF imageI[OF d(1)]]]) (use d(2) mr in auto)
  then show ?thesis by force
qed

lemma derived_Nil: "findDerivedModuleRequirements q prj load = [] \<longleftrightarrow> (\<nexists>spec r. derives prj load q spec r)"
  using set_derived[of _ q prj load] derived_set[of prj load q]
  by (cases "findDerivedModuleRequirements q prj load") fastforce+

lemma project_req_findings_Nil: "project_req_findings prj load moved c = [] \<longleftrightarrow> project_req_met prj load moved c"
proof -
  have all: "(\<forall>dr \<in> set (findDerivedModuleRequirements q prj load). implementors_moved (dr_mod_spec dr) (dr_req_hash dr) moved) \<longleftrightarrow>
      (\<forall>spec r. derives prj load q spec r \<longrightarrow> implementors_moved spec r moved)" for q
    using set_derived[of _ q prj load] derived_set[of prj load q] by metis
  have "checkProjectRequirementModifiedOrAdded q t prj load moved = [] \<longleftrightarrow>
      (\<exists>spec r. derives prj load q spec r) \<and> (\<forall>spec r. derives prj load q spec r \<longrightarrow> implementors_moved spec r moved)" for q t
    by (simp add: checkProjectRequirementModifiedOrAdded_def Let_def unchanged_Nil implementors_Nil derived_Nil all)
  moreover have "checkProjectRequirementRemoved q t prj load = [] \<longleftrightarrow> (\<nexists>spec r. derives prj load q spec r)" for q t
    by (simp add: checkProjectRequirementRemoved_def Let_def derived_Nil)
  ultimately show ?thesis by (cases "cc_type c") (simp_all add: project_req_findings_def project_req_met_def Let_def)
qed

lemma meta_findings_Nil: "meta_findings load moved h = [] \<longleftrightarrow> meta_met load moved h"
  by (auto simp: meta_findings_def meta_met_def unchanged_Nil split: option.split)

subsection \<open>The check\<close>

lemma concat_map_filter_Nil: "concat (map f (filter P xs)) = [] \<longleftrightarrow> (\<forall>x \<in> set xs. P x \<longrightarrow> f x = [])"
  by auto

lemma metas_iff:
  "(\<forall>h \<in> set (dedup (map g (filter M cs))). h \<notin> g ` set (filter R cs) \<longrightarrow> Q h) \<longleftrightarrow>
   (\<forall>c \<in> set cs. M c \<and> (\<forall>c' \<in> set cs. R c' \<longrightarrow> g c' \<noteq> g c) \<longrightarrow> Q (g c))"
proof -
  have "g c \<notin> g ` set (filter R cs) \<longleftrightarrow> (\<forall>c' \<in> set cs. R c' \<longrightarrow> g c' \<noteq> g c)" for c
    unfolding image_iff by simp metis
  moreover have "set (dedup (map g (filter M cs))) = g ` {c \<in> set cs. M c}"
    by simp
  ultimately show ?thesis by (simp only: ball_simps) blast
qed

text \<open>
  C36: the completeness check is silent exactly when every obligation of the diff is met: a changed module
  requirement is implemented and every implementor's leaf changed, a changed project requirement is derived and
  the implementors of every derivation changed, nothing implements or derives from what was removed, and a
  module file that changed without a requirement of its module changed the leaf of each of its components. A
  project file that cannot be read obliges nothing.
\<close>

theorem CheckCompleteness_exact:
  "CheckCompletenessFS changes m p = [] \<longleftrightarrow>
    (\<forall>prj. readProject m = Inr prj \<longrightarrow>
      (\<forall>c \<in> set changes.
        (is_module_req p c \<longrightarrow> module_req_met (load_module m prj) (cc_key ` set changes) c) \<and>
        (is_project_req p c \<longrightarrow> project_req_met prj (load_module m prj) (cc_key ` set changes) c) \<and>
        (is_meta p c \<and> (\<forall>c' \<in> set changes. is_module_req p c' \<longrightarrow> chg_module (cc_change c') \<noteq> chg_module (cc_change c)) \<longrightarrow>
           meta_met (load_module m prj) (cc_key ` set changes) (chg_module (cc_change c)))))"
proof (cases "readProject m")
  case (Inl e)
  then show ?thesis by (simp add: CheckCompletenessFS_def Let_def)
next
  case (Inr prj)
  let ?load = "load_module m prj" and ?moved = "cc_key ` set changes"
  let ?metas = "dedup (map (\<lambda>c. chg_module (cc_change c)) (filter (is_meta p) changes))"
  let ?fs = "concat (map (module_req_findings ?load ?moved) (filter (is_module_req p) changes)) @
    concat (map (project_req_findings prj ?load ?moved) (filter (is_project_req p) changes)) @
    concat (map (meta_findings ?load ?moved)
      (filter (\<lambda>h. h \<notin> (\<lambda>c. chg_module (cc_change c)) ` set (filter (is_module_req p) changes)) ?metas))"
  have "CheckCompletenessFS changes m p = ?fs"
    by (simp add: CheckCompletenessFS_def Inr Let_def del: filter_empty_conv)
  moreover have "concat (map (module_req_findings ?load ?moved) (filter (is_module_req p) changes)) = [] \<longleftrightarrow>
      (\<forall>c \<in> set changes. is_module_req p c \<longrightarrow> module_req_met ?load ?moved c)"
    unfolding concat_map_filter_Nil module_req_findings_Nil ..
  moreover have "concat (map (project_req_findings prj ?load ?moved) (filter (is_project_req p) changes)) = [] \<longleftrightarrow>
      (\<forall>c \<in> set changes. is_project_req p c \<longrightarrow> project_req_met prj ?load ?moved c)"
    unfolding concat_map_filter_Nil project_req_findings_Nil ..
  moreover have "concat (map (meta_findings ?load ?moved)
        (filter (\<lambda>h. h \<notin> (\<lambda>c. chg_module (cc_change c)) ` set (filter (is_module_req p) changes)) ?metas)) = [] \<longleftrightarrow>
      (\<forall>c \<in> set changes. is_meta p c \<and>
         (\<forall>c' \<in> set changes. is_module_req p c' \<longrightarrow> chg_module (cc_change c') \<noteq> chg_module (cc_change c)) \<longrightarrow>
         meta_met ?load ?moved (chg_module (cc_change c)))"
    unfolding concat_map_filter_Nil meta_findings_Nil by (rule metas_iff)
  ultimately show ?thesis using Inr by (simp add: ball_conj_distrib)
qed

subsection \<open>A complete change\<close>

definition complete_dir :: mem_fs where
  "complete_dir =
     [(''core/module.json'', Doc (JObject
         [(''name'', JString ''core''),
          (''components'', JArray [JObject [(''id'', JString ''c1''), (''name'', JString ''loader''),
             (''implements'', JArray [JString ''r1''])]])])),
      (''project.json'', Doc (JObject
         [(''name'', JString ''demo''),
          (''modules'', JArray [JObject [(''id'', JString ''m1''), (''name'', JString ''core''), (''path'', JString ''core'')]])]))]"

definition complete_change :: "string \<Rightarrow> string \<Rightarrow> classified_change" where
  "complete_change k nt =
     \<lparr>cc_change = \<lparr>chg_key = k, chg_type = Modified, chg_node_type = nt, chg_module = ''m1'', chg_old_hash = ''a'', chg_new_hash = ''b''\<rparr>,
      cc_impact = ArchImpl, cc_module = ''core''\<rparr>"

theorem CheckCompleteness_exact_witness:
  "\<exists>prj spec. readProject complete_dir = Inr prj \<and> load_module complete_dir prj ''m1'' = Some spec \<and>
     implementors_moved spec ''r1'' {''r1'', ''c1''} \<and> implemented_in spec ''r1''"
proof -
  let ?cs = "[complete_change ''r1'' ''requirement'', complete_change ''c1'' ''component'']"
  have ok: "CheckCompletenessFS ?cs complete_dir embedded_profile = []" by code_simp
  have "case readProject complete_dir of Inl e \<Rightarrow> False
      | Inr prj \<Rightarrow> (case load_module complete_dir prj ''m1'' of None \<Rightarrow> False
          | Some spec \<Rightarrow> list_ex (\<lambda>c. ''r1'' \<in> set (cmp_implements c)) (ms_components spec))"
    by code_simp
  then obtain prj spec where d: "readProject complete_dir = Inr prj" "load_module complete_dir prj ''m1'' = Some spec"
      "implemented_in spec ''r1''"
    by (auto simp: implemented_in_def list_ex_iff split: sum.splits option.splits)
  have "is_module_req embedded_profile (complete_change ''r1'' ''requirement'')" by code_simp
  then have "module_req_met (load_module complete_dir prj) (cc_key ` set ?cs) (complete_change ''r1'' ''requirement'')"
    using CheckCompleteness_exact[of ?cs complete_dir embedded_profile] ok d(1) by simp
  then have "implementors_moved spec ''r1'' (cc_key ` set ?cs)"
    using d(2) by (simp add: module_req_met_def complete_change_def)
  then show ?thesis using d by (simp add: complete_change_def)
qed

end
