(* ===== verification/Author_Locate.thy ===== *)
theory Author_Locate
  imports Author_Canonical Merkle_Completeness
begin

text \<open>
  Finding a node by its id for an edit (\<open>author/node_renamer.go\<close>, \<open>author/node_editor.go\<close>,
  \<open>author/edge_editor.go\<close>, \<open>author/leaf_scaffolder.go\<close>): entries of a decoded document, the location of
  a node, the documents and content leaves of a directory.
\<close>

subsection \<open>Entries of a document\<close>

definition doc_array :: "raw_entry \<Rightarrow> string \<Rightarrow> json list option" where
  "doc_array d k = (case map_of d k of Some (JArray xs) \<Rightarrow> Some xs | _ \<Rightarrow> None)"

fun entry_map :: "json \<Rightarrow> raw_entry option" where
  "entry_map (JObject e) = Some e"
| "entry_map _ = None"

definition entry_with :: "string \<Rightarrow> json \<Rightarrow> bool" where
  "entry_with i item \<longleftrightarrow> (case entry_map item of Some e \<Rightarrow> str_field e ''id'' = i | None \<Rightarrow> False)"

definition findEntryMap :: "raw_entry \<Rightarrow> string \<Rightarrow> string \<Rightarrow> raw_entry option" where
  "findEntryMap d pluralKey i =
     (case doc_array d pluralKey of
        None \<Rightarrow> None
      | Some arr \<Rightarrow> (case find (entry_with i) arr of None \<Rightarrow> None | Some item \<Rightarrow> entry_map item))"

definition findEntryField :: "raw_entry \<Rightarrow> string \<Rightarrow> string \<Rightarrow> string \<Rightarrow> string option" where
  "findEntryField d pluralKey i f = map_option (\<lambda>e. str_field e f) (findEntryMap d pluralKey i)"

text \<open>
  Go edits an entry in place, in the array of the decoded document: the first entry with the id is
  replaced by its image.
\<close>

fun replace_first :: "('a \<Rightarrow> bool) \<Rightarrow> ('a \<Rightarrow> 'a) \<Rightarrow> 'a list \<Rightarrow> 'a list" where
  "replace_first P f [] = []"
| "replace_first P f (x # xs) = (if P x then f x # xs else x # replace_first P f xs)"

definition edit_entry :: "raw_entry \<Rightarrow> string \<Rightarrow> string \<Rightarrow> (raw_entry \<Rightarrow> raw_entry) \<Rightarrow> raw_entry" where
  "edit_entry d pluralKey i f =
     (case doc_array d pluralKey of
        None \<Rightarrow> d
      | Some arr \<Rightarrow>
          gput pluralKey
            (JArray (replace_first (entry_with i) (\<lambda>item. case item of JObject e \<Rightarrow> JObject (f e) | _ \<Rightarrow> item) arr)) d)"

subsection \<open>The location of a node\<close>

record node_location =
  nl_is_module :: bool
  nl_project_scope :: bool
  nl_module_name :: string
  nl_module_dir :: string
  nl_owner_file :: string
  nl_node_type :: node_type
  nl_name :: string

definition zero_node_type :: node_type where
  "zero_node_type =
     \<lparr>nt_name = [], nt_plural_key = [], nt_scope = [], nt_requires_content = False, nt_completeness_trigger = False,
      nt_name_declarable = False, nt_fields = [], nt_comment = [], nt_content_prefix = None, nt_leaf_sections = None\<rparr>"

definition module_location :: node_location where
  "module_location =
     \<lparr>nl_is_module = True, nl_project_scope = False, nl_module_name = [], nl_module_dir = [], nl_owner_file = [],
      nl_node_type = zero_node_type, nl_name = []\<rparr>"

datatype author_error =
    ProfileError string
  | DocError file_error
  | NodeNotFound string
  | EntryMissing string string
  | ModuleFlagMissing string
  | NoModuleNamed string
  | InvalidInteger string string
  | ContentOccupied string
  | ContentNotFound string
  | TreeError file_error
  | WriteFailed string
  | RemoveFailed string
  | NilMapAssignment

definition lift_doc :: "(file_error, 'a) result \<Rightarrow> (author_error, 'a) result" where
  "lift_doc r = (case r of Inl e \<Rightarrow> Inl (DocError e) | Inr a \<Rightarrow> Inr a)"

lemma lift_doc_simps [simp]: "lift_doc (Inl e) = Inl (DocError e)" "lift_doc (Inr a) = Inr a"
  by (simp_all add: lift_doc_def)

lemma lift_doc_Inr_iff [loop_simps]: "lift_doc r = Inr a \<longleftrightarrow> r = Inr a"
  by (cases r) auto

definition decode_entries_of :: "mem_fs \<Rightarrow> string \<Rightarrow> (author_error, raw_entry) result" where
  "decode_entries_of m key = lift_doc (bind_result (decodeDoc m key) (\<lambda>d. Inr (doc_entries d)))"

text \<open>The first node type of a scope under whose key the document has an entry with the id.\<close>

definition type_with :: "profile \<Rightarrow> string \<Rightarrow> raw_entry \<Rightarrow> string \<Rightarrow> node_type option" where
  "type_with p scope d i =
     find (\<lambda>nt. nt_scope nt = scope \<and> findEntryField d (nt_plural_key nt) i ''name'' \<noteq> None) (prf_node_types p)"

definition module_file :: "module_decl \<Rightarrow> string" where
  "module_file md = filepath_Join [mod_path md, ''module.json'']"

fun locate_in_modules :: "mem_fs \<Rightarrow> profile \<Rightarrow> string \<Rightarrow> module_decl list \<Rightarrow> node_location option" where
  "locate_in_modules m p i [] = None"
| "locate_in_modules m p i (md # mds) =
     (case decode_entries_of m (module_file md) of
        Inl e \<Rightarrow> locate_in_modules m p i mds
      | Inr d \<Rightarrow>
          (case type_with p ''module'' d i of
             None \<Rightarrow> locate_in_modules m p i mds
           | Some nt \<Rightarrow>
               Some \<lparr>nl_is_module = False, nl_project_scope = False, nl_module_name = mod_name md,
                     nl_module_dir = mod_path md, nl_owner_file = module_file md, nl_node_type = nt,
                     nl_name = the (findEntryField d (nt_plural_key nt) i ''name'')\<rparr>))"

definition locateNode :: "mem_fs \<Rightarrow> profile \<Rightarrow> string \<Rightarrow> (author_error, node_location) result" where
  "locateNode m p i =
     bind_result (decode_entries_of m ''project.json'') (\<lambda>projDoc.
       if (case doc_array projDoc ''modules'' of Some arr \<Rightarrow> list_ex (entry_with i) arr | None \<Rightarrow> False)
       then Inr module_location
       else case type_with p ''project'' projDoc i of
              Some nt \<Rightarrow>
                Inr \<lparr>nl_is_module = False, nl_project_scope = True, nl_module_name = [], nl_module_dir = [],
                     nl_owner_file = ''project.json'', nl_node_type = nt,
                     nl_name = the (findEntryField projDoc (nt_plural_key nt) i ''name'')\<rparr>
            | None \<Rightarrow>
                bind_result (lift_doc (readProject m)) (\<lambda>prj.
                  case locate_in_modules m p i (prj_modules prj) of
                    Some loc \<Rightarrow> Inr loc
                  | None \<Rightarrow> Inl (NodeNotFound i)))"

subsection \<open>Documents and leaves of a directory\<close>

definition specDocKeys :: "mem_fs \<Rightarrow> (author_error, string list) result" where
  "specDocKeys m =
     bind_result (lift_doc (readProject m)) (\<lambda>prj. Inr (''project.json'' # map module_file (prj_modules prj)))"

definition doc_scope :: "string \<Rightarrow> string" where
  "doc_scope key = (if key = ''project.json'' then ''project'' else ''module'')"

definition doc_dir :: "string \<Rightarrow> string" where
  "doc_dir key = (if key = ''project.json'' then [] else path_Dir key)"

text \<open>The content paths the entries of a document name.\<close>

definition doc_leaves :: "profile \<Rightarrow> string \<Rightarrow> raw_entry \<Rightarrow> string list" where
  "doc_leaves p key d =
     concat (map (\<lambda>nt.
       case doc_array d (nt_plural_key nt) of
         None \<Rightarrow> []
       | Some arr \<Rightarrow>
           List.map_filter (\<lambda>item.
             case entry_map item of
               None \<Rightarrow> None
             | Some e \<Rightarrow>
                 if str_field e ''content'' = [] then None
                 else Some (filepath_Join [doc_dir key, str_field e ''content''])) arr)
       (filter (\<lambda>nt. nt_scope nt = doc_scope key \<and> nt_requires_content nt) (prf_node_types p)))"

definition node_field :: "node_type \<Rightarrow> string \<Rightarrow> field option" where
  "node_field nt name = find (\<lambda>f. fld_name f = name) (nt_fields nt)"

text \<open>\<open>findModulePath\<close> and \<open>findModuleID\<close>: a project file that does not decode has no module.\<close>

definition find_module :: "mem_fs \<Rightarrow> string \<Rightarrow> module_decl option" where
  "find_module m name =
     (case readProject m of
        Inl e \<Rightarrow> None
      | Inr prj \<Rightarrow> find (\<lambda>md. mod_name md = name) (prj_modules prj))"

definition findModulePath :: "mem_fs \<Rightarrow> string \<Rightarrow> string option" where
  "findModulePath m name = map_option mod_path (find_module m name)"

definition findModuleID :: "mem_fs \<Rightarrow> string \<Rightarrow> string option" where
  "findModuleID m name = map_option mod_id (find_module m name)"

subsection \<open>Edits of entries\<close>

lemma entry_with_JObject [simp]: "entry_with i (JObject e) \<longleftrightarrow> str_field e ''id'' = i"
  by (simp add: entry_with_def)

lemma entry_withE:
  assumes "entry_with i item"
  obtains e where "item = JObject e" and "str_field e ''id'' = i"
  using assms by (cases item) (auto simp: entry_with_def)

lemma findEntryMap_Some:
  assumes "findEntryMap d k i = Some e"
  obtains arr where "doc_array d k = Some arr" and "find (entry_with i) arr = Some (JObject e)"
    and "JObject e \<in> set arr" and "str_field e ''id'' = i"
proof -
  obtain arr item where arr: "doc_array d k = Some arr" "find (entry_with i) arr = Some item" "entry_map item = Some e"
    using assms by (auto simp: findEntryMap_def split: option.splits)
  have "item \<in> set arr" "entry_with i item" using find_Some_D[OF arr(2)] by blast+
  moreover have "item = JObject e" using arr(3) by (cases item) auto
  ultimately show ?thesis using that arr by simp
qed

lemma find_replace_first:
  assumes "find P xs = Some x" and "P (f x)"
  shows "find P (replace_first P f xs) = Some (f x)"
  using assms by (induction xs) (auto split: if_splits)

lemma replace_first_none: "find P xs = None \<Longrightarrow> replace_first P f xs = xs"
  by (induction xs) (auto split: if_splits)

lemma doc_array_gput: "go_map d \<Longrightarrow> doc_array (gput k v d) k' = (if k' = k then (case v of JArray xs \<Rightarrow> Some xs | _ \<Rightarrow> None) else doc_array d k')"
  by (simp add: doc_array_def)

lemma findEntryMap_edit:
  assumes "findEntryMap d k i = Some e" and "str_field (f e) ''id'' = i" and "go_map d"
  shows "findEntryMap (edit_entry d k i f) k i = Some (f e)"
proof -
  obtain arr where arr: "doc_array d k = Some arr" "find (entry_with i) arr = Some (JObject e)"
    using findEntryMap_Some[OF assms(1)] by metis
  let ?g = "\<lambda>item. case item of JObject e \<Rightarrow> JObject (f e) | _ \<Rightarrow> item"
  have "find (entry_with i) (replace_first (entry_with i) ?g arr) = Some (JObject (f e))"
    using find_replace_first[of "entry_with i" arr "JObject e" ?g] arr(2) assms(2) by simp
  then show ?thesis by (simp add: findEntryMap_def edit_entry_def arr(1) doc_array_gput assms(3))
qed

lemma edit_entry_other: "go_map d \<Longrightarrow> k' \<noteq> k \<Longrightarrow> map_of (edit_entry d k i f) k' = map_of d k'"
  by (simp add: edit_entry_def split: option.split)

end
