(* ===== verification/Author_Fix.thy ===== *)
theory Author_Fix
  imports Author_Locate Validator_Markdown Decimal
begin

text \<open>
  The refusals of the authoring commands and the fix each proposes (\<open>computeFix\<close> and its helpers in
  \<open>author/obligation_reporter.go\<close>). A message is the value its text prints; where the code matches the
  text against a pattern, the model matches the value under the condition that makes the pattern match.
\<close>

subsection \<open>Refusals\<close>

datatype refusal_message =
    Checker message
  | UndeclaredReferenceField string string
  | TargetNotFound string "string list" string
  | TargetTypeNotPermitted string string string
  | TargetNotModuleLocal string string string
  | UndeclaredType string
  | ModuleDeclared string string
  | ModuleFileNotEmpty string
  | ModuleNotRemovable string
  | ModuleNotSettable string
  | ModuleNotRenamable string
  | SetAndUnset string
  | NameIsIdentity
  | IdIsDerived
  | ContentIsDerived
  | IsReferenceField string string
  | NodeUnknown string
  | CarriesNoContent string string
  | LeafNotEmpty string

datatype fix_text =
    MessageItself message
  | ChooseOtherName string "string option"
  | ChooseOtherApiName "string list"
  | DeclareItAs string
  | RetargetOrForce string string string string string
  | NoTargetFound string string string "string list" "string list"
  | SetIdTo string
  | BreakCycle "string list"
  | RepointLink message
  | SetRequiredFields "(string \<times> string) list"
  | DeclaresFields string "string list"
  | DeclaredTypes "string list"
  | FieldMustBe string string
  | DeclaresReferenceFields string "string list"
  | SearchedFor string "string list"
  | MayTarget string "string list"
  | OwnComponents string string "string list"
  | FixText string

record refusal_entry =
  rf_check :: string
  rf_message :: refusal_message
  rf_path :: string
  rf_fix :: fix_text

subsection \<open>Where a node is declared\<close>

definition hasID :: "json \<Rightarrow> string \<Rightarrow> bool" where
  "hasID raw i \<longleftrightarrow>
     (case decode_entries raw of
        Inl e \<Rightarrow> False
      | Inr entries \<Rightarrow> list_ex (\<lambda>e. str_field e ''id'' = i) entries)"

text \<open>A raw document as \<open>map[string]json.RawMessage\<close>: a repeated member keeps its last value.\<close>

definition raw_members :: "mem_fs \<Rightarrow> string \<Rightarrow> (file_error, raw_entry) result" where
  "raw_members m name =
     bind_result (file_json m name) (\<lambda>j. bind_result (decode_entry j) (\<lambda>kvs. Inr (map_entries kvs)))"

fun declaring_module :: "mem_fs \<Rightarrow> string \<Rightarrow> module_decl list \<Rightarrow> string option" where
  "declaring_module m i [] = None"
| "declaring_module m i (md # mds) =
     (case raw_members m (module_file md) of
        Inl e \<Rightarrow> declaring_module m i mds
      | Inr kvs \<Rightarrow>
          if list_ex (\<lambda>(k, raw). hasID raw i) kvs then Some (module_file md) else declaring_module m i mds)"

definition findDeclaringFile :: "mem_fs \<Rightarrow> string \<Rightarrow> string option" where
  "findDeclaringFile m i =
     (case raw_members m ''project.json'' of
        Inl e \<Rightarrow> None
      | Inr kvs \<Rightarrow>
          if list_ex (\<lambda>(k, raw). hasID raw i) kvs then Some ''project.json''
          else declaring_module m i
                 (case map_of kvs ''modules'' of
                    None \<Rightarrow> []
                  | Some raw \<Rightarrow>
                      (case dec_list (dec_struct fill_module_decl) zero_module_decl [] raw of
                         Inl e \<Rightarrow> []
                       | Inr mds \<Rightarrow> mds)))"

subsection \<open>Paths of findings\<close>

definition before_colon :: "string \<Rightarrow> string" where
  "before_colon s = takeWhile (\<lambda>c. c \<noteq> CHR '':'') s"

definition after_colon :: "string \<Rightarrow> string option" where
  "after_colon s = (if CHR '':'' \<in> set s then Some (tl (dropWhile (\<lambda>c. c \<noteq> CHR '':'') s)) else None)"

definition trim_slashes :: "string \<Rightarrow> string" where
  "trim_slashes s =
     rev (dropWhile (\<lambda>c. c = CHR ''/'') (rev (dropWhile (\<lambda>c. c = CHR ''/'') s)))"

text \<open>\<open>path.Base\<close>.\<close>

definition path_Base :: "string \<Rightarrow> string" where
  "path_Base p =
     (if p = [] then ''.''
      else let s = rev (dropWhile (\<lambda>c. c = CHR ''/'') (rev p))
           in if s = [] then ''/'' else last (split_slash [] s))"

definition nodeTypeForPath :: "string \<Rightarrow> profile \<Rightarrow> node_type option" where
  "nodeTypeForPath errPath p =
     (case after_colon errPath of
        None \<Rightarrow> None
      | Some rest \<Rightarrow>
          let pluralKey = hd (split_slash [] (trim_slashes rest));
              scope = doc_scope (before_colon errPath)
          in if pluralKey = [] then None
             else find (\<lambda>nt. nt_plural_key nt = pluralKey \<and> nt_scope nt = scope) (prf_node_types p))"

definition lastPathSegment :: "string \<Rightarrow> string" where
  "lastPathSegment errPath =
     (case after_colon errPath of
        None \<Rightarrow> []
      | Some rest \<Rightarrow>
          let inst = trim_slashes rest in if inst = [] then [] else last (split_slash [] inst))"

subsection \<open>What a field is\<close>

definition field_label :: "field \<Rightarrow> string" where
  "field_label f =
     (case fld_kind f of
        FieldKindText \<Rightarrow>
          if fld_enum f \<noteq> [] then ''text, one of: '' @ join_strings '', '' (fld_enum f) else ''text''
      | FieldKindInteger \<Rightarrow>
          (case (fld_minimum f, fld_maximum f) of
             (Some lo, Some hi) \<Rightarrow> ''integer, '' @ signed_decimal lo @ ''-'' @ signed_decimal hi
           | _ \<Rightarrow> ''integer'')
      | FieldKindReference \<Rightarrow> ''reference, targets: '' @ join_strings '', '' (fld_targets f)
      | FieldKindOther k \<Rightarrow> k)"

definition fieldKindLabel :: "string \<Rightarrow> node_type option \<Rightarrow> string" where
  "fieldKindLabel name nt =
     (if name = ''id'' then ''text, a 12-character identity hash''
      else if name = ''name'' then ''text''
      else if name = ''content'' then ''text, a relative path to the content leaf''
      else case nt of
             None \<Rightarrow> []
           | Some nt \<Rightarrow> (case node_field nt name of None \<Rightarrow> [] | Some f \<Rightarrow> field_label f))"

definition missingRequiredFix :: "string list \<Rightarrow> string \<Rightarrow> profile \<Rightarrow> fix_text" where
  "missingRequiredFix names errPath p =
     SetRequiredFields (map (\<lambda>name. (name, fieldKindLabel name (nodeTypeForPath errPath p))) names)"

definition wrongValueFix :: "string \<Rightarrow> profile \<Rightarrow> fix_text option" where
  "wrongValueFix errPath p =
     (let field = lastPathSegment errPath; kind = fieldKindLabel field (nodeTypeForPath errPath p)
      in if field = [] \<or> kind = [] then None else Some (FieldMustBe field kind))"

definition undeclaredTypeFix :: "string \<Rightarrow> profile \<Rightarrow> fix_text" where
  "undeclaredTypeFix errPath p =
     DeclaredTypes (map nt_name (filter (\<lambda>nt. nt_scope nt = doc_scope errPath) (prf_node_types p)) @ [''module''])"

definition disallowedFieldFix :: "node_type \<Rightarrow> fix_text" where
  "disallowedFieldFix nt =
     DeclaresFields (nt_name nt)
       ([''id'', ''name'', ''description''] @ (if nt_requires_content nt then [''content''] else []) @
        map fld_name (nt_fields nt))"

subsection \<open>Missing targets\<close>

definition target_locations :: "string \<Rightarrow> profile \<Rightarrow> string list \<Rightarrow> string list" where
  "target_locations sourceFile p targets =
     concat (map (\<lambda>target.
       if target = ''module'' then [''project.json:/modules'']
       else map (\<lambda>nt. (if nt_scope nt = ''project'' then ''project.json'' else sourceFile) @ '':/'' @ nt_plural_key nt)
              (filter (\<lambda>nt. nt_name nt = target) (prf_node_types p))) targets)"

definition referenceTargetFix :: "validation_error \<Rightarrow> mem_fs \<Rightarrow> profile \<Rightarrow> fix_text option" where
  "referenceTargetFix e before p =
     (case ve_message e of
        MissingTarget edgeKind typeLabel targetID \<Rightarrow>
          if edgeKind = [] \<or> \<not> list_all isWordByte edgeKind \<or> typeLabel = [] \<or> \<not> isIdentityHash targetID then None
          else (case findDeclaringFile before targetID of
                  Some declFile \<Rightarrow> Some (RetargetOrForce typeLabel targetID declFile (path_Base (ve_path e)) edgeKind)
                | None \<Rightarrow>
                    let edges = filter (\<lambda>edge. edg_kind edge = edgeKind) (prf_edges p)
                    in Some (NoTargetFound typeLabel targetID edgeKind
                         (if edges = [] then [] else edg_to (last edges))
                         (concat (map (\<lambda>edge. target_locations (before_colon (ve_path e)) p (edg_to edge)) edges))))
      | _ \<Rightarrow> None)"

subsection \<open>The fix of a finding\<close>

text \<open>The texts of the schema library that the patterns single out.\<close>

definition additional_props :: "string \<Rightarrow> bool" where
  "additional_props s \<longleftrightarrow>
     list_ex (\<lambda>pre. prefix pre s \<and> suffix '' not allowed'' s \<and> length pre + length '' not allowed'' < length s \<and>
                    CHR 0x0A \<notin> set s) [''additional property '', ''additional properties '']"

definition got_want :: "string \<Rightarrow> bool" where
  "got_want s \<longleftrightarrow>
     prefix ''got '' s \<and>
     (let rest = drop 4 s; run = takeWhile (\<lambda>c. c \<noteq> CHR 0x20) rest
      in length run \<ge> 2 \<and> last run = CHR '','' \<and> list_all (\<lambda>c. c \<notin> {CHR 0x09, CHR 0x0A, CHR 0x0C, CHR 0x0D}) run \<and>
         prefix '' want '' (drop (length run) rest))"

definition wrong_value :: "string \<Rightarrow> bool" where
  "wrong_value s \<longleftrightarrow> prefix ''value must be'' s \<or> got_want s \<or> prefix ''minimum: got'' s \<or> prefix ''maximum: got'' s"

definition id_fix :: "validation_error \<Rightarrow> mem_fs \<Rightarrow> profile \<Rightarrow> fix_text" where
  "id_fix e before p =
     (let other = (case referenceTargetFix e before p of Some fix \<Rightarrow> fix | None \<Rightarrow> MessageItself (ve_message e))
      in case ve_message e of
           DuplicateID i \<Rightarrow>
             if i \<noteq> [] \<and> list_all hash_byte i then ChooseOtherName i (findDeclaringFile before i) else other
         | DuplicateAPIName name mods \<Rightarrow>
             if CHR 0x22 \<notin> set name \<and> join_strings '', '' mods \<noteq> [] then ChooseOtherApiName mods else other
         | NameNotItsTokenization nodeType name phrase \<Rightarrow> DeclareItAs phrase
         | _ \<Rightarrow> other)"

definition schema_fix :: "validation_error \<Rightarrow> profile \<Rightarrow> fix_text" where
  "schema_fix e p =
     (case ve_message e of
        MissingRequired names \<Rightarrow>
          if names = [] then MessageItself (ve_message e) else missingRequiredFix names (ve_path e) p
      | SchemaProblem s \<Rightarrow>
          if additional_props s then
            (case nodeTypeForPath (ve_path e) p of
               Some nt \<Rightarrow> disallowedFieldFix nt
             | None \<Rightarrow> undeclaredTypeFix (ve_path e) p)
          else (case (if wrong_value s then wrongValueFix (ve_path e) p else None) of
                  Some fix \<Rightarrow> fix
                | None \<Rightarrow> MessageItself (ve_message e))
      | msg \<Rightarrow> MessageItself msg)"

definition computeFix :: "validation_error \<Rightarrow> mem_fs \<Rightarrow> profile \<Rightarrow> fix_text" where
  "computeFix e before p =
     (if ve_check e = ''id'' then id_fix e before p
      else if ve_check e = ''id_derivation'' then
        (case ve_message e of
           NotDerivedID nodeType name i want \<Rightarrow>
             if want \<noteq> [] \<and> list_all hash_byte want then SetIdTo want else MessageItself (ve_message e)
         | msg \<Rightarrow> MessageItself msg)
      else if ve_check e = ''dag'' then
        (case ve_message e of
           CycleFound kind path \<Rightarrow> if path = [] then MessageItself (ve_message e) else BreakCycle path
         | msg \<Rightarrow> MessageItself msg)
      else if ve_check e = ''link'' then RepointLink (ve_message e)
      else if ve_check e = ''schema'' then schema_fix e p
      else MessageItself (ve_message e))"

end
