(* ===== verification/Schema_Compose.thy ===== *)
theory Schema_Compose
  imports Spec_Docs Decimal
begin

text \<open>
  The JSON schemas of the two documents (\<open>schema/project_compose.go\<close>, \<open>schema/module_compose.go\<close>):
  the shipped documents, the frame they leave when the declarable node types are taken out, and the
  schema composed from the frame and the node types of a resolved profile.

  A composed schema is the value that is marshalled; objects are maps, in key order.
\<close>

subsection \<open>Node types of one scope\<close>

text \<open>\<open>ProjectNodeType\<close> and \<open>ModuleNodeType\<close> have the same fields.\<close>

record scoped_node_type =
  snt_name :: string
  snt_plural_key :: string
  snt_requires_content :: bool
  snt_fields :: "field list"
  snt_comment :: string

definition scoped_types :: "string \<Rightarrow> profile \<Rightarrow> scoped_node_type list" where
  "scoped_types scope p =
     map (\<lambda>t. \<lparr>snt_name = nt_name t, snt_plural_key = nt_plural_key t, snt_requires_content = nt_requires_content t,
              snt_fields = nt_fields t, snt_comment = nt_comment t\<rparr>)
       (filter (\<lambda>t. nt_scope t = scope) (prf_node_types p))"

definition ProjectNodeTypes :: "profile \<Rightarrow> scoped_node_type list" where
  "ProjectNodeTypes p = scoped_types ''project'' p"

definition ModuleNodeTypes :: "profile \<Rightarrow> scoped_node_type list" where
  "ModuleNodeTypes p = scoped_types ''module'' p"

definition projectProfileArrays :: "string list" where
  "projectProfileArrays = [''requirements'']"

definition moduleProfileArrays :: "string list" where
  "moduleProfileArrays = [''requirements'', ''components'', ''data_flows'', ''test_sections'', ''apis'']"

definition project_requirement_type :: scoped_node_type where
  "project_requirement_type =
      \<lparr>snt_name = ''requirement'', snt_plural_key = ''requirements'', snt_requires_content = False,
       snt_fields =
        [\<lparr>fld_name = ''type'', fld_kind = FieldKindText, fld_required = True, fld_hashed = None, fld_enum = [''functional'', ''non_functional''],
         fld_minimum = None, fld_maximum = None, fld_targets = [], fld_cardinality = [], fld_cyclic = False,
         fld_description = ''Requirement type.''\<rparr>,
         \<lparr>fld_name = ''priority'', fld_kind = FieldKindInteger, fld_required = False, fld_hashed = None, fld_enum = [],
         fld_minimum = Some 0, fld_maximum = Some 4, fld_targets = [], fld_cardinality = [], fld_cyclic = False,
         fld_description = ''Requirement priority (0-4). Optional; enforced by validator when present.''\<rparr>,
         \<lparr>fld_name = ''derivation'', fld_kind = FieldKindText, fld_required = False, fld_hashed = None, fld_enum = [''pending''],
         fld_minimum = None, fld_maximum = None, fld_targets = [], fld_cardinality = [], fld_cyclic = False,
         fld_description = ''Declares a requirement not yet derived into any module. Project-scoped only: a module requirement derives by construction through its required preq_id.''\<rparr>,
         \<lparr>fld_name = ''depends_on'', fld_kind = FieldKindReference, fld_required = False, fld_hashed = None, fld_enum = [],
         fld_minimum = None, fld_maximum = None, fld_targets = [''requirement''], fld_cardinality = ''many'', fld_cyclic = False,
         fld_description = ''Identity hashes of other requirements this one depends on (depends_on edge).''\<rparr>],
       snt_comment = (''Project-level requirement. module.schema.json'' @ [CHR 0x27] @ ''s copy carries preq_id in place of priority and derivation, since a module requirement derives by construction through its required preq_id. IDs are 12-char hex identity hashes computed by schema.IdentityHash.'')\<rparr>"

definition DefaultProjectNodeTypes :: "scoped_node_type list" where
  "DefaultProjectNodeTypes = [project_requirement_type]"

definition module_requirement_type :: scoped_node_type where
  "module_requirement_type =
      \<lparr>snt_name = ''requirement'', snt_plural_key = ''requirements'', snt_requires_content = False,
       snt_fields =
        [\<lparr>fld_name = ''type'', fld_kind = FieldKindText, fld_required = True, fld_hashed = None, fld_enum = [''functional'', ''non_functional''],
         fld_minimum = None, fld_maximum = None, fld_targets = [], fld_cardinality = [], fld_cyclic = False,
         fld_description = ''Requirement type.''\<rparr>,
         \<lparr>fld_name = ''preq_id'', fld_kind = FieldKindReference, fld_required = True, fld_hashed = None, fld_enum = [],
         fld_minimum = None, fld_maximum = None, fld_targets = [''requirement''], fld_cardinality = ''one'', fld_cyclic = False,
         fld_description = ''Identity hash of the project requirement this module requirement derives from.''\<rparr>,
         \<lparr>fld_name = ''depends_on'', fld_kind = FieldKindReference, fld_required = False, fld_hashed = None, fld_enum = [],
         fld_minimum = None, fld_maximum = None, fld_targets = [''requirement''], fld_cardinality = ''many'', fld_cyclic = False,
         fld_description = ''Identity hashes of other requirements this one depends on (depends_on edge).''\<rparr>],
       snt_comment = ''Module-level requirement. Extends the project-level requirement with preq_id to trace derivation from project requirements. IDs are 12-char hex identity hashes computed by schema.IdentityHash. name (renamed from title in spec format version 1) makes the envelope universal across every node type.''\<rparr>"

definition module_component_type :: scoped_node_type where
  "module_component_type =
      \<lparr>snt_name = ''component'', snt_plural_key = ''components'', snt_requires_content = True,
       snt_fields =
        [\<lparr>fld_name = ''implements'', fld_kind = FieldKindReference, fld_required = False, fld_hashed = None, fld_enum = [],
         fld_minimum = None, fld_maximum = None, fld_targets = [''requirement''], fld_cardinality = ''many'', fld_cyclic = False,
         fld_description = ''Requirement identity hashes this component implements (implements edge).''\<rparr>,
         \<lparr>fld_name = ''uses'', fld_kind = FieldKindReference, fld_required = False, fld_hashed = None, fld_enum = [],
         fld_minimum = None, fld_maximum = None, fld_targets = [''component''], fld_cardinality = ''many'', fld_cyclic = False,
         fld_description = ''Identity hashes of other components this one depends on (uses edge).''\<rparr>],
       snt_comment = []\<rparr>"

definition module_data_flow_type :: scoped_node_type where
  "module_data_flow_type =
      \<lparr>snt_name = ''data_flow'', snt_plural_key = ''data_flows'', snt_requires_content = True,
       snt_fields =
        [\<lparr>fld_name = ''uses'', fld_kind = FieldKindReference, fld_required = False, fld_hashed = None, fld_enum = [],
         fld_minimum = None, fld_maximum = None, fld_targets = [''component''], fld_cardinality = ''many'', fld_cyclic = False,
         fld_description = ''Component identity hashes involved in this data flow (uses edge).''\<rparr>],
       snt_comment = []\<rparr>"

definition module_test_section_type :: scoped_node_type where
  "module_test_section_type =
      \<lparr>snt_name = ''test_section'', snt_plural_key = ''test_sections'', snt_requires_content = True,
       snt_fields =
        [\<lparr>fld_name = ''describes'', fld_kind = FieldKindReference, fld_required = False, fld_hashed = None, fld_enum = [],
         fld_minimum = None, fld_maximum = None, fld_targets = [''component''], fld_cardinality = ''many'', fld_cyclic = False,
         fld_description = ''Component identity hashes described by this test section (describes edge).''\<rparr>],
       snt_comment = []\<rparr>"

definition module_api_type :: scoped_node_type where
  "module_api_type =
      \<lparr>snt_name = ''api'', snt_plural_key = ''apis'', snt_requires_content = False,
       snt_fields =
        [\<lparr>fld_name = ''provided_by'', fld_kind = FieldKindReference, fld_required = False, fld_hashed = None, fld_enum = [],
         fld_minimum = None, fld_maximum = None, fld_targets = [''component''], fld_cardinality = ''many'', fld_cyclic = False,
         fld_description = ''Identity hashes of components in this module that provide this entry point (module-local).''\<rparr>,
         \<lparr>fld_name = ''group'', fld_kind = FieldKindText, fld_required = False, fld_hashed = None, fld_enum = [],
         fld_minimum = None, fld_maximum = None, fld_targets = [], fld_cardinality = [], fld_cyclic = False,
         fld_description = ''Freeform grouping label for renderers (e.g. \"cli\", \"http\"). Spex never branches on it.''\<rparr>],
       snt_comment = (''An external surface entry point. No content file '' @ [CHR 0xE2, CHR 0x80, CHR 0x94] @ '' an api hashes from these fields alone. Identity is <module>/api/<name>, computed by schema.IdentityHash.'')\<rparr>"

definition DefaultModuleNodeTypes :: "scoped_node_type list" where
  "DefaultModuleNodeTypes = [module_requirement_type, module_component_type, module_data_flow_type, module_test_section_type, module_api_type]"

subsection \<open>The shipped documents\<close>

text \<open>In the order of the text; the definitions are named to keep the documents readable.\<close>

definition project_schema_identityHash :: json where
  "project_schema_identityHash =
    JObject
     [(''type'', JString ''string''),
      (''pattern'', JString ''^[0-9a-f]{12}$''),
      (''description'', JString ''12-character hex identity hash (see schema.IdentityHash).'')]"

definition project_schema_requirement :: json where
  "project_schema_requirement =
    JObject
     [(''$comment'', JString (''Project-level requirement. module.schema.json'' @ [CHR 0x27] @ ''s copy carries preq_id in place of priority and derivation, since a module requirement derives by construction through its required preq_id. IDs are 12-char hex identity hashes computed by schema.IdentityHash.'')),
      (''type'', JString ''object''),
      (''required'', JArray [JString ''id'', JString ''type'', JString ''name'']),
      (''additionalProperties'', JBool False),
      (''properties'', JObject
       [(''id'', JObject
         [(''type'', JString ''string''),
          (''pattern'', JString ''^[a-f0-9]{12}$''),
          (''description'', JString ''Identity hash ID (12-char hex), unique within the requirements array.'')]),
        (''type'', JObject
         [(''type'', JString ''string''),
          (''enum'', JArray [JString ''functional'', JString ''non_functional'']),
          (''description'', JString ''Requirement type.'')]),
        (''name'', JObject
         [(''type'', JString ''string''),
          (''minLength'', JNumber ''1''),
          (''description'', JString ''requirement name.'')]),
        (''description'', JObject
         [(''type'', JString ''string''),
          (''description'', JString ''requirement description.'')]),
        (''priority'', JObject
         [(''type'', JString ''integer''),
          (''minimum'', JNumber ''0''),
          (''maximum'', JNumber ''4''),
          (''description'', JString ''Requirement priority (0-4). Optional; enforced by validator when present.'')]),
        (''depends_on'', JObject
         [(''type'', JString ''array''),
          (''description'', JString ''Identity hashes of other requirements this one depends on (depends_on edge).''),
          (''items'', JObject [(''type'', JString ''string''), (''pattern'', JString ''^[a-f0-9]{12}$'')]),
          (''uniqueItems'', JBool True)]),
        (''derivation'', JObject
         [(''type'', JString ''string''),
          (''enum'', JArray [JString ''pending'']),
          (''description'', JString ''Declares a requirement not yet derived into any module. Project-scoped only: a module requirement derives by construction through its required preq_id.'')])])]"

definition project_schema_module :: json where
  "project_schema_module =
    JObject
     [(''type'', JString ''object''),
      (''required'', JArray [JString ''id'', JString ''name'', JString ''path'']),
      (''additionalProperties'', JBool False),
      (''properties'', JObject
       [(''id'', JObject [(''$ref'', JString ''#/$defs/identityHash'')]),
        (''name'', JObject
         [(''type'', JString ''string''),
          (''minLength'', JNumber ''1''),
          (''description'', JString ''Module name.'')]),
        (''path'', JObject
         [(''type'', JString ''string''),
          (''minLength'', JNumber ''1''),
          (''description'', JString ''Relative path to the module directory containing module.json.'')]),
        (''description'', JObject
         [(''type'', JString ''string''),
          (''description'', JString ''Module description.'')]),
        (''requires_module'', JObject
         [(''type'', JString ''array''),
          (''description'', JString ''Identity hashes of other modules this one depends on (requires_module edge).''),
          (''items'', JObject [(''$ref'', JString ''#/$defs/identityHash'')]),
          (''uniqueItems'', JBool True)])])]"

definition project_schema_section :: json where
  "project_schema_section =
    JObject
     [(''type'', JString ''object''),
      (''required'', JArray [JString ''id'', JString ''name'', JString ''type'']),
      (''properties'', JObject
       [(''id'', JObject [(''$ref'', JString ''#/$defs/identityHash'')]),
        (''name'', JObject
         [(''type'', JString ''string''),
          (''minLength'', JNumber ''1''),
          (''description'', JString ''Section name.'')]),
        (''type'', JObject
         [(''type'', JString ''string''),
          (''minLength'', JNumber ''1''),
          (''description'', JString (''Section type (e.g. '' @ [CHR 0x27] @ ''coupled'' @ [CHR 0x27] @ '').''))])])]"

definition project_schema_file :: json where
  "project_schema_file =
    JObject
     [(''$schema'', JString ''https://json-schema.org/draft/2020-12/schema''),
      (''$id'', JString ''https://spexmachina.dev/schema/project.json''),
      (''title'', JString ''Spex Machina Project''),
      (''description'', JString ''Schema for the project-level spec file (project.json). Defines project metadata, top-level requirements, and module declarations with inter-module dependencies. IDs are 12-character hex identity hashes.''),
      (''type'', JString ''object''),
      (''required'', JArray [JString ''name'', JString ''modules'']),
      (''additionalProperties'', JBool False),
      (''properties'', JObject
         [(''name'', JObject
           [(''type'', JString ''string''),
            (''minLength'', JNumber ''1''),
            (''description'', JString ''Project name.'')]),
          (''description'', JObject
           [(''type'', JString ''string''),
            (''description'', JString ''Project description.'')]),
          (''version'', JObject
           [(''type'', JString ''string''),
            (''description'', JString ''Project version string.'')]),
          (''requirements'', JObject
           [(''type'', JString ''array''),
            (''description'', JString ''Project-level requirements (functional and non-functional).''),
            (''items'', JObject [(''$ref'', JString ''#/$defs/requirement'')])]),
          (''modules'', JObject
           [(''type'', JString ''array''),
            (''description'', JString ''Module declarations. Each module has its own directory with a module.json.''),
            (''minItems'', JNumber ''1''),
            (''items'', JObject [(''$ref'', JString ''#/$defs/module'')])]),
          (''sections'', JObject
           [(''type'', JString ''array''),
            (''description'', JString ''Project-level sections with typed envelopes and freeform content.''),
            (''items'', JObject [(''$ref'', JString ''#/$defs/section'')])]),
          (''spec_version'', JObject
           [(''type'', JString ''integer''),
            (''description'', JString (''The spec format version this project speaks. Optional; absent means version 1. Lives in project.json only '' @ [CHR 0xE2, CHR 0x80, CHR 0x94] @ '' module files carry no version field.''))])]),
      (''$defs'', JObject [(''identityHash'', project_schema_identityHash), (''requirement'', project_schema_requirement), (''module'', project_schema_module), (''section'', project_schema_section)])]"

definition module_schema_requirement :: json where
  "module_schema_requirement =
    JObject
     [(''$comment'', JString ''Module-level requirement. Extends the project-level requirement with preq_id to trace derivation from project requirements. IDs are 12-char hex identity hashes computed by schema.IdentityHash. name (renamed from title in spec format version 1) makes the envelope universal across every node type.''),
      (''type'', JString ''object''),
      (''required'', JArray [JString ''id'', JString ''type'', JString ''preq_id'', JString ''name'']),
      (''additionalProperties'', JBool False),
      (''properties'', JObject
       [(''id'', JObject
         [(''type'', JString ''string''),
          (''pattern'', JString ''^[a-f0-9]{12}$''),
          (''description'', JString ''Identity hash ID (12-char hex), unique within the requirements array.'')]),
        (''preq_id'', JObject
         [(''type'', JString ''string''),
          (''pattern'', JString ''^[a-f0-9]{12}$''),
          (''description'', JString ''Identity hash of the project requirement this module requirement derives from.'')]),
        (''type'', JObject
         [(''type'', JString ''string''),
          (''enum'', JArray [JString ''functional'', JString ''non_functional'']),
          (''description'', JString ''Requirement type.'')]),
        (''name'', JObject
         [(''type'', JString ''string''),
          (''minLength'', JNumber ''1''),
          (''description'', JString ''requirement name.'')]),
        (''description'', JObject
         [(''type'', JString ''string''),
          (''description'', JString ''requirement description.'')]),
        (''depends_on'', JObject
         [(''type'', JString ''array''),
          (''description'', JString ''Identity hashes of other requirements this one depends on (depends_on edge).''),
          (''items'', JObject [(''type'', JString ''string''), (''pattern'', JString ''^[a-f0-9]{12}$'')]),
          (''uniqueItems'', JBool True)])])]"

definition module_schema_component :: json where
  "module_schema_component =
    JObject
     [(''type'', JString ''object''),
      (''required'', JArray [JString ''id'', JString ''name'', JString ''content'']),
      (''additionalProperties'', JBool False),
      (''properties'', JObject
       [(''id'', JObject
         [(''type'', JString ''string''),
          (''pattern'', JString ''^[a-f0-9]{12}$''),
          (''description'', JString ''Identity hash ID (12-char hex), unique within the components array.'')]),
        (''name'', JObject
         [(''type'', JString ''string''),
          (''minLength'', JNumber ''1''),
          (''description'', JString ''component name.'')]),
        (''description'', JObject
         [(''type'', JString ''string''),
          (''description'', JString ''component description.'')]),
        (''content'', JObject
         [(''type'', JString ''string''),
          (''minLength'', JNumber ''1''),
          (''description'', JString ''Relative path to the markdown content leaf (described_in edge to content leaf).'')]),
        (''implements'', JObject
         [(''type'', JString ''array''),
          (''description'', JString ''Requirement identity hashes this component implements (implements edge).''),
          (''items'', JObject [(''type'', JString ''string''), (''pattern'', JString ''^[a-f0-9]{12}$'')]),
          (''uniqueItems'', JBool True)]),
        (''uses'', JObject
         [(''type'', JString ''array''),
          (''description'', JString ''Identity hashes of other components this one depends on (uses edge).''),
          (''items'', JObject [(''type'', JString ''string''), (''pattern'', JString ''^[a-f0-9]{12}$'')]),
          (''uniqueItems'', JBool True)])])]"

definition module_schema_test_section :: json where
  "module_schema_test_section =
    JObject
     [(''type'', JString ''object''),
      (''required'', JArray [JString ''id'', JString ''name'', JString ''content'']),
      (''additionalProperties'', JBool False),
      (''properties'', JObject
       [(''id'', JObject
         [(''type'', JString ''string''),
          (''pattern'', JString ''^[a-f0-9]{12}$''),
          (''description'', JString ''Identity hash ID (12-char hex), unique within the test_sections array.'')]),
        (''name'', JObject
         [(''type'', JString ''string''),
          (''minLength'', JNumber ''1''),
          (''description'', JString ''test_section name.'')]),
        (''description'', JObject
         [(''type'', JString ''string''),
          (''description'', JString ''test_section description.'')]),
        (''content'', JObject
         [(''type'', JString ''string''),
          (''minLength'', JNumber ''1''),
          (''description'', JString ''Relative path to the markdown content leaf (described_in edge to content leaf).'')]),
        (''describes'', JObject
         [(''type'', JString ''array''),
          (''description'', JString ''Component identity hashes described by this test section (describes edge).''),
          (''items'', JObject [(''type'', JString ''string''), (''pattern'', JString ''^[a-f0-9]{12}$'')]),
          (''uniqueItems'', JBool True)])])]"

definition module_schema_data_flow :: json where
  "module_schema_data_flow =
    JObject
     [(''type'', JString ''object''),
      (''required'', JArray [JString ''id'', JString ''name'', JString ''content'']),
      (''additionalProperties'', JBool False),
      (''properties'', JObject
       [(''id'', JObject
         [(''type'', JString ''string''),
          (''pattern'', JString ''^[a-f0-9]{12}$''),
          (''description'', JString ''Identity hash ID (12-char hex), unique within the data_flows array.'')]),
        (''name'', JObject
         [(''type'', JString ''string''),
          (''minLength'', JNumber ''1''),
          (''description'', JString ''data_flow name.'')]),
        (''description'', JObject
         [(''type'', JString ''string''),
          (''description'', JString ''data_flow description.'')]),
        (''content'', JObject
         [(''type'', JString ''string''),
          (''minLength'', JNumber ''1''),
          (''description'', JString ''Relative path to the markdown content leaf (described_in edge to content leaf).'')]),
        (''uses'', JObject
         [(''type'', JString ''array''),
          (''description'', JString ''Component identity hashes involved in this data flow (uses edge).''),
          (''items'', JObject [(''type'', JString ''string''), (''pattern'', JString ''^[a-f0-9]{12}$'')]),
          (''uniqueItems'', JBool True)])])]"

definition module_schema_api :: json where
  "module_schema_api =
    JObject
     [(''$comment'', JString (''An external surface entry point. No content file '' @ [CHR 0xE2, CHR 0x80, CHR 0x94] @ '' an api hashes from these fields alone. Identity is <module>/api/<name>, computed by schema.IdentityHash.'')),
      (''type'', JString ''object''),
      (''required'', JArray [JString ''id'', JString ''name'']),
      (''additionalProperties'', JBool False),
      (''properties'', JObject
       [(''id'', JObject
         [(''type'', JString ''string''),
          (''pattern'', JString ''^[a-f0-9]{12}$''),
          (''description'', JString ''Identity hash ID (12-char hex), unique within the apis array.'')]),
        (''name'', JObject
         [(''type'', JString ''string''),
          (''minLength'', JNumber ''1''),
          (''description'', JString ''api name.'')]),
        (''description'', JObject [(''type'', JString ''string''), (''description'', JString ''api description.'')]),
        (''provided_by'', JObject
         [(''type'', JString ''array''),
          (''description'', JString ''Identity hashes of components in this module that provide this entry point (module-local).''),
          (''items'', JObject [(''type'', JString ''string''), (''pattern'', JString ''^[a-f0-9]{12}$'')]),
          (''uniqueItems'', JBool True)]),
        (''group'', JObject
         [(''type'', JString ''string''),
          (''description'', JString ''Freeform grouping label for renderers (e.g. \"cli\", \"http\"). Spex never branches on it.'')])])]"

definition module_schema_file :: json where
  "module_schema_file =
    JObject
     [(''$schema'', JString ''https://json-schema.org/draft/2020-12/schema''),
      (''$id'', JString ''https://spexmachina.dev/schema/module.json''),
      (''title'', JString ''Spex Machina Module''),
      (''description'', JString ''Schema for a module-level spec file (module.json). Defines module metadata, requirements, architecture components, data flows, test sections and apis.''),
      (''type'', JString ''object''),
      (''required'', JArray [JString ''name'']),
      (''additionalProperties'', JBool False),
      (''properties'', JObject
         [(''name'', JObject
           [(''type'', JString ''string''),
            (''minLength'', JNumber ''1''),
            (''description'', JString ''Module name.'')]),
          (''description'', JObject
           [(''type'', JString ''string''),
            (''description'', JString ''Module description.'')]),
          (''requirements'', JObject
           [(''type'', JString ''array''),
            (''description'', JString ''Module-level requirements (functional and non-functional).''),
            (''items'', JObject [(''$ref'', JString ''#/$defs/requirement'')])]),
          (''components'', JObject
           [(''type'', JString ''array''),
            (''description'', JString ''Architecture components with content links and cross-references.''),
            (''items'', JObject [(''$ref'', JString ''#/$defs/component'')])]),
          (''data_flows'', JObject
           [(''type'', JString ''array''),
            (''description'', JString ''Data flow definitions between components.''),
            (''items'', JObject [(''$ref'', JString ''#/$defs/data_flow'')])]),
          (''test_sections'', JObject
           [(''type'', JString ''array''),
            (''description'', JString ''Test sections describing module integration and acceptance tests for components.''),
            (''items'', JObject [(''$ref'', JString ''#/$defs/test_section'')])]),
          (''apis'', JObject
           [(''type'', JString ''array''),
            (''description'', JString ''External surface entry points this module provides (CLI subcommands, HTTP routes, library entry points).''),
            (''items'', JObject [(''$ref'', JString ''#/$defs/api'')])])]),
      (''$defs'', JObject [(''requirement'', module_schema_requirement), (''component'', module_schema_component), (''test_section'', module_schema_test_section), (''data_flow'', module_schema_data_flow), (''api'', module_schema_api)])]"


subsection \<open>Entries\<close>

definition identityHashPattern :: string where
  "identityHashPattern = ''^[a-f0-9]{12}$''"

definition go_object :: "(string \<times> json) list \<Rightarrow> json" where
  "go_object kvs = JObject (map_entries kvs)"

definition hash_value :: json where
  "hash_value = go_object [(''type'', JString ''string''), (''pattern'', JString identityHashPattern)]"

definition composeFieldSchema :: "field \<Rightarrow> json" where
  "composeFieldSchema f =
     (let prop =
        (case fld_kind f of
           FieldKindInteger \<Rightarrow>
             [(''type'', JString ''integer'')]
             @ (case fld_minimum f of Some n \<Rightarrow> [(''minimum'', JNumber (signed_decimal n))] | None \<Rightarrow> [])
             @ (case fld_maximum f of Some n \<Rightarrow> [(''maximum'', JNumber (signed_decimal n))] | None \<Rightarrow> [])
         | FieldKindReference \<Rightarrow>
             if fld_cardinality f = ''one'' then
               [(''type'', JString ''string''), (''pattern'', JString identityHashPattern)]
             else [(''type'', JString ''array''), (''items'', hash_value), (''uniqueItems'', JBool True)]
         | _ \<Rightarrow>
             [(''type'', JString ''string'')]
             @ (if fld_required f \<and> fld_enum f = [] then [(''minLength'', JNumber ''1'')] else [])
             @ (if fld_enum f \<noteq> [] then [(''enum'', JArray (map JString (fld_enum f)))] else []))
      in go_object (prop @ (if fld_description f \<noteq> [] then [(''description'', JString (fld_description f))] else [])))"

definition edgesSourcedAt :: "edge list \<Rightarrow> string \<Rightarrow> edge list" where
  "edgesSourcedAt edges typeName = filter (\<lambda>e. typeName \<in> set (edg_from e)) edges"

definition projectScopedEdges :: "edge list \<Rightarrow> edge list" where
  "projectScopedEdges edges = filter (\<lambda>e. edg_kind e \<noteq> ''preq_id'') edges"

definition edge_property :: "scoped_node_type \<Rightarrow> edge \<Rightarrow> json" where
  "edge_property t e =
     go_object
       [(''type'', JString ''array''),
        (''description'', JString (''Identity hashes this '' @ snt_name t @ '' references via the '' @ edg_kind e @ '' edge.'')),
        (''items'', hash_value),
        (''uniqueItems'', JBool True)]"

definition envelope_properties :: "string \<Rightarrow> scoped_node_type \<Rightarrow> raw_entry" where
  "envelope_properties leafNote t =
     map_entries
       ([(''id'', go_object [(''type'', JString ''string''), (''pattern'', JString identityHashPattern),
            (''description'', JString (''Identity hash ID (12-char hex), unique within the '' @ snt_plural_key t @ '' array.''))]),
         (''name'', go_object [(''type'', JString ''string''), (''minLength'', JNumber ''1''),
            (''description'', JString (snt_name t @ '' name.''))]),
         (''description'', go_object [(''type'', JString ''string''),
            (''description'', JString (snt_name t @ '' description.''))])]
        @ (if snt_requires_content t
           then [(''content'', go_object [(''type'', JString ''string''), (''minLength'', JNumber ''1''),
                    (''description'', JString leafNote)])]
           else []))"

text \<open>A field wins over an edge of the same name: its loop runs last.\<close>

definition entry_properties :: "string \<Rightarrow> scoped_node_type \<Rightarrow> edge list \<Rightarrow> raw_entry" where
  "entry_properties leafNote t edges =
     fold (\<lambda>f. gput (fld_name f) (composeFieldSchema f)) (snt_fields t)
       (fold (\<lambda>e. gput (edg_kind e) (edge_property t e)) edges (envelope_properties leafNote t))"

definition required_names :: "scoped_node_type \<Rightarrow> string list" where
  "required_names t =
     ''id'' # map fld_name (filter fld_required (snt_fields t)) @ [''name''] @
     (if snt_requires_content t then [''content''] else [])"

definition node_def :: "string \<Rightarrow> scoped_node_type \<Rightarrow> edge list \<Rightarrow> json" where
  "node_def leafNote t edges =
     go_object
       ([(''type'', JString ''object''),
         (''required'', JArray (map JString (required_names t))),
         (''additionalProperties'', JBool False),
         (''properties'', JObject (entry_properties leafNote t edges))]
        @ (if snt_comment t \<noteq> [] then [(''$comment'', JString (snt_comment t))] else []))"

definition genericProjectNodeDef :: "scoped_node_type \<Rightarrow> edge list \<Rightarrow> json" where
  "genericProjectNodeDef = node_def ''Relative path to the markdown content leaf.''"

definition genericNodeDef :: "scoped_node_type \<Rightarrow> edge list \<Rightarrow> json" where
  "genericNodeDef = node_def ''Relative path to the markdown content leaf (described_in edge to content leaf).''"

subsection \<open>The frames\<close>

text \<open>A shipped document without the arrays and the definitions a profile supplies, and those arrays.\<close>

definition schema_frame :: "json \<Rightarrow> string list \<Rightarrow> scoped_node_type list \<Rightarrow> (string, raw_entry \<times> raw_entry) result" where
  "schema_frame doc arrays builtin =
     (case doc of
        JObject frame \<Rightarrow>
          (case map_of frame ''properties'' of
             Some (JObject props) \<Rightarrow>
               let original = filter (\<lambda>(k, v). k \<in> set arrays) props;
                   frame1 = gput ''properties'' (JObject (fold gdel arrays props)) frame
               in Inr (case map_of frame1 ''$defs'' of
                         Some (JObject defs) \<Rightarrow>
                           gput ''$defs'' (JObject (fold (\<lambda>t. gdel (snt_name t)) builtin defs)) frame1
                       | _ \<Rightarrow> frame1, original)
           | _ \<Rightarrow> Inl ''schema has no properties object'')
      | _ \<Rightarrow> Inl ''unmarshal schema'')"

definition projectSchemaFrame :: "(string, raw_entry \<times> raw_entry) result" where
  "projectSchemaFrame = schema_frame (go_value project_schema_file) projectProfileArrays DefaultProjectNodeTypes"

definition moduleSchemaFrame :: "(string, raw_entry \<times> raw_entry) result" where
  "moduleSchemaFrame = schema_frame (go_value module_schema_file) moduleProfileArrays DefaultModuleNodeTypes"

subsection \<open>Composition\<close>

definition array_keys :: "scoped_node_type list \<Rightarrow> (string \<times> string) list" where
  "array_keys builtin = map_entries (map (\<lambda>t. (snt_name t, snt_plural_key t)) builtin)"

definition defaultProjectArrayKeyByTypeName :: "(string \<times> string) list" where
  "defaultProjectArrayKeyByTypeName = array_keys DefaultProjectNodeTypes"

definition defaultArrayKeyByTypeName :: "(string \<times> string) list" where
  "defaultArrayKeyByTypeName = array_keys DefaultModuleNodeTypes"

definition array_property :: "(string \<times> string) list \<Rightarrow> raw_entry \<Rightarrow> scoped_node_type \<Rightarrow> json" where
  "array_property defaultKeys originalArrays t =
     (case map_of defaultKeys (snt_name t) of
        Some origKey \<Rightarrow>
          (case map_of originalArrays origKey of
             Some orig \<Rightarrow> orig
           | None \<Rightarrow>
               go_object [(''type'', JString ''array''),
                 (''description'', JString (snt_name t @ '' entries declared by the resolved profile.'')),
                 (''items'', go_object [(''$ref'', JString (''#/$defs/'' @ snt_name t))])])
      | None \<Rightarrow>
          go_object [(''type'', JString ''array''),
            (''description'', JString (snt_name t @ '' entries declared by the resolved profile.'')),
            (''items'', go_object [(''$ref'', JString (''#/$defs/'' @ snt_name t))])])"

definition compose_types :: "(string, raw_entry \<times> raw_entry) result \<Rightarrow> (string \<times> string) list
    \<Rightarrow> (scoped_node_type \<Rightarrow> json) \<Rightarrow> scoped_node_type list \<Rightarrow> (string, json) result" where
  "compose_types frame_result defaultKeys def_of types =
     bind_result frame_result (\<lambda>(frame, originalArrays).
       case map_of frame ''properties'' of
         Some (JObject props) \<Rightarrow>
           (case map_of frame ''$defs'' of
              Some (JObject defs) \<Rightarrow>
                (case fold (\<lambda>t (props, defs).
                        (gput (snt_plural_key t) (array_property defaultKeys originalArrays t) props,
                         gput (snt_name t) (def_of t) defs)) types (props, defs) of
                   (props', defs') \<Rightarrow>
                     Inr (JObject (gput ''properties'' (JObject props') (gput ''$defs'' (JObject defs') frame))))
            | _ \<Rightarrow> Inl ''frame has no $defs object'')
       | _ \<Rightarrow> Inl ''frame has no properties object'')"

definition ComposeProjectSchema :: "scoped_node_type list \<Rightarrow> edge list \<Rightarrow> (string, json) result" where
  "ComposeProjectSchema types edges =
     compose_types projectSchemaFrame defaultProjectArrayKeyByTypeName
       (\<lambda>t. genericProjectNodeDef t (edgesSourcedAt (projectScopedEdges edges) (snt_name t))) types"

definition ComposeModuleSchema :: "scoped_node_type list \<Rightarrow> edge list \<Rightarrow> (string, json) result" where
  "ComposeModuleSchema types edges =
     compose_types moduleSchemaFrame defaultArrayKeyByTypeName
       (\<lambda>t. genericNodeDef t (edgesSourcedAt edges (snt_name t))) types"

definition ProjectSchema :: "(string, json) result" where
  "ProjectSchema = ComposeProjectSchema (ProjectNodeTypes DefaultProfile) (prf_edges DefaultProfile)"

definition ModuleSchema :: "(string, json) result" where
  "ModuleSchema = ComposeModuleSchema (ModuleNodeTypes DefaultProfile) (prf_edges DefaultProfile)"

end
