(* ===== verification/Validator_Schema.thy ===== *)
theory Validator_Schema
  imports Spec_Decode Schema_Compose
begin

text \<open>
  The schema check (\<open>validator/schema_checker.go\<close>). The schemas are composed from the profile; compiling
  them and running them on a document is the work of the third-party schema library, a parameter. The walk
  over the files and over the library's report is modelled.
\<close>

subsection \<open>The report of the schema library\<close>

text \<open>An error of the library: a missing property list, or a kind known by its text only.\<close>

datatype output_error = RequiredKind "string list" | OtherKind string

datatype output_unit = OutputUnit (ou_errors: "output_unit list") (ou_error: "output_error option") (ou_instance: string)

datatype verdict = Valid | Invalid output_unit string | Failed string

text \<open>
  The library: adding a document under a name may fail, as may compiling it; the basic output of an error
  is a flat list of texts with the place in the instance.
\<close>

record schema_library =
  lib_add :: "string \<Rightarrow> json \<Rightarrow> string option"
  lib_compile :: "string \<Rightarrow> json \<Rightarrow> (string, json \<Rightarrow> verdict) result"
  lib_basic :: "output_unit \<Rightarrow> (string option \<times> string) list"

record compiled_schemas =
  cs_project :: "json \<Rightarrow> verdict"
  cs_module :: "json \<Rightarrow> verdict"

definition labelled :: "string \<Rightarrow> (string, 'a) result \<Rightarrow> (string, 'a) result" where
  "labelled l r = (case r of Inl e \<Rightarrow> Inl (l @ e) | Inr a \<Rightarrow> Inr a)"

definition added :: "string \<Rightarrow> string option \<Rightarrow> (string, unit) result" where
  "added l r = (case r of Some e \<Rightarrow> Inl (l @ e) | None \<Rightarrow> Inr ())"

text \<open>A composed document is marshalled and parsed again, which gives it back.\<close>

definition compileSchemas :: "schema_library \<Rightarrow> profile \<Rightarrow> (string, compiled_schemas) result" where
  "compileSchemas lib p =
     bind_result (labelled ''validator: compose project schema: schema: compose project schema: ''
                    (ComposeProjectSchema (ProjectNodeTypes p) (prf_edges p))) (\<lambda>projDoc.
     bind_result (added ''validator: add project schema: '' (lib_add lib ''project.schema.json'' projDoc)) (\<lambda>_.
     bind_result (labelled ''validator: compose module schema: schema: compose module schema: ''
                    (ComposeModuleSchema (ModuleNodeTypes p) (prf_edges p))) (\<lambda>modDoc.
     bind_result (added ''validator: add module schema: '' (lib_add lib ''module.schema.json'' modDoc)) (\<lambda>_.
     bind_result (labelled ''validator: compile project schema: '' (lib_compile lib ''project.schema.json'' projDoc)) (\<lambda>projSchema.
     bind_result (labelled ''validator: compile module schema: '' (lib_compile lib ''module.schema.json'' modDoc)) (\<lambda>modSchema.
       Inr \<lparr>cs_project = projSchema, cs_module = modSchema\<rparr>))))))"

text \<open>\<open>None\<close> is the empty text, which is dropped.\<close>

definition requiredMessage :: "output_error \<Rightarrow> message option" where
  "requiredMessage e =
     (case e of
        RequiredKind missing \<Rightarrow> Some (MissingRequired missing)
      | OtherKind s \<Rightarrow> if s = [] then None else Some (SchemaProblem s))"

fun collectLeafErrors :: "string \<Rightarrow> output_unit \<Rightarrow> validation_error list" where
  "collectLeafErrors displayPath (OutputUnit errs e inst) =
     (if errs \<noteq> [] then concat (map (collectLeafErrors displayPath) errs)
      else case e of
             None \<Rightarrow> []
           | Some e \<Rightarrow>
               (case requiredMessage e of
                  None \<Rightarrow> []
                | Some msg \<Rightarrow>
                    [verror ''schema'' (if inst \<noteq> [] then displayPath @ '':'' @ inst else displayPath) msg]))"

definition flattenValidationErrors :: "output_unit \<Rightarrow> string \<Rightarrow> string \<Rightarrow> validation_error list" where
  "flattenValidationErrors u text displayPath =
     (let errs = collectLeafErrors displayPath u
      in if errs = [] then [verror ''schema'' displayPath (SchemaProblem text)] else errs)"

subsection \<open>Files\<close>

text \<open>The findings of one file and its document; \<open>JNull\<close> stands for Go's nil, as for a document that is \<open>null\<close>.\<close>

definition validateFile :: "mem_fs \<Rightarrow> string \<Rightarrow> string \<Rightarrow> (json \<Rightarrow> verdict) \<Rightarrow> validation_error list \<times> json" where
  "validateFile m filePath displayPath sch =
     (case file_json m filePath of
        Inl e \<Rightarrow> ([verror ''schema'' displayPath (file_message e)], JNull)
      | Inr j \<Rightarrow>
          let doc = go_value j
          in case sch doc of
               Valid \<Rightarrow> ([], doc)
             | Failed s \<Rightarrow> ([verror ''schema'' displayPath (SchemaProblem s)], doc)
             | Invalid u s \<Rightarrow> (flattenValidationErrors u s displayPath, doc))"

definition trim_right_slash :: "string \<Rightarrow> string" where
  "trim_right_slash s = rev (dropWhile (\<lambda>c. c = CHR ''/'') (rev s))"

definition extractModulePaths :: "json \<Rightarrow> (string, string list) result" where
  "extractModulePaths projData =
     (case projData of
        JObject obj \<Rightarrow>
          (case map_of obj ''modules'' of
             None \<Rightarrow> Inr []
           | Some (JArray mods) \<Rightarrow>
               Inr (List.map_filter (\<lambda>md.
                 case md of
                   JObject kvs \<Rightarrow>
                     (case map_of kvs ''path'' of
                        Some (JString p) \<Rightarrow> Some (trim_right_slash p)
                      | _ \<Rightarrow> None)
                 | _ \<Rightarrow> None) mods)
           | Some _ \<Rightarrow> Inl ''modules field is not an array'')
      | _ \<Rightarrow> Inl ''project data is not an object'')"

text \<open>The project file first; when it does not parse no module can be found.\<close>

definition check_spec_files :: "compiled_schemas \<Rightarrow> mem_fs \<Rightarrow> validation_error list" where
  "check_spec_files schemas m =
     (case validateFile m ''project.json'' ''project.json'' (cs_project schemas) of
        (projErrs, projData) \<Rightarrow>
          if projData = JNull then projErrs
          else case extractModulePaths projData of
                 Inl e \<Rightarrow> projErrs @ [verror ''schema'' ''project.json'' (SchemaProblem (''extract module paths: '' @ e))]
               | Inr paths \<Rightarrow>
                   projErrs @ concat (map (\<lambda>modPath.
                     fst (validateFile m (filepath_Join [modPath, ''module.json'']) (modPath @ ''/module.json'')
                            (cs_module schemas))) paths))"

definition CheckSchemaFS :: "(mem_fs \<Rightarrow> (string, profile) result) \<Rightarrow> schema_library \<Rightarrow> mem_fs \<Rightarrow> validation_error list" where
  "CheckSchemaFS resolve lib m =
     (case resolve m of
        Inl e \<Rightarrow> [verror ''schema'' ''profile.json'' (FileError e)]
      | Inr p \<Rightarrow>
          (case compileSchemas lib p of
             Inl e \<Rightarrow> [verror ''schema'' [] (FileError e)]
           | Inr schemas \<Rightarrow> check_spec_files schemas m))"

subsection \<open>What the check accepts\<close>

lemma collectLeafErrors_check: "e \<in> set (collectLeafErrors dp u) \<Longrightarrow> ve_check e = ''schema''"
  by (induction dp u rule: collectLeafErrors.induct) (auto simp: verror_def split: if_splits option.splits)

lemma flatten_nonempty: "flattenValidationErrors u s dp \<noteq> []"
  by (simp add: flattenValidationErrors_def Let_def)

lemma validateFile_Nil:
  "fst (validateFile m f dp sch) = [] \<longleftrightarrow> (\<exists>j. file_json m f = Inr j \<and> sch (go_value j) = Valid)"
  by (auto simp: validateFile_def Let_def flatten_nonempty split: sum.splits verdict.splits)

text \<open>
  The schema check accepts a directory exactly when its profile resolves, the schemas composed from it
  compile, the project file parses and satisfies the project schema, and the file of every module path it
  lists parses and satisfies the module schema.
\<close>

theorem CheckSchema_exact:
  "CheckSchemaFS resolve lib m = [] \<longleftrightarrow>
    (\<exists>p schemas j. resolve m = Inr p \<and> compileSchemas lib p = Inr schemas \<and> file_json m ''project.json'' = Inr j \<and>
       cs_project schemas (go_value j) = Valid \<and>
       (go_value j = JNull \<or>
        (\<exists>paths. extractModulePaths (go_value j) = Inr paths \<and>
           (\<forall>modPath \<in> set paths. \<exists>mj. file_json m (filepath_Join [modPath, ''module.json'']) = Inr mj \<and>
              cs_module schemas (go_value mj) = Valid))))"
proof -
  have snd: "snd (validateFile m f dp sch) = (case file_json m f of Inl e \<Rightarrow> JNull | Inr j \<Rightarrow> go_value j)" for f dp sch
    by (simp add: validateFile_def Let_def split: sum.split verdict.split)
  have "check_spec_files schemas m = [] \<longleftrightarrow>
      (\<exists>j. file_json m ''project.json'' = Inr j \<and> cs_project schemas (go_value j) = Valid \<and>
       (go_value j = JNull \<or>
        (\<exists>paths. extractModulePaths (go_value j) = Inr paths \<and>
           (\<forall>modPath \<in> set paths. \<exists>mj. file_json m (filepath_Join [modPath, ''module.json'']) = Inr mj \<and>
              cs_module schemas (go_value mj) = Valid))))" for schemas
    using validateFile_Nil[of m "''project.json''" "''project.json''" "cs_project schemas"]
      snd[of "''project.json''" "''project.json''" "cs_project schemas"]
    by (cases "validateFile m ''project.json'' ''project.json'' (cs_project schemas)")
       (auto simp: check_spec_files_def validateFile_Nil split: sum.splits)
  then show ?thesis by (auto simp: CheckSchemaFS_def split: sum.splits)
qed

end
