(* ===== verification/Validator_Coupled.thy ===== *)
theory Validator_Coupled
  imports Validator_Schema
begin

text \<open>
  The sections of the project file (\<open>validator/coupled_section_checker.go\<close>): every section has an id, a
  name and a type of its own, and a coupled section satisfies the schema its module ships. The schema
  library and the folding of letter case are parameters.
\<close>

definition section_error :: "string \<Rightarrow> message \<Rightarrow> validation_error" where
  "section_error path msg = verror ''coupled_section'' path msg"

subsection \<open>One section\<close>

definition checkSectionEnvelope :: "section_decl \<Rightarrow> nat \<Rightarrow> string \<Rightarrow> validation_error list \<times> bool" where
  "checkSectionEnvelope s index path =
     (case decode_entry (sec_raw s) of
        Inl e \<Rightarrow> ([section_error path (file_message e)], False)
      | Inr raw \<Rightarrow>
          let missing = filter (\<lambda>f. f \<notin> fst ` set raw) [''id'', ''name'', ''type'']
          in (map (\<lambda>f. section_error path (SectionFieldMissing index f)) missing, missing = []))"

definition nearestName :: "(string \<Rightarrow> string \<Rightarrow> bool) \<Rightarrow> string \<Rightarrow> string list \<Rightarrow> string" where
  "nearestName equal_fold target names = (case find (equal_fold target) names of Some n \<Rightarrow> n | None \<Rightarrow> [])"

definition stripSectionEnvelope :: "json \<Rightarrow> json" where
  "stripSectionEnvelope raw =
     (case go_value raw of JObject obj \<Rightarrow> JObject (gdel ''type'' (gdel ''name'' (gdel ''id'' obj))) | doc \<Rightarrow> doc)"

definition contentValidationErrors :: "schema_library \<Rightarrow> output_unit \<Rightarrow> string \<Rightarrow> string \<Rightarrow> string \<Rightarrow> string
    \<Rightarrow> validation_error list" where
  "contentValidationErrors lib err text sectionName schemaPath path =
     (let errs = List.map_filter (\<lambda>(e, inst).
             case e of
               None \<Rightarrow> None
             | Some msg \<Rightarrow> if msg = [] then None else Some (section_error path (SectionContent sectionName inst msg)))
            (lib_basic lib err)
      in if errs = [] then [section_error path (SectionContentInvalid sectionName schemaPath text)] else errs)"

definition checkCoupledSection :: "schema_library \<Rightarrow> (string \<Rightarrow> string \<Rightarrow> bool) \<Rightarrow> mem_fs \<Rightarrow> section_decl
    \<Rightarrow> (string \<rightharpoonup> string) \<Rightarrow> string list \<Rightarrow> string \<Rightarrow> validation_error list" where
  "checkCoupledSection lib equal_fold m s modulePaths moduleNames errPath =
     (case modulePaths (sec_name s) of
        None \<Rightarrow>
          let near = nearestName equal_fold (sec_name s) moduleNames
          in [section_error errPath (SectionWithoutModule (sec_name s) (if near \<noteq> [] then Some near else None))]
      | Some modPath \<Rightarrow>
          let rel = filepath_Join [modPath, ''section.schema.json'']
          in (case ReadFile m rel of
                None \<Rightarrow> [section_error errPath (SectionSchemaMissing (sec_name s) rel)]
              | Some f \<Rightarrow>
                  (case file_json m rel of
                     Inl e \<Rightarrow> [section_error errPath (SectionSchemaUnusable ''parse'' rel [])]
                   | Inr j \<Rightarrow>
                       let doc = go_value j; url = ''section:'' @ rel
                       in (case lib_add lib url doc of
                             Some e \<Rightarrow> [section_error errPath (SectionSchemaUnusable ''load'' rel e)]
                           | None \<Rightarrow>
                               (case lib_compile lib url doc of
                                  Inl e \<Rightarrow> [section_error errPath (SectionSchemaUnusable ''compile'' rel e)]
                                | Inr validate \<Rightarrow>
                                    (case validate (stripSectionEnvelope (sec_raw s)) of
                                       Valid \<Rightarrow> []
                                     | Failed t \<Rightarrow> [section_error errPath (SectionContentInvalid (sec_name s) rel t)]
                                     | Invalid u t \<Rightarrow> contentValidationErrors lib u t (sec_name s) rel errPath))))))"

subsection \<open>All sections\<close>

definition section_path :: "nat \<Rightarrow> string" where
  "section_path i = ''project.json:/sections/'' @ decimal i"

definition seen_error :: "(nat \<Rightarrow> message) \<Rightarrow> (string \<rightharpoonup> nat) \<Rightarrow> string \<Rightarrow> string \<Rightarrow> validation_error list" where
  "seen_error msg seen key path = (case seen key of Some j \<Rightarrow> [section_error path (msg j)] | None \<Rightarrow> [])"

definition remember :: "string \<Rightarrow> nat \<Rightarrow> (string \<rightharpoonup> nat) \<Rightarrow> (string \<rightharpoonup> nat)" where
  "remember key i seen = (case seen key of Some j \<Rightarrow> seen | None \<Rightarrow> seen(key \<mapsto> i))"

fun check_sections :: "(section_decl \<Rightarrow> string \<Rightarrow> validation_error list) \<Rightarrow> nat \<Rightarrow> (string \<rightharpoonup> nat) \<Rightarrow> (string \<rightharpoonup> nat)
    \<Rightarrow> section_decl list \<Rightarrow> validation_error list" where
  "check_sections coupled i seenIDs seenNames [] = []"
| "check_sections coupled i seenIDs seenNames (s # ss) =
     (case checkSectionEnvelope s i (section_path i) of
        (envErrs, ok) \<Rightarrow>
          envErrs @
          (if \<not> ok then check_sections coupled (Suc i) seenIDs seenNames ss
           else seen_error (DuplicateSectionID (sec_id s)) seenIDs (sec_id s) (section_path i) @
                seen_error (DuplicateSectionName (sec_name s)) seenNames (sec_name s) (section_path i) @
                (if sec_type s \<noteq> ''coupled'' then [] else coupled s (section_path i)) @
                check_sections coupled (Suc i) (remember (sec_id s) i seenIDs) (remember (sec_name s) i seenNames) ss))"

definition CheckCoupledSectionsFS :: "(mem_fs \<Rightarrow> (string, profile) result) \<Rightarrow> schema_library \<Rightarrow> (string \<Rightarrow> string \<Rightarrow> bool)
    \<Rightarrow> mem_fs \<Rightarrow> validation_error list" where
  "CheckCoupledSectionsFS resolve lib equal_fold m =
     (case loadSpec (spec_view resolve m) ''coupled_section'' of
        Inl errs \<Rightarrow> errs
      | Inr (prj, modules) \<Rightarrow>
          let modulePaths = fold (\<lambda>md paths. paths(mod_name md \<mapsto> mod_path md)) (prj_modules prj) Map.empty;
              moduleNames = map mod_name (prj_modules prj)
          in check_sections (\<lambda>s. checkCoupledSection lib equal_fold m s modulePaths moduleNames) 0 Map.empty Map.empty
               (prj_sections prj))"

subsection \<open>What the check accepts\<close>

definition envelope_ok :: "section_decl \<Rightarrow> bool" where
  "envelope_ok s \<longleftrightarrow> (\<exists>raw. decode_entry (sec_raw s) = Inr raw \<and> {''id'', ''name'', ''type''} \<subseteq> fst ` set raw)"

text \<open>The schema of the module accepts the section without its envelope.\<close>

definition section_valid :: "schema_library \<Rightarrow> mem_fs \<Rightarrow> module_decl list \<Rightarrow> section_decl \<Rightarrow> bool" where
  "section_valid lib m mds s \<longleftrightarrow>
     (\<exists>md j. find (\<lambda>md. mod_name md = sec_name s) (rev mds) = Some md \<and>
        file_json m (filepath_Join [mod_path md, ''section.schema.json'']) = Inr j \<and>
        lib_add lib (''section:'' @ filepath_Join [mod_path md, ''section.schema.json'']) (go_value j) = None \<and>
        (\<exists>validate. lib_compile lib (''section:'' @ filepath_Join [mod_path md, ''section.schema.json'']) (go_value j) = Inr validate \<and>
           validate (stripSectionEnvelope (sec_raw s)) = Valid))"

lemma checkSectionEnvelope_ok:
  "fst (checkSectionEnvelope s i path) = [] \<longleftrightarrow> envelope_ok s" "snd (checkSectionEnvelope s i path) \<longleftrightarrow> envelope_ok s"
  by (auto simp: checkSectionEnvelope_def envelope_ok_def Let_def filter_empty_conv split: sum.split)

lemma contentValidationErrors_nonempty: "contentValidationErrors lib u t n sp path \<noteq> []"
  by (simp add: contentValidationErrors_def Let_def)

lemma last_path: "fold (\<lambda>md paths. paths(mod_name md \<mapsto> mod_path md)) mds Map.empty n =
    map_option mod_path (find (\<lambda>md. mod_name md = n) (rev mds))"
proof -
  have "map_of (map (\<lambda>md. (mod_name md, mod_path md)) xs) n = map_option mod_path (find (\<lambda>md. mod_name md = n) xs)" for xs
    by (induction xs) auto
  then show ?thesis by (simp add: fold_map_upd rev_map)
qed

lemma checkCoupledSection_Nil:
  "checkCoupledSection lib ef m s (fold (\<lambda>md paths. paths(mod_name md \<mapsto> mod_path md)) mds Map.empty) names path = [] \<longleftrightarrow>
     section_valid lib m mds s"
  unfolding checkCoupledSection_def section_valid_def last_path
  by (auto simp: Let_def contentValidationErrors_nonempty file_json_def split: option.splits sum.splits verdict.splits)

lemma check_sections_Nil:
  "check_sections coupled i ids names ss = [] \<longleftrightarrow>
     (\<forall>s \<in> set ss. envelope_ok s \<and> (sec_type s = ''coupled'' \<longrightarrow> (\<forall>j. coupled s (section_path j) = []))) \<and>
     distinct (map sec_id ss) \<and> distinct (map sec_name ss) \<and>
     sec_id ` set ss \<inter> dom ids = {} \<and> sec_name ` set ss \<inter> dom names = {}"
  if "\<And>s j k. coupled s (section_path j) = [] \<longleftrightarrow> coupled s (section_path k) = []"
proof (induction ss arbitrary: i ids names)
  case (Cons s ss)
  have all: "(\<forall>j. coupled s (section_path j) = []) \<longleftrightarrow> coupled s (section_path i) = []" using that by blast
  have dom: "dom (remember k i m) = insert k (dom m)" for k m by (auto simp: remember_def split: option.split)
  have seen: "seen_error msg m k p = [] \<longleftrightarrow> k \<notin> dom m" for msg m k p by (auto simp: seen_error_def split: option.split)
  show ?case
    using checkSectionEnvelope_ok[of s i "section_path i"]
    by (cases "checkSectionEnvelope s i (section_path i)") (auto simp: Cons.IH dom seen all)
qed simp

text \<open>
  C40: the check of sections accepts a directory exactly when it loads, every section has the three envelope
  fields, no id and no name repeats, and every coupled section names a module whose schema compiles and
  accepts the section without its envelope.
\<close>

theorem CheckCoupledSections_exact:
  "CheckCoupledSectionsFS resolve lib equal_fold m = [] \<longleftrightarrow>
    (\<exists>prj modules. loadSpec (spec_view resolve m) ''coupled_section'' = Inr (prj, modules) \<and>
       (\<forall>s \<in> set (prj_sections prj). envelope_ok s \<and> (sec_type s = ''coupled'' \<longrightarrow> section_valid lib m (prj_modules prj) s)) \<and>
       distinct (map sec_id (prj_sections prj)) \<and> distinct (map sec_name (prj_sections prj)))"
proof (cases "loadSpec (spec_view resolve m) ''coupled_section''")
  case (Inl errs)
  then have "errs \<noteq> []" by (auto simp: loadSpec_def split: sum.splits prod.splits if_splits)
  then show ?thesis by (simp add: CheckCoupledSectionsFS_def Inl)
next
  case (Inr r)
  obtain prj modules where r: "r = (prj, modules)" by (cases r)
  show ?thesis
    by (simp add: CheckCoupledSectionsFS_def Inr r Let_def check_sections_Nil checkCoupledSection_Nil)
qed

subsection \<open>A coupled section\<close>

definition coupled_sample :: mem_fs where
  "coupled_sample =
     [(''core/module.json'', Doc (JObject [(''name'', JString ''core'')])),
      (''core/section.schema.json'', Doc (JObject [(''type'', JString ''object'')])),
      (''project.json'', Doc (JObject
         [(''name'', JString ''demo''),
          (''modules'', JArray [JObject [(''id'', JString ''aaaaaaaaaaaa''), (''name'', JString ''core''), (''path'', JString ''core'')]]),
          (''sections'', JArray [JObject [(''id'', JString ''bbbbbbbbbbbb''), (''name'', JString ''core''),
             (''type'', JString ''coupled''), (''mode'', JString ''fast'')]])]))]"

definition mode_library :: schema_library where
  "mode_library =
     \<lparr>lib_add = (\<lambda>_ _. None),
      lib_compile = (\<lambda>_ _. Inr (\<lambda>v. if v = JObject [(''mode'', JString ''fast'')] then Valid else Failed ''mode'')),
      lib_basic = (\<lambda>_. [])\<rparr>"

definition no_profile :: "mem_fs \<Rightarrow> (string, profile) result" where
  "no_profile m = Inl []"

theorem CheckCoupledSections_exact_witness:
  "\<exists>prj modules. loadSpec (spec_view no_profile coupled_sample) ''coupled_section'' = Inr (prj, modules) \<and>
     (\<exists>s \<in> set (prj_sections prj). section_valid mode_library coupled_sample (prj_modules prj) s)"
proof -
  have "CheckCoupledSectionsFS no_profile mode_library (=) coupled_sample = []" by code_simp
  then obtain prj modules where l: "loadSpec (spec_view no_profile coupled_sample) ''coupled_section'' = Inr (prj, modules)"
      and ok: "\<forall>s \<in> set (prj_sections prj). sec_type s = ''coupled'' \<longrightarrow> section_valid mode_library coupled_sample (prj_modules prj) s"
    using CheckCoupledSections_exact[of no_profile mode_library "(=)" coupled_sample] by blast
  have "case loadSpec (spec_view no_profile coupled_sample) ''coupled_section'' of Inl e \<Rightarrow> False
      | Inr (prj, modules) \<Rightarrow> list_ex (\<lambda>s. sec_type s = ''coupled'') (prj_sections prj)" by code_simp
  then show ?thesis using l ok by (auto simp: list_ex_iff)
qed

end
