(* ===== verification/Validator_Content.thy ===== *)
theory Validator_Content
  imports Validator_Ids Spec_Decode
begin

text \<open>
  The check that every content leaf a node names is there (\<open>validator/content_resolver.go\<close>), over the
  in-memory directory.
\<close>

subsection \<open>Content references\<close>

record content_ref =
  crf_content :: string
  crf_node_name :: string
  crf_node_type :: string
  crf_plural_key :: string

type_synonym content_entry = "string \<times> string"

definition moduleContentEntries :: "module_spec \<Rightarrow> string \<Rightarrow> content_entry list option" where
  "moduleContentEntries m typeName =
     (if typeName = ''component'' then Some (map (\<lambda>c. (cmp_name c, cmp_content c)) (ms_components m))
      else if typeName = ''data_flow'' then Some (map (\<lambda>d. (dfl_name d, dfl_content d)) (ms_data_flows m))
      else if typeName = ''test_section'' then Some (map (\<lambda>t. (tst_name t, tst_content t)) (ms_test_sections m))
      else None)"

definition contentEntriesFromRaw :: "raw_entry list \<Rightarrow> content_entry list" where
  "contentEntriesFromRaw raw = map (\<lambda>e. (raw_str e ''name'', raw_str e ''content'')) raw"

definition contentBearingModuleTypes :: "profile \<Rightarrow> node_type list" where
  "contentBearingModuleTypes p = filter nt_requires_content (moduleScopedNodeTypes p)"

definition content_entries :: "spec_files \<Rightarrow> string \<Rightarrow> module_spec \<Rightarrow> node_type \<Rightarrow> content_entry list" where
  "content_entries fsys modPath m nt =
     (case moduleContentEntries m (nt_name nt) of
        Some entries \<Rightarrow> entries
      | None \<Rightarrow>
          (case rawModuleEntries fsys modPath (nt_plural_key nt) of
             Inl e \<Rightarrow> []
           | Inr raw \<Rightarrow> contentEntriesFromRaw raw))"

definition content_refs :: "spec_files \<Rightarrow> string \<Rightarrow> module_spec \<Rightarrow> node_type list \<Rightarrow> content_ref list" where
  "content_refs fsys modPath m types =
     concat (map (\<lambda>nt.
       map (\<lambda>(name, content). \<lparr>crf_content = content, crf_node_name = name, crf_node_type = nt_name nt,
                               crf_plural_key = nt_plural_key nt\<rparr>)
         (filter (\<lambda>e. snd e \<noteq> []) (content_entries fsys modPath m nt))) types)"

subsection \<open>Paths\<close>

definition checkContentPath :: "mem_fs \<Rightarrow> string \<Rightarrow> string \<Rightarrow> content_ref \<Rightarrow> validation_error list" where
  "checkContentPath m modPath modName ref =
     (let location = modName @ ''/module.json:/'' @ crf_plural_key ref @ ''/'' @ crf_node_name ref @ ''/content'';
          fullPath = filepath_Join [modPath, crf_content ref]
      in if ''..'' \<in> set (split_slash [] (crf_content ref)) then
           [verror ''content'' location (ContentDotDot (crf_content ref))]
         else if prefix ''/'' (crf_content ref) then
           [verror ''content'' location (ContentAbsolute (crf_content ref))]
         else if \<not> ValidPath fullPath then
           [verror ''content'' location (ContentInaccessible (crf_content ref) fullPath)]
         else if ReadFile m fullPath = None then
           [verror ''content'' location (ContentMissing (crf_content ref))]
         else [])"

definition checkModuleContent :: "mem_fs \<Rightarrow> spec_files \<Rightarrow> string \<Rightarrow> string \<Rightarrow> module_spec \<Rightarrow> node_type list
    \<Rightarrow> validation_error list" where
  "checkModuleContent m fsys modPath modName spec types =
     concat (map (checkContentPath m modPath modName)
       (sort_key (\<lambda>r. (crf_node_type r, crf_node_name r)) (content_refs fsys modPath spec types)))"

definition CheckContentPathsFS :: "(mem_fs \<Rightarrow> (string, profile) result) \<Rightarrow> mem_fs \<Rightarrow> validation_error list" where
  "CheckContentPathsFS resolve m =
     (case load_checked (spec_view resolve m) ''content'' of
        Inl errs \<Rightarrow> errs
      | Inr (prj, modules, p) \<Rightarrow>
          concat (map (\<lambda>md.
            case map_of modules (mod_name md) of
              None \<Rightarrow> []
            | Some spec \<Rightarrow>
                checkModuleContent m (spec_view resolve m) (mod_path md) (mod_name md) spec (contentBearingModuleTypes p))
          (prj_modules prj)))"

subsection \<open>What the check accepts\<close>

definition content_ok :: "mem_fs \<Rightarrow> string \<Rightarrow> string \<Rightarrow> bool" where
  "content_ok m modPath content \<longleftrightarrow>
     ''..'' \<notin> set (split_slash [] content) \<and> \<not> prefix ''/'' content \<and>
     ValidPath (filepath_Join [modPath, content]) \<and> ReadFile m (filepath_Join [modPath, content]) \<noteq> None"

lemma spec_view_profile [simp]: "sf_profile (spec_view resolve m) = resolve m"
  by (simp add: spec_view_def)

lemma checkContentPath_Nil: "checkContentPath m modPath modName ref = [] \<longleftrightarrow> content_ok m modPath (crf_content ref)"
  by (simp add: checkContentPath_def content_ok_def Let_def)

lemma checkModuleContent_Nil:
  "checkModuleContent m fsys modPath modName spec types = [] \<longleftrightarrow>
     (\<forall>nt \<in> set types. \<forall>(name, content) \<in> set (content_entries fsys modPath spec nt).
        content \<noteq> [] \<longrightarrow> content_ok m modPath content)"
  unfolding checkModuleContent_def concat_eq_Nil_conv
  by (fastforce simp: checkContentPath_Nil content_refs_def)

lemma CheckContentPaths_exact:
  "CheckContentPathsFS resolve m = [] \<longleftrightarrow>
    (\<exists>prj modules p. loadSpec (spec_view resolve m) ''content'' = Inr (prj, modules) \<and> resolve m = Inr p \<and>
       (\<forall>md \<in> set (prj_modules prj). \<forall>spec. map_of modules (mod_name md) = Some spec \<longrightarrow>
          (\<forall>nt \<in> set (contentBearingModuleTypes p).
             \<forall>(name, content) \<in> set (content_entries (spec_view resolve m) (mod_path md) spec nt).
               content \<noteq> [] \<longrightarrow> content_ok m (mod_path md) content)))"
proof (cases "load_checked (spec_view resolve m) ''content''")
  case (Inl errs)
  have none: "\<not> (\<exists>prj modules p. loadSpec (spec_view resolve m) ''content'' = Inr (prj, modules) \<and> resolve m = Inr p)"
    using Inl load_checked_Inr[of "spec_view resolve m" "''content''"] by (metis Inl sum.distinct(1) spec_view_profile)
  have "errs \<noteq> []" using Inl by (rule load_checked_Inl)
  then show ?thesis using none by (auto simp: CheckContentPathsFS_def Inl)
next
  case (Inr r)
  obtain prj modules p where r: "r = (prj, modules, p)" by (cases r)
  have parts: "loadSpec (spec_view resolve m) ''content'' = Inr (prj, modules)" "resolve m = Inr p"
    using Inr by (simp_all add: r load_checked_Inr)
  have "CheckContentPathsFS resolve m = [] \<longleftrightarrow>
      (\<forall>md \<in> set (prj_modules prj). \<forall>spec. map_of modules (mod_name md) = Some spec \<longrightarrow>
         checkModuleContent m (spec_view resolve m) (mod_path md) (mod_name md) spec (contentBearingModuleTypes p) = [])"
    by (auto simp: CheckContentPathsFS_def Inr r split: option.splits)
  then show ?thesis by (simp add: parts checkModuleContent_Nil)
qed

end
