(* ===== verification/Author_Report.thy ===== *)
theory Author_Report
  imports Author_Fix Validator_Coupled Validator_Content Validator_Links Validator_Dag Validator_Coverage
begin

text \<open>
  What an authoring command checks before it writes (\<open>Report\<close> in \<open>author/obligation_reporter.go\<close>,
  \<open>introducedFindings\<close> in \<open>author/node_editor.go\<close>), and the write itself (\<open>author/node_renamer.go\<close>).
\<close>

subsection \<open>What the commands rely on\<close>

text \<open>
  The profile in force, the layout of a document's text, the schema library, the Unicode case and letter
  tables, and the files the system cannot write or remove.
\<close>

record author_env =
  ae_resolve :: "mem_fs \<Rightarrow> (string, profile) result"
  ae_layout :: "json \<Rightarrow> string"
  ae_library :: schema_library
  ae_lower :: "string \<Rightarrow> string"
  ae_equal_fold :: "string \<Rightarrow> string \<Rightarrow> bool"
  ae_letter_digit :: "string \<Rightarrow> bool"
  ae_cannot_write :: "string \<Rightarrow> bool"
  ae_cannot_remove :: "string \<Rightarrow> bool"

subsection \<open>The checkers\<close>

text \<open>\<open>CheckDAGFS\<close> is a partial function that always returns.\<close>

definition dag_findings :: "spec_files \<Rightarrow> validation_error list" where
  "dag_findings v = (case CheckDAGFS v of Some errs \<Rightarrow> errs | None \<Rightarrow> [])"

definition refusalCheckers :: "author_env \<Rightarrow> mem_fs \<Rightarrow> validation_error list" where
  "refusalCheckers env m =
     (let v = spec_view (ae_resolve env) m
      in CheckSchemaFS (ae_resolve env) (ae_library env) m @ CheckIDsFS v @ CheckIDDerivationFS v @
         dag_findings v @ CheckLinksFS (ae_layout env) (ae_resolve env) m)"

definition nonRefusalCheckers :: "author_env \<Rightarrow> mem_fs \<Rightarrow> validation_error list" where
  "nonRefusalCheckers env m =
     (let v = spec_view (ae_resolve env) m
      in CheckContentPathsFS (ae_resolve env) m @
         CheckNameConsistencyFS (ae_lower env) (ae_equal_fold env) v @
         CheckTestCoverageFS v @ fst (CheckRequirementCoverageFS v) @
         CheckCoupledSectionsFS (ae_resolve env) (ae_library env) (ae_equal_fold env) m)"

definition validatorObligations :: "validation_error list \<Rightarrow> diff_error list" where
  "validatorObligations errs =
     map (\<lambda>e. \<lparr>de_type = ve_check e, de_message = Finding (ve_message e), de_path = ve_path e, de_related = []\<rparr>) errs"

subsection \<open>Atoms of a finding\<close>

text \<open>
  A finding is one atom, its check, path and message; a list of missing properties is one atom for
  each property, so that a longer list is told from the shorter one it grew from.
\<close>

datatype atom = ErrorKey string string message | RequiredField string string string

definition errorKey :: "validation_error \<Rightarrow> atom" where
  "errorKey e = ErrorKey (ve_check e) (ve_path e) (ve_message e)"

definition errorAtoms :: "validation_error \<Rightarrow> atom list" where
  "errorAtoms e =
     (case ve_message e of
        MissingRequired names \<Rightarrow>
          if ve_check e = ''schema'' \<and> names \<noteq> [] then map (RequiredField (ve_check e) (ve_path e)) names
          else [errorKey e]
      | _ \<Rightarrow> [errorKey e])"

definition allIntroduced :: "atom list \<Rightarrow> atom set \<Rightarrow> bool" where
  "allIntroduced atoms introduced \<longleftrightarrow> (\<forall>a \<in> set atoms. a \<in> introduced)"

definition atoms_of :: "validation_error list \<Rightarrow> atom set" where
  "atoms_of errs = \<Union> (set ` errorAtoms ` set errs)"

definition introducedFindings :: "author_env \<Rightarrow> mem_fs \<Rightarrow> mem_fs \<Rightarrow> validation_error list" where
  "introducedFindings env before after =
     filter (\<lambda>e. \<not> allIntroduced (errorAtoms e) (atoms_of (refusalCheckers env before))) (refusalCheckers env after)"

subsection \<open>The report\<close>

definition completenessObligations :: "author_env \<Rightarrow> mem_fs \<Rightarrow> mem_fs \<Rightarrow> profile
    \<Rightarrow> (author_error, diff_error list) result" where
  "completenessObligations env before after p =
     (case BuildTreeFS (ae_layout env) (ae_resolve env) before of
        Inl e \<Rightarrow> Inl (TreeError e)
      | Inr beforeTree \<Rightarrow>
          (case BuildTreeFS (ae_layout env) (ae_resolve env) after of
             Inl e \<Rightarrow> Inl (TreeError e)
           | Inr afterTree \<Rightarrow>
               Inr (CheckCompletenessFS (Classify (Diff afterTree (Some beforeTree)) (ModuleNames (Some afterTree)) p) after p)))"

definition refusal_of :: "mem_fs \<Rightarrow> profile \<Rightarrow> validation_error \<Rightarrow> refusal_entry" where
  "refusal_of before p e =
     \<lparr>rf_check = ve_check e, rf_message = Checker (ve_message e), rf_path = ve_path e, rf_fix = computeFix e before p\<rparr>"

definition Report :: "author_env \<Rightarrow> mem_fs \<Rightarrow> mem_fs \<Rightarrow> profile
    \<Rightarrow> (author_error, refusal_entry list \<times> diff_error list) result" where
  "Report env before after p =
     (let refusals = map (refusal_of before p) (introducedFindings env before after)
      in if refusals \<noteq> [] then Inr (refusals, [])
         else bind_result (completenessObligations env before after p) (\<lambda>completeness.
                Inr ([], completeness @ validatorObligations (refusalCheckers env after) @
                         validatorObligations (nonRefusalCheckers env after))))"

subsection \<open>The write\<close>

text \<open>
  The directory on disk is the map of its files. A file holds a document in its layout, so two contents
  have the same bytes exactly when they are equal. The map is listed by path, like every Go map here. A path
  that leaves the directory, or is the directory, counts as one that cannot be written: the code would
  write outside of what the map describes.
\<close>

definition changedPaths :: "mem_fs \<Rightarrow> mem_fs \<Rightarrow> string list" where
  "changedPaths before after =
     sort (map fst (filter (\<lambda>(k, v). map_of before k \<noteq> Some v) after))"

definition inside :: "string \<Rightarrow> bool" where
  "inside p \<longleftrightarrow> ValidPath p \<and> p \<noteq> ''.''"

fun writeChanges :: "author_env \<Rightarrow> mem_fs \<Rightarrow> string list \<Rightarrow> mem_fs \<Rightarrow> mem_fs \<times> author_error option" where
  "writeChanges env after [] disk = (disk, None)"
| "writeChanges env after (p # ps) disk =
     (if \<not> inside p \<or> ae_cannot_write env p then (disk, Some (WriteFailed p))
      else writeChanges env after ps (case map_of after p of Some v \<Rightarrow> gput p v disk | None \<Rightarrow> disk))"

text \<open>\<open>os.Remove\<close> of a file; a missing one is reported apart.\<close>

datatype removal = RemovedFile | NoSuchFile | RemoveError

definition os_Remove :: "author_env \<Rightarrow> string \<Rightarrow> mem_fs \<Rightarrow> mem_fs \<times> removal" where
  "os_Remove env p disk =
     (if ae_cannot_remove env p then (disk, RemoveError)
      else if map_of disk p = None then
        (disk, if list_ex (\<lambda>e. prefix (p @ ''/'') (fst e)) disk then RemoveError else NoSuchFile)
      else (gdel p disk, RemovedFile))"

subsection \<open>Outcomes of a command\<close>

record write_report =
  wr_written :: "string list"
  wr_obligations :: "diff_error list"
  wr_retired_name :: string
  wr_replaced_target :: string

definition empty_report :: write_report where
  "empty_report = \<lparr>wr_written = [], wr_obligations = [], wr_retired_name = [], wr_replaced_target = []\<rparr>"

datatype outcome = Written write_report | Refused "refusal_entry list" | Errored author_error

text \<open>The end every command shares: the report, the changed paths, the write.\<close>

definition commit :: "author_env \<Rightarrow> profile \<Rightarrow> mem_fs \<Rightarrow> mem_fs \<Rightarrow> mem_fs
    \<Rightarrow> (string list \<Rightarrow> diff_error list \<Rightarrow> mem_fs \<Rightarrow> outcome \<times> mem_fs) \<Rightarrow> outcome \<times> mem_fs" where
  "commit env p disk before after k =
     (case Report env before after p of
        Inl e \<Rightarrow> (Errored e, disk)
      | Inr (refusals, obligations) \<Rightarrow>
          if refusals \<noteq> [] then (Refused refusals, disk)
          else let written = changedPaths before after
               in (case writeChanges env after written disk of
                     (disk', Some e) \<Rightarrow> (Errored e, disk')
                   | (disk', None) \<Rightarrow> k written obligations disk'))"

subsection \<open>The gate\<close>

lemma errorAtoms_nonempty: "errorAtoms e \<noteq> []"
  by (simp add: errorAtoms_def split: message.split)

lemma atoms_of_Nil [simp]: "atoms_of [] = {}"
  by (simp add: atoms_of_def)

lemma atoms_of_empty_iff: "atoms_of errs = {} \<longleftrightarrow> errs = []"
proof
  assume none: "atoms_of errs = {}"
  show "errs = []"
  proof (rule ccontr)
    assume "errs \<noteq> []"
    then obtain e where "e \<in> set errs" by (cases errs) auto
    then have "set (errorAtoms e) \<subseteq> atoms_of errs" by (auto simp: atoms_of_def)
    then show False using none errorAtoms_nonempty[of e] by auto
  qed
qed simp

lemma introduced_none: "introducedFindings env before after = [] \<longleftrightarrow>
    atoms_of (refusalCheckers env after) \<subseteq> atoms_of (refusalCheckers env before)"
  unfolding introducedFindings_def filter_empty_conv allIntroduced_def
  by (auto simp: atoms_of_def)

definition clean :: "author_env \<Rightarrow> mem_fs \<Rightarrow> bool" where
  "clean env m \<longleftrightarrow> refusalCheckers env m = []"

lemma clean_atoms: "clean env m \<longleftrightarrow> atoms_of (refusalCheckers env m) = {}"
  by (simp add: clean_def atoms_of_empty_iff)

text \<open>No new atom: what the gate lets through.\<close>

definition no_new :: "author_env \<Rightarrow> mem_fs \<Rightarrow> mem_fs \<Rightarrow> bool" where
  "no_new env before after \<longleftrightarrow> atoms_of (refusalCheckers env after) \<subseteq> atoms_of (refusalCheckers env before)"

lemma no_new_refl [simp]: "no_new env m m"
  by (simp add: no_new_def)

lemma no_new_trans: "no_new env a b \<Longrightarrow> no_new env b c \<Longrightarrow> no_new env a c"
  unfolding no_new_def by (rule subset_trans)

lemma no_new_clean: "no_new env before after \<Longrightarrow> clean env before \<Longrightarrow> clean env after"
  by (simp add: no_new_def clean_atoms)

lemma Report_passes:
  assumes "Report env before after p = Inr (refusals, obligations)"
  shows "refusals = [] \<longleftrightarrow> no_new env before after"
  using assms introduced_none[of env before after]
  by (auto simp: Report_def Let_def no_new_def loop_simps split: if_splits)

lemma Report_error: "Report env before after p = Inl e \<Longrightarrow> no_new env before after"
  using introduced_none[of env before after] by (auto simp: Report_def Let_def no_new_def split: if_splits)

subsection \<open>What is on disk after a write\<close>

lemma writeChanges_map:
  assumes "writeChanges env after ps disk = (disk', None)" and "go_map disk" and "set ps \<subseteq> dom (map_of after)"
  shows "go_map disk' \<and> map_of disk' k = (if k \<in> set ps then map_of after k else map_of disk k)"
  using assms by (induction ps arbitrary: disk) (auto split: if_splits option.splits)

lemma not_inside_Nil [simp]: "\<not> inside []"
  by (simp add: inside_def ValidPath_def)

lemma writeChanges_paths: "writeChanges env after ps disk = (disk', None) \<Longrightarrow> \<forall>p \<in> set ps. inside p"
  by (induction ps arbitrary: disk) (auto split: if_splits)

lemma writeChanges_total:
  "\<forall>p \<in> set ps. inside p \<and> \<not> ae_cannot_write env p \<Longrightarrow> snd (writeChanges env after ps disk) = None"
  by (induction ps arbitrary: disk) auto

lemma changedPaths_iff:
  assumes "go_map after"
  shows "k \<in> set (changedPaths before after) \<longleftrightarrow> (\<exists>v. map_of after k = Some v \<and> map_of before k \<noteq> Some v)"
  using go_map_distinct[OF assms] by (force simp: changedPaths_def)

lemma write_changed:
  assumes w: "writeChanges env after (changedPaths before after) before = (disk, None)"
    and maps: "go_map before" "go_map after"
  shows "go_map disk" and "map_of disk k = (case map_of after k of Some v \<Rightarrow> Some v | None \<Rightarrow> map_of before k)"
proof -
  have "set (changedPaths before after) \<subseteq> dom (map_of after)"
    using changedPaths_iff[OF maps(2)] by blast
  note written = writeChanges_map[OF w maps(1) this]
  show "go_map disk" using written by blast
  show "map_of disk k = (case map_of after k of Some v \<Rightarrow> Some v | None \<Rightarrow> map_of before k)"
    using written[of k] changedPaths_iff[OF maps(2), of k before] by (auto split: option.split)
qed

text \<open>A state with every path of the old one is written as it was checked.\<close>

lemma write_all:
  assumes w: "writeChanges env after (changedPaths before after) before = (disk, None)"
    and maps: "go_map before" "go_map after" and keep: "dom (map_of before) \<subseteq> dom (map_of after)"
  shows "disk = after"
proof (rule go_map_eqI)
  show "go_map disk" using write_changed(1)[OF w maps] .
  show "map_of disk = map_of after"
  proof
    fix k
    show "map_of disk k = map_of after k"
      using write_changed(2)[OF w maps, of k] keep by (cases "map_of after k") auto
  qed
qed (rule maps(2))

text \<open>A state with one path less, which is removed from disk after the write.\<close>

lemma write_but_one:
  assumes w: "writeChanges env after (changedPaths before after) before = (disk, None)"
    and maps: "go_map before" "go_map after"
    and keep: "dom (map_of before) - {p} \<subseteq> dom (map_of after)" and gone: "map_of after p = None"
  shows "gdel p disk = after"
proof (rule go_map_eqI)
  show "go_map (gdel p disk)" using write_changed(1)[OF w maps] by simp
  show "map_of (gdel p disk) = map_of after"
  proof
    fix k
    show "map_of (gdel p disk) k = map_of after k"
      using write_changed(2)[OF w maps, of k] keep gone by (cases "map_of after k") auto
  qed
qed (rule maps(2))

text \<open>A write that stops midway: every file is as it was or as it was to be.\<close>

definition between :: "mem_fs \<Rightarrow> mem_fs \<Rightarrow> mem_fs \<Rightarrow> bool" where
  "between before after disk \<longleftrightarrow> (\<forall>k. map_of disk k = map_of before k \<or> map_of disk k = map_of after k)"

lemma between_refl [simp]: "between before after before"
  by (simp add: between_def)

lemma writeChanges_between:
  "writeChanges env after ps disk = (disk', e) \<Longrightarrow> go_map disk \<Longrightarrow> between before after disk \<Longrightarrow> between before after disk'"
proof (induction ps arbitrary: disk)
  case (Cons p ps)
  show ?case
  proof (cases "\<not> inside p \<or> ae_cannot_write env p")
    case False
    then show ?thesis using Cons.prems Cons.IH by (auto simp: between_def split: option.splits)
  qed (use Cons.prems in simp)
qed simp

lemma writeChanges_error: "writeChanges env after ps disk = (disk', Some e) \<Longrightarrow> \<exists>f. e = WriteFailed f"
  by (induction ps arbitrary: disk) (auto split: if_splits)

text \<open>A command that changes a file or adds one ends in the state it checked, unless it stops before.\<close>

lemma commit_cases:
  obtains (stopped) e d where "commit env p disk before after k = (Errored e, d)"
        and "d = disk \<or> (\<exists>f. e = WriteFailed f) \<and> no_new env before after \<and>
          writeChanges env after (changedPaths before after) disk = (d, Some e)"
    | (refused) rs where "commit env p disk before after k = (Refused rs, disk)" and "rs \<noteq> []"
        and "\<not> no_new env before after"
    | (written) obl disk' where "commit env p disk before after k = k (changedPaths before after) obl disk'"
        and "Report env before after p = Inr ([], obl)" and "no_new env before after"
        and "writeChanges env after (changedPaths before after) disk = (disk', None)"
proof (cases "Report env before after p")
  case (Inl e)
  then show ?thesis using stopped by (simp add: commit_def)
next
  case (Inr r)
  obtain rs obl where r: "r = (rs, obl)" by (cases r)
  obtain disk' e where w: "writeChanges env after (changedPaths before after) disk = (disk', e)"
    by (cases "writeChanges env after (changedPaths before after) disk")
  show ?thesis
  proof (cases "rs = []")
    case False
    then show ?thesis using refused Report_passes[OF Inr[unfolded r]] by (simp add: commit_def Inr r)
  next
    case True
    show ?thesis
    proof (cases e)
      case None
      then show ?thesis
        using written[of obl disk'] True Report_passes[OF Inr[unfolded r]] w by (simp add: commit_def Inr r)
    next
      case (Some e')
      then show ?thesis
        using stopped[of e' disk'] writeChanges_error[of env after _ disk disk' e'] Report_passes[OF Inr[unfolded r]] True w
        by (simp add: commit_def Inr r)
    qed
  qed
qed

end
