(* ===== verification/Author_Edge.thy ===== *)
theory Author_Edge
  imports Author_Report
begin

text \<open>
  Adding and removing one reference of a node (\<open>author/edge_editor.go\<close>).
\<close>

subsection \<open>The reference field\<close>

record edge_input =
  ei_source :: string
  ei_field :: string
  ei_target :: string

definition moduleLocalFields :: "string set" where
  "moduleLocalFields = {''provided_by''}"

definition edgeTypeName :: "node_location \<Rightarrow> string" where
  "edgeTypeName loc = (if nl_is_module loc then ''module'' else nt_name (nl_node_type loc))"

definition edgeOwnerFile :: "node_location \<Rightarrow> string" where
  "edgeOwnerFile loc = (if nl_is_module loc then ''project.json'' else nl_owner_file loc)"

definition edgePluralKey :: "node_location \<Rightarrow> string" where
  "edgePluralKey loc = (if nl_is_module loc then ''modules'' else nt_plural_key (nl_node_type loc))"

definition entryPathFor :: "node_location \<Rightarrow> string \<Rightarrow> string" where
  "entryPathFor loc i = edgeOwnerFile loc @ '':/'' @ edgePluralKey loc @ ''/'' @ i"

definition requires_module_field :: field where
  "requires_module_field =
     \<lparr>fld_name = ''requires_module'', fld_kind = FieldKindReference, fld_required = False, fld_hashed = None,
      fld_enum = [], fld_minimum = None, fld_maximum = None, fld_targets = [''module''], fld_cardinality = ''many'',
      fld_cyclic = False, fld_description = []\<rparr>"

definition edgeField :: "node_location \<Rightarrow> string \<Rightarrow> field option" where
  "edgeField loc fieldName =
     (if nl_is_module loc then (if fieldName = ''requires_module'' then Some requires_module_field else None)
      else case node_field (nl_node_type loc) fieldName of
             None \<Rightarrow> None
           | Some f \<Rightarrow> if fld_kind f = FieldKindReference then Some f else None)"

definition declaredReferenceFields :: "node_location \<Rightarrow> string list" where
  "declaredReferenceFields loc =
     (if nl_is_module loc then [''requires_module'']
      else map fld_name (filter (\<lambda>f. fld_kind f = FieldKindReference) (nt_fields (nl_node_type loc))))"

subsection \<open>The edit of an entry\<close>

definition field_array :: "raw_entry \<Rightarrow> string \<Rightarrow> json list option" where
  "field_array e f = doc_array e f"

text \<open>\<open>None\<close> leaves the entry as it is; a replaced target is returned beside the new entry.\<close>

definition setEdgeField :: "raw_entry \<Rightarrow> field \<Rightarrow> string \<Rightarrow> (raw_entry \<times> string) option" where
  "setEdgeField e f target =
     (if fld_cardinality f = ''one'' then
        let cur = str_field e (fld_name f)
        in if cur = target then None else Some (gput (fld_name f) (JString target) e, cur)
      else
        let arr = (case field_array e (fld_name f) of Some xs \<Rightarrow> xs | None \<Rightarrow> [])
        in if JString target \<in> set arr then None
           else Some (gput (fld_name f) (JArray (arr @ [JString target])) e, []))"

definition clearEdgeField :: "raw_entry \<Rightarrow> field \<Rightarrow> string \<Rightarrow> raw_entry option" where
  "clearEdgeField e f target =
     (if fld_cardinality f = ''one'' then
        (if str_field e (fld_name f) \<noteq> target then None else Some (gdel (fld_name f) e))
      else
        (case field_array e (fld_name f) of
           None \<Rightarrow> None
         | Some arr \<Rightarrow>
             if JString target \<notin> set arr then None
             else let out = filter (\<lambda>v. v \<noteq> JString target) arr
                  in Some (if out = [] then gdel (fld_name f) e else gput (fld_name f) (JArray out) e)))"

subsection \<open>Refusals\<close>

definition undeclaredEdgeFieldRefusal :: "node_location \<Rightarrow> string \<Rightarrow> edge_input \<Rightarrow> refusal_entry" where
  "undeclaredEdgeFieldRefusal loc srcTypeName inp =
     \<lparr>rf_check = ''edge'', rf_message = UndeclaredReferenceField srcTypeName (ei_field inp),
      rf_path = entryPathFor loc (ei_source inp),
      rf_fix = DeclaresReferenceFields srcTypeName (declaredReferenceFields loc)\<rparr>"

definition moduleDirs :: "mem_fs \<Rightarrow> string list" where
  "moduleDirs m = (case readProject m of Inl e \<Rightarrow> [] | Inr prj \<Rightarrow> map mod_path (prj_modules prj))"

definition targetSearchLocations :: "mem_fs \<Rightarrow> profile \<Rightarrow> field \<Rightarrow> string list" where
  "targetSearchLocations before p f =
     concat (map (\<lambda>target.
       if target = ''module'' then [''project.json:/modules'']
       else concat (map (\<lambda>nt.
              if nt_scope nt = ''project'' then [''project.json:/'' @ nt_plural_key nt]
              else map (\<lambda>dir. filepath_Join [dir, ''module.json''] @ '':/'' @ nt_plural_key nt) (moduleDirs before))
            (filter (\<lambda>nt. nt_name nt = target) (prf_node_types p)))) (fld_targets f))"

definition targetMissingRefusal :: "mem_fs \<Rightarrow> profile \<Rightarrow> node_location \<Rightarrow> edge_input \<Rightarrow> field \<Rightarrow> refusal_entry" where
  "targetMissingRefusal before p loc inp f =
     \<lparr>rf_check = ''edge'', rf_message = TargetNotFound (ei_field inp) (fld_targets f) (ei_target inp),
      rf_path = entryPathFor loc (ei_source inp),
      rf_fix = SearchedFor (ei_target inp) (targetSearchLocations before p f)\<rparr>"

definition targetTypeRefusal :: "node_location \<Rightarrow> edge_input \<Rightarrow> field \<Rightarrow> string \<Rightarrow> refusal_entry" where
  "targetTypeRefusal loc inp f actualType =
     \<lparr>rf_check = ''edge'', rf_message = TargetTypeNotPermitted (ei_field inp) actualType (ei_target inp),
      rf_path = entryPathFor loc (ei_source inp), rf_fix = MayTarget (ei_field inp) (fld_targets f)\<rparr>"

definition moduleLocalPermittedTargets :: "mem_fs \<Rightarrow> profile \<Rightarrow> string \<Rightarrow> field \<Rightarrow> string list" where
  "moduleLocalPermittedTargets before p moduleDir f =
     (case decode_entries_of before (filepath_Join [moduleDir, ''module.json'']) of
        Inl e \<Rightarrow> []
      | Inr d \<Rightarrow>
          concat (map (\<lambda>target.
            concat (map (\<lambda>nt.
              List.map_filter (\<lambda>item.
                case entry_map item of
                  None \<Rightarrow> None
                | Some e \<Rightarrow> if str_field e ''name'' = [] then None else Some (str_field e ''name''))
              (case doc_array d (nt_plural_key nt) of Some arr \<Rightarrow> arr | None \<Rightarrow> []))
            (filter (\<lambda>nt. nt_name nt = target \<and> nt_scope nt = ''module'') (prf_node_types p))))
          (fld_targets f)))"

definition moduleLocalRefusal :: "mem_fs \<Rightarrow> profile \<Rightarrow> node_location \<Rightarrow> node_location \<Rightarrow> edge_input \<Rightarrow> refusal_entry" where
  "moduleLocalRefusal before p srcLoc tgtLoc inp =
     \<lparr>rf_check = ''id'',
      rf_message = TargetNotModuleLocal (ei_field inp) (nt_name (nl_node_type tgtLoc)) (ei_target inp),
      rf_path = entryPathFor srcLoc (ei_source inp),
      rf_fix = OwnComponents (ei_field inp) (nl_module_name srcLoc)
        (case edgeField srcLoc (ei_field inp) of
           None \<Rightarrow> []
         | Some f \<Rightarrow> moduleLocalPermittedTargets before p (nl_module_dir srcLoc) f)\<rparr>"

subsection \<open>The commands\<close>

text \<open>A document written back in canonical form.\<close>

definition put_doc :: "profile \<Rightarrow> string \<Rightarrow> raw_entry \<Rightarrow> mem_fs \<Rightarrow> mem_fs" where
  "put_doc p key d m = gput key (Doc (canonicalizeDoc d key (Some p))) m"

definition edge_edit :: "author_env \<Rightarrow> profile \<Rightarrow> mem_fs \<Rightarrow> node_location \<Rightarrow> string
    \<Rightarrow> (raw_entry \<Rightarrow> (raw_entry \<times> string) option) \<Rightarrow> outcome \<times> mem_fs" where
  "edge_edit env p before loc i edit =
     (let ownerFile = edgeOwnerFile loc; pluralKey = edgePluralKey loc
      in case decode_entries_of before ownerFile of
           Inl e \<Rightarrow> (Errored e, before)
         | Inr d \<Rightarrow>
             (case findEntryMap d pluralKey i of
                None \<Rightarrow> (Errored (EntryMissing i ownerFile), before)
              | Some e \<Rightarrow>
                  (case edit e of
                     None \<Rightarrow> (Written empty_report, before)
                   | Some (e', replaced) \<Rightarrow>
                       commit env p before before (put_doc p ownerFile (edit_entry d pluralKey i (\<lambda>_. e')) before)
                         (\<lambda>written obligations disk.
                            (Written \<lparr>wr_written = written, wr_obligations = obligations, wr_retired_name = [],
                                      wr_replaced_target = replaced\<rparr>, disk)))))"

definition AddEdge :: "author_env \<Rightarrow> edge_input \<Rightarrow> mem_fs \<Rightarrow> outcome \<times> mem_fs" where
  "AddEdge env inp before =
     (case ae_resolve env before of
        Inl e \<Rightarrow> (Errored (ProfileError e), before)
      | Inr p \<Rightarrow>
          (case locateNode before p (ei_source inp) of
             Inl e \<Rightarrow> (Errored e, before)
           | Inr srcLoc \<Rightarrow>
               (case edgeField srcLoc (ei_field inp) of
                  None \<Rightarrow> (Refused [undeclaredEdgeFieldRefusal srcLoc (edgeTypeName srcLoc) inp], before)
                | Some f \<Rightarrow>
                    (case locateNode before p (ei_target inp) of
                       Inl e \<Rightarrow> (Refused [targetMissingRefusal before p srcLoc inp f], before)
                     | Inr tgtLoc \<Rightarrow>
                         if edgeTypeName tgtLoc \<notin> set (fld_targets f) then
                           (Refused [targetTypeRefusal srcLoc inp f (edgeTypeName tgtLoc)], before)
                         else if ei_field inp \<in> moduleLocalFields \<and> nl_module_dir tgtLoc \<noteq> nl_module_dir srcLoc then
                           (Refused [moduleLocalRefusal before p srcLoc tgtLoc inp], before)
                         else edge_edit env p before srcLoc (ei_source inp) (\<lambda>e. setEdgeField e f (ei_target inp))))))"

definition RemoveEdge :: "author_env \<Rightarrow> edge_input \<Rightarrow> mem_fs \<Rightarrow> outcome \<times> mem_fs" where
  "RemoveEdge env inp before =
     (case ae_resolve env before of
        Inl e \<Rightarrow> (Errored (ProfileError e), before)
      | Inr p \<Rightarrow>
          (case locateNode before p (ei_source inp) of
             Inl e \<Rightarrow> (Errored e, before)
           | Inr srcLoc \<Rightarrow>
               (case edgeField srcLoc (ei_field inp) of
                  None \<Rightarrow> (Refused [undeclaredEdgeFieldRefusal srcLoc (edgeTypeName srcLoc) inp], before)
                | Some f \<Rightarrow>
                    edge_edit env p before srcLoc (ei_source inp)
                      (\<lambda>e. map_option (\<lambda>e'. (e', [])) (clearEdgeField e f (ei_target inp))))))"

end
