(* ===== verification/Author_Leaf.thy ===== *)
theory Author_Leaf
  imports Author_Edge
begin

text \<open>
  The skeleton of a content leaf and the command that writes one (\<open>author/leaf_scaffolder.go\<close>).
\<close>

subsection \<open>The links a leaf owes\<close>

record owed_link =
  ol_field :: string
  ol_id :: string
  ol_name :: string

text \<open>A string slice and a dynamic array of strings read the same; a nil slice is \<open>null\<close>.\<close>

definition fieldValues :: "raw_entry \<Rightarrow> string \<Rightarrow> string list" where
  "fieldValues obj f =
     (case map_of obj f of
        Some (JString x) \<Rightarrow> if x = [] then [] else [x]
      | Some (JArray xs) \<Rightarrow> List.map_filter (\<lambda>v. case v of JString s \<Rightarrow> Some s | _ \<Rightarrow> None) xs
      | _ \<Rightarrow> [])"

text \<open>The members of the document are visited in Go's map order; here, by key.\<close>

definition findNameInDoc :: "mem_fs \<Rightarrow> string \<Rightarrow> string \<Rightarrow> string option" where
  "findNameInDoc m key i =
     (case decode_entries_of m key of
        Inl e \<Rightarrow> None
      | Inr d \<Rightarrow>
          (case find (entry_with i) (concat (map (\<lambda>(k, v). case v of JArray arr \<Rightarrow> arr | _ \<Rightarrow> []) d)) of
             Some (JObject e) \<Rightarrow> Some (str_field e ''name'')
           | _ \<Rightarrow> None))"

fun first_some :: "('a \<Rightarrow> 'b option) \<Rightarrow> 'a list \<Rightarrow> 'b option" where
  "first_some f [] = None"
| "first_some f (x # xs) = (case f x of Some y \<Rightarrow> Some y | None \<Rightarrow> first_some f xs)"

definition findNodeName :: "mem_fs \<Rightarrow> string \<Rightarrow> string option" where
  "findNodeName m i =
     (case findNameInDoc m ''project.json'' i of
        Some name \<Rightarrow> Some name
      | None \<Rightarrow>
          (case readProject m of
             Inl e \<Rightarrow> None
           | Inr prj \<Rightarrow> first_some (\<lambda>md. findNameInDoc m (module_file md) i) (prj_modules prj)))"

definition reference_fields :: "node_type \<Rightarrow> field list" where
  "reference_fields nt = filter (\<lambda>f. fld_kind f = FieldKindReference) (nt_fields nt)"

text \<open>The links of the node's own references.\<close>

definition forward_links :: "mem_fs \<Rightarrow> node_type \<Rightarrow> raw_entry \<Rightarrow> owed_link list" where
  "forward_links m nt entry =
     concat (map (\<lambda>f. map (\<lambda>i. \<lparr>ol_field = fld_name f, ol_id = i,
                                 ol_name = (case findNodeName m i of Some n \<Rightarrow> n | None \<Rightarrow> [])\<rparr>)
                        (fieldValues entry (fld_name f))) (reference_fields nt))"

text \<open>The references to the node from entries of one document whose type has no leaf of its own.\<close>

definition backward_links :: "profile \<Rightarrow> string \<Rightarrow> raw_entry \<Rightarrow> string \<Rightarrow> string \<Rightarrow> owed_link list" where
  "backward_links p scope d typeName nodeID =
     concat (map (\<lambda>t2.
       concat (map (\<lambda>f2.
         concat (map (\<lambda>item.
           case entry_map item of
             None \<Rightarrow> []
           | Some obj \<Rightarrow>
               map (\<lambda>v. \<lparr>ol_field = fld_name f2, ol_id = str_field obj ''id'', ol_name = str_field obj ''name''\<rparr>)
                 (filter (\<lambda>v. v = nodeID) (fieldValues obj (fld_name f2))))
         (case doc_array d (nt_plural_key t2) of Some arr \<Rightarrow> arr | None \<Rightarrow> [])))
       (filter (\<lambda>f2. typeName \<in> set (fld_targets f2)) (reference_fields t2))))
     (filter (\<lambda>t2. nt_scope t2 = scope \<and> \<not> nt_requires_content t2) (prf_node_types p)))"

definition owedEdges :: "mem_fs \<Rightarrow> profile \<Rightarrow> node_location \<Rightarrow> raw_entry \<Rightarrow> string \<Rightarrow> owed_link list" where
  "owedEdges m p loc entry nodeID =
     forward_links m (nl_node_type loc) entry @
     (case specDocKeys m of
        Inl e \<Rightarrow> []
      | Inr keys \<Rightarrow>
          concat (map (\<lambda>key.
            case decode_entries_of m key of
              Inl e \<Rightarrow> []
            | Inr d \<Rightarrow> backward_links p (doc_scope key) d (nt_name (nl_node_type loc)) nodeID) keys))"

subsection \<open>The skeleton\<close>

definition newline :: string where
  "newline = [CHR 0x0A]"

definition owed_line :: "owed_link \<Rightarrow> string" where
  "owed_line e = ol_field e @ '': [['' @ ol_id e @ ''|'' @ ol_name e @ '']]''"

definition buildSkeleton :: "string \<Rightarrow> string list \<Rightarrow> owed_link list \<Rightarrow> string" where
  "buildSkeleton name sections edges =
     ''# '' @ name @ newline @
     concat (map (\<lambda>s. newline @ ''## '' @ s @ newline) sections) @
     concat (map (\<lambda>e. newline @ owed_line e @ newline) edges)"

definition leaf_sections :: "node_type \<Rightarrow> string list" where
  "leaf_sections nt = (case nt_leaf_sections nt of Some ss \<Rightarrow> ss | None \<Rightarrow> [])"

subsection \<open>The command\<close>

text \<open>Missing leaves enter as empty files, so that the tree can be built around them.\<close>

definition patch_leaf :: "string \<Rightarrow> mem_fs \<Rightarrow> mem_fs" where
  "patch_leaf path m = (if map_of m path = None then gput path (Text []) m else m)"

definition patch_document :: "profile \<Rightarrow> string \<Rightarrow> mem_fs \<Rightarrow> mem_fs" where
  "patch_document p key m =
     (case decode_entries_of m key of
        Inl e \<Rightarrow> m
      | Inr d \<Rightarrow> fold patch_leaf (doc_leaves p key d) m)"

definition patchMissingLeaves :: "mem_fs \<Rightarrow> profile \<Rightarrow> mem_fs" where
  "patchMissingLeaves m p =
     (case specDocKeys m of Inl e \<Rightarrow> m | Inr keys \<Rightarrow> fold (patch_document p) keys m)"

definition patchedContentFindings :: "author_env \<Rightarrow> mem_fs \<Rightarrow> mem_fs \<Rightarrow> validation_error list" where
  "patchedContentFindings env patchedAfter trueAfter =
     filter (\<lambda>e. errorKey e \<notin> errorKey ` set (CheckContentPathsFS (ae_resolve env) patchedAfter))
       (CheckContentPathsFS (ae_resolve env) trueAfter)"

definition nodeNotFoundRefusal :: "mem_fs \<Rightarrow> profile \<Rightarrow> string \<Rightarrow> refusal_entry" where
  "nodeNotFoundRefusal m p i =
     \<lparr>rf_check = ''scaffold'', rf_message = NodeUnknown i, rf_path = ''project.json'',
      rf_fix = SearchedFor i
        (''project.json:/modules'' #
         map (\<lambda>t. ''project.json:/'' @ nt_plural_key t) (filter (\<lambda>t. nt_scope t = ''project'') (prf_node_types p)) @
         (case readProject m of
            Inl e \<Rightarrow> []
          | Inr prj \<Rightarrow>
              concat (map (\<lambda>md. map (\<lambda>t. module_file md @ '':/'' @ nt_plural_key t)
                (filter (\<lambda>t. nt_scope t = ''module'') (prf_node_types p))) (prj_modules prj))))\<rparr>"

definition notContentBearingRefusal :: "string \<Rightarrow> node_location \<Rightarrow> profile \<Rightarrow> refusal_entry" where
  "notContentBearingRefusal i loc p =
     \<lparr>rf_check = ''scaffold'', rf_message = CarriesNoContent i (edgeTypeName loc),
      rf_path = edgeOwnerFile loc @ '':/'' @ edgePluralKey loc,
      rf_fix = DeclaredTypes (map nt_name (filter nt_requires_content (prf_node_types p)))\<rparr>"

definition nonEmptyLeafRefusal :: "string \<Rightarrow> string \<Rightarrow> refusal_entry" where
  "nonEmptyLeafRefusal contentPath comm =
     \<lparr>rf_check = ''scaffold'', rf_message = LeafNotEmpty contentPath, rf_path = contentPath,
      rf_fix = FixText (''empty '' @ contentPath @ '' or move it aside, then re-run '' @ comm)\<rparr>"

text \<open>The write of the skeleton, checked against the patched directory.\<close>

definition scaffold_write :: "author_env \<Rightarrow> profile \<Rightarrow> mem_fs \<Rightarrow> mem_fs \<Rightarrow> string \<Rightarrow> string \<Rightarrow> outcome \<times> mem_fs" where
  "scaffold_write env p disk before contentPath skeleton =
     (let after = gput contentPath (Text skeleton) before;
          trueAfter = gput contentPath (Text skeleton) disk
      in commit env p disk before after
           (\<lambda>written obligations disk'.
              (Written (empty_report\<lparr>wr_written := written,
                  wr_obligations := obligations @ validatorObligations (patchedContentFindings env after trueAfter)\<rparr>),
               disk')))"

definition Scaffold :: "author_env \<Rightarrow> string \<Rightarrow> mem_fs \<Rightarrow> outcome \<times> mem_fs" where
  "Scaffold env i disk =
     (case ae_resolve env disk of
        Inl e \<Rightarrow> (Errored (ProfileError e), disk)
      | Inr p \<Rightarrow>
          let before = patchMissingLeaves disk p
          in case locateNode before p i of
               Inl (NodeNotFound j) \<Rightarrow> (Refused [nodeNotFoundRefusal before p i], disk)
             | Inl e \<Rightarrow> (Errored e, disk)
             | Inr loc \<Rightarrow>
                 if nl_is_module loc \<or> \<not> nt_requires_content (nl_node_type loc) then
                   (Refused [notContentBearingRefusal i loc p], disk)
                 else
                   (case decode_entries_of before (nl_owner_file loc) of
                      Inl e \<Rightarrow> (Errored e, disk)
                    | Inr d \<Rightarrow>
                        (case findEntryMap d (nt_plural_key (nl_node_type loc)) i of
                           None \<Rightarrow> (Errored (EntryMissing i (nl_owner_file loc)), disk)
                         | Some entry \<Rightarrow>
                             let contentPath = filepath_Join [nl_module_dir loc, str_field entry ''content''];
                                 skeleton = buildSkeleton (nl_name loc) (leaf_sections (nl_node_type loc))
                                              (owedEdges before p loc entry i)
                             in (case map_of before contentPath of
                                   Some existing \<Rightarrow>
                                     if empty_file existing then scaffold_write env p disk before contentPath skeleton
                                     else if existing = Text skeleton then (Written empty_report, disk)
                                     else (Refused [nonEmptyLeafRefusal contentPath ''spex leaf scaffold''], disk)
                                 | None \<Rightarrow> scaffold_write env p disk before contentPath skeleton))))"

end
