(* ===== verification/Author_Node.thy ===== *)
theory Author_Node
  imports Author_Leaf
begin

text \<open>
  Adding, removing and editing one node (\<open>author/node_editor.go\<close>).
\<close>

subsection \<open>Inputs\<close>

text \<open>The field maps are lists with distinct names; Go visits them in any order.\<close>

record node_add_input =
  ai_type :: string
  ai_name :: string
  ai_module :: string
  ai_fields :: "(string \<times> string) list"

record node_remove_input =
  ri_id :: string
  ri_force :: bool

record node_set_input =
  si_id :: string
  si_fields :: "(string \<times> string) list"
  si_unset :: "string list"

subsection \<open>Values\<close>

text \<open>\<open>strconv.Atoi\<close>: an optional sign, digits, 64 bits.\<close>

definition Atoi :: "string \<Rightarrow> int option" where
  "Atoi s = int_literal (if s \<noteq> [] \<and> hd s = CHR ''+'' \<and> (tl s = [] \<or> hd (tl s) \<noteq> CHR ''-'') then tl s else s)"

definition int_value :: "int \<Rightarrow> json" where
  "int_value n = JNumber (signed_decimal n)"

definition comma_parts :: "string \<Rightarrow> string list" where
  "comma_parts raw = filter (\<lambda>s. s \<noteq> []) (map TrimSpace (split_on (CHR '','') [] raw))"

text \<open>A list without a part stays Go's nil slice, which prints as \<open>null\<close>.\<close>

definition convertFieldValue :: "field \<Rightarrow> string \<Rightarrow> (author_error, json) result" where
  "convertFieldValue f raw =
     (case fld_kind f of
        FieldKindInteger \<Rightarrow>
          (case Atoi raw of None \<Rightarrow> Inl (InvalidInteger (fld_name f) raw) | Some n \<Rightarrow> Inr (int_value n))
      | FieldKindReference \<Rightarrow>
          if fld_cardinality f = ''one'' then Inr (JString raw)
          else Inr (case comma_parts raw of [] \<Rightarrow> JNull | vals \<Rightarrow> JArray (map JString vals))
      | _ \<Rightarrow> Inr (JString raw))"

definition convertSetFieldValue :: "field option \<Rightarrow> string \<Rightarrow> json" where
  "convertSetFieldValue f raw =
     (case f of
        Some f \<Rightarrow>
          if fld_kind f = FieldKindInteger then
            (case Atoi raw of Some n \<Rightarrow> int_value n | None \<Rightarrow> JString raw)
          else JString raw
      | None \<Rightarrow> JString raw)"

definition setValueUnchanged :: "json \<Rightarrow> json \<Rightarrow> bool" where
  "setValueUnchanged existing next =
     (case next of
        JNumber n \<Rightarrow> (case existing of JNumber f \<Rightarrow> int_literal f = int_literal n | _ \<Rightarrow> False)
      | JString n \<Rightarrow> existing = JString n
      | _ \<Rightarrow> False)"

subsection \<open>Refusals\<close>

definition declaredTypeNames :: "profile \<Rightarrow> string list" where
  "declaredTypeNames p = dedup (map nt_name (prf_node_types p)) @ [''module'']"

definition node_refusal :: "refusal_message \<Rightarrow> string \<Rightarrow> fix_text \<Rightarrow> refusal_entry" where
  "node_refusal msg path fix = \<lparr>rf_check = ''node'', rf_message = msg, rf_path = path, rf_fix = fix\<rparr>"

definition undeclaredNodeTypeRefusal :: "string \<Rightarrow> profile \<Rightarrow> refusal_entry" where
  "undeclaredNodeTypeRefusal typeName p =
     node_refusal (UndeclaredType typeName) ''profile.json'' (DeclaredTypes (declaredTypeNames p))"

definition duplicateModuleNameRefusal :: "string \<Rightarrow> string \<Rightarrow> refusal_entry" where
  "duplicateModuleNameRefusal name i =
     node_refusal (ModuleDeclared name i) ''project.json:/modules'' (FixText ''choose a different module name'')"

definition moduleSkeletonExistsRefusal :: "string \<Rightarrow> refusal_entry" where
  "moduleSkeletonExistsRefusal modPath =
     node_refusal (ModuleFileNotEmpty modPath) modPath
       (FixText (''empty '' @ modPath @ '' or move it aside, then re-run spex node add --type module''))"

definition moduleRemoveRefusal :: "string \<Rightarrow> refusal_entry" where
  "moduleRemoveRefusal i =
     node_refusal (ModuleNotRemovable i) (''project.json:/modules/'' @ i)
       (FixText ''spex node remove does not remove modules: delete the project.json modules entry, remove the module's directory, and remove every requires_module edge naming it, by hand'')"

definition moduleSetRefusal :: "string \<Rightarrow> refusal_entry" where
  "moduleSetRefusal i =
     node_refusal (ModuleNotSettable i) (''project.json:/modules/'' @ i)
       (FixText ''spex node set does not edit modules: edit the project.json modules entry and the module's module.json by hand'')"

definition setUnsetConflictRefusal :: "string \<Rightarrow> node_location \<Rightarrow> string \<Rightarrow> refusal_entry" where
  "setUnsetConflictRefusal name loc i =
     node_refusal (SetAndUnset name) (entryPathFor loc i) (FixText ''name a field in --field or --unset, not both'')"

definition fieldOwnershipRefusal :: "string \<Rightarrow> node_location \<Rightarrow> string \<Rightarrow> refusal_entry option" where
  "fieldOwnershipRefusal name loc i =
     (if name = ''name'' then
        Some (node_refusal NameIsIdentity (entryPathFor loc i) (FixText ''spex node rename''))
      else if name = ''id'' then
        Some (node_refusal IdIsDerived (entryPathFor loc i) (FixText ''id is derived; nothing sets it directly''))
      else if name = ''content'' then
        (if nt_requires_content (nl_node_type loc) then
           Some (node_refusal ContentIsDerived (entryPathFor loc i) (FixText ''content is derived; nothing sets it directly''))
         else None)
      else case node_field (nl_node_type loc) name of
             None \<Rightarrow> None
           | Some f \<Rightarrow>
               if fld_kind f = FieldKindReference then
                 Some (node_refusal (IsReferenceField name (nt_name (nl_node_type loc))) (entryPathFor loc i)
                         (FixText ''spex edge add and spex edge remove''))
               else None)"

subsection \<open>Adding a node\<close>

text \<open>
  The last type of each scope with the name. The result is the type, or that a module is needed, or
  that there is none.
\<close>

datatype add_type = AddAs node_type | NeedsModule | NoSuchType

definition resolveAddNodeType :: "profile \<Rightarrow> string \<Rightarrow> string \<Rightarrow> add_type" where
  "resolveAddNodeType p typeName modName =
     (let in_scope = (\<lambda>scope. find (\<lambda>nt. nt_name nt = typeName \<and> nt_scope nt = scope) (rev (prf_node_types p)))
      in case (in_scope ''project'', in_scope ''module'') of
           (None, None) \<Rightarrow> NoSuchType
         | (projectNT, moduleNT) \<Rightarrow>
             (case moduleNT of
                Some nt \<Rightarrow>
                  if modName \<noteq> [] then AddAs nt
                  else (case projectNT of Some nt' \<Rightarrow> AddAs nt' | None \<Rightarrow> NeedsModule)
              | None \<Rightarrow> (case projectNT of Some nt' \<Rightarrow> AddAs nt' | None \<Rightarrow> NeedsModule)))"

text \<open>\<open>snakeCase\<close>: lower case, each run of other characters one underscore, none at the ends.\<close>

fun runes :: "string \<Rightarrow> string list" where
  "runes [] = []"
| "runes (c # cs) =
     (case runes cs of
        [] \<Rightarrow> [[c]]
      | r # rs \<Rightarrow> if of_char (hd r) div 64 = (2 :: nat) then (c # r) # rs else [c] # r # rs)"

fun snake_runes :: "(string \<Rightarrow> bool) \<Rightarrow> bool \<Rightarrow> string list \<Rightarrow> string" where
  "snake_runes keep gap [] = []"
| "snake_runes keep gap (r # rs) =
     (if keep r then r @ snake_runes keep False rs
      else if gap then snake_runes keep True rs
      else ''_'' @ snake_runes keep True rs)"

definition snakeCase :: "author_env \<Rightarrow> string \<Rightarrow> string" where
  "snakeCase env name =
     rev (dropWhile (\<lambda>c. c = CHR ''_'') (rev (snake_runes (ae_letter_digit env) True (runes (ae_lower env name)))))"

definition content_name :: "author_env \<Rightarrow> node_type \<Rightarrow> string \<Rightarrow> string" where
  "content_name env nt name =
     (case nt_content_prefix nt of Some pre \<Rightarrow> pre | None \<Rightarrow> []) @ snakeCase env name @ ''.md''"

fun add_fields :: "node_type \<Rightarrow> (string \<times> string) list \<Rightarrow> raw_entry \<Rightarrow> (author_error, raw_entry) result" where
  "add_fields nt [] entry = Inr entry"
| "add_fields nt ((name, raw) # fs) entry =
     (case node_field nt name of
        None \<Rightarrow> add_fields nt fs (gput name (JString raw) entry)
      | Some f \<Rightarrow> bind_result (convertFieldValue f raw) (\<lambda>v. add_fields nt fs (gput name v entry)))"

definition new_entry :: "author_env \<Rightarrow> node_type \<Rightarrow> string \<Rightarrow> string \<Rightarrow> raw_entry" where
  "new_entry env nt i name =
     (let entry = gput ''name'' (JString name) (gput ''id'' (JString i) [])
      in if nt_requires_content nt then gput ''content'' (JString (content_name env nt name)) entry else entry)"

text \<open>Appending to an array of the document; the nil document panics.\<close>

definition append_entry :: "go_doc \<Rightarrow> string \<Rightarrow> raw_entry \<Rightarrow> (author_error, raw_entry) result" where
  "append_entry d pluralKey entry =
     (case d of
        None \<Rightarrow> Inl NilMapAssignment
      | Some kvs \<Rightarrow>
          Inr (gput pluralKey (JArray ((case doc_array kvs pluralKey of Some arr \<Rightarrow> arr | None \<Rightarrow> []) @ [JObject entry])) kvs))"

definition plain_report :: "string list \<Rightarrow> diff_error list \<Rightarrow> mem_fs \<Rightarrow> outcome \<times> mem_fs" where
  "plain_report written obligations disk =
     (Written (empty_report\<lparr>wr_written := written, wr_obligations := obligations\<rparr>), disk)"

definition addModule :: "author_env \<Rightarrow> mem_fs \<Rightarrow> profile \<Rightarrow> node_add_input \<Rightarrow> outcome \<times> mem_fs" where
  "addModule env before p inp =
     (case findModuleID before (ai_name inp) of
        Some existingID \<Rightarrow> (Refused [duplicateModuleNameRefusal (ai_name inp) existingID], before)
      | None \<Rightarrow>
          let i = IdentityHash [''module'', ai_name inp];
              entry = gput ''path'' (JString (ai_name inp)) (gput ''name'' (JString (ai_name inp)) (gput ''id'' (JString i) []));
              modPath = filepath_Join [ai_name inp, ''module.json'']
          in case bind_result (lift_doc (decodeDoc before ''project.json'')) (\<lambda>d. append_entry d ''modules'' entry) of
               Inl e \<Rightarrow> (Errored e, before)
             | Inr d \<Rightarrow>
                 let after = put_doc p ''project.json'' d before
                 in if (case map_of before modPath of Some f \<Rightarrow> \<not> empty_file f | None \<Rightarrow> False) then
                      (Refused [moduleSkeletonExistsRefusal modPath], before)
                    else commit env p before before
                           (put_doc p modPath [(''name'', JString (ai_name inp))] after) plain_report)"

text \<open>The owner of the new node: its file, its directory and the parts of its id.\<close>

definition add_owner :: "mem_fs \<Rightarrow> node_type \<Rightarrow> node_add_input \<Rightarrow> (author_error, string \<times> string \<times> string list) result" where
  "add_owner before nt inp =
     (if nt_scope nt = ''module'' then
        (case findModulePath before (ai_module inp) of
           None \<Rightarrow> Inl (NoModuleNamed (ai_module inp))
         | Some dir \<Rightarrow> Inr (filepath_Join [dir, ''module.json''], dir, [ai_module inp, nt_name nt, ai_name inp]))
      else Inr (''project.json'', [], [''project'', nt_name nt, ai_name inp]))"

definition add_location :: "node_type \<Rightarrow> node_add_input \<Rightarrow> string \<Rightarrow> string \<Rightarrow> node_location" where
  "add_location nt inp ownerFile moduleDir =
     \<lparr>nl_is_module = False, nl_project_scope = (nt_scope nt = ''project''), nl_module_name = ai_module inp,
      nl_module_dir = moduleDir, nl_owner_file = ownerFile, nl_node_type = nt, nl_name = ai_name inp\<rparr>"

text \<open>
  The leaf of the new node. One that is there already is only overwritten when the id is declared, and
  then the id check refuses the duplicate.
\<close>

definition leaf_in_the_way :: "mem_fs \<Rightarrow> node_type \<Rightarrow> string \<Rightarrow> string \<Rightarrow> string \<Rightarrow> (author_error, bool) result" where
  "leaf_in_the_way before nt ownerFile i contentPath =
     (case map_of before contentPath of
        None \<Rightarrow> Inr False
      | Some existing \<Rightarrow>
          if empty_file existing then Inr False
          else bind_result (decode_entries_of before ownerFile) (\<lambda>d.
                 Inr (findEntryField d (nt_plural_key nt) i ''id'' = None)))"

definition add_node :: "author_env \<Rightarrow> mem_fs \<Rightarrow> profile \<Rightarrow> node_add_input \<Rightarrow> node_type \<Rightarrow> outcome \<times> mem_fs" where
  "add_node env before p inp nt =
     (case add_owner before nt inp of
        Inl e \<Rightarrow> (Errored e, before)
      | Inr (ownerFile, moduleDir, idParts) \<Rightarrow>
          let i = IdentityHash idParts;
              contentPath = filepath_Join [moduleDir, content_name env nt (ai_name inp)]
          in case add_fields nt (ai_fields inp) (new_entry env nt i (ai_name inp)) of
               Inl e \<Rightarrow> (Errored e, before)
             | Inr entry \<Rightarrow>
                 (case bind_result (lift_doc (decodeDoc before ownerFile)) (\<lambda>d. append_entry d (nt_plural_key nt) entry) of
                    Inl e \<Rightarrow> (Errored e, before)
                  | Inr d \<Rightarrow>
                      let after = put_doc p ownerFile d before
                      in if \<not> nt_requires_content nt then commit env p before before after plain_report
                         else case leaf_in_the_way before nt ownerFile i contentPath of
                                Inl e \<Rightarrow> (Errored e, before)
                              | Inr True \<Rightarrow> (Refused [nonEmptyLeafRefusal contentPath ''spex node add''], before)
                              | Inr False \<Rightarrow>
                                  let edges = owedEdges after p (add_location nt inp ownerFile moduleDir) entry i;
                                      skeleton = buildSkeleton (ai_name inp) (leaf_sections nt) edges
                                  in commit env p before before (gput contentPath (Text skeleton) after) plain_report))"

definition Add :: "author_env \<Rightarrow> node_add_input \<Rightarrow> mem_fs \<Rightarrow> outcome \<times> mem_fs" where
  "Add env inp before =
     (case ae_resolve env before of
        Inl e \<Rightarrow> (Errored (ProfileError e), before)
      | Inr p \<Rightarrow>
          if ai_type inp = ''module'' then addModule env before p inp
          else case resolveAddNodeType p (ai_type inp) (ai_module inp) of
                 NoSuchType \<Rightarrow> (Refused [undeclaredNodeTypeRefusal (ai_type inp) p], before)
               | NeedsModule \<Rightarrow> (Errored (ModuleFlagMissing (ai_type inp)), before)
               | AddAs nt \<Rightarrow> add_node env before p inp nt)"

subsection \<open>Removing a node\<close>

definition removeEntry :: "raw_entry \<Rightarrow> string \<Rightarrow> string \<Rightarrow> raw_entry" where
  "removeEntry d pluralKey i =
     (case doc_array d pluralKey of
        None \<Rightarrow> d
      | Some arr \<Rightarrow> gput pluralKey (JArray (filter (\<lambda>item. \<not> entry_with i item) arr)) d)"

text \<open>The content leaf goes after the write; no path means the type has none.\<close>

definition finishRemove :: "author_env \<Rightarrow> string \<Rightarrow> node_location \<Rightarrow> string list \<Rightarrow> diff_error list \<Rightarrow> mem_fs
    \<Rightarrow> outcome \<times> mem_fs" where
  "finishRemove env contentPath loc written obligations disk =
     (let report = empty_report\<lparr>wr_written := written, wr_obligations := obligations,
            wr_retired_name := (if nt_name_declarable (nl_node_type loc) then nl_name loc else [])\<rparr>
      in if contentPath = [] then (Written report, disk)
         else (case os_Remove env contentPath disk of
                 (disk', RemoveError) \<Rightarrow> (Errored (RemoveFailed contentPath), disk')
               | (disk', _) \<Rightarrow> (Written report, disk')))"

text \<open>The forced removal: what it introduces is owed, not refused.\<close>

definition force_remove :: "author_env \<Rightarrow> profile \<Rightarrow> mem_fs \<Rightarrow> mem_fs
    \<Rightarrow> (string list \<Rightarrow> diff_error list \<Rightarrow> mem_fs \<Rightarrow> outcome \<times> mem_fs) \<Rightarrow> outcome \<times> mem_fs" where
  "force_remove env p before after k =
     (case completenessObligations env before after p of
        Inl e \<Rightarrow> (Errored e, before)
      | Inr completeness \<Rightarrow>
          let obligations = completeness @ validatorObligations (nonRefusalCheckers env after) @
                validatorObligations (introducedFindings env before after);
              written = changedPaths before after
          in (case writeChanges env after written before of
                (disk, Some e) \<Rightarrow> (Errored e, disk)
              | (disk, None) \<Rightarrow> k written obligations disk))"

definition remove_after :: "profile \<Rightarrow> mem_fs \<Rightarrow> node_location \<Rightarrow> string \<Rightarrow> raw_entry \<Rightarrow> string \<times> mem_fs" where
  "remove_after p before loc i d =
     (let after = put_doc p (nl_owner_file loc) (removeEntry d (nt_plural_key (nl_node_type loc)) i) before
      in if nt_requires_content (nl_node_type loc) then
           let contentPath = filepath_Join [nl_module_dir loc,
                 case findEntryField d (nt_plural_key (nl_node_type loc)) i ''content'' of Some c \<Rightarrow> c | None \<Rightarrow> []]
           in (contentPath, gdel contentPath after)
         else ([], after))"

definition Remove :: "author_env \<Rightarrow> node_remove_input \<Rightarrow> mem_fs \<Rightarrow> outcome \<times> mem_fs" where
  "Remove env inp before =
     (case ae_resolve env before of
        Inl e \<Rightarrow> (Errored (ProfileError e), before)
      | Inr p \<Rightarrow>
          (case locateNode before p (ri_id inp) of
             Inl e \<Rightarrow> (Errored e, before)
           | Inr loc \<Rightarrow>
               if nl_is_module loc then (Refused [moduleRemoveRefusal (ri_id inp)], before)
               else (case decode_entries_of before (nl_owner_file loc) of
                       Inl e \<Rightarrow> (Errored e, before)
                     | Inr d \<Rightarrow>
                         (case remove_after p before loc (ri_id inp) d of
                            (contentPath, after) \<Rightarrow>
                              if ri_force inp then force_remove env p before after (finishRemove env contentPath loc)
                              else commit env p before before after (finishRemove env contentPath loc)))))"

subsection \<open>Setting fields\<close>

text \<open>The new entry and whether anything changed.\<close>

fun set_fields :: "node_type \<Rightarrow> (string \<times> string) list \<Rightarrow> raw_entry \<times> bool \<Rightarrow> raw_entry \<times> bool" where
  "set_fields nt [] st = st"
| "set_fields nt ((name, raw) # fs) (entry, changed) =
     (let next = convertSetFieldValue (node_field nt name) raw
      in if (case map_of entry name of Some existing \<Rightarrow> setValueUnchanged existing next | None \<Rightarrow> False)
         then set_fields nt fs (entry, changed)
         else set_fields nt fs (gput name next entry, True))"

fun unset_fields :: "string list \<Rightarrow> raw_entry \<times> bool \<Rightarrow> raw_entry \<times> bool" where
  "unset_fields [] st = st"
| "unset_fields (name # ns) (entry, changed) =
     (if map_of entry name = None then unset_fields ns (entry, changed)
      else unset_fields ns (gdel name entry, True))"

definition edit_fields :: "node_type \<Rightarrow> node_set_input \<Rightarrow> raw_entry \<Rightarrow> raw_entry option" where
  "edit_fields nt inp entry =
     (case unset_fields (si_unset inp) (set_fields nt (si_fields inp) (entry, False)) of
        (entry', changed) \<Rightarrow> if changed then Some entry' else None)"

definition set_refusal :: "node_set_input \<Rightarrow> node_location \<Rightarrow> refusal_entry option" where
  "set_refusal inp loc =
     (case find (\<lambda>name. name \<in> set (si_unset inp)) (map fst (si_fields inp)) of
        Some name \<Rightarrow> Some (setUnsetConflictRefusal name loc (si_id inp))
      | None \<Rightarrow>
          first_some (\<lambda>name. fieldOwnershipRefusal name loc (si_id inp)) (map fst (si_fields inp) @ si_unset inp))"

definition SetNode :: "author_env \<Rightarrow> node_set_input \<Rightarrow> mem_fs \<Rightarrow> outcome \<times> mem_fs" where
  "SetNode env inp before =
     (case ae_resolve env before of
        Inl e \<Rightarrow> (Errored (ProfileError e), before)
      | Inr p \<Rightarrow>
          (case locateNode before p (si_id inp) of
             Inl e \<Rightarrow> (Errored e, before)
           | Inr loc \<Rightarrow>
               if nl_is_module loc then (Refused [moduleSetRefusal (si_id inp)], before)
               else (case set_refusal inp loc of
                       Some r \<Rightarrow> (Refused [r], before)
                     | None \<Rightarrow>
                         edge_edit env p before loc (si_id inp)
                           (\<lambda>e. map_option (\<lambda>e'. (e', [])) (edit_fields (nl_node_type loc) inp e)))))"

end
