(* ===== verification/Author_Rename.thy ===== *)
theory Author_Rename
  imports Author_Node
begin

text \<open>
  Renaming a node (\<open>author/node_renamer.go\<close>): the name fixes the id and the content path, so the entry,
  the references to it, the links to it and the leaf move together.
\<close>

record rename_input =
  rni_id :: string
  rni_new_name :: string

subsection \<open>References in documents\<close>

definition referenceFieldNames :: "profile \<Rightarrow> string set" where
  "referenceFieldNames p = edg_kind ` set (prf_edges p)"

definition patch_id :: "string \<Rightarrow> string \<Rightarrow> json \<Rightarrow> json" where
  "patch_id old new v = (if v = JString old then JString new else v)"

definition patch_value :: "string \<Rightarrow> string \<Rightarrow> json \<Rightarrow> json" where
  "patch_value old new v = (case v of JArray xs \<Rightarrow> JArray (map (patch_id old new) xs) | _ \<Rightarrow> patch_id old new v)"

definition patch_entry :: "string set \<Rightarrow> string \<Rightarrow> string \<Rightarrow> raw_entry \<Rightarrow> raw_entry" where
  "patch_entry refFields old new e = map (\<lambda>(f, v). (f, if f \<in> refFields then patch_value old new v else v)) e"

definition patch_item :: "string set \<Rightarrow> string \<Rightarrow> string \<Rightarrow> json \<Rightarrow> json" where
  "patch_item refFields old new item =
     (case item of JObject e \<Rightarrow> JObject (patch_entry refFields old new e) | _ \<Rightarrow> item)"

definition patchReferenceFields :: "raw_entry \<Rightarrow> string set \<Rightarrow> string \<Rightarrow> string \<Rightarrow> raw_entry" where
  "patchReferenceFields d refFields old new =
     map (\<lambda>(k, v). (k, case v of JArray arr \<Rightarrow> JArray (map (patch_item refFields old new) arr) | _ \<Rightarrow> v)) d"

text \<open>What the function returns: whether some reference was the old id.\<close>

definition value_refers :: "string \<Rightarrow> json \<Rightarrow> bool" where
  "value_refers old v = (case v of JArray xs \<Rightarrow> JString old \<in> set xs | _ \<Rightarrow> v = JString old)"

definition item_refers :: "string set \<Rightarrow> string \<Rightarrow> json \<Rightarrow> bool" where
  "item_refers refFields old item =
     (case entry_map item of
        None \<Rightarrow> False
      | Some e \<Rightarrow> list_ex (\<lambda>(f, v). f \<in> refFields \<and> value_refers old v) e)"

definition doc_refers :: "string set \<Rightarrow> string \<Rightarrow> raw_entry \<Rightarrow> bool" where
  "doc_refers refFields old d =
     list_ex (\<lambda>(k, v). case v of JArray arr \<Rightarrow> list_ex (item_refers refFields old) arr | _ \<Rightarrow> False) d"

definition rename_entry :: "string \<Rightarrow> string \<Rightarrow> string option \<Rightarrow> raw_entry \<Rightarrow> raw_entry" where
  "rename_entry newID newName newContent e =
     (let e' = gput ''name'' (JString newName) (gput ''id'' (JString newID) e)
      in case newContent of Some c \<Rightarrow> gput ''content'' (JString c) e' | None \<Rightarrow> e')"

definition mutateEntry :: "raw_entry \<Rightarrow> string \<Rightarrow> string \<Rightarrow> string \<Rightarrow> string \<Rightarrow> string option \<Rightarrow> raw_entry \<times> bool" where
  "mutateEntry d pluralKey old newID newName newContent =
     (edit_entry d pluralKey old (rename_entry newID newName newContent), findEntryMap d pluralKey old \<noteq> None)"

subsection \<open>Links in leaves\<close>

definition regexp_space :: "char \<Rightarrow> bool" where
  "regexp_space c \<longleftrightarrow> c \<in> {CHR 0x20, CHR 0x09, CHR 0x0A, CHR 0x0C, CHR 0x0D}"

text \<open>The match of \<open>\[\[\s*old\s*\|\<close> at the start of a text: what follows it.\<close>

definition link_target_match :: "string \<Rightarrow> string \<Rightarrow> string option" where
  "link_target_match old s =
     (if prefix ''[['' s then
        (let r = dropWhile regexp_space (drop 2 s)
         in if prefix old r then
              (let t = dropWhile regexp_space (drop (length old) r)
               in if t \<noteq> [] \<and> hd t = CHR ''|'' then Some (tl t) else None)
            else None)
      else None)"

lemma link_target_match_shorter:
  assumes "link_target_match old s = Some t"
  shows "length t < length s"
proof -
  define r where "r = dropWhile regexp_space (drop 2 s)"
  define u where "u = dropWhile regexp_space (drop (length old) r)"
  have t: "prefix ''[['' s" "u \<noteq> []" "t = tl u"
    using assms unfolding link_target_match_def Let_def r_def u_def by (simp_all split: if_splits)
  have "length u \<le> length r"
    using length_dropWhile_le[of regexp_space "drop (length old) r"] by (simp add: u_def)
  also have "length r \<le> length s"
    using length_dropWhile_le[of regexp_space "drop 2 s"] by (simp add: r_def)
  finally show ?thesis using t(2,3) by (cases u) simp_all
qed

function repointLinks :: "string \<Rightarrow> string \<Rightarrow> string \<Rightarrow> string" where
  "repointLinks old new [] = []"
| "repointLinks old new (c # cs) =
     (case link_target_match old (c # cs) of
        Some rest \<Rightarrow> ''[['' @ new @ ''|'' @ repointLinks old new rest
      | None \<Rightarrow> c # repointLinks old new cs)"
  by pat_completeness auto

termination
  by (relation "measure (\<lambda>(old, new, s). length s)") (auto dest: link_target_match_shorter)

text \<open>An occurrence of the old id that is a word of its own is replaced; \<open>prev\<close> is the byte before.\<close>

function repoint_words :: "string \<Rightarrow> string \<Rightarrow> char option \<Rightarrow> string \<Rightarrow> string" where
  "repoint_words old new prev [] = []"
| "repoint_words old new prev (c # cs) =
     (if old \<noteq> [] \<and> prefix old (c # cs) \<and> (case prev of None \<Rightarrow> True | Some d \<Rightarrow> \<not> isWordByte d) \<and>
         (case drop (length old) (c # cs) of [] \<Rightarrow> True | d # ds \<Rightarrow> \<not> isWordByte d)
      then new @ repoint_words old new (Some (last old)) (drop (length old) (c # cs))
      else c # repoint_words old new (Some c) cs)"
  by pat_completeness auto

termination
  by (relation "measure (\<lambda>(old, new, prev, s). length s)") auto

definition repointBareHashLine :: "string \<Rightarrow> string \<Rightarrow> string \<Rightarrow> string" where
  "repointBareHashLine old new line = repoint_words old new None line"

text \<open>One line under the fence that is open before it, with the fence after it.\<close>

definition repoint_line :: "string \<Rightarrow> string \<Rightarrow> string \<Rightarrow> fence \<Rightarrow> string \<times> fence" where
  "repoint_line old new line cur =
     (case fenceMarker line of
        Some marker \<Rightarrow> (line, fence_step cur marker)
      | None \<Rightarrow>
          (case cur of
             Some (c, n, info) \<Rightarrow> (if info = ''dot'' then repointBareHashLine old new line else line, cur)
           | None \<Rightarrow> (line, cur)))"

fun repoint_lines :: "string \<Rightarrow> string \<Rightarrow> fence \<Rightarrow> string list \<Rightarrow> string list" where
  "repoint_lines old new cur [] = []"
| "repoint_lines old new cur (l # ls) =
     (case repoint_line old new l cur of (l', cur') \<Rightarrow> l' # repoint_lines old new cur' ls)"

definition repointDotNodeRefs :: "string \<Rightarrow> string \<Rightarrow> string \<Rightarrow> string" where
  "repointDotNodeRefs old new s = join_strings newline (repoint_lines old new None (text_lines s))"

definition repoint_leaf :: "author_env \<Rightarrow> string \<Rightarrow> string \<Rightarrow> file_content \<Rightarrow> file_content" where
  "repoint_leaf env old new f =
     (let s = file_bytes (ae_layout env) f; s' = repointDotNodeRefs old new (repointLinks old new s)
      in if s' = s then f else Text s')"

subsection \<open>The command\<close>

definition moduleRenameRefusal :: "string \<Rightarrow> refusal_entry" where
  "moduleRenameRefusal i =
     \<lparr>rf_check = ''rename'', rf_message = ModuleNotRenamable i, rf_path = ''project.json:/modules/'' @ i,
      rf_fix = FixText ''spex node rename does not rename modules: edit project.json's modules entry (name and path) by hand and move the module's directory to match''\<rparr>"

definition contentPathCollision :: "raw_entry \<Rightarrow> string \<Rightarrow> string \<Rightarrow> string \<Rightarrow> string option" where
  "contentPathCollision d pluralKey excludeID newContent =
     (case doc_array d pluralKey of
        None \<Rightarrow> None
      | Some arr \<Rightarrow>
          map_option (\<lambda>e. str_field e ''id'')
            (find (\<lambda>e. str_field e ''id'' \<noteq> excludeID \<and> str_field e ''content'' = newContent)
               (List.map_filter entry_map arr)))"

definition declaredContentLeaves :: "(string \<times> raw_entry) list \<Rightarrow> profile \<Rightarrow> string list" where
  "declaredContentLeaves docs p = concat (map (\<lambda>(key, d). doc_leaves p key d) docs)"

definition patch_doc :: "profile \<Rightarrow> node_location \<Rightarrow> string \<Rightarrow> string \<Rightarrow> string \<Rightarrow> string option
    \<Rightarrow> string \<times> raw_entry \<Rightarrow> mem_fs \<Rightarrow> mem_fs" where
  "patch_doc p loc old newID newName newContent kd m =
     (case kd of (key, d) \<Rightarrow>
        let refFields = referenceFieldNames p; d' = patchReferenceFields d refFields old newID
        in if key = nl_owner_file loc then
             (case mutateEntry d' (nt_plural_key (nl_node_type loc)) old newID newName newContent of
                (d'', entryChanged) \<Rightarrow> if doc_refers refFields old d \<or> entryChanged then put_doc p key d'' m else m)
           else if doc_refers refFields old d then put_doc p key d' m else m)"

definition patch_links :: "author_env \<Rightarrow> string \<Rightarrow> string \<Rightarrow> string \<Rightarrow> mem_fs \<Rightarrow> mem_fs" where
  "patch_links env old new key m =
     (case map_of m key of None \<Rightarrow> m | Some f \<Rightarrow> gput key (repoint_leaf env old new f) m)"

definition renamed_docs :: "author_env \<Rightarrow> profile \<Rightarrow> mem_fs \<Rightarrow> node_location \<Rightarrow> (string \<times> raw_entry) list
    \<Rightarrow> string \<Rightarrow> string \<Rightarrow> string \<Rightarrow> string option \<Rightarrow> mem_fs" where
  "renamed_docs env p before loc docs old newID newName newContent =
     fold (patch_links env old newID) (declaredContentLeaves docs p)
       (fold (patch_doc p loc old newID newName newContent) docs before)"

text \<open>The old path of the leaf and the value and path of the new one; the new path may be taken.\<close>

definition rename_content :: "author_env \<Rightarrow> mem_fs \<Rightarrow> node_location \<Rightarrow> raw_entry \<Rightarrow> string \<Rightarrow> string \<Rightarrow> string
    \<Rightarrow> (author_error, string \<times> string \<times> string) result" where
  "rename_content env before loc ownerDoc old newID newName =
     (let nt = nl_node_type loc;
          oldContent = (case findEntryField ownerDoc (nt_plural_key nt) old ''content'' of Some c \<Rightarrow> c | None \<Rightarrow> []);
          nv = content_name env nt newName;
          newFull = filepath_Join [nl_module_dir loc, nv];
          colliding = (case contentPathCollision ownerDoc (nt_plural_key nt) old nv of Some i \<Rightarrow> i | None \<Rightarrow> [])
      in if nv \<noteq> oldContent \<and> map_of before newFull \<noteq> None \<and> colliding \<noteq> newID then Inl (ContentOccupied newFull)
         else Inr (filepath_Join [nl_module_dir loc, oldContent], nv, newFull))"

definition finishRename :: "author_env \<Rightarrow> node_location \<Rightarrow> string option \<Rightarrow> string list \<Rightarrow> diff_error list \<Rightarrow> mem_fs
    \<Rightarrow> outcome \<times> mem_fs" where
  "finishRename env loc stale written obligations disk =
     (let report = empty_report\<lparr>wr_written := written, wr_obligations := obligations, wr_retired_name := nl_name loc\<rparr>
      in case stale of
           None \<Rightarrow> (Written report, disk)
         | Some path \<Rightarrow>
             (case os_Remove env path disk of
                (disk', RemovedFile) \<Rightarrow> (Written report, disk')
              | (disk', _) \<Rightarrow> (Errored (RemoveFailed path), disk')))"

text \<open>The leaf moves to its new path; \<open>stale\<close> is the path left behind.\<close>

definition move_leaf :: "mem_fs \<Rightarrow> string \<Rightarrow> string \<Rightarrow> (author_error, mem_fs \<times> string option) result" where
  "move_leaf after oldFull newFull =
     (case map_of after oldFull of
        None \<Rightarrow> Inl (ContentNotFound oldFull)
      | Some content \<Rightarrow>
          if newFull = oldFull then Inr (after, None)
          else Inr (gput newFull content (gdel oldFull after), Some oldFull))"

definition rename_after :: "author_env \<Rightarrow> profile \<Rightarrow> mem_fs \<Rightarrow> node_location \<Rightarrow> (string \<times> raw_entry) list \<Rightarrow> raw_entry
    \<Rightarrow> string \<Rightarrow> string \<Rightarrow> (author_error, mem_fs \<times> string option) result" where
  "rename_after env p before loc docs ownerDoc old newName =
     (let nt = nl_node_type loc;
          newID = IdentityHash [if nl_project_scope loc then ''project'' else nl_module_name loc, nt_name nt, newName]
      in if nt_requires_content nt then
           bind_result (rename_content env before loc ownerDoc old newID newName) (\<lambda>(oldFull, nv, newFull).
             move_leaf (renamed_docs env p before loc docs old newID newName (Some nv)) oldFull newFull)
         else Inr (renamed_docs env p before loc docs old newID newName None, None))"

definition Rename :: "author_env \<Rightarrow> rename_input \<Rightarrow> mem_fs \<Rightarrow> outcome \<times> mem_fs" where
  "Rename env inp before =
     (case ae_resolve env before of
        Inl e \<Rightarrow> (Errored (ProfileError e), before)
      | Inr p \<Rightarrow>
          (case locateNode before p (rni_id inp) of
             Inl e \<Rightarrow> (Errored e, before)
           | Inr loc \<Rightarrow>
               if nl_is_module loc then (Refused [moduleRenameRefusal (rni_id inp)], before)
               else if rni_new_name inp = nl_name loc then (Written empty_report, before)
               else (case bind_result (specDocKeys before)
                            (collect (\<lambda>key. bind_result (decode_entries_of before key) (\<lambda>d. Inr (key, d)))) of
                       Inl e \<Rightarrow> (Errored e, before)
                     | Inr docs \<Rightarrow>
                         (case rename_after env p before loc docs
                                 (case map_of docs (nl_owner_file loc) of Some d \<Rightarrow> d | None \<Rightarrow> [])
                                 (rni_id inp) (rni_new_name inp) of
                            Inl e \<Rightarrow> (Errored e, before)
                          | Inr (after, stale) \<Rightarrow> commit env p before before after (finishRename env loc stale)))))"

end
