(* ===== verification/Author_Gate.thy ===== *)
theory Author_Gate
  imports Author_Rename
begin

text \<open>
  The contract of the authoring commands: a command that writes leaves on disk a state the gate
  accepted, with no finding the state before did not have; one that refuses leaves the disk alone; one that
  fails in the file system leaves each file as it was or as it is in a state the gate accepted.
\<close>

subsection \<open>The contract of a command\<close>

definition io_failure :: "outcome \<Rightarrow> bool" where
  "io_failure out \<longleftrightarrow> (\<exists>f. out = Errored (WriteFailed f) \<or> out = Errored (RemoveFailed f))"

definition disk_ok :: "mem_fs \<Rightarrow> bool" where
  "disk_ok d \<longleftrightarrow> go_map d \<and> (\<forall>k \<in> dom (map_of d). inside k)"

lemma disk_ok_inside: "disk_ok d \<Longrightarrow> k \<in> dom (map_of d) \<Longrightarrow> inside k"
  by (simp add: disk_ok_def)

lemma disk_ok_map [simp]: "disk_ok d \<Longrightarrow> go_map d"
  by (simp add: disk_ok_def)

definition gated :: "author_env \<Rightarrow> mem_fs \<Rightarrow> outcome \<times> mem_fs \<Rightarrow> bool" where
  "gated env d res \<longleftrightarrow>
     (case res of (out, d') \<Rightarrow>
        d' = d \<or> io_failure out \<and> (\<exists>after. no_new env d after \<and> between d after d') \<or> ((\<exists>r. out = Written r) \<and> disk_ok d' \<and> no_new env d d'))"

named_theorems gate_intros \<open>results that keep the contract\<close>

lemma gated_same [gate_intros]: "gated env d (out, d)"
  by (simp add: gated_def)

lemma gated_result:
  assumes "gated env d (out, d')" and "\<not> io_failure out" and "disk_ok d"
  shows "disk_ok d'" and "no_new env d d'"
  using assms by (auto simp: gated_def)

lemma gated_failed: "gated env d (out, d') \<Longrightarrow> io_failure out \<Longrightarrow> \<exists>after. no_new env d after \<and> between d after d'"
proof -
  assume g: "gated env d (out, d')" and io: "io_failure out"
  have "no_new env d d \<and> between d d d" by simp
  moreover have "d' = d \<or> (\<exists>after. no_new env d after \<and> between d after d')"
    using g io by (auto simp: gated_def io_failure_def)
  ultimately show ?thesis by metis
qed

lemma gated_refused: "gated env d (Refused rs, d') \<Longrightarrow> d' = d"
  by (auto simp: gated_def io_failure_def)

text \<open>A commit whose last step ends in the state that was checked.\<close>

lemma gated_commit:
  assumes disk: "disk_ok d" and map: "go_map after"
    and ends: "\<And>w obl disk. writeChanges env after (changedPaths d after) d = (disk, None) \<Longrightarrow>
      io_failure (fst (k w obl disk)) \<and> snd (k w obl disk) = disk \<or> (\<exists>r. k w obl disk = (Written r, after))"
  shows "gated env d (commit env p d d after k)"
proof (cases rule: commit_cases[of env p d d after k])
  case (stopped e d')
  moreover have "d' = d \<or> (\<exists>f. e = WriteFailed f) \<and> no_new env d after \<and> between d after d'"
    using stopped(2) writeChanges_between[of env after _ d d' _ d] disk by auto
  ultimately show ?thesis by (auto simp: gated_def io_failure_def)
next
  case (refused rs)
  then show ?thesis by (simp add: gated_same)
next
  case (written obl disk')
  have "inside k" if "k \<in> dom (map_of after)" for k
  proof (cases "k \<in> set (changedPaths d after)")
    case True
    then show ?thesis using writeChanges_paths[OF written(4)] by blast
  next
    case False
    then have "k \<in> dom (map_of d)" using that changedPaths_iff[OF map, of k d] by auto
    then show ?thesis using disk by (simp add: disk_ok_def)
  qed
  then have "disk_ok after" using map by (simp add: disk_ok_def)
  moreover have "between d after disk'" using writeChanges_between[OF written(4), of d] disk by simp
  ultimately show ?thesis
    using ends[OF written(4), of "changedPaths d after" obl] written(1,3)
    by (cases "k (changedPaths d after) obl disk'") (auto simp: gated_def)
qed

lemma gated_commit_all:
  assumes "disk_ok d" and "go_map after" and "dom (map_of d) \<subseteq> dom (map_of after)"
    and "\<And>w obl disk. \<exists>r. k w obl disk = (Written r, disk)"
  shows "gated env d (commit env p d d after k)"
proof (rule gated_commit[OF assms(1,2)])
  fix w obl disk assume "writeChanges env after (changedPaths d after) d = (disk, None)"
  then have "disk = after" using assms(1-3) by (intro write_all) simp_all
  then show "io_failure (fst (k w obl disk)) \<and> snd (k w obl disk) = disk \<or> (\<exists>r. k w obl disk = (Written r, after))"
    using assms(4)[of w obl disk] by simp
qed

subsection \<open>The states that are written\<close>

lemma go_map_put_doc [simp]: "go_map m \<Longrightarrow> go_map (put_doc p key d m)"
  by (simp add: put_doc_def)

lemma map_of_put_doc [simp]:
  "go_map m \<Longrightarrow> map_of (put_doc p key d m) = (map_of m)(key \<mapsto> Doc (canonicalizeDoc d key (Some p)))"
  by (simp add: put_doc_def)

lemma edge_edit_gated [gate_intros]:
  assumes "disk_ok d"
  shows "gated env d (edge_edit env p d loc i edit)"
proof -
  have "gated env d (commit env p d d (put_doc p f dc d) k)" if "\<And>w obl disk. \<exists>r. k w obl disk = (Written r, disk)" for f dc k
    using assms that by (intro gated_commit_all) auto
  then show ?thesis
    by (auto simp: edge_edit_def Let_def intro!: gate_intros split: sum.split option.split prod.split)
qed

subsection \<open>Edges and fields\<close>

lemma AddEdge_gated: "disk_ok d \<Longrightarrow> gated env d (AddEdge env inp d)"
  by (auto simp: AddEdge_def intro!: gate_intros split: sum.split option.split)

lemma RemoveEdge_gated: "disk_ok d \<Longrightarrow> gated env d (RemoveEdge env inp d)"
  by (auto simp: RemoveEdge_def intro!: gate_intros split: sum.split option.split)

lemma SetNode_gated: "disk_ok d \<Longrightarrow> gated env d (SetNode env inp d)"
  by (auto simp: SetNode_def intro!: gate_intros split: sum.split option.split)

subsection \<open>Adding\<close>

lemma plain_commit_gated [gate_intros]:
  assumes "disk_ok d" and "go_map after" and "dom (map_of d) \<subseteq> dom (map_of after)"
  shows "gated env d (commit env p d d after plain_report)"
  using assms by (intro gated_commit_all) (auto simp: plain_report_def)

lemma addModule_gated [gate_intros]: "disk_ok d \<Longrightarrow> gated env d (addModule env d p inp)"
  by (auto simp: addModule_def Let_def intro!: gate_intros split: sum.split option.split)

lemma add_node_gated [gate_intros]: "disk_ok d \<Longrightarrow> gated env d (add_node env d p inp nt)"
  by (auto simp: add_node_def Let_def intro!: gate_intros split: sum.split option.split bool.split prod.split)

lemma Add_gated: "disk_ok d \<Longrightarrow> gated env d (Add env inp d)"
  by (auto simp: Add_def intro!: gate_intros split: sum.split add_type.split)

subsection \<open>Removing\<close>

lemma finishRemove_ends:
  assumes "contentPath = [] \<and> disk = after \<or> contentPath \<noteq> [] \<and> gdel contentPath disk = after \<and> go_map disk"
  shows "io_failure (fst (finishRemove env contentPath loc w obl disk)) \<and>
      snd (finishRemove env contentPath loc w obl disk) = disk \<or>
    (\<exists>r. finishRemove env contentPath loc w obl disk = (Written r, after))"
  using assms gdel_id[of disk contentPath]
  by (auto simp: finishRemove_def Let_def os_Remove_def io_failure_def split: if_splits)

lemma remove_after_state:
  assumes "disk_ok d" and "remove_after p d loc i dc = (contentPath, after)"
    and "writeChanges env after (changedPaths d after) d = (disk, None)"
  shows "go_map disk \<and> (contentPath = [] \<and> disk = after \<or> contentPath \<noteq> [] \<and> gdel contentPath disk = after)"
proof -
  define kept where "kept = put_doc p (nl_owner_file loc) (removeEntry dc (nt_plural_key (nl_node_type loc)) i) d"
  have kept: "go_map kept" "dom (map_of d) \<subseteq> dom (map_of kept)" using assms(1) by (auto simp: kept_def)
  have after: "after = gdel contentPath kept \<or> contentPath = [] \<and> after = kept"
    using assms(2) unfolding remove_after_def kept_def by (auto simp: Let_def split: if_splits)
  then have map: "go_map after" using kept(1) by auto
  have disk: "go_map disk" using write_changed(1)[OF assms(3) _ map] assms(1) by simp
  have part: "gdel contentPath disk = after" if "after = gdel contentPath kept"
    using write_but_one[OF assms(3) _ map, of contentPath] kept(2) assms(1) that by auto
  have empty: "disk = after" if "contentPath = []"
  proof (rule write_all[OF assms(3) _ map])
    have "dom (map_of kept) - {[]} \<subseteq> dom (map_of after)" using after that by auto
    moreover have "[] \<notin> dom (map_of d)" using disk_ok_inside[OF assms(1), of "[]"] by auto
    ultimately show "dom (map_of d) \<subseteq> dom (map_of after)" using kept(2) by blast
  qed (use assms(1) in simp)
  show ?thesis using disk part empty after by blast
qed

lemma Remove_gated: "disk_ok d \<Longrightarrow> \<not> ri_force inp \<Longrightarrow> gated env d (Remove env inp d)"
proof -
  assume ok: "disk_ok d" and unforced: "\<not> ri_force inp"
  have "gated env d (commit env p d d after (finishRemove env contentPath loc))"
    if r: "remove_after p d loc (ri_id inp) dc = (contentPath, after)" for p loc dc contentPath after
  proof (rule gated_commit[OF ok])
    show "go_map after" using r ok by (auto simp: remove_after_def Let_def split: if_splits)
    fix w obl disk assume "writeChanges env after (changedPaths d after) d = (disk, None)"
    from remove_after_state[OF ok r this]
    show "io_failure (fst (finishRemove env contentPath loc w obl disk)) \<and>
        snd (finishRemove env contentPath loc w obl disk) = disk \<or>
        (\<exists>r. finishRemove env contentPath loc w obl disk = (Written r, after))"
      by (intro finishRemove_ends) auto
  qed
  then show ?thesis
    using unforced by (auto simp: Remove_def intro!: gate_intros split: sum.split prod.split)
qed

subsection \<open>Renaming\<close>

lemma patch_doc_map:
  assumes "go_map m"
  shows "go_map (patch_doc p loc old new name c kd m) \<and> dom (map_of m) \<subseteq> dom (map_of (patch_doc p loc old new name c kd m))"
  using assms by (auto simp: patch_doc_def Let_def mutateEntry_def split: prod.split)

lemma patch_links_map:
  assumes "go_map m"
  shows "go_map (patch_links env old new key m) \<and> dom (map_of m) \<subseteq> dom (map_of (patch_links env old new key m))"
  using assms by (auto simp: patch_links_def split: option.split)

lemma fold_grows:
  assumes "\<And>x m. go_map m \<Longrightarrow> go_map (f x m) \<and> dom (map_of m) \<subseteq> dom (map_of (f x m))" and "go_map m"
  shows "go_map (fold f xs m) \<and> dom (map_of m) \<subseteq> dom (map_of (fold f xs m))"
  using assms(2)
proof (induction xs arbitrary: m)
  case (Cons x xs)
  note step = assms(1)[OF Cons.prems, of x]
  then have "go_map (fold f xs (f x m)) \<and> dom (map_of (f x m)) \<subseteq> dom (map_of (fold f xs (f x m)))"
    by (intro Cons.IH) blast
  then show ?case using step by (simp only: fold_Cons comp_apply) blast
qed simp

lemma renamed_docs_map:
  assumes "go_map m"
  shows "go_map (renamed_docs env p m loc docs old new name c) \<and>
    dom (map_of m) \<subseteq> dom (map_of (renamed_docs env p m loc docs old new name c))"
proof -
  let ?m = "fold (patch_doc p loc old new name c) docs m"
  have one: "go_map ?m \<and> dom (map_of m) \<subseteq> dom (map_of ?m)"
    by (rule fold_grows) (simp_all add: patch_doc_map assms)
  have "go_map (fold (patch_links env old new) ks ?m) \<and> dom (map_of ?m) \<subseteq> dom (map_of (fold (patch_links env old new) ks ?m))" for ks
    by (rule fold_grows) (simp_all add: patch_links_map one)
  then show ?thesis unfolding renamed_docs_def using one by blast
qed

lemma rename_after_state:
  assumes ok: "disk_ok d" and r: "rename_after env p d loc docs ownerDoc old newName = Inr (after, stale)"
    and w: "writeChanges env after (changedPaths d after) d = (disk, None)"
  shows "go_map disk \<and> (case stale of None \<Rightarrow> disk = after | Some path \<Rightarrow> gdel path disk = after)"
proof -
  obtain m where m: "go_map m" "dom (map_of d) \<subseteq> dom (map_of m)"
      and after: "stale = None \<and> after = m \<or>
        (\<exists>old new c. stale = Some old \<and> new \<noteq> old \<and> after = gput new c (gdel old m))"
    using r renamed_docs_map[of d env p loc docs] ok
    by (fastforce simp: rename_after_def move_leaf_def Let_def loop_simps split: if_splits option.splits prod.splits)
  have map: "go_map after" using after m(1) by auto
  have disk: "go_map disk" using write_changed(1)[OF w _ map] ok by simp
  show ?thesis
  proof (cases stale)
    case None
    then have "disk = after" using write_all[OF w _ map] after m(2) ok by auto
    then show ?thesis using disk None by simp
  next
    case (Some path)
    then obtain new c where n: "new \<noteq> path" "after = gput new c (gdel path m)" using after by auto
    have "gdel path disk = after"
      by (rule write_but_one[OF w _ map]) (use ok n m in auto)
    then show ?thesis using disk Some by simp
  qed
qed

lemma rename_after_map: "go_map d \<Longrightarrow> rename_after env p d loc docs ownerDoc old newName = Inr (after, stale) \<Longrightarrow> go_map after"
  using renamed_docs_map[of d env p loc docs]
  by (auto simp: rename_after_def move_leaf_def Let_def loop_simps split: if_splits option.splits prod.splits)

lemma finishRename_ends:
  assumes "case stale of None \<Rightarrow> disk = after | Some path \<Rightarrow> gdel path disk = after"
  shows "io_failure (fst (finishRename env loc stale w obl disk)) \<and>
      snd (finishRename env loc stale w obl disk) = disk \<or>
    (\<exists>r. finishRename env loc stale w obl disk = (Written r, after))"
  using assms by (auto simp: finishRename_def os_Remove_def io_failure_def split: option.splits if_splits)

lemma Rename_gated: "disk_ok d \<Longrightarrow> gated env d (Rename env inp d)"
proof -
  assume ok: "disk_ok d"
  have "gated env d (commit env p d d after (finishRename env loc stale))"
    if r: "rename_after env p d loc docs ownerDoc old newName = Inr (after, stale)" for p loc docs ownerDoc old newName after stale
  proof (rule gated_commit[OF ok])
    show "go_map after" using rename_after_map[OF _ r] ok by simp
    fix w obl disk assume "writeChanges env after (changedPaths d after) d = (disk, None)"
    from rename_after_state[OF ok r this]
    show "io_failure (fst (finishRename env loc stale w obl disk)) \<and>
        snd (finishRename env loc stale w obl disk) = disk \<or>
        (\<exists>r. finishRename env loc stale w obl disk = (Written r, after))"
      by (intro finishRename_ends) auto
  qed
  then show ?thesis
    by (auto simp: Rename_def intro!: gate_intros split: sum.split prod.split)
qed

end
