(* ===== verification/Schema_Shipped.thy ===== *)
theory Schema_Shipped
  imports Schema_Compose
begin

text \<open>
  What a composed schema says: under the default profile it is the shipped document, and under any valid
  profile the definition of a node type is closed and opens the envelope, the declared fields and the
  reference fields its name has in either scope.
\<close>

subsection \<open>Under the default profile\<close>

lemma digit_chars: "digit 0 = CHR 0x30" "digit 4 = CHR 0x34"
  unfolding digit_def by code_simp+

lemma default_module_types: "ModuleNodeTypes DefaultProfile = DefaultModuleNodeTypes"
  by code_simp

text \<open>The Go list for the project leaves out one flag of the profile, which composition does not read.\<close>

definition unhashed_derivation :: "scoped_node_type \<Rightarrow> scoped_node_type" where
  "unhashed_derivation t =
     t\<lparr>snt_fields := map (\<lambda>f. if fld_name f = ''derivation'' then f\<lparr>fld_hashed := Some False\<rparr> else f) (snt_fields t)\<rparr>"

lemma default_project_types: "ProjectNodeTypes DefaultProfile = map unhashed_derivation DefaultProjectNodeTypes"
  by code_simp

lemma module_type_heads:
  "snt_name module_requirement_type = ''requirement''" "snt_plural_key module_requirement_type = ''requirements''"
  "snt_name module_component_type = ''component''" "snt_plural_key module_component_type = ''components''"
  "snt_name module_data_flow_type = ''data_flow''" "snt_plural_key module_data_flow_type = ''data_flows''"
  "snt_name module_test_section_type = ''test_section''" "snt_plural_key module_test_section_type = ''test_sections''"
  "snt_name module_api_type = ''api''" "snt_plural_key module_api_type = ''apis''"
  by code_simp+

lemma project_type_heads:
  "snt_name project_requirement_type = ''requirement''" "snt_plural_key project_requirement_type = ''requirements''"
  "snt_name (unhashed_derivation project_requirement_type) = ''requirement''"
  "snt_plural_key (unhashed_derivation project_requirement_type) = ''requirements''"
  by code_simp+

text \<open>The edges are computed once; the definition of an entry needs only those of its type.\<close>

definition default_edges :: "edge list" where
  "default_edges =
    [\<lparr>edg_kind = ''depends_on'', edg_from = [''requirement''],
         edg_to = [''requirement''],
         edg_cyclic_from = [(''requirement'', False)]\<rparr>,
      \<lparr>edg_kind = ''preq_id'', edg_from = [''requirement''],
         edg_to = [''requirement''],
         edg_cyclic_from = [(''requirement'', False)]\<rparr>,
      \<lparr>edg_kind = ''implements'', edg_from = [''component''],
         edg_to = [''requirement''],
         edg_cyclic_from = [(''component'', False)]\<rparr>,
      \<lparr>edg_kind = ''uses'', edg_from = [''component'', ''data_flow''],
         edg_to = [''component''],
         edg_cyclic_from = [(''component'', False), (''data_flow'', False)]\<rparr>,
      \<lparr>edg_kind = ''describes'', edg_from = [''test_section''],
         edg_to = [''component''],
         edg_cyclic_from = [(''test_section'', False)]\<rparr>,
      \<lparr>edg_kind = ''provided_by'', edg_from = [''api''],
         edg_to = [''component''], edg_cyclic_from = [(''api'', False)]\<rparr>,
      \<lparr>edg_kind = ''requires_module'', edg_from = [''module''],
         edg_to = [''module''], edg_cyclic_from = []\<rparr>]"

lemma default_edges: "prf_edges DefaultProfile = default_edges"
  by code_simp

lemma default_module_defs:
  "genericNodeDef module_requirement_type (edgesSourcedAt default_edges ''requirement'') = go_value module_schema_requirement"
  "genericNodeDef module_component_type (edgesSourcedAt default_edges ''component'') = go_value module_schema_component"
  "genericNodeDef module_data_flow_type (edgesSourcedAt default_edges ''data_flow'') = go_value module_schema_data_flow"
  "genericNodeDef module_test_section_type (edgesSourcedAt default_edges ''test_section'') = go_value module_schema_test_section"
  "genericNodeDef module_api_type (edgesSourcedAt default_edges ''api'') = go_value module_schema_api"
  by code_simp+

lemmas map_eval = map_entries_def gput_def gdel_def less_char_def less_eq_char_def

lemma default_project_def:
  "genericProjectNodeDef (unhashed_derivation project_requirement_type)
     (edgesSourcedAt (projectScopedEdges default_edges) ''requirement'') = go_value project_schema_requirement"
  by code_simp

text \<open>
  C38: under the default profile, composition gives back the two shipped schema documents: what the
  frame drops, the profile supplies again, entry by entry.
\<close>

theorem default_schemas_shipped:
  "ModuleSchema = Inr (go_value module_schema_file) \<and> ProjectSchema = Inr (go_value project_schema_file)"
proof
  show "ModuleSchema = Inr (go_value module_schema_file)"
    by (simp add: ModuleSchema_def ComposeModuleSchema_def compose_types_def moduleSchemaFrame_def schema_frame_def Let_def
        module_schema_file_def map_eval default_module_types default_edges defaultArrayKeyByTypeName_def array_keys_def array_property_def
        moduleProfileArrays_def DefaultModuleNodeTypes_def module_type_heads default_module_defs)
  show "ProjectSchema = Inr (go_value project_schema_file)"
    by (simp add: ProjectSchema_def ComposeProjectSchema_def compose_types_def projectSchemaFrame_def schema_frame_def Let_def
        project_schema_file_def map_eval default_project_types default_edges defaultProjectArrayKeyByTypeName_def array_keys_def array_property_def
        projectProfileArrays_def DefaultProjectNodeTypes_def project_type_heads default_project_def)
qed

subsection \<open>Edges of a resolved profile\<close>

definition kinds_inv :: "(string \<times> edge) list \<Rightarrow> bool" where
  "kinds_inv m \<longleftrightarrow> distinct (map fst m) \<and> (\<forall>k e. map_of m k = Some e \<longrightarrow> edg_kind e = k)"

definition kind_from :: "(string \<times> edge) list \<Rightarrow> string \<Rightarrow> string \<Rightarrow> bool" where
  "kind_from m k n \<longleftrightarrow> (\<exists>e. map_of m k = Some e \<and> n \<in> set (edg_from e))"

lemma set_append_new: "set (append_new x xs) = insert x (set xs)"
  by (auto simp: append_new_def)

lemma add_edge_field_step:
  assumes "kinds_inv m"
  shows "kinds_inv (add_edge_field t f m)"
    and "kind_from (add_edge_field t f m) k n \<longleftrightarrow>
      kind_from m k n \<or> fld_kind f = FieldKindReference \<and> fld_name f = k \<and> n = t"
proof -
  show "kinds_inv (add_edge_field t f m)"
    using assms unfolding add_edge_field_def kinds_inv_def
    by (auto simp: Let_def distinct_update map_of_update simp del: map_of_eq_Some_iff split: option.splits if_splits)
  show "kind_from (add_edge_field t f m) k n \<longleftrightarrow>
      kind_from m k n \<or> fld_kind f = FieldKindReference \<and> fld_name f = k \<and> n = t"
    unfolding add_edge_field_def kind_from_def
    by (auto simp: Let_def map_of_update set_append_new split: option.splits)
qed

lemma add_fields_step:
  assumes "kinds_inv m"
  shows "kinds_inv (fold (add_edge_field t) fs m) \<and>
    (kind_from (fold (add_edge_field t) fs m) k n \<longleftrightarrow>
      kind_from m k n \<or> n = t \<and> (\<exists>f \<in> set fs. fld_kind f = FieldKindReference \<and> fld_name f = k))"
  using assms by (induction fs arbitrary: m) (auto simp: add_edge_field_step)

lemma add_types_step:
  assumes "kinds_inv m"
  shows "kinds_inv (fold add_type_edges ts m) \<and>
    (kind_from (fold add_type_edges ts m) k n \<longleftrightarrow>
      kind_from m k n \<or> (\<exists>t \<in> set ts. nt_name t = n \<and> (\<exists>f \<in> set (nt_fields t). fld_kind f = FieldKindReference \<and> fld_name f = k)))"
  using assms
proof (induction ts arbitrary: m)
  case (Cons t ts)
  show ?case
    using Cons.IH[of "add_type_edges t m"] add_fields_step[OF Cons.prems, of "nt_name t" "nt_fields t"]
    by (auto simp: add_type_edges_def)
qed simp

definition reference_names :: "node_type list \<Rightarrow> string \<Rightarrow> string set" where
  "reference_names ts n =
     {fld_name f |f t. t \<in> set ts \<and> nt_name t = n \<and> f \<in> set (nt_fields t) \<and> fld_kind f = FieldKindReference}"

lemma sourced_kinds:
  assumes "n \<noteq> ''module''"
  shows "edg_kind ` set (edgesSourcedAt (deriveEdges ts) n) = reference_names ts n"
proof -
  let ?m = "fold add_type_edges ts []"
  have start: "kinds_inv []" "\<not> kind_from [] k n" for k by (simp_all add: kinds_inv_def kind_from_def)
  have inv: "kinds_inv ?m" using add_types_step[OF start(1)] by blast
  have from_iff: "kind_from ?m k n \<longleftrightarrow> k \<in> reference_names ts n" for k
    using add_types_step[OF start(1), of ts k n] start(2)[of k] unfolding reference_names_def by blast
  have mem: "(k, e) \<in> set ?m \<longleftrightarrow> map_of ?m k = Some e" for k e
    using inv by (simp add: kinds_inv_def)
  have "k \<in> edg_kind ` set (edgesSourcedAt (deriveEdges ts) n) \<longleftrightarrow> kind_from ?m k n" for k
  proof
    assume "k \<in> edg_kind ` set (edgesSourcedAt (deriveEdges ts) n)"
    then obtain k' e where "(k', e) \<in> set ?m" "edg_kind e = k" "n \<in> set (edg_from e)"
      using assms by (auto simp: edgesSourcedAt_def deriveEdges_def requires_module_edge_def)
    then show "kind_from ?m k n" using inv mem by (auto simp: kinds_inv_def kind_from_def)
  next
    assume "kind_from ?m k n"
    then obtain e where e: "map_of ?m k = Some e" "n \<in> set (edg_from e)" by (auto simp: kind_from_def)
    then have "edg_kind e = k" using inv by (simp add: kinds_inv_def)
    moreover have "e \<in> set (edgesSourcedAt (deriveEdges ts) n)"
      using e mem[of k e] by (force simp: edgesSourcedAt_def deriveEdges_def)
    ultimately show "k \<in> edg_kind ` set (edgesSourcedAt (deriveEdges ts) n)" by blast
  qed
  then show ?thesis using from_iff by blast
qed

subsection \<open>Entries of a composed schema\<close>

lemma fold_gput:
  assumes "go_map m"
  shows "go_map (fold (\<lambda>x. gput (k x) (v x)) xs m) \<and>
    map_of (fold (\<lambda>x. gput (k x) (v x)) xs m) = fold (\<lambda>x m. m(k x \<mapsto> v x)) xs (map_of m)"
  using assms by (induction xs arbitrary: m) auto

lemma fold_upd_dom: "dom (fold (\<lambda>x m. m(k x \<mapsto> v x)) xs m) = dom m \<union> k ` set xs"
  by (simp add: fold_map_upd dom_map_of_conv_image_fst image_image Un_commute)

lemma entry_properties_dom:
  "dom (map_of (entry_properties leafNote t es)) =
     {''id'', ''name'', ''description''} \<union> (if snt_requires_content t then {''content''} else {}) \<union>
     fld_name ` set (snt_fields t) \<union> edg_kind ` set es"
proof -
  have "dom (map_of (envelope_properties leafNote t)) =
      {''id'', ''name'', ''description''} \<union> (if snt_requires_content t then {''content''} else {})"
    by (auto simp: envelope_properties_def map_of_entries split: if_splits)
  moreover have "go_map (envelope_properties leafNote t)" by (simp add: envelope_properties_def)
  ultimately show ?thesis by (auto simp: entry_properties_def fold_gput fold_upd_dom)
qed

lemma entry_properties_field:
  assumes "distinct (map fld_name (snt_fields t))" and "f \<in> set (snt_fields t)"
  shows "map_of (entry_properties leafNote t es) (fld_name f) = Some (composeFieldSchema f)"
proof -
  have "go_map (envelope_properties leafNote t)" by (simp add: envelope_properties_def)
  then show ?thesis using fold_map_upd_distinct[OF assms, of composeFieldSchema] by (simp add: entry_properties_def fold_gput)
qed

definition schema_part :: "string \<Rightarrow> json \<Rightarrow> string \<Rightarrow> raw_entry option" where
  "schema_part part doc n =
     (case doc of
        JObject m \<Rightarrow>
          (case map_of m part of
             Some (JObject ps) \<Rightarrow> (case map_of ps n of Some (JObject e) \<Rightarrow> Some e | _ \<Rightarrow> None)
           | _ \<Rightarrow> None)
      | _ \<Rightarrow> None)"

definition array_of :: "string \<Rightarrow> json \<Rightarrow> bool" where
  "array_of n arr \<longleftrightarrow> (case arr of JObject m \<Rightarrow> map_of m ''items'' = Some (JObject [(''$ref'', JString (''#/$defs/'' @ n))]) | _ \<Rightarrow> False)"

text \<open>A frame is two maps to fill, and its arrays are those of the built-in types.\<close>

definition frame_ok :: "(string, raw_entry \<times> raw_entry) result \<Rightarrow> (string \<times> string) list \<Rightarrow> bool" where
  "frame_ok fr keys \<longleftrightarrow>
     (case fr of
        Inl e \<Rightarrow> False
      | Inr (frame, original) \<Rightarrow>
          go_map frame \<and>
          (case map_of frame ''properties'' of Some (JObject ps) \<Rightarrow> go_map ps | _ \<Rightarrow> False) \<and>
          (case map_of frame ''$defs'' of Some (JObject ds) \<Rightarrow> go_map ds | _ \<Rightarrow> False) \<and>
          (\<forall>(n, k) \<in> set keys. case map_of original k of None \<Rightarrow> True | Some a \<Rightarrow> array_of n a))"

lemma frames_ok:
  "frame_ok moduleSchemaFrame defaultArrayKeyByTypeName"
  "frame_ok projectSchemaFrame defaultProjectArrayKeyByTypeName"
  by (simp_all add: frame_ok_def array_of_def moduleSchemaFrame_def projectSchemaFrame_def schema_frame_def Let_def
      module_schema_file_def project_schema_file_def map_eval go_map_def defaultArrayKeyByTypeName_def
      defaultProjectArrayKeyByTypeName_def array_keys_def moduleProfileArrays_def projectProfileArrays_def
      DefaultModuleNodeTypes_def DefaultProjectNodeTypes_def module_type_heads project_type_heads)

lemma fold_pair: "fold (\<lambda>x (a, b). (f x a, g x b)) xs (a, b) = (fold f xs a, fold g xs b)"
  by (induction xs arbitrary: a b) simp_all

lemma compose_types_succeeds: "frame_ok fr keys \<Longrightarrow> \<exists>doc. compose_types fr keys def_of ts = Inr doc"
  by (auto simp: frame_ok_def compose_types_def split: sum.splits prod.splits option.splits json.splits)

lemma array_property_of:
  assumes "\<forall>(n, k) \<in> set keys. case map_of original k of None \<Rightarrow> True | Some a \<Rightarrow> array_of n a"
  shows "array_of (snt_name t) (array_property keys original t)"
proof -
  have "array_of (snt_name t) (go_object [(''type'', JString ''array''),
      (''description'', JString (snt_name t @ '' entries declared by the resolved profile.'')),
      (''items'', go_object [(''$ref'', JString (''#/$defs/'' @ snt_name t))])])"
    by (simp add: array_of_def go_object_def map_of_entries) (simp add: map_entries_def)
  then show ?thesis
    using assms by (fastforce simp: array_property_def dest: map_of_SomeD split: option.splits)
qed

lemma compose_types_entry:
  assumes "frame_ok fr keys" and "t \<in> set ts" and "distinct (map snt_name ts)"
    and "\<And>t. t \<in> set ts \<Longrightarrow> \<exists>e. def_of t = JObject e"
  shows "\<exists>doc e. compose_types fr keys def_of ts = Inr doc \<and> def_of t = JObject e \<and>
    schema_part ''$defs'' doc (snt_name t) = Some e \<and>
    ((\<forall>t' \<in> set ts. snt_plural_key t' = snt_plural_key t \<longrightarrow> t' = t) \<longrightarrow>
       (\<exists>arr. schema_part ''properties'' doc (snt_plural_key t) = Some arr \<and> array_of (snt_name t) (JObject arr)))"
proof -
  obtain frame original props defs where fr: "fr = Inr (frame, original)" "go_map frame"
      "map_of frame ''properties'' = Some (JObject props)" "go_map props"
      "map_of frame ''$defs'' = Some (JObject defs)" "go_map defs"
      and arrays: "\<forall>(n, k) \<in> set keys. case map_of original k of None \<Rightarrow> True | Some a \<Rightarrow> array_of n a"
    using assms(1) by (auto simp: frame_ok_def split: sum.splits prod.splits option.splits json.splits)
  let ?props = "fold (\<lambda>t. gput (snt_plural_key t) (array_property keys original t)) ts props"
  let ?defs = "fold (\<lambda>t. gput (snt_name t) (def_of t)) ts defs"
  obtain e where e: "def_of t = JObject e" using assms(4)[OF assms(2)] by blast
  have doc: "compose_types fr keys def_of ts =
      Inr (JObject (gput ''properties'' (JObject ?props) (gput ''$defs'' (JObject ?defs) frame)))"
    using fr by (simp add: compose_types_def fold_pair)
  have "map_of ?defs (snt_name t) = Some (def_of t)"
    using fold_gput[OF fr(6), of snt_name def_of ts] fold_map_upd_distinct[OF assms(3,2), of def_of] by simp
  then have entry: "schema_part ''$defs'' (JObject (gput ''properties'' (JObject ?props) (gput ''$defs'' (JObject ?defs) frame)))
      (snt_name t) = Some e"
    using fr(2) e by (simp add: schema_part_def)
  have "\<exists>arr. map_of ?props (snt_plural_key t) = Some (JObject arr) \<and> array_of (snt_name t) (JObject arr)"
    if only: "\<forall>t' \<in> set ts. snt_plural_key t' = snt_plural_key t \<longrightarrow> t' = t"
  proof -
    have "map_of (rev (map (\<lambda>t. (snt_plural_key t, array_property keys original t)) ts)) (snt_plural_key t) =
        Some (array_property keys original t)"
    proof -
      have "snt_plural_key t \<in> fst ` set (rev (map (\<lambda>t. (snt_plural_key t, array_property keys original t)) ts))"
        using assms(2) by (force simp: image_iff)
      then obtain v where v: "map_of (rev (map (\<lambda>t. (snt_plural_key t, array_property keys original t)) ts)) (snt_plural_key t) = Some v"
        by (metis domD dom_map_of_conv_image_fst)
      then show ?thesis using only by (auto dest!: map_of_SomeD)
    qed
    then have "map_of ?props (snt_plural_key t) = Some (array_property keys original t)"
      using fold_gput[OF fr(4), of snt_plural_key "array_property keys original" ts]
      by (simp add: fold_map_upd map_add_def)
    moreover have "array_of (snt_name t) (array_property keys original t)" by (rule array_property_of[OF arrays])
    ultimately show ?thesis by (cases "array_property keys original t") (auto simp: array_of_def)
  qed
  then have "(\<forall>t' \<in> set ts. snt_plural_key t' = snt_plural_key t \<longrightarrow> t' = t) \<longrightarrow>
      (\<exists>arr. schema_part ''properties'' (JObject (gput ''properties'' (JObject ?props) (gput ''$defs'' (JObject ?defs) frame)))
         (snt_plural_key t) = Some arr \<and> array_of (snt_name t) (JObject arr))"
    using fr(2) by (auto simp: schema_part_def)
  then show ?thesis using doc entry e by blast
qed

subsection \<open>Resolved profiles\<close>

definition composed_schema :: "profile \<Rightarrow> string \<Rightarrow> (string, json) result" where
  "composed_schema p scope =
     (if scope = ''project'' then ComposeProjectSchema (ProjectNodeTypes p) (prf_edges p)
      else ComposeModuleSchema (ModuleNodeTypes p) (prf_edges p))"

text \<open>The envelope and the declared fields of a type, and the properties its entries must have.\<close>

definition declared_properties :: "node_type \<Rightarrow> string set" where
  "declared_properties t =
     {''id'', ''name'', ''description''} \<union> (if nt_requires_content t then {''content''} else {}) \<union> fld_name ` set (nt_fields t)"

definition required_properties :: "node_type \<Rightarrow> string list" where
  "required_properties t =
     ''id'' # map fld_name (filter fld_required (nt_fields t)) @ [''name''] @ (if nt_requires_content t then [''content''] else [])"

definition leaked_properties :: "profile \<Rightarrow> node_type \<Rightarrow> string set" where
  "leaked_properties p t =
     reference_names (prf_node_types p) (nt_name t) - (if nt_scope t = ''project'' then {''preq_id''} else {})"

definition to_scoped :: "node_type \<Rightarrow> scoped_node_type" where
  "to_scoped t = \<lparr>snt_name = nt_name t, snt_plural_key = nt_plural_key t, snt_requires_content = nt_requires_content t,
     snt_fields = nt_fields t, snt_comment = nt_comment t\<rparr>"

lemma to_scoped_simps [simp]:
  "snt_name (to_scoped t) = nt_name t" "snt_plural_key (to_scoped t) = nt_plural_key t"
  "snt_requires_content (to_scoped t) = nt_requires_content t" "snt_fields (to_scoped t) = nt_fields t"
  by (simp_all add: to_scoped_def)

lemma scoped_types_eq: "scoped_types scope p = map to_scoped (filter (\<lambda>t. nt_scope t = scope) (prf_node_types p))"
  by (simp add: scoped_types_def to_scoped_def)

lemma node_def_entry:
  assumes "node_def leafNote t es = JObject e"
  shows "map_of e ''additionalProperties'' = Some (JBool False)"
    and "map_of e ''required'' = Some (JArray (map JString (required_names t)))"
    and "map_of e ''properties'' = Some (JObject (entry_properties leafNote t es))"
  using assms by (auto simp: node_def_def go_object_def map_of_entries)

lemma composed_by_node_def:
  assumes "legal_scope scope"
  obtains fr keys leafNote es where "frame_ok fr keys"
    and "composed_schema p scope = compose_types fr keys (\<lambda>t. node_def leafNote t (es (snt_name t))) (scoped_types scope p)"
    and "\<And>n. edg_kind ` set (es n) = edg_kind ` set (edgesSourcedAt (prf_edges p) n) - (if scope = ''project'' then {''preq_id''} else {})"
proof (cases "scope = ''project''")
  case True
  show ?thesis
    by (rule that[OF frames_ok(2), of "''Relative path to the markdown content leaf.''" "edgesSourcedAt (projectScopedEdges (prf_edges p))"])
       (auto simp: True composed_schema_def ComposeProjectSchema_def genericProjectNodeDef_def ProjectNodeTypes_def
         edgesSourcedAt_def projectScopedEdges_def)
next
  case False
  then have "scope = ''module''" using assms by (simp add: legal_scope_def)
  then show ?thesis
    by (intro that[OF frames_ok(1), of "''Relative path to the markdown content leaf (described_in edge to content leaf).''"
          "edgesSourcedAt (prf_edges p)"])
       (auto simp: composed_schema_def ComposeModuleSchema_def genericNodeDef_def ModuleNodeTypes_def)
qed

text \<open>
  C39: for every valid profile the schema of a scope can be composed, and the definition it gives a node
  type is closed: an entry may have the envelope, the fields the type declares and the reference fields
  declared for a type of the same name in either scope, and nothing else; it must have its id, its required
  fields, its name and, for a type with a leaf, its content. Each declared field has the shape of its kind,
  and the array of the type holds entries of that definition when no other type takes its key.
\<close>

theorem composed_entry_exact:
  assumes "Validate p = None" and "prf_edges p = deriveEdges (prf_node_types p)" and "t \<in> set (prf_node_types p)"
  shows "\<exists>doc e props. composed_schema p (nt_scope t) = Inr doc \<and> schema_part ''$defs'' doc (nt_name t) = Some e \<and>
    map_of e ''additionalProperties'' = Some (JBool False) \<and> map_of e ''properties'' = Some (JObject props) \<and>
    dom (map_of props) = declared_properties t \<union> leaked_properties p t \<and>
    map_of e ''required'' = Some (JArray (map JString (required_properties t))) \<and>
    set (required_properties t) \<subseteq> dom (map_of props) \<and>
    (\<forall>f \<in> set (nt_fields t). map_of props (fld_name f) = Some (composeFieldSchema f)) \<and>
    ((\<forall>t' \<in> set (prf_node_types p). nt_scope t' = nt_scope t \<and> nt_plural_key t' = nt_plural_key t \<longrightarrow> t' = t) \<longrightarrow>
       (\<exists>arr. schema_part ''properties'' doc (nt_plural_key t) = Some arr \<and> array_of (nt_name t) (JObject arr)))"
proof -
  have ok: "profile_ok p" using assms(1) by (simp add: Validate_ok)
  have t: "type_ok t" "distinct (map fld_name (nt_fields t))" using ok assms(3) by (auto simp: profile_ok_def)
  have legal: "legal_scope (nt_scope t)" using t(1) by (simp add: type_ok_def)
  let ?ts = "scoped_types (nt_scope t) p"
  obtain fr keys leafNote es where fr: "frame_ok fr keys"
      and doc: "composed_schema p (nt_scope t) = compose_types fr keys (\<lambda>t. node_def leafNote t (es (snt_name t))) ?ts"
      and kinds: "\<And>n. edg_kind ` set (es n) =
        edg_kind ` set (edgesSourcedAt (prf_edges p) n) - (if nt_scope t = ''project'' then {''preq_id''} else {})"
    by (rule composed_by_node_def[OF legal, of p]) (rule that)
  have mem: "to_scoped t \<in> set ?ts" using assms(3) by (simp add: scoped_types_eq)
  have "distinct (map (\<lambda>t. (nt_scope t, nt_name t)) (filter (\<lambda>t'. nt_scope t' = nt_scope t) (prf_node_types p)))"
    using ok by (simp add: profile_ok_def distinct_map_filter)
  then have names: "distinct (map snt_name ?ts)"
    by (auto simp: scoped_types_eq distinct_map inj_on_def)
  have nd: "\<exists>e. node_def leafNote t' (es (snt_name t')) = JObject e" for t' by (simp add: node_def_def go_object_def)
  obtain d e where
      d: "composed_schema p (nt_scope t) = Inr d" and e: "node_def leafNote (to_scoped t) (es (nt_name t)) = JObject e"
      and entry: "schema_part ''$defs'' d (nt_name t) = Some e"
      and arr: "(\<forall>t' \<in> set ?ts. snt_plural_key t' = nt_plural_key t \<longrightarrow> t' = to_scoped t) \<longrightarrow>
        (\<exists>arr. schema_part ''properties'' d (nt_plural_key t) = Some arr \<and> array_of (nt_name t) (JObject arr))"
    using compose_types_entry[of fr keys "to_scoped t" ?ts "\<lambda>t. node_def leafNote t (es (snt_name t))", OF fr mem names nd]
    unfolding doc to_scoped_simps by blast
  let ?props = "entry_properties leafNote (to_scoped t) (es (nt_name t))"
  have dom: "dom (map_of ?props) = declared_properties t \<union> leaked_properties p t"
    using t(1) kinds[of "nt_name t"] sourced_kinds[of "nt_name t" "prf_node_types p"] assms(2)
    by (simp add: entry_properties_dom declared_properties_def leaked_properties_def type_ok_def)
  have req: "required_names (to_scoped t) = required_properties t"
    by (simp add: required_names_def required_properties_def)
  have fields: "\<forall>f \<in> set (nt_fields t). map_of ?props (fld_name f) = Some (composeFieldSchema f)"
    using entry_properties_field[of "to_scoped t"] t(2) by simp
  have sub: "set (required_properties t) \<subseteq> dom (map_of ?props)"
    unfolding dom by (auto simp: required_properties_def declared_properties_def)
  have keys: "\<forall>t' \<in> set ?ts. snt_plural_key t' = nt_plural_key t \<longrightarrow> t' = to_scoped t"
    if "\<forall>t' \<in> set (prf_node_types p). nt_scope t' = nt_scope t \<and> nt_plural_key t' = nt_plural_key t \<longrightarrow> t' = t"
    using that by (auto simp: scoped_types_eq)
  show ?thesis
    using d entry node_def_entry[OF e] dom sub fields arr keys unfolding req by blast
qed

theorem composed_entry_exact_witness:
  "\<exists>doc e props. composed_schema DefaultProfile ''module'' = Inr doc \<and> schema_part ''$defs'' doc ''component'' = Some e \<and>
     map_of e ''properties'' = Some (JObject props) \<and>
     dom (map_of props) = {''id'', ''name'', ''description'', ''content'', ''implements'', ''uses''}"
proof -
  have v: "Validate DefaultProfile = None" by code_simp
  have es: "prf_edges DefaultProfile = deriveEdges (prf_node_types DefaultProfile)" by (simp add: DefaultProfile_def finalize_fields)
  let ?t = "prf_node_types DefaultProfile ! 2"
  have t: "?t \<in> set (prf_node_types DefaultProfile)" by code_simp
  have head: "nt_scope ?t = ''module''" "nt_name ?t = ''component''" "nt_requires_content ?t"
      "map fld_name (nt_fields ?t) = [''implements'', ''uses'']"
    by code_simp+
  have "list_all (\<lambda>t. nt_name t = ''component'' \<longrightarrow> t = ?t) (prf_node_types DefaultProfile)" by code_simp
  then have leak: "leaked_properties DefaultProfile ?t \<subseteq> fld_name ` set (nt_fields ?t)"
    by (auto simp: leaked_properties_def reference_names_def head list_all_iff)
  have img: "fld_name ` set (nt_fields ?t) = {''implements'', ''uses''}"
    using arg_cong[OF head(4), of set] by simp
  have decl: "declared_properties ?t = insert ''id'' (insert ''name'' (insert ''description'' (insert ''content'' (fld_name ` set (nt_fields ?t)))))"
    by (auto simp: declared_properties_def head(3))
  have "leaked_properties DefaultProfile ?t \<subseteq> declared_properties ?t" using leak by (auto simp: declared_properties_def)
  then have dom: "declared_properties ?t \<union> leaked_properties DefaultProfile ?t = declared_properties ?t"
    by (rule Un_absorb2)
  obtain doc e props where c: "composed_schema DefaultProfile (nt_scope ?t) = Inr doc"
      "schema_part ''$defs'' doc (nt_name ?t) = Some e" "map_of e ''properties'' = Some (JObject props)"
      "dom (map_of props) = declared_properties ?t \<union> leaked_properties DefaultProfile ?t"
    using composed_entry_exact[OF v es t] by (elim exE conjE) (rule that)
  show ?thesis using c unfolding dom unfolding head(1,2) decl img by (intro exI conjI)
qed

text \<open>
  The leak is real: a reference field that only the module type of a name declares opens a property on
  the project type of that name.
\<close>

definition two_scope_profile :: profile where
  "two_scope_profile =
     finalize (embedded_profile\<lparr>prf_node_types :=
       map (\<lambda>t. if nt_scope t = ''module'' \<and> nt_name t = ''requirement''
                then t\<lparr>nt_fields := map (\<lambda>f. if fld_name f = ''preq_id'' then f\<lparr>fld_name := ''derives_from''\<rparr> else f) (nt_fields t)\<rparr>
                else t) (prf_node_types embedded_profile),
       prf_coverage_chains := []\<rparr>)"

theorem other_scope_field_leaks:
  "Validate two_scope_profile = None \<and>
   ''derives_from'' \<in> leaked_properties two_scope_profile (hd (prf_node_types two_scope_profile)) \<and>
   ''derives_from'' \<notin> declared_properties (hd (prf_node_types two_scope_profile)) \<and>
   nt_scope (hd (prf_node_types two_scope_profile)) = ''project''"
proof (intro conjI)
  show "Validate two_scope_profile = None" by code_simp
  show "nt_scope (hd (prf_node_types two_scope_profile)) = ''project''" by code_simp
  have "list_all (\<lambda>f. fld_name f \<noteq> ''derives_from'') (nt_fields (hd (prf_node_types two_scope_profile)))" by code_simp
  then show "''derives_from'' \<notin> declared_properties (hd (prf_node_types two_scope_profile))"
    by (auto simp: declared_properties_def list_all_iff)
  have "list_ex (\<lambda>t. nt_name t = nt_name (hd (prf_node_types two_scope_profile)) \<and>
      list_ex (\<lambda>f. fld_name f = ''derives_from'' \<and> fld_kind f = FieldKindReference) (nt_fields t)) (prf_node_types two_scope_profile)"
    by code_simp
  then show "''derives_from'' \<in> leaked_properties two_scope_profile (hd (prf_node_types two_scope_profile))"
    by (auto simp: leaked_properties_def reference_names_def list_ex_iff) metis
qed

end
