(* ===== verification/Author_Sample.thy ===== *)
theory Author_Sample
  imports Author_Gate Schema_Shipped
begin

text \<open>
  A small directory on which the authoring commands run: a project with two requirements that have content
  leaves, one of which may depend on the other. The checkers are evaluated on it; only the hashes stay symbolic.
\<close>

definition sample_requirement_type :: node_type where
  "sample_requirement_type =
     \<lparr>nt_name = ''requirement'', nt_plural_key = ''requirements'', nt_scope = ''project'', nt_requires_content = True,
      nt_completeness_trigger = False, nt_name_declarable = True,
      nt_fields = [\<lparr>fld_name = ''depends_on'', fld_kind = FieldKindReference, fld_required = False, fld_hashed = None,
        fld_enum = [], fld_minimum = None, fld_maximum = None, fld_targets = [''requirement''],
        fld_cardinality = ''many'', fld_cyclic = False, fld_description = []\<rparr>],
      nt_comment = [], nt_content_prefix = None, nt_leaf_sections = None\<rparr>"

definition sample_req_profile :: profile where
  "sample_req_profile =
     \<lparr>prf_version = None, prf_node_types = [sample_requirement_type], prf_coverage_chains = [], prf_plan_relevant = [],
      prf_impact_levels = [], prf_absorbable = [], prf_edges = deriveEdges [sample_requirement_type],
      prf_hashed_fields = []\<rparr>"

definition sample_author :: author_env where
  "sample_author =
     \<lparr>ae_resolve = (\<lambda>_. Inr sample_req_profile), ae_layout = json_marshal,
      ae_library = \<lparr>lib_add = (\<lambda>_ _. None), lib_compile = (\<lambda>_ _. Inr (\<lambda>_. Valid)), lib_basic = (\<lambda>_. [])\<rparr>,
      ae_lower = (\<lambda>s. s), ae_equal_fold = (=), ae_letter_digit = (\<lambda>_. True), ae_cannot_write = (\<lambda>_. False),
      ae_cannot_remove = (\<lambda>_. False)\<rparr>"

definition sample_req :: "string \<Rightarrow> string \<Rightarrow> (string \<times> json) list \<Rightarrow> json" where
  "sample_req i n deps =
     JObject ([(''id'', JString i), (''name'', JString n), (''content'', JString (n @ ''.md''))] @ deps @ [(''priority'', JNumber ''1'')])"

definition sample_doc :: "bool \<Rightarrow> json" where
  "sample_doc linked =
     JObject [(''name'', JString ''demo''),
       (''requirements'', JArray
          [sample_req ''aaaaaaaaaaaa'' ''load'' (if linked then [(''depends_on'', JArray [JString ''bbbbbbbbbbbb''])] else []),
           sample_req ''bbbbbbbbbbbb'' ''parse'' []]),
       (''modules'', JArray [])]"

definition sample_spec_dir :: "bool \<Rightarrow> mem_fs" where
  "sample_spec_dir linked =
     [(''load.md'', Text ''# load''), (''parse.md'', Text ''# parse''), (''project.json'', Doc (sample_doc linked))]"

definition sample_edge :: edge_input where
  "sample_edge = \<lparr>ei_source = ''aaaaaaaaaaaa'', ei_field = ''depends_on'', ei_target = ''bbbbbbbbbbbb''\<rparr>"

lemma sample_dirs_differ: "sample_spec_dir True \<noteq> sample_spec_dir False"
  by (simp add: sample_spec_dir_def sample_doc_def sample_req_def)

lemma sample_disk_ok: "disk_ok (sample_spec_dir linked)"
  by (auto simp: disk_ok_def sample_spec_dir_def go_map_def inside_def ValidPath_def split: if_splits)

lemma sample_schema: "CheckSchemaFS (ae_resolve sample_author) (ae_library sample_author) (sample_spec_dir linked) = []"
proof -
  let ?all = "\<lparr>cs_project = \<lambda>_. Valid, cs_module = \<lambda>_. Valid\<rparr>"
  have "compileSchemas (ae_library sample_author) p = Inr ?all" for p
  proof -
    obtain pd where pd: "ComposeProjectSchema (ProjectNodeTypes p) (prf_edges p) = Inr pd"
      using compose_types_succeeds[OF frames_ok(2)] unfolding ComposeProjectSchema_def by blast
    obtain md where md: "ComposeModuleSchema (ModuleNodeTypes p) (prf_edges p) = Inr md"
      using compose_types_succeeds[OF frames_ok(1)] unfolding ComposeModuleSchema_def by blast
    show ?thesis by (simp add: compileSchemas_def labelled_def added_def sample_author_def pd md)
  qed
  moreover have "check_spec_files ?all (sample_spec_dir linked) = []"
    by (cases linked; simp only:; code_simp)
  ultimately show ?thesis by (simp add: CheckSchemaFS_def split: sum.split) (simp add: sample_author_def)
qed

lemma sample_checks:
  "CheckIDsFS (spec_view (ae_resolve sample_author) (sample_spec_dir True)) = []"
  "CheckIDsFS (spec_view (ae_resolve sample_author) (sample_spec_dir False)) = []"
  "CheckIDDerivationFS (spec_view (ae_resolve sample_author) (sample_spec_dir True)) = []"
  "CheckIDDerivationFS (spec_view (ae_resolve sample_author) (sample_spec_dir False)) = []"
  by code_simp+

lemma sample_acyclic:
  "dag_findings (spec_view (ae_resolve sample_author) (sample_spec_dir True)) = []"
  "dag_findings (spec_view (ae_resolve sample_author) (sample_spec_dir False)) = []"
  by code_simp+

text \<open>A directory of one project file, with no module and every leaf of its requirements, has a tree.\<close>

definition leaf_there :: "mem_fs \<Rightarrow> raw_entry \<Rightarrow> bool" where
  "leaf_there m e \<longleftrightarrow> (let f = filepath_Join [[], str_field e ''content''] in ValidPath f \<and> map_of m f \<noteq> None)"

definition project_only :: "mem_fs \<Rightarrow> bool" where
  "project_only m \<longleftrightarrow> map_of m ''project.json'' \<noteq> None \<and>
     (case readRawFields m ''project.json'' of
        Inl e \<Rightarrow> False
      | Inr raw \<Rightarrow>
          (case extractModules raw of Inl e \<Rightarrow> False | Inr ms \<Rightarrow> ms = []) \<and>
          (case raw_field raw ''requirements'' of
             None \<Rightarrow> True
           | Some data \<Rightarrow> (case decode_entries data of Inl e \<Rightarrow> False | Inr es \<Rightarrow> list_all (leaf_there m) es)))"

lemma leaf_hashed: "ValidPath f \<Longrightarrow> map_of m f \<noteq> None \<Longrightarrow> \<exists>n. hashLeaf layout m f k nt mh = Inr n"
  by (auto simp: hashLeaf_def HashFileFS_def ReadFile_def)

lemma project_only_tree:
  assumes "project_only m"
  shows "\<exists>t. BuildTreeFS (ae_layout sample_author) (ae_resolve sample_author) m = Inr t"
proof -
  let ?l = "ae_layout sample_author"
  obtain raw where raw: "readRawFields m ''project.json'' = Inr raw" "extractModules raw = Inr []"
      and reqs: "case raw_field raw ''requirements'' of None \<Rightarrow> True
        | Some data \<Rightarrow> (case decode_entries data of Inl e \<Rightarrow> False | Inr es \<Rightarrow> list_all (leaf_there m) es)"
    using assms by (auto simp: project_only_def split: sum.splits)
  obtain n where n: "hashLeaf ?l m ''project.json'' ''meta/project'' ''meta'' [] = Inr n"
    using leaf_hashed[of "''project.json''" m] assms by (force simp: project_only_def ValidPath_def)
  have entry: "\<exists>r. entry_node ?l m sample_requirement_type [] [] p e = Inr r" if e: "leaf_there m e" for p e
  proof -
    obtain n where "hashLeaf ?l m (filepath_Join [[], str_field e ''content'']) (str_field e ''id'') (nt_name sample_requirement_type) [] = Inr n"
      using leaf_hashed e unfolding leaf_there_def Let_def by blast
    then show ?thesis by (simp add: entry_node_def Let_def)
  qed
  have nodes: "\<exists>rs. collect (entry_node ?l m sample_requirement_type [] [] p) es = Inr rs" if "list_all (leaf_there m) es" for p es
    using that
  proof (induction es)
    case (Cons e es)
    then obtain r where "entry_node ?l m sample_requirement_type [] [] p e = Inr r" using entry[of e p] by auto
    then show ?case using Cons by auto
  qed simp
  have ty: "nt_scope sample_requirement_type = ''project''" "nt_plural_key sample_requirement_type = ''requirements''"
    by (simp_all add: sample_requirement_type_def)
  have "\<exists>ns. buildTypeNodes ?l m raw sample_requirement_type [] [] sample_req_profile = Inr ns"
  proof (cases "raw_field raw ''requirements''")
    case (Some data)
    then obtain es where es: "decode_entries data = Inr es" "list_all (leaf_there m) es"
      using reqs by (auto split: sum.splits)
    obtain rs where "collect (entry_node ?l m sample_requirement_type [] [] sample_req_profile) es = Inr rs"
      using nodes[OF es(2)] by blast
    then show ?thesis using Some es(1) by (simp add: buildTypeNodes_def ty)
  qed (simp add: buildTypeNodes_def ty)
  then have "\<exists>ns. type_nodes ?l m raw ''project'' [] [] sample_req_profile = Inr ns"
    by (auto simp: type_nodes_def sample_req_profile_def[THEN arg_cong[of _ _ prf_node_types], simplified] ty)
  then show ?thesis using n raw by (auto simp: BuildTreeFS_def sample_author_def Let_def)
qed

lemma author_dir_tree: "\<exists>t. BuildTreeFS (ae_layout sample_author) (ae_resolve sample_author) (sample_spec_dir linked) = Inr t"
  by (rule project_only_tree) (cases linked; simp only:; code_simp)

lemma author_dir_loads:
  "\<exists>prj. loadSpec (spec_view (ae_resolve sample_author) (sample_spec_dir linked)) ''link'' = Inr (prj, []) \<and> prj_modules prj = []"
proof -
  have "case loadSpec (spec_view (ae_resolve sample_author) (sample_spec_dir linked)) ''link'' of
      Inr (prj, ms) \<Rightarrow> ms = [] \<and> prj_modules prj = [] | Inl _ \<Rightarrow> False"
    by (cases linked; simp only:; code_simp)
  then show ?thesis by (auto split: sum.splits prod.splits)
qed

lemma sample_clean: "clean sample_author (sample_spec_dir linked)"
proof -
  obtain t where t: "BuildTreeFS (ae_layout sample_author) (ae_resolve sample_author) (sample_spec_dir linked) = Inr t"
    using author_dir_tree by blast
  obtain prj where "loadSpec (spec_view (ae_resolve sample_author) (sample_spec_dir linked)) ''link'' = Inr (prj, [])"
      "prj_modules prj = []" using author_dir_loads by blast
  then have "CheckLinksFS (ae_layout sample_author) (ae_resolve sample_author) (sample_spec_dir linked) = []"
    by (simp add: CheckLinksFS_def t split: prod.split)
  then show ?thesis by (cases linked) (simp_all add: clean_def refusalCheckers_def Let_def sample_schema sample_checks sample_acyclic)
qed

lemma Report_accepts:
  assumes "no_new env before after"
    and "BuildTreeFS (ae_layout env) (ae_resolve env) before = Inr t"
    and "BuildTreeFS (ae_layout env) (ae_resolve env) after = Inr t'"
  shows "\<exists>obl. Report env before after p = Inr ([], obl)"
proof -
  have "introducedFindings env before after = []" using assms(1) introduced_none no_new_def by metis
  then show ?thesis using assms(2,3) by (simp add: Report_def completenessObligations_def)
qed

lemma sample_report:
  "\<exists>obl. Report sample_author (sample_spec_dir a) (sample_spec_dir b) p = Inr ([], obl)"
proof -
  obtain t t' where "BuildTreeFS (ae_layout sample_author) (ae_resolve sample_author) (sample_spec_dir a) = Inr t"
      "BuildTreeFS (ae_layout sample_author) (ae_resolve sample_author) (sample_spec_dir b) = Inr t'"
    using author_dir_tree by metis
  moreover have "no_new sample_author (sample_spec_dir a) (sample_spec_dir b)"
    using sample_clean[of b] by (simp add: no_new_def clean_atoms)
  ultimately show ?thesis using Report_accepts by blast
qed

lemma sample_write:
  "writeChanges sample_author (sample_spec_dir b) (changedPaths (sample_spec_dir a) (sample_spec_dir b)) (sample_spec_dir a) =
     (sample_spec_dir b, None)"
  by (cases a; cases b; simp only:; code_simp)

lemma sample_commit:
  "\<exists>obl. commit sample_author p (sample_spec_dir a) (sample_spec_dir a) (sample_spec_dir b) k =
     k (changedPaths (sample_spec_dir a) (sample_spec_dir b)) obl (sample_spec_dir b)"
  using sample_report[of a b p] by (auto simp: commit_def sample_write)

text \<open>The two edge commands, evaluated up to the commit.\<close>

definition sample_location :: node_location where
  "sample_location = \<lparr>nl_is_module = False, nl_project_scope = True, nl_module_name = [], nl_module_dir = [],
     nl_owner_file = ''project.json'', nl_node_type = sample_requirement_type, nl_name = ''load''\<rparr>"

lemma sample_located:
  "locateNode (sample_spec_dir linked) sample_req_profile ''aaaaaaaaaaaa'' = Inr sample_location"
  "locateNode (sample_spec_dir linked) sample_req_profile ''bbbbbbbbbbbb'' = Inr (sample_location\<lparr>nl_name := ''parse''\<rparr>)"
  by (cases linked; simp only:; code_simp)+

definition sample_field :: field where
  "sample_field = hd (nt_fields sample_requirement_type)"

definition sample_edited :: "bool \<Rightarrow> (raw_entry \<Rightarrow> (raw_entry \<times> string) option) \<Rightarrow> mem_fs option" where
  "sample_edited linked edit =
     (case decode_entries_of (sample_spec_dir linked) ''project.json'' of
        Inl e \<Rightarrow> None
      | Inr d \<Rightarrow>
          (case findEntryMap d ''requirements'' ''aaaaaaaaaaaa'' of
             None \<Rightarrow> None
           | Some e \<Rightarrow>
               (case edit e of
                  None \<Rightarrow> None
                | Some (e', replaced) \<Rightarrow>
                    if replaced = [] then
                      Some (put_doc sample_req_profile ''project.json''
                        (edit_entry d ''requirements'' ''aaaaaaaaaaaa'' (\<lambda>_. e')) (sample_spec_dir linked))
                    else None)))"

lemma sample_edits:
  "sample_edited False (\<lambda>e. setEdgeField e sample_field ''bbbbbbbbbbbb'') = Some (sample_spec_dir True)"
  "sample_edited True (\<lambda>e. map_option (\<lambda>e'. (e', [])) (clearEdgeField e sample_field ''bbbbbbbbbbbb'')) = Some (sample_spec_dir False)"
  by code_simp+

lemma sample_edge_edit:
  assumes "sample_edited linked edit = Some (sample_spec_dir linked')"
  shows "\<exists>r. edge_edit sample_author sample_req_profile (sample_spec_dir linked) sample_location ''aaaaaaaaaaaa'' edit =
    (Written r, sample_spec_dir linked')"
proof -
  obtain d e e' where "decode_entries_of (sample_spec_dir linked) ''project.json'' = Inr d"
      "findEntryMap d ''requirements'' ''aaaaaaaaaaaa'' = Some e" "edit e = Some (e', [])"
      "put_doc sample_req_profile ''project.json'' (edit_entry d ''requirements'' ''aaaaaaaaaaaa'' (\<lambda>_. e')) (sample_spec_dir linked) =
        sample_spec_dir linked'"
    using assms by (auto simp: sample_edited_def split: sum.splits option.splits if_splits)
  moreover have "edgeOwnerFile sample_location = ''project.json''" "edgePluralKey sample_location = ''requirements''"
    by (simp_all add: sample_location_def edgeOwnerFile_def edgePluralKey_def sample_requirement_type_def)
  moreover define k where "k = (\<lambda>w obl disk. (Written \<lparr>wr_written = w, wr_obligations = obl, wr_retired_name = [],
      wr_replaced_target = []\<rparr>, disk :: mem_fs))"
  ultimately have "edge_edit sample_author sample_req_profile (sample_spec_dir linked) sample_location ''aaaaaaaaaaaa'' edit =
      commit sample_author sample_req_profile (sample_spec_dir linked) (sample_spec_dir linked) (sample_spec_dir linked') k"
    by (simp add: edge_edit_def)
  moreover obtain obl where "commit sample_author sample_req_profile (sample_spec_dir linked) (sample_spec_dir linked) (sample_spec_dir linked') k =
      k (changedPaths (sample_spec_dir linked) (sample_spec_dir linked')) obl (sample_spec_dir linked')"
    using sample_commit by blast
  ultimately show ?thesis by (simp add: k_def)
qed

lemma sample_field_found: "edgeField sample_location ''depends_on'' = Some sample_field"
  by code_simp

lemma sample_AddEdge: "\<exists>r. AddEdge sample_author sample_edge (sample_spec_dir False) = (Written r, sample_spec_dir True)"
proof -
  have "edgeTypeName (sample_location\<lparr>nl_name := ''parse''\<rparr>) \<in> set (fld_targets sample_field)" "''depends_on'' \<notin> moduleLocalFields"
    by (simp_all add: edgeTypeName_def sample_location_def sample_field_def sample_requirement_type_def moduleLocalFields_def)
  then show ?thesis
    using sample_edge_edit[OF sample_edits(1)]
    by (simp add: AddEdge_def sample_edge_def sample_author_def[THEN arg_cong[of _ _ ae_resolve], simplified]
        sample_located sample_field_found)
qed

lemma sample_RemoveEdge: "\<exists>r. RemoveEdge sample_author sample_edge (sample_spec_dir True) = (Written r, sample_spec_dir False)"
  using sample_edge_edit[OF sample_edits(2)]
  by (simp add: RemoveEdge_def sample_edge_def sample_author_def[THEN arg_cong[of _ _ ae_resolve], simplified]
      sample_located sample_field_found)

theorem CheckSchema_exact_witness:
  "\<exists>schemas j. compileSchemas (ae_library sample_author) sample_req_profile = Inr schemas \<and>
     file_json (sample_spec_dir True) ''project.json'' = Inr j \<and> cs_project schemas (go_value j) = Valid"
proof -
  have "ae_resolve sample_author (sample_spec_dir True) = Inr sample_req_profile" by (simp add: sample_author_def)
  then show ?thesis
    using sample_schema[of True]
      CheckSchema_exact[of "ae_resolve sample_author" "ae_library sample_author" "sample_spec_dir True"] by auto
qed

end
