(* ===== verification/Author_Run.thy ===== *)
theory Author_Run
  imports Author_Sample
begin

text \<open>
  Sequences of authoring commands on one directory. Every command meets one interface: from a sound
  disk it either leaves the disk alone, fails in the file system with each file as it was or as the gate
  accepted it, or writes a state the gate accepted. Scaffolding around missing leaves has a contract of its own.
\<close>

subsection \<open>The interface of a gated command\<close>

locale gated_command =
  fixes env :: author_env and run :: "mem_fs \<Rightarrow> outcome \<times> mem_fs" and guard :: "mem_fs \<Rightarrow> bool"
  assumes gated: "disk_ok d \<Longrightarrow> guard d \<Longrightarrow> gated env d (run d)"
begin

lemma refused_unchanged: "disk_ok d \<Longrightarrow> guard d \<Longrightarrow> run d = (Refused rs, d') \<Longrightarrow> d' = d"
  using gated[of d] gated_refused by metis

lemma errored_unchanged:
  "disk_ok d \<Longrightarrow> guard d \<Longrightarrow> run d = (Errored e, d') \<Longrightarrow> \<not> io_failure (Errored e) \<Longrightarrow> d' = d"
  using gated[of d] by (auto simp: gated_def)

lemma failed_between:
  "disk_ok d \<Longrightarrow> guard d \<Longrightarrow> run d = (out, d') \<Longrightarrow> io_failure out \<Longrightarrow> \<exists>after. no_new env d after \<and> between d after d'"
  using gated[of d] gated_failed by metis

lemma result_ok: "disk_ok d \<Longrightarrow> guard d \<Longrightarrow> run d = (out, d') \<Longrightarrow> \<not> io_failure out \<Longrightarrow> disk_ok d'"
  using gated[of d] gated_result(1) by metis

lemma result_no_new: "disk_ok d \<Longrightarrow> guard d \<Longrightarrow> run d = (out, d') \<Longrightarrow> \<not> io_failure out \<Longrightarrow> no_new env d d'"
  using gated[of d] gated_result(2) by metis

end

interpretation add: gated_command env "Add env inp" "\<lambda>_. True" for env inp
  by unfold_locales (rule Add_gated)

interpretation set_node: gated_command env "SetNode env inp" "\<lambda>_. True" for env inp
  by unfold_locales (rule SetNode_gated)

interpretation rename: gated_command env "Rename env inp" "\<lambda>_. True" for env inp
  by unfold_locales (rule Rename_gated)

interpretation add_edge: gated_command env "AddEdge env inp" "\<lambda>_. True" for env inp
  by unfold_locales (rule AddEdge_gated)

interpretation remove_edge: gated_command env "RemoveEdge env inp" "\<lambda>_. True" for env inp
  by unfold_locales (rule RemoveEdge_gated)

interpretation remove: gated_command env "Remove env inp" "\<lambda>_. \<not> ri_force inp" for env inp
  by unfold_locales (rule Remove_gated)

subsection \<open>Scaffolding\<close>

text \<open>
  \<open>Scaffold\<close> checks the directory with its missing leaves filled in. Where none is missing that is the
  directory itself, and the command is gated like the others.
\<close>

definition leaves_present :: "author_env \<Rightarrow> mem_fs \<Rightarrow> bool" where
  "leaves_present env d \<longleftrightarrow> (case ae_resolve env d of Inl e \<Rightarrow> True | Inr p \<Rightarrow> patchMissingLeaves d p = d)"

lemma scaffold_write_gated [gate_intros]: "disk_ok d \<Longrightarrow> gated env d (scaffold_write env p d d path skeleton)"
  unfolding scaffold_write_def Let_def by (rule gated_commit_all) auto

lemma Scaffold_gated: "disk_ok d \<Longrightarrow> leaves_present env d \<Longrightarrow> gated env d (Scaffold env i d)"
  by (auto simp: Scaffold_def leaves_present_def Let_def intro!: gate_intros
      split: sum.split author_error.split option.split)

interpretation scaffold: gated_command env "Scaffold env i" "leaves_present env" for env i
  by unfold_locales (rule Scaffold_gated)

text \<open>
  Around missing leaves the command checks the directory with those leaves as empty files, and writes into the
  directory as it is. The gate then compares the two completed directories: a checker that could not run on the
  incomplete directory may find more in it once the last leaf is there.
\<close>

lemma patch_leaf_map: "go_map m \<Longrightarrow> go_map (patch_leaf path m)"
  by (simp add: patch_leaf_def)

lemma patch_leaf_lookup: "go_map m \<Longrightarrow> map_of (patch_leaf path m) k = map_of m k \<or> map_of m k = None \<and> map_of (patch_leaf path m) k = Some (Text [])"
  by (simp add: patch_leaf_def)

definition completes :: "mem_fs \<Rightarrow> mem_fs \<Rightarrow> bool" where
  "completes m m' \<longleftrightarrow> go_map m' \<and>
     (\<forall>k. map_of m' k = map_of m k \<or> map_of m k = None \<and> map_of m' k = Some (Text []))"

lemma completes_refl: "go_map m \<Longrightarrow> completes m m"
  by (simp add: completes_def)

lemma completes_trans: "completes a b \<Longrightarrow> completes b c \<Longrightarrow> completes a c"
  unfolding completes_def by metis

lemma completes_leaf: "go_map m \<Longrightarrow> completes m (patch_leaf path m)"
  using patch_leaf_map patch_leaf_lookup by (simp add: completes_def)

lemma completes_fold:
  assumes "\<And>x m. go_map m \<Longrightarrow> completes m (f x m)" and "go_map m"
  shows "completes m (fold f xs m)"
  using assms(2)
proof (induction xs arbitrary: m)
  case (Cons x xs)
  have one: "completes m (f x m)" by (rule assms(1)[OF Cons.prems])
  then have "go_map (f x m)" by (simp add: completes_def)
  then show ?case using Cons.IH completes_trans[OF one] by simp
qed (simp add: completes_refl)

lemma patchMissingLeaves_completes: "go_map m \<Longrightarrow> completes m (patchMissingLeaves m p)"
proof -
  have "go_map m' \<Longrightarrow> completes m' (patch_document p key m')" for key m'
    by (auto simp: patch_document_def completes_refl intro!: completes_fold completes_leaf split: sum.split)
  then show "go_map m \<Longrightarrow> completes m (patchMissingLeaves m p)"
    by (auto simp: patchMissingLeaves_def completes_refl intro!: completes_fold split: sum.split)
qed

text \<open>What a scaffold writes: one leaf that was missing or empty, with a text the completed directory can take.\<close>

definition scaffolded :: "author_env \<Rightarrow> profile \<Rightarrow> mem_fs \<Rightarrow> mem_fs \<Rightarrow> bool" where
  "scaffolded env p d d' \<longleftrightarrow>
     (\<exists>path text. (\<forall>f. map_of d path = Some f \<longrightarrow> empty_file f) \<and> d' = gput path (Text text) d \<and>
        no_new env (patchMissingLeaves d p) (gput path (Text text) (patchMissingLeaves d p)))"

lemma buildSkeleton_not_Nil: "buildSkeleton name sections edges \<noteq> []"
  by (simp add: buildSkeleton_def)

lemma scaffold_write_scaffolded:
  assumes w: "scaffold_write env p d (patchMissingLeaves d p) path text = (Written r, d')" and ok: "disk_ok d"
    and free: "\<forall>f. map_of (patchMissingLeaves d p) path = Some f \<longrightarrow> empty_file f" and full: "text \<noteq> []"
  shows "scaffolded env p d d'"
proof -
  let ?m = "patchMissingLeaves d p"
  let ?after = "gput path (Text text) ?m"
  have c: "completes d ?m" using ok by (intro patchMissingLeaves_completes) simp
  then have map: "go_map ?m" "go_map ?after" by (simp_all add: completes_def)
  have changed: "set (changedPaths ?m ?after) = {path}"
    using changedPaths_iff[OF map(2), of _ ?m] free full map(1) by (auto simp: empty_file_def split: if_splits)
  obtain disk where wr: "writeChanges env ?after (changedPaths ?m ?after) d = (disk, None)" "d' = disk"
      and nn: "no_new env ?m ?after"
  proof (cases rule: commit_cases[of env p d ?m ?after "\<lambda>written obligations disk'.
      (Written (empty_report\<lparr>wr_written := written, wr_obligations := obligations @
         validatorObligations (patchedContentFindings env ?after (gput path (Text text) d))\<rparr>), disk')"])
    case (written obl disk)
    then show ?thesis using that w by (simp add: scaffold_write_def Let_def)
  qed (use w in \<open>simp_all add: scaffold_write_def Let_def\<close>)
  have "d' = gput path (Text text) d"
  proof (rule go_map_eqI)
    note res = writeChanges_map[OF wr(1)]
    show "go_map d'" using res ok map(1) changed wr(2) by simp
    show "map_of d' = map_of (gput path (Text text) d)"
    proof
      fix k show "map_of d' k = map_of (gput path (Text text) d) k"
        using res[of k] ok map(1) changed wr(2) by simp
    qed
  qed (use ok in simp)
  moreover have "\<forall>f. map_of d path = Some f \<longrightarrow> empty_file f" using free c unfolding completes_def by (metis option.distinct(1))
  ultimately show ?thesis unfolding scaffolded_def using nn by blast
qed

lemma Scaffold_scaffolded:
  assumes "Scaffold env i d = (Written r, d')" and "disk_ok d" and "ae_resolve env d = Inr p"
  shows "d' = d \<or> scaffolded env p d d'"
  using assms(1,3) scaffold_write_scaffolded[OF _ assms(2), of env p _ "buildSkeleton _ _ _", OF _ _ buildSkeleton_not_Nil]
  by (auto simp: Scaffold_def Let_def split: sum.splits author_error.splits option.splits if_splits)

lemma Scaffold_keeps:
  assumes "Scaffold env i d = (out, d')" and "disk_ok d" and "\<forall>r. out \<noteq> Written r" and "\<not> io_failure out"
  shows "d' = d"
proof -
  have "scaffold_write env p d m path body = (out, d') \<Longrightarrow> d' = d" for p m path body
    unfolding scaffold_write_def Let_def
    by (cases rule: commit_cases[of env p d m "gput path (Text body) m" "\<lambda>written obligations disk'.
      (Written (empty_report\<lparr>wr_written := written, wr_obligations := obligations @
         validatorObligations (patchedContentFindings env (gput path (Text body) m) (gput path (Text body) d))\<rparr>), disk')"])
      (use assms(3,4) in \<open>auto simp: io_failure_def\<close>)
  then show ?thesis using assms(1)
    by (auto simp: Scaffold_def Let_def split: sum.splits author_error.splits option.splits if_splits)
qed

subsection \<open>Runs\<close>

datatype author_command =
    CmdAdd node_add_input
  | CmdRemove node_remove_input
  | CmdSet node_set_input
  | CmdRename rename_input
  | CmdAddEdge edge_input
  | CmdRemoveEdge edge_input
  | CmdScaffold string

fun exec :: "author_env \<Rightarrow> author_command \<Rightarrow> mem_fs \<Rightarrow> outcome \<times> mem_fs" where
  "exec env (CmdAdd inp) d = Add env inp d"
| "exec env (CmdRemove inp) d = Remove env inp d"
| "exec env (CmdSet inp) d = SetNode env inp d"
| "exec env (CmdRename inp) d = Rename env inp d"
| "exec env (CmdAddEdge inp) d = AddEdge env inp d"
| "exec env (CmdRemoveEdge inp) d = RemoveEdge env inp d"
| "exec env (CmdScaffold i) d = Scaffold env i d"

text \<open>The commands that pass the gate as they stand: no forced removal, no scaffolding around missing leaves.\<close>

fun admissible :: "author_env \<Rightarrow> author_command \<Rightarrow> mem_fs \<Rightarrow> bool" where
  "admissible env (CmdRemove inp) d \<longleftrightarrow> \<not> ri_force inp"
| "admissible env (CmdScaffold i) d \<longleftrightarrow> leaves_present env d"
| "admissible env _ d \<longleftrightarrow> True"

inductive author_step :: "author_env \<Rightarrow> mem_fs \<Rightarrow> author_command \<Rightarrow> outcome \<Rightarrow> mem_fs \<Rightarrow> bool" for env where
  perform: "admissible env c d \<Longrightarrow> exec env c d = (out, d') \<Longrightarrow> \<not> io_failure out \<Longrightarrow> author_step env d c out d'"

inductive_cases author_stepE [elim]: "author_step env d c out d'"
inductive_simps author_step_simps: "author_step env d c out d'"

inductive author_run :: "author_env \<Rightarrow> mem_fs \<Rightarrow> mem_fs \<Rightarrow> bool" for env d where
  start: "author_run env d d"
| more: "author_run env d d1 \<Longrightarrow> author_step env d1 c out d2 \<Longrightarrow> author_run env d d2"

lemma step_gated: "disk_ok d \<Longrightarrow> admissible env c d \<Longrightarrow> gated env d (exec env c d)"
  by (cases c) (simp_all add: add.gated set_node.gated rename.gated add_edge.gated remove_edge.gated remove.gated
      scaffold.gated)

lemma step_result:
  assumes "author_step env d c out d'" and "disk_ok d"
  shows "disk_ok d'" and "no_new env d d'" and "(\<forall>r. out \<noteq> Written r) \<Longrightarrow> d' = d"
proof -
  have g: "gated env d (out, d')" and io: "\<not> io_failure out"
    using assms(1) step_gated[OF assms(2), of env c] by (auto simp: author_step_simps)
  show "disk_ok d'" "no_new env d d'" using gated_result[OF g io assms(2)] by blast+
  show "d' = d" if "\<forall>r. out \<noteq> Written r" using g io that by (auto simp: gated_def)
qed

lemma step_failed:
  assumes "disk_ok d" and "admissible env c d" and "exec env c d = (out, d')" and "io_failure out"
  shows "\<exists>after. no_new env d after \<and> between d after d'"
  using step_gated[OF assms(1,2)] assms(3,4) gated_failed by metis

text \<open>
  C4: no sequence of authoring commands introduces a finding, where no removal is forced, no command fails
  in the file system, and \<open>leaf scaffold\<close> runs only while no declared leaf is missing: whatever the schema,
  id, id derivation, cycle and link checks report about the directory reached, they reported about the one it
  started from, and a clean directory stays clean. From any directory reached, moreover: such a command that refuses
  or fails on its input leaves it as it was; one that fails in the file system leaves each file as it was or as
  it is in a state without new findings; and \<open>leaf scaffold\<close> run while leaves are missing writes nothing but
  one leaf that was missing or empty, and introduces no finding when both directories are completed by empty
  leaves. (Without that completion it may: the write of the last missing leaf lets the link check run.)
\<close>

theorem author_run_gated:
  assumes "author_run env d0 d" and "disk_ok d0"
  shows "disk_ok d \<and> no_new env d0 d \<and> (clean env d0 \<longrightarrow> clean env d) \<and>
    (\<forall>c out d'. author_step env d c out d' \<longrightarrow> (\<forall>r. out \<noteq> Written r) \<longrightarrow> d' = d) \<and>
    (\<forall>c out d'. admissible env c d \<longrightarrow> exec env c d = (out, d') \<longrightarrow> io_failure out \<longrightarrow>
       (\<exists>after. no_new env d after \<and> between d after d')) \<and>
    (\<forall>i out d' p. exec env (CmdScaffold i) d = (out, d') \<longrightarrow> ae_resolve env d = Inr p \<longrightarrow> \<not> io_failure out \<longrightarrow>
       d' = d \<or> (\<exists>r. out = Written r) \<and> scaffolded env p d d')"
proof -
  have "disk_ok d \<and> no_new env d0 d"
    using assms
  proof induction
    case (more d1 c out d2)
    then show ?case using step_result[OF more.hyps(2)] no_new_trans by blast
  qed simp
  then have ok: "disk_ok d" and nn: "no_new env d0 d" by blast+
  have scaffold: "d' = d \<or> (\<exists>r. out = Written r) \<and> scaffolded env p d d'"
    if "exec env (CmdScaffold i) d = (out, d')" "ae_resolve env d = Inr p" "\<not> io_failure out" for i out d' p
    using that Scaffold_scaffolded[OF _ ok] Scaffold_keeps[OF _ ok] by (cases out) auto
  show ?thesis
  proof (intro conjI allI impI)
    show "clean env d0 \<Longrightarrow> clean env d" using nn by (rule no_new_clean)
    show "d' = d" if "author_step env d c out d'" "\<forall>r. out \<noteq> Written r" for c out d'
      using step_result(3)[OF that(1) ok that(2)] .
    show "\<exists>after. no_new env d after \<and> between d after d'"
      if "admissible env c d" "exec env c d = (out, d')" "io_failure out" for c out d'
      by (rule step_failed[OF ok that])
    show "d' = d \<or> (\<exists>r. out = Written r) \<and> scaffolded env p d d'"
      if "exec env (CmdScaffold i) d = (out, d')" "ae_resolve env d = Inr p" "\<not> io_failure out" for i out d' p
      by (rule scaffold[OF that])
  qed (use ok nn in simp_all)
qed

theorem author_run_gated_witness:
  "sample_spec_dir True \<noteq> sample_spec_dir False \<and>
   author_run sample_author (sample_spec_dir False) (sample_spec_dir True) \<and>
   disk_ok (sample_spec_dir True) \<and> no_new sample_author (sample_spec_dir False) (sample_spec_dir True)"
proof -
  obtain r where "AddEdge sample_author sample_edge (sample_spec_dir False) = (Written r, sample_spec_dir True)"
    using sample_AddEdge by blast
  then have "author_step sample_author (sample_spec_dir False) (CmdAddEdge sample_edge) (Written r) (sample_spec_dir True)"
    by (simp add: author_step_simps io_failure_def)
  then have run: "author_run sample_author (sample_spec_dir False) (sample_spec_dir True)"
    using author_run.start author_run.more by meson
  show ?thesis using run author_run_gated[OF run sample_disk_ok] by (simp add: sample_dirs_differ)
qed

end
