(* ===== verification/Author_Effects.thy ===== *)
theory Author_Effects
  imports Author_Sample
begin

text \<open>
  What an authoring command that succeeds has done: which document it wrote, what the document now says,
  and what it left alone.
\<close>

subsection \<open>Documents after an edit\<close>

lemma json_doc_iff:
  "json_ok (JObject d) \<longleftrightarrow> go_map d \<and> (\<forall>k v. map_of d k = Some v \<longrightarrow> json_ok v)"
proof
  assume "json_ok (JObject d)"
  then show "go_map d \<and> (\<forall>k v. map_of d k = Some v \<longrightarrow> json_ok v)"
    by (auto simp: list_all_iff dest!: map_of_SomeD)
next
  assume a: "go_map d \<and> (\<forall>k v. map_of d k = Some v \<longrightarrow> json_ok v)"
  then have "json_ok v" if "(k, v) \<in> set d" for k v
    using that go_map_distinct[of d] by (metis map_of_eq_Some_iff)
  then show "json_ok (JObject d)" using a by (auto simp: list_all_iff)
qed

lemma json_doc_map [simp]: "json_ok (JObject d) \<Longrightarrow> go_map d"
  by (simp add: json_doc_iff)

lemma json_doc_gput: "json_ok (JObject d) \<Longrightarrow> json_ok v \<Longrightarrow> json_ok (JObject (gput k v d))"
  unfolding json_doc_iff by auto

lemma json_doc_gdel: "json_ok (JObject d) \<Longrightarrow> json_ok (JObject (gdel k d))"
  unfolding json_doc_iff by auto

lemma json_doc_array: "json_ok (JObject d) \<Longrightarrow> doc_array d k = Some xs \<Longrightarrow> list_all json_ok xs"
  unfolding json_doc_iff by (fastforce simp: doc_array_def list_all_iff split: option.splits json.splits)

lemma json_doc_edit:
  assumes "json_ok (JObject d)" and "findEntryMap d k i = Some e" and "json_ok (JObject e')"
  shows "json_ok (JObject (edit_entry d k i (\<lambda>_. e')))"
proof (cases "doc_array d k")
  case None
  then show ?thesis using assms(1) by (simp add: edit_entry_def)
next
  case (Some arr)
  let ?g = "\<lambda>item. case item of JObject e \<Rightarrow> JObject e' | _ \<Rightarrow> item"
  have "list_all json_ok (replace_first P ?g arr)" if "list_all json_ok arr" for P
    using that assms(3) by (induction arr) (auto split: json.split)
  then have "json_ok (JArray (replace_first (entry_with i) ?g arr))"
    using json_doc_array[OF assms(1) Some] by (simp add: list_all_iff)
  then show ?thesis unfolding edit_entry_def Some option.case by (rule json_doc_gput[OF assms(1)])
qed

lemma decode_entries_ok: "decode_entries_of m key = Inr d \<Longrightarrow> json_ok (JObject d)"
proof -
  assume "decode_entries_of m key = Inr d"
  then obtain g where "decodeDoc m key = Inr g" "d = doc_entries g"
    by (auto simp: decode_entries_of_def loop_simps)
  then show "json_ok (JObject d)" using decodeDoc_ok[of m key] by (cases g) (auto simp: doc_entries_def go_map_def)
qed

lemma put_doc_decodes:
  assumes "json_ok (JObject d)" and "go_map m"
  shows "decode_entries_of (put_doc p key d m) key = Inr d"
  using canonicalizeDoc_decodes[OF assms(1), of key "Some p"] assms(2)
  by (simp add: decode_entries_of_def decodeDoc_def file_json_def ReadFile_def doc_entries_def)

lemma entry_ok: "json_ok (JObject d) \<Longrightarrow> findEntryMap d k i = Some e \<Longrightarrow> json_ok (JObject e)"
proof -
  assume d: "json_ok (JObject d)" and e: "findEntryMap d k i = Some e"
  obtain arr where "doc_array d k = Some arr" "JObject e \<in> set arr" using findEntryMap_Some[OF e] by metis
  then show "json_ok (JObject e)" using json_doc_array[OF d] unfolding list_all_iff by blast
qed

subsection \<open>The edit of one entry\<close>

text \<open>A commit that only reports ends in the state it checked.\<close>

lemma commit_plain_Written:
  assumes "commit env p d d after k = (Written r, d')" and "\<And>w obl disk. \<exists>r. k w obl disk = (Written r, disk)"
    and "disk_ok d" and "go_map after" and "dom (map_of d) \<subseteq> dom (map_of after)"
  shows "d' = after" and "\<exists>obl. k (changedPaths d after) obl after = (Written r, after)" and "no_new env d after"
proof -
  have *: "d' = after \<and> (\<exists>obl. k (changedPaths d after) obl after = (Written r, after)) \<and> no_new env d after"
  proof (cases rule: commit_cases[of env p d d after k])
    case (written obl disk')
    have "disk' = after" by (rule write_all[OF written(4)]) (use assms in simp_all)
    then show ?thesis using written assms(1) assms(2)[of "changedPaths d after" obl after] by fastforce
  qed (use assms(1) in simp_all)
  then show "d' = after" "\<exists>obl. k (changedPaths d after) obl after = (Written r, after)" "no_new env d after" by blast+
qed

lemma edge_edit_Written:
  assumes "edge_edit env p d loc i edit = (Written r, d')" and "disk_ok d"
  obtains (same) doc e where "decode_entries_of d (edgeOwnerFile loc) = Inr doc"
      and "findEntryMap doc (edgePluralKey loc) i = Some e" and "edit e = None" and "d' = d" and "r = empty_report"
    | (edited) doc e e' replaced where "decode_entries_of d (edgeOwnerFile loc) = Inr doc"
      and "findEntryMap doc (edgePluralKey loc) i = Some e" and "edit e = Some (e', replaced)"
      and "d' = put_doc p (edgeOwnerFile loc) (edit_entry doc (edgePluralKey loc) i (\<lambda>_. e')) d"
      and "wr_replaced_target r = replaced" and "no_new env d d'"
proof -
  obtain doc e where doc: "decode_entries_of d (edgeOwnerFile loc) = Inr doc"
      and e: "findEntryMap doc (edgePluralKey loc) i = Some e"
    using assms(1) by (auto simp: edge_edit_def Let_def split: sum.splits option.splits)
  show ?thesis
  proof (cases "edit e")
    case None
    then show ?thesis using that(1)[OF doc e] assms(1) doc e by (simp add: edge_edit_def)
  next
    case (Some r')
    obtain e' replaced where er: "edit e = Some (e', replaced)" using Some by (cases r') auto
    let ?after = "put_doc p (edgeOwnerFile loc) (edit_entry doc (edgePluralKey loc) i (\<lambda>_. e')) d"
    let ?k = "\<lambda>w obl disk. (Written \<lparr>wr_written = w, wr_obligations = obl, wr_retired_name = [],
        wr_replaced_target = replaced\<rparr>, disk)"
    have c: "commit env p d d ?after ?k = (Written r, d')" using assms(1) doc e er by (simp add: edge_edit_def)
    have m: "go_map ?after" "dom (map_of d) \<subseteq> dom (map_of ?after)" using assms(2) by auto
    have ends: "\<And>w obl disk. \<exists>r. ?k w obl disk = (Written r, disk)" by simp
    note res = commit_plain_Written[OF c ends assms(2) m]
    show ?thesis using that(2)[OF doc e er] res by auto
  qed
qed

subsection \<open>Edges\<close>

definition refers :: "raw_entry \<Rightarrow> field \<Rightarrow> string \<Rightarrow> bool" where
  "refers e f target \<longleftrightarrow>
     (if fld_cardinality f = ''one'' then str_field e (fld_name f) = target
      else JString target \<in> set (case doc_array e (fld_name f) of Some xs \<Rightarrow> xs | None \<Rightarrow> []))"

text \<open>The other references of the field, which an edit must keep.\<close>

definition other_refs :: "raw_entry \<Rightarrow> field \<Rightarrow> string \<Rightarrow> json list" where
  "other_refs e f target =
     filter (\<lambda>v. v \<noteq> JString target) (case doc_array e (fld_name f) of Some xs \<Rightarrow> xs | None \<Rightarrow> [])"

lemma setEdgeField_None: "setEdgeField e f target = None \<longleftrightarrow> refers e f target"
  by (auto simp: setEdgeField_def refers_def field_array_def Let_def split: option.split)

lemma setEdgeField_Some:
  assumes "setEdgeField e f target = Some (e', replaced)" and "json_ok (JObject e)"
  shows "refers e' f target" and "json_ok (JObject e')" and "\<forall>k. k \<noteq> fld_name f \<longrightarrow> map_of e' k = map_of e k"
    and "fld_cardinality f = ''one'' \<Longrightarrow> replaced = str_field e (fld_name f)"
    and "fld_cardinality f \<noteq> ''one'' \<Longrightarrow> other_refs e' f target = other_refs e f target"
proof -
  have m: "go_map e" using assms(2) by simp
  show "refers e' f target" "\<forall>k. k \<noteq> fld_name f \<longrightarrow> map_of e' k = map_of e k"
    using assms(1) m
    by (auto simp: setEdgeField_def refers_def field_array_def Let_def doc_array_def str_field_def json_string_def split: if_splits)
  show "json_ok (JObject e')"
    using assms json_doc_array[OF assms(2), of "fld_name f"]
    by (auto simp: setEdgeField_def field_array_def Let_def list_all_iff simp del: json_ok.simps(6)
        intro!: json_doc_gput split: if_splits option.splits)
  show "fld_cardinality f = ''one'' \<Longrightarrow> replaced = str_field e (fld_name f)"
    using assms(1) by (auto simp: setEdgeField_def Let_def split: if_splits)
  show "fld_cardinality f \<noteq> ''one'' \<Longrightarrow> other_refs e' f target = other_refs e f target"
    using assms(1) m
    by (auto simp: setEdgeField_def field_array_def Let_def other_refs_def doc_array_gput split: if_splits option.splits)
qed

lemma clearEdgeField_None: "clearEdgeField e f target = None \<longleftrightarrow> \<not> refers e f target"
  by (auto simp: clearEdgeField_def refers_def field_array_def Let_def split: option.split)

lemma clearEdgeField_Some:
  assumes "clearEdgeField e f target = Some e'" and "json_ok (JObject e)"
  shows "fld_cardinality f = ''one'' \<Longrightarrow> map_of e' (fld_name f) = None" and "fld_cardinality f \<noteq> ''one'' \<Longrightarrow> \<not> refers e' f target"
    and "json_ok (JObject e')" and "\<forall>k. k \<noteq> fld_name f \<longrightarrow> map_of e' k = map_of e k"
    and "fld_cardinality f \<noteq> ''one'' \<Longrightarrow> other_refs e' f target = other_refs e f target"
proof -
  have m: "go_map e" using assms(2) by simp
  show "fld_cardinality f = ''one'' \<Longrightarrow> map_of e' (fld_name f) = None"
    using assms(1) by (auto simp: clearEdgeField_def split: if_splits)
  show "fld_cardinality f \<noteq> ''one'' \<Longrightarrow> \<not> refers e' f target"
    "fld_cardinality f \<noteq> ''one'' \<Longrightarrow> other_refs e' f target = other_refs e f target"
    using assms(1) m
    by (auto simp: clearEdgeField_def refers_def other_refs_def field_array_def Let_def doc_array_def
        split: if_splits option.splits json.splits)
  show "\<forall>k. k \<noteq> fld_name f \<longrightarrow> map_of e' k = map_of e k"
    using assms(1) m by (auto simp: clearEdgeField_def Let_def split: if_splits option.splits)
  show "json_ok (JObject e')"
    using assms json_doc_array[OF assms(2), of "fld_name f"]
    by (auto simp: clearEdgeField_def field_array_def Let_def list_all_iff simp del: json_ok.simps(6)
        intro!: json_doc_gput json_doc_gdel split: if_splits option.splits)
qed

text \<open>The entry an edge command edits.\<close>

definition edge_at :: "author_env \<Rightarrow> edge_input \<Rightarrow> mem_fs \<Rightarrow> node_location \<Rightarrow> field \<Rightarrow> raw_entry \<Rightarrow> raw_entry \<Rightarrow> bool" where
  "edge_at env inp d src f doc e \<longleftrightarrow>
     (\<exists>p. ae_resolve env d = Inr p \<and> locateNode d p (ei_source inp) = Inr src \<and> edgeField src (ei_field inp) = Some f \<and>
          decode_entries_of d (edgeOwnerFile src) = Inr doc \<and>
          findEntryMap doc (edgePluralKey src) (ei_source inp) = Some e)"

text \<open>The document of the node now has the new entry in the place of the old, and no other file changed.\<close>

definition entry_replaced :: "mem_fs \<Rightarrow> mem_fs \<Rightarrow> node_location \<Rightarrow> string \<Rightarrow> raw_entry \<Rightarrow> raw_entry \<Rightarrow> bool" where
  "entry_replaced d d' src i doc e' \<longleftrightarrow>
     decode_entries_of d' (edgeOwnerFile src) = Inr (edit_entry doc (edgePluralKey src) i (\<lambda>_. e')) \<and>
     (\<forall>k. k \<noteq> edgeOwnerFile src \<longrightarrow> map_of d' k = map_of d k)"

lemma edge_edit_replaced:
  assumes "decode_entries_of d (edgeOwnerFile loc) = Inr doc" and "findEntryMap doc (edgePluralKey loc) i = Some e"
    and "json_ok (JObject e')" and "disk_ok d"
    and "d' = put_doc p (edgeOwnerFile loc) (edit_entry doc (edgePluralKey loc) i (\<lambda>_. e')) d"
  shows "entry_replaced d d' loc i doc e'"
  using put_doc_decodes[OF json_doc_edit[OF decode_entries_ok[OF assms(1)] assms(2,3)], of d p] assms(4,5)
  by (simp add: entry_replaced_def)

text \<open>
  C13: an edge command that reports success has done exactly what it says. \<open>edge add\<close> finds the target, of
  a type the field permits; if the reference is there already nothing is written, otherwise the entry
  gains it, keeps every other field and every other reference of the field, no other file changes, and
  no finding is introduced.
\<close>

theorem AddEdge_exact:
  assumes "AddEdge env inp d = (Written r, d')" and "disk_ok d"
  shows "\<exists>src f doc e. edge_at env inp d src f doc e \<and>
    (\<exists>p tgt. ae_resolve env d = Inr p \<and> locateNode d p (ei_target inp) = Inr tgt \<and> edgeTypeName tgt \<in> set (fld_targets f) \<and>
       (ei_field inp \<in> moduleLocalFields \<longrightarrow> nl_module_dir tgt = nl_module_dir src)) \<and>
    (if refers e f (ei_target inp) then d' = d \<and> r = empty_report
     else \<exists>e'. entry_replaced d d' src (ei_source inp) doc e' \<and> refers e' f (ei_target inp) \<and>
            (\<forall>k. k \<noteq> fld_name f \<longrightarrow> map_of e' k = map_of e k) \<and>
            (fld_cardinality f \<noteq> ''one'' \<longrightarrow> other_refs e' f (ei_target inp) = other_refs e f (ei_target inp)) \<and>
            (fld_cardinality f = ''one'' \<longrightarrow> wr_replaced_target r = str_field e (fld_name f)) \<and> no_new env d d')"
proof -
  obtain p src f tgt where parts: "ae_resolve env d = Inr p" "locateNode d p (ei_source inp) = Inr src"
      "edgeField src (ei_field inp) = Some f" "locateNode d p (ei_target inp) = Inr tgt"
      "edgeTypeName tgt \<in> set (fld_targets f)"
      "ei_field inp \<in> moduleLocalFields \<longrightarrow> nl_module_dir tgt = nl_module_dir src"
    and ed: "edge_edit env p d src (ei_source inp) (\<lambda>e. setEdgeField e f (ei_target inp)) = (Written r, d')"
    using assms(1) by (auto simp: AddEdge_def split: sum.splits option.splits if_splits)
  show ?thesis
  proof (cases rule: edge_edit_Written[OF ed assms(2), case_names same edited])
    case (same doc e)
    then show ?thesis using parts setEdgeField_None[of e f "ei_target inp"]
      by (intro exI[of _ src] exI[of _ f] exI[of _ doc] exI[of _ e]) (auto simp: edge_at_def)
  next
    case (edited doc e e' replaced)
    have ok: "json_ok (JObject e)" by (rule entry_ok[OF decode_entries_ok[OF edited(1)] edited(2)])
    note s = setEdgeField_Some[OF edited(3) ok]
    have "entry_replaced d d' src (ei_source inp) doc e'"
      by (rule edge_edit_replaced[OF edited(1,2) s(2) assms(2) edited(4)])
    moreover have "\<not> refers e f (ei_target inp)" using setEdgeField_None[of e f "ei_target inp"] edited(3) by simp
    ultimately show ?thesis using parts s edited
      by (intro exI[of _ src] exI[of _ f] exI[of _ doc] exI[of _ e]) (auto simp: edge_at_def simp del: json_ok.simps)
  qed
qed

text \<open>
  C16: \<open>edge remove\<close> that reports success leaves the entry without the reference, with every other field and
  every other reference of the field as they were, and no other file changed; where the reference was not
  there nothing is written. It may be refused, but never for a finding that was there before.
\<close>

theorem RemoveEdge_exact:
  assumes "RemoveEdge env inp d = (Written r, d')" and "disk_ok d"
  shows "\<exists>src f doc e. edge_at env inp d src f doc e \<and>
    (if \<not> refers e f (ei_target inp) then d' = d \<and> r = empty_report
     else \<exists>e'. entry_replaced d d' src (ei_source inp) doc e' \<and>
            (if fld_cardinality f = ''one'' then map_of e' (fld_name f) = None
             else \<not> refers e' f (ei_target inp) \<and> other_refs e' f (ei_target inp) = other_refs e f (ei_target inp)) \<and>
            (\<forall>k. k \<noteq> fld_name f \<longrightarrow> map_of e' k = map_of e k) \<and> no_new env d d')"
proof -
  obtain p src f where parts: "ae_resolve env d = Inr p" "locateNode d p (ei_source inp) = Inr src"
      "edgeField src (ei_field inp) = Some f"
    and ed: "edge_edit env p d src (ei_source inp) (\<lambda>e. map_option (\<lambda>e'. (e', [])) (clearEdgeField e f (ei_target inp))) =
      (Written r, d')"
    using assms(1) by (auto simp: RemoveEdge_def split: sum.splits option.splits)
  show ?thesis
  proof (cases rule: edge_edit_Written[OF ed assms(2), case_names same edited])
    case (same doc e)
    then show ?thesis using parts clearEdgeField_None[of e f "ei_target inp"]
      by (intro exI[of _ src] exI[of _ f] exI[of _ doc] exI[of _ e]) (auto simp: edge_at_def)
  next
    case (edited doc e e' replaced)
    have ok: "json_ok (JObject e)" by (rule entry_ok[OF decode_entries_ok[OF edited(1)] edited(2)])
    have c: "clearEdgeField e f (ei_target inp) = Some e'" using edited(3) by auto
    note s = clearEdgeField_Some[OF c ok]
    have "entry_replaced d d' src (ei_source inp) doc e'"
      by (rule edge_edit_replaced[OF edited(1,2) s(3) assms(2) edited(4)])
    moreover have "refers e f (ei_target inp)" using clearEdgeField_None[of e f "ei_target inp"] c by simp
    ultimately show ?thesis using parts s edited
      by (intro exI[of _ src] exI[of _ f] exI[of _ doc] exI[of _ e]) (auto simp: edge_at_def simp del: json_ok.simps)
  qed
qed

theorem AddEdge_exact_witness:
  "\<exists>src f doc e e'. edge_at sample_author sample_edge (sample_spec_dir False) src f doc e \<and>
     entry_replaced (sample_spec_dir False) (sample_spec_dir True) src (ei_source sample_edge) doc e' \<and>
     refers e' f (ei_target sample_edge)"
proof -
  obtain r where "AddEdge sample_author sample_edge (sample_spec_dir False) = (Written r, sample_spec_dir True)"
    using sample_AddEdge by blast
  from AddEdge_exact[OF this sample_disk_ok] show ?thesis
    using sample_dirs_differ by (auto split: if_splits)
qed

theorem RemoveEdge_exact_witness:
  "\<exists>src f doc e e'. edge_at sample_author sample_edge (sample_spec_dir True) src f doc e \<and>
     entry_replaced (sample_spec_dir True) (sample_spec_dir False) src (ei_source sample_edge) doc e'"
proof -
  obtain r where "RemoveEdge sample_author sample_edge (sample_spec_dir True) = (Written r, sample_spec_dir False)"
    using sample_RemoveEdge by blast
  from RemoveEdge_exact[OF this sample_disk_ok] show ?thesis
    using sample_dirs_differ by (auto split: if_splits)
qed

subsection \<open>Forced removal\<close>

lemma removeEntry_gone: "json_ok (JObject d) \<Longrightarrow> findEntryMap (removeEntry d k i) k i = None"
proof -
  assume "json_ok (JObject d)"
  then have m: "go_map d" by (rule json_doc_map)
  have "find P (filter (\<lambda>x. \<not> P x) xs) = None" for P and xs :: "json list" by (induction xs) auto
  then show ?thesis
    using m by (auto simp: findEntryMap_def removeEntry_def doc_array_gput split: option.splits)
qed

lemma json_doc_remove: "json_ok (JObject d) \<Longrightarrow> json_ok (JObject (removeEntry d k i))"
proof -
  assume d: "json_ok (JObject d)"
  have "json_ok (JArray (filter P arr))" if "doc_array d k = Some arr" for P arr
    using json_doc_array[OF d that] by (simp add: list_all_iff)
  then show ?thesis unfolding removeEntry_def using d by (auto intro: json_doc_gput simp del: json_ok.simps split: option.split)
qed

text \<open>The content leaf of an entry of a document, for a type that has one.\<close>

definition entry_leaf :: "node_location \<Rightarrow> raw_entry \<Rightarrow> string \<Rightarrow> string" where
  "entry_leaf loc doc i =
     filepath_Join [nl_module_dir loc,
       case findEntryMap doc (nt_plural_key (nl_node_type loc)) i of None \<Rightarrow> [] | Some e \<Rightarrow> str_field e ''content'']"

lemma remove_after_leaf:
  "remove_after p d loc i doc =
     (let kept = put_doc p (nl_owner_file loc) (removeEntry doc (nt_plural_key (nl_node_type loc)) i) d
      in if nt_requires_content (nl_node_type loc) then (entry_leaf loc doc i, gdel (entry_leaf loc doc i) kept) else ([], kept))"
  by (auto simp: remove_after_def entry_leaf_def Let_def findEntryField_def split: option.split)

text \<open>
  C17: a forced removal that reports success has removed the entry from its document and, where the type of
  the node has content, the leaf the entry named from the directory; it touched no other file, and it lists
  among its obligations every finding of the schema, id, derivation, cycle and link checks that it introduced:
  nothing it breaks goes unreported. (An entry could name its own document as its leaf, which is then gone.)
\<close>

theorem forced_remove_accounts:
  assumes "Remove env inp d = (Written r, d')" and "disk_ok d" and "ri_force inp"
  shows "\<exists>p loc doc. ae_resolve env d = Inr p \<and> locateNode d p (ri_id inp) = Inr loc \<and> \<not> nl_is_module loc \<and>
    decode_entries_of d (nl_owner_file loc) = Inr doc \<and>
    (let leaves = (if nt_requires_content (nl_node_type loc) then {entry_leaf loc doc (ri_id inp)} else {})
     in (nl_owner_file loc \<notin> leaves \<longrightarrow> (\<exists>doc'. decode_entries_of d' (nl_owner_file loc) = Inr doc' \<and>
           findEntryMap doc' (nt_plural_key (nl_node_type loc)) (ri_id inp) = None)) \<and>
        (\<forall>k \<in> leaves. map_of d' k = None) \<and>
        (\<forall>k. k \<noteq> nl_owner_file loc \<longrightarrow> k \<notin> leaves \<longrightarrow> map_of d' k = map_of d k)) \<and>
    (\<forall>e \<in> set (introducedFindings env d d').
       \<lparr>de_type = ve_check e, de_message = Finding (ve_message e), de_path = ve_path e, de_related = []\<rparr> \<in> set (wr_obligations r))"
proof -
  obtain p loc doc where parts: "ae_resolve env d = Inr p" "locateNode d p (ri_id inp) = Inr loc" "\<not> nl_is_module loc"
      and doc: "decode_entries_of d (nl_owner_file loc) = Inr doc"
    using assms(1) by (auto simp: Remove_def split: sum.splits if_splits)
  obtain contentPath after where ra: "remove_after p d loc (ri_id inp) doc = (contentPath, after)"
    by (cases "remove_after p d loc (ri_id inp) doc")
  have f: "force_remove env p d after (finishRemove env contentPath loc) = (Written r, d')"
    using assms(1,3) parts doc ra by (simp add: Remove_def)
  obtain comp disk where w: "writeChanges env after (changedPaths d after) d = (disk, None)"
      and fin: "finishRemove env contentPath loc (changedPaths d after)
        (comp @ validatorObligations (nonRefusalCheckers env after) @ validatorObligations (introducedFindings env d after)) disk =
        (Written r, d')"
    using f by (auto simp: force_remove_def Let_def split: sum.splits prod.splits option.splits)
  have st: "contentPath = [] \<and> disk = after \<or> contentPath \<noteq> [] \<and> gdel contentPath disk = after \<and> go_map disk"
    using remove_after_state[OF assms(2) ra w] by blast
  have d': "d' = after"
    using finishRemove_ends[OF st, of env loc "changedPaths d after"
        "comp @ validatorObligations (nonRefusalCheckers env after) @ validatorObligations (introducedFindings env d after)"] fin
    by (auto simp: io_failure_def)
  have obl: "set (validatorObligations (introducedFindings env d after)) \<subseteq> set (wr_obligations r)"
    using fin by (auto simp: finishRemove_def Let_def split: if_splits prod.splits removal.splits)
  define kept where "kept = put_doc p (nl_owner_file loc) (removeEntry doc (nt_plural_key (nl_node_type loc)) (ri_id inp)) d"
  have kept: "go_map kept" "\<forall>k. k \<noteq> nl_owner_file loc \<longrightarrow> map_of kept k = map_of d k"
    using assms(2) by (simp_all add: kept_def)
  let ?leaf = "entry_leaf loc doc (ri_id inp)" and ?content = "nt_requires_content (nl_node_type loc)"
  have after: "after = (if ?content then gdel ?leaf kept else kept)"
    using ra by (auto simp: remove_after_leaf kept_def Let_def split: if_splits)
  have ok: "json_ok (JObject doc)" by (rule decode_entries_ok[OF doc])
  have dec: "decode_entries_of kept (nl_owner_file loc) = Inr (removeEntry doc (nt_plural_key (nl_node_type loc)) (ri_id inp))"
    unfolding kept_def by (rule put_doc_decodes[OF json_doc_remove[OF ok]]) (use assms(2) in simp)
  have "decode_entries_of after (nl_owner_file loc) = decode_entries_of kept (nl_owner_file loc)"
    if "?content \<longrightarrow> nl_owner_file loc \<noteq> ?leaf"
    using that kept(1) by (simp add: after decode_entries_of_def decodeDoc_def file_json_def ReadFile_def)
  then have "\<exists>doc'. decode_entries_of after (nl_owner_file loc) = Inr doc' \<and>
      findEntryMap doc' (nt_plural_key (nl_node_type loc)) (ri_id inp) = None"
    if "?content \<longrightarrow> nl_owner_file loc \<noteq> ?leaf" using that dec removeEntry_gone[OF ok] by simp
  moreover have "map_of after ?leaf = None" if ?content using that kept(1) by (simp add: after)
  moreover have "map_of after k = map_of d k" if "k \<noteq> nl_owner_file loc" "?content \<longrightarrow> k \<noteq> ?leaf" for k
    using that kept by (simp add: after)
  ultimately show ?thesis
    using parts doc d' obl
    by (intro exI[of _ p] exI[of _ loc] exI[of _ doc]) (auto simp: validatorObligations_def Let_def)
qed

text \<open>The requirement that another depends on, removed by force with its leaf.\<close>

definition sample_removal :: node_remove_input where
  "sample_removal = \<lparr>ri_id = ''bbbbbbbbbbbb'', ri_force = True\<rparr>"

definition sample_pruned :: mem_fs where
  "sample_pruned =
     [(''load.md'', Text ''# load''),
      (''project.json'', Doc (JObject [(''name'', JString ''demo''),
         (''requirements'', JArray [sample_req ''aaaaaaaaaaaa'' ''load'' [(''depends_on'', JArray [JString ''bbbbbbbbbbbb''])]]),
         (''modules'', JArray [])]))]"

lemma sample_pruned_dir: "project_only sample_pruned"
  by code_simp

lemma sample_pruned_dangles: "CheckIDsFS (spec_view (ae_resolve sample_author) sample_pruned) \<noteq> [] \<or>
    dag_findings (spec_view (ae_resolve sample_author) sample_pruned) \<noteq> []"
  by code_simp

lemma sample_removal_after:
  "case decode_entries_of (sample_spec_dir True) ''project.json'' of Inl e \<Rightarrow> False
   | Inr d \<Rightarrow> remove_after sample_req_profile (sample_spec_dir True) (sample_location\<lparr>nl_name := ''parse''\<rparr>) ''bbbbbbbbbbbb'' d =
       (''parse.md'', sample_pruned)"
  by code_simp

lemma sample_removal_write:
  "\<exists>disk. writeChanges sample_author sample_pruned (changedPaths (sample_spec_dir True) sample_pruned) (sample_spec_dir True) =
     (disk, None) \<and> os_Remove sample_author ''parse.md'' disk = (sample_pruned, RemovedFile)"
proof -
  have "case writeChanges sample_author sample_pruned (changedPaths (sample_spec_dir True) sample_pruned) (sample_spec_dir True) of
      (disk, None) \<Rightarrow> (case os_Remove sample_author ''parse.md'' disk of (disk', RemovedFile) \<Rightarrow> disk' = sample_pruned | _ \<Rightarrow> False)
    | _ \<Rightarrow> False" by code_simp
  then show ?thesis by (auto split: prod.splits option.splits removal.splits)
qed

lemma sample_Remove: "\<exists>r. Remove sample_author sample_removal (sample_spec_dir True) = (Written r, sample_pruned)"
proof -
  obtain d where d: "decode_entries_of (sample_spec_dir True) ''project.json'' = Inr d"
      "remove_after sample_req_profile (sample_spec_dir True) (sample_location\<lparr>nl_name := ''parse''\<rparr>) ''bbbbbbbbbbbb'' d =
        (''parse.md'', sample_pruned)"
    using sample_removal_after by (auto split: sum.splits)
  obtain t where "BuildTreeFS (ae_layout sample_author) (ae_resolve sample_author) (sample_spec_dir True) = Inr t"
    using author_dir_tree by blast
  moreover obtain t' where "BuildTreeFS (ae_layout sample_author) (ae_resolve sample_author) sample_pruned = Inr t'"
    using project_only_tree[OF sample_pruned_dir] by blast
  ultimately obtain obl where "completenessObligations sample_author (sample_spec_dir True) sample_pruned sample_req_profile = Inr obl"
    by (auto simp: completenessObligations_def)
  then show ?thesis
    using d sample_located(2)[of True] sample_removal_write
    by (auto simp: Remove_def sample_removal_def sample_author_def[THEN arg_cong[of _ _ ae_resolve], simplified]
        sample_location_def[THEN arg_cong[of _ _ nl_is_module], simplified]
        sample_location_def[THEN arg_cong[of _ _ nl_owner_file], simplified]
        force_remove_def finishRemove_def Let_def)
qed

lemma sample_introduces: "introducedFindings sample_author (sample_spec_dir True) sample_pruned \<noteq> []"
proof -
  have "\<not> clean sample_author sample_pruned"
    using sample_pruned_dangles by (auto simp: clean_def refusalCheckers_def Let_def)
  then show ?thesis using sample_clean[of True] by (simp add: introduced_none clean_atoms)
qed

theorem forced_remove_accounts_witness:
  "\<exists>r e. Remove sample_author sample_removal (sample_spec_dir True) = (Written r, sample_pruned) \<and>
     map_of (sample_spec_dir True) ''parse.md'' \<noteq> None \<and> map_of sample_pruned ''parse.md'' = None \<and>
     e \<in> set (introducedFindings sample_author (sample_spec_dir True) sample_pruned) \<and>
     \<lparr>de_type = ve_check e, de_message = Finding (ve_message e), de_path = ve_path e, de_related = []\<rparr> \<in> set (wr_obligations r)"
proof -
  obtain r where r: "Remove sample_author sample_removal (sample_spec_dir True) = (Written r, sample_pruned)"
    using sample_Remove by blast
  obtain e where e: "e \<in> set (introducedFindings sample_author (sample_spec_dir True) sample_pruned)"
    using sample_introduces by (cases "introducedFindings sample_author (sample_spec_dir True) sample_pruned") auto
  have "ri_force sample_removal" by (simp add: sample_removal_def)
  from forced_remove_accounts[OF r sample_disk_ok this] obtain p loc doc where
    at: "ae_resolve sample_author (sample_spec_dir True) = Inr p"
      "locateNode (sample_spec_dir True) p (ri_id sample_removal) = Inr loc"
      "decode_entries_of (sample_spec_dir True) (nl_owner_file loc) = Inr doc"
    and gone: "\<forall>k \<in> if nt_requires_content (nl_node_type loc) then {entry_leaf loc doc (ri_id sample_removal)} else {}.
      map_of sample_pruned k = None"
    and owed: "\<forall>e \<in> set (introducedFindings sample_author (sample_spec_dir True) sample_pruned).
      \<lparr>de_type = ve_check e, de_message = Finding (ve_message e), de_path = ve_path e, de_related = []\<rparr> \<in> set (wr_obligations r)"
    unfolding Let_def by (elim exE conjE)
  have loc: "loc = sample_location\<lparr>nl_name := ''parse''\<rparr>"
    using at(1,2) sample_located(2)[of True] by (simp add: sample_author_def sample_removal_def)
  have "case decode_entries_of (sample_spec_dir True) ''project.json'' of Inl e \<Rightarrow> False
      | Inr d \<Rightarrow> entry_leaf (sample_location\<lparr>nl_name := ''parse''\<rparr>) d ''bbbbbbbbbbbb'' = ''parse.md''" by code_simp
  then have "entry_leaf loc doc (ri_id sample_removal) = ''parse.md''"
    using at(3) by (simp add: loc sample_location_def sample_removal_def)
  then have "map_of sample_pruned ''parse.md'' = None"
    using gone by (simp add: loc sample_location_def sample_requirement_type_def)
  moreover have "map_of (sample_spec_dir True) ''parse.md'' \<noteq> None" by (simp add: sample_spec_dir_def)
  ultimately show ?thesis using r e owed by blast
qed

end
