(* ===== verification/Spec2Isabelle.thy ===== *)
theory Spec2Isabelle
  imports Profile Merkle_Tree Merkle_Diff Journal Plan_Matcher Plan_Sorter Plan_Classifier Plan_Command Plan_Ingest Ingest_Refresh
    Validator_Coverage Validator_Removed Validator_Links Plan_Validated Author_Canonical Merkle_Completeness Completeness_Rules
    Author_Run Author_Effects Schema_Shipped
begin

text \<open>
  A verification development for Spex Machina, the Go program that keeps a spec directory, its
  merkle snapshot, its task journal and a task tracker in step.

  \<^bold>\<open>The program.\<close> A specification is a directory of JSON documents (\<open>project.json\<close>, one \<open>module.json\<close>
  per module) and markdown leaves. A profile declares its node types. \<open>spex validate\<close> checks it; \<open>spex diff\<close>
  compares its merkle tree with the saved snapshot; \<open>spex plan\<close> turns the changes into a changeset of task
  operations; a tracker executes them and answers with receipts; \<open>spex ingest\<close> writes the outcome to the
  journal and saves the new snapshot. \<open>spex node\<close>, \<open>edge\<close> and \<open>leaf\<close> edit the directory.

  \<^bold>\<open>Theories and sources.\<close> One theory follows one file or a few; definitions keep the names of the Go
  functions, with a lower-case name for a part of a function that is named for the proofs.

  \<^item> \<open>Prelude\<close>, \<open>Sha256\<close>, \<open>Decimal\<close>, \<open>Paths\<close>: strings as byte lists, results, loops, the hash on 32-bit words
    with wrap-around, decimal digits, \<open>path.Clean\<close>, \<open>path.Join\<close> and \<open>path.Dir\<close>.
  \<^item> \<open>Schema\<close> (\<open>schema/schema.go\<close>): the decoded documents and \<open>IdentityHash\<close>; \<open>Profile\<close> (\<open>schema/profile.go\<close>,
    \<open>defaultProfile.json\<close>): validation and resolution; \<open>Schema_Compose\<close> (\<open>schema/project_compose.go\<close>,
    \<open>schema/module_compose.go\<close>): the JSON schemas composed from a profile; \<open>Schema_Shipped\<close>: what they say.
  \<^item> \<open>Spec_Docs\<close>, \<open>Spec_Decode\<close> (\<open>validator/memfs.go\<close>, the struct tags of \<open>schema/schema.go\<close>): a directory in
    memory and the decoding of its documents.
  \<^item> \<open>Merkle_Tree\<close>, \<open>Merkle_Build\<close>, \<open>Merkle_Diff\<close>, \<open>Merkle_Completeness\<close>, \<open>Completeness_Rules\<close> (package \<open>merkle\<close>): hashing, the tree
    of a directory, snapshots, the leaf diff and its classification, the completeness rules.
  \<^item> \<open>Journal\<close>, \<open>Journal_Growth\<close> (\<open>mapping/mapping_store.go\<close>): journal lines, their fold to the current
    pairings, and how the fold moves when lines are appended.
  \<^item> \<open>Plan_Types\<close>, \<open>Plan_Matcher\<close>, \<open>Plan_Classifier\<close>, \<open>Kahn\<close>, \<open>Plan_Sorter\<close>, \<open>Plan_Resolver\<close>, \<open>Plan_Builder\<close>,
    \<open>Plan_Command\<close> (package \<open>plan\<close>, \<open>cmd/spex/plan.go\<close>): the planner, stage by stage, and its command.
  \<^item> \<open>Ingest_Events\<close>, \<open>Ingest_Invariants\<close>, \<open>Ingest_Reconciler\<close>, \<open>Ingest_Refresh\<close> (package \<open>ingest\<close>,
    \<open>cmd/spex/ingest.go\<close>): the journal lines of an operation, the checks of a batch and the append, the
    reconciler, refresh mode. \<open>Ingest_Ledger\<close> is the abstract ledger the reconciler refines, \<open>Ingest_Rerun\<close> its
    accounting and idempotence.
  \<^item> \<open>Validator_Spec\<close>, \<open>Validator_Cycles\<close>, \<open>Validator_Dag\<close>, \<open>Validator_Names\<close>, \<open>Validator_Ids\<close>,
    \<open>Validator_Coverage\<close>, \<open>Validator_Removed\<close>, \<open>Validator_Markdown\<close>, \<open>Validator_Links\<close>, \<open>Validator_Schema\<close>,
    \<open>Validator_Content\<close>, \<open>Validator_Coupled\<close> (package \<open>validator\<close>): one checker each, over a shared loader.
  \<^item> \<open>Author_Canonical\<close>, \<open>Author_Locate\<close>, \<open>Author_Fix\<close>, \<open>Author_Report\<close>, \<open>Author_Edge\<close>, \<open>Author_Leaf\<close>,
    \<open>Author_Node\<close>, \<open>Author_Rename\<close> (package \<open>author\<close>): the canonical layout, the gate every command passes, and
    the commands. \<open>Author_Gate\<close>, \<open>Author_Run\<close> and \<open>Author_Effects\<close> hold their contract; \<open>Author_Sample\<close> a
    directory on which they run.
  \<^item> \<open>Plan_Ingest\<close> and \<open>Plan_Validated\<close>: what spans the components, from a planned label to the event it names
    and from an accepted specification to a plan.

  \<^bold>\<open>State.\<close> The journal is a list of events, the snapshot a record, the directory an association list from
  paths to contents in ascending key order, so that equal directories are equal values. The tracker is not
  state of the program: its answers are the receipts. A command on the directory takes it and returns it with
  an outcome: a report, refusals or an error.

  \<^bold>\<open>What the lemmas show.\<close>

  \<^item> Checkers are exact: each accepts if and only if a condition stated without the checker holds.
  \<^item> The planner emits a permutation in dependency order, refuses exactly the inputs it must, and is never
    refused for a cycle on a specification that passed the checks, has distinct module names and ids, and is under a
    profile that keeps \<open>uses\<close> acyclic; references point backwards, priorities stay in range, absorbed nodes are
    left alone.
  \<^item> The reconciler refines an abstract ledger, counts every operation once, and run again writes nothing.
    Refresh writes the drift and nothing else and leaves none; it is all or nothing but where the snapshot cannot be
    written and the journal cannot be restored.
  \<^item> Trees survive a snapshot; the diff is exact; documents survive canonical layout; profiles survive
    resolution; the composed schemas are the shipped ones under the default profile.
  \<^item> No sequence of unforced authoring commands introduces a finding, as long as no write fails and no skeleton is
    written around missing leaves; what these two do is stated apart. The edge commands change exactly one
    reference; a forced removal drops the entry and its leaf and reports everything it breaks.

  Interfaces are locales, interpreted on the model's own definitions: a stable slice sort, the fold the planner
  reads of the journal, the contract of an authoring command.

  \<^bold>\<open>Recursion and bounds.\<close> Loops are structural or carry a measure. Kahn's loop takes as many steps as there
  are nodes, which is shown to empty the ready list. The loop for a fresh refresh eid tries one candidate more than there
  are eids taken. The search for cycles is a partial function whose return is proved for every graph. The rebuild
  of a snapshot takes one unit of fuel per level: enough fuel exists exactly when every link leads to an entry and
  no cycle is reached, and the depth of a tree is enough for the snapshot of that tree. Hashing is on words of 32 bits and otherwise integers are unbounded, as their values are counters and indices.

  \<^bold>\<open>Conventions.\<close>

  \<^item> JSON text is a parsed value, the members of an object in the order of the text, a number by its literal;
    the layout of a document's text is a function of its value, a parameter where it is hashed. The literal is
    kept where Go decodes into a \<open>float64\<close> (\<open>decodeDoc\<close>); the two agree on the integers below two to the 53.
  \<^item> A message is the value its text prints; a pattern matched against a message is a match on that value. The
    key that joins the parts of a finding is a datatype.
  \<^item> \<open>sort.Slice\<close> is not stable in Go; where keys may tie the model takes the stable order. A loop over a map runs
    in key order.
  \<^item> A directory on disk and one in memory answer alike. A write outside the directory counts as failed; which
    writes and removals the system refuses is a parameter. Replacing a file is one step.
  \<^item> Parameters, with no assumption beyond the one stated where they are used: the third-party JSON schema library,
    Unicode case folding and classes, reading and parsing a file, the clock and the current commit.

  \<^bold>\<open>Not modelled.\<close> Command-line parsing and printing (\<open>cmd/spex\<close>, \<open>cli\<close>), rendering (\<open>render\<close>), release tooling
  (\<open>delivery\<close>, \<open>cmd/gen-manifest\<close>), proposal files (\<open>proposal\<close>), the location of the state directory (\<open>lifecycle\<close>)
  and the printed report of the validator are input and output. The one-time migrations (\<open>author/migrator.go\<close>,
  \<open>mapping/legacy_store.go\<close>) read retired formats. \<open>plan/task_reader.go\<close> is a call of the schema library, and
  \<open>mapping/context_resolver.go\<close> a read-only report of file paths.
\<close>

end
